(* ===== verification/Prelude.thy ===== *)
theory Prelude
  imports Main "HOL-Library.Word" "HOL-Library.List_Lexorder" "HOL-Library.Char_ord"
    "HOL-Library.Multiset"
begin

text \<open>
  Shared vocabulary of the development: Go's result discipline (a value, an error or a
  panic) as a type, the state-passing operations every keeper method is made of, the
  parts of the Go standard library the sources call, and the lemmas that carry the
  component proofs.

  A keeper method that takes a context and returns \<open>(T, error)\<close> becomes a function
  from the state to an outcome and the new state.  The state is returned on the error
  and the panic branch too, because Go does not undo what a method wrote before it
  failed; the reverting of a failed transaction is done by the caller.
\<close>

section \<open>Types of the model\<close>

type_synonym byte = "8 word"
type_synonym bytes = "8 word list"
type_synonym uint8 = "8 word"
type_synonym uint32 = "32 word"
type_synonym uint64 = "64 word"
type_synonym int64 = "64 word"

text \<open>
  The sentinel errors the sources name, plus \<open>Error\<close> for the strings made by
  \<open>errors.New\<close> and \<open>fmt.Errorf\<close> and \<open>ErrExternal\<close> for what a call into a
  package outside the repository returned.
\<close>

datatype error =
    Error string
  | ErrExternal string
  | ErrInvalidSigner
  | ErrValidatorOwnerExists
  | ErrValidatorPubKeyExists
  | ErrValidatorPubKeyTypeNotSupported
  | ErrEmptyDelegatorAddr
  | ErrEmptyValidatorAddr
  | ErrEmptyValidatorPubKey
  | ErrNoHistoricalInfo
  | ErrEmptyDelegationDistInfo
  | ErrInvalidType
  | ErrInvalidRequest string
  | ErrInvalidAddress
  | ErrInvalidCoins
  | ErrUnauthorized
  | ErrUnknownAddress
  | ErrUnpackAny
  | ErrPackAny
  | ErrNotFound
  | ErrInvalidArgument string
  | ErrTxDecode
  | ErrInsufficientFee
  | ErrInvalidPubKey
  | ErrLogic string
  | ErrUnknownExtensionOptions
  | ErrUnknownRequest
  | ErrPanic
  | ErrNoInputs
  | ErrMultipleSenders
  | ErrNoOutputs
  | ErrErc20Transfer
  | ErrErc20Balance
  | ErrErc20TotalSupply
  | ErrInvalidAmount
  | ErrInvalidGasPrice
  | ErrInvalidGasFee
  | ErrInvalidGasCap
  | ErrInvalidChainID
  | ErrInvalidHeight
  | ErrJSONUnmarshal

datatype 'a outcome = Ok 'a | Err error | Panic string

type_synonym ('s, 'a) M = "'s \<Rightarrow> 'a outcome \<times> 's"

named_theorems runs_intro \<open>rules that show an operation returns a value with a property\<close>
named_theorems keeps_intro \<open>rules that show an operation keeps a predicate of the state\<close>

section \<open>Outcomes and operations\<close>

fun is_Ok :: "'a outcome \<Rightarrow> bool" where
  "is_Ok (Ok _) = True"
| "is_Ok _ = False"

fun is_Panic :: "'a outcome \<Rightarrow> bool" where
  "is_Panic (Panic _) = True"
| "is_Panic _ = False"

fun bindO :: "'a outcome \<Rightarrow> ('a \<Rightarrow> 'b outcome) \<Rightarrow> 'b outcome" where
  "bindO (Ok a) f = f a"
| "bindO (Err e) f = Err e"
| "bindO (Panic p) f = Panic p"

definition guardO :: "bool \<Rightarrow> error \<Rightarrow> unit outcome" where
  "guardO b e = (if b then Ok () else Err e)"

definition ret :: "'a \<Rightarrow> ('s, 'a) M" where
  "ret a s = (Ok a, s)"

definition throw :: "error \<Rightarrow> ('s, 'a) M" where
  "throw e s = (Err e, s)"

definition panic :: "string \<Rightarrow> ('s, 'a) M" where
  "panic p s = (Panic p, s)"

definition liftO :: "'a outcome \<Rightarrow> ('s, 'a) M" where
  "liftO r s = (r, s)"

text \<open>\<open>x, err := m(); if err != nil { return err }\<close> followed by the rest of the body.\<close>

definition bindM :: "('s, 'a) M \<Rightarrow> ('a \<Rightarrow> ('s, 'b) M) \<Rightarrow> ('s, 'b) M" where
  "bindM m f s = (case m s of
      (Ok a, t) \<Rightarrow> f a t
    | (Err e, t) \<Rightarrow> (Err e, t)
    | (Panic p, t) \<Rightarrow> (Panic p, t))"

definition thenM :: "('s, 'a) M \<Rightarrow> ('s, 'b) M \<Rightarrow> ('s, 'b) M" where
  "thenM m k = bindM m (\<lambda>_. k)"

text \<open>
  \<open>x, err := m()\<close> where the code goes on to look at \<open>err\<close>: the error becomes a value,
  a panic still unwinds.
\<close>

definition attempt :: "('s, 'a) M \<Rightarrow> ('s, error + 'a) M" where
  "attempt m s = (case m s of
      (Ok a, t) \<Rightarrow> (Ok (Inr a), t)
    | (Err e, t) \<Rightarrow> (Ok (Inl e), t)
    | (Panic p, t) \<Rightarrow> (Panic p, t))"

definition guardM :: "bool \<Rightarrow> error \<Rightarrow> ('s, unit) M" where
  "guardM b e = (if b then ret () else throw e)"

text \<open>\<open>if err != nil { panic(err) }\<close>.\<close>

definition must :: "('s, 'a) M \<Rightarrow> ('s, 'a) M" where
  "must m = bindM (attempt m) (\<lambda>r. case r of Inl _ \<Rightarrow> panic ''err'' | Inr a \<Rightarrow> ret a)"

definition getsM :: "('s \<Rightarrow> 'a) \<Rightarrow> ('s, 'a) M" where
  "getsM f s = (Ok (f s), s)"

definition modifyM :: "('s \<Rightarrow> 's) \<Rightarrow> ('s, unit) M" where
  "modifyM f s = (Ok (), f s)"

text \<open>A \<open>for ... range\<close> loop whose body may return an error: the first error ends it.\<close>

primrec forM :: "'a list \<Rightarrow> ('a \<Rightarrow> ('s, unit) M) \<Rightarrow> ('s, unit) M" where
  "forM [] f = ret ()"
| "forM (x # xs) f = bindM (f x) (\<lambda>_. forM xs f)"

primrec foldM :: "('a \<Rightarrow> 'b \<Rightarrow> ('s, 'b) M) \<Rightarrow> 'a list \<Rightarrow> 'b \<Rightarrow> ('s, 'b) M" where
  "foldM f [] b = ret b"
| "foldM f (x # xs) b = bindM (f x b) (foldM f xs)"

primrec foldO :: "('a \<Rightarrow> 'b \<Rightarrow> 'b outcome) \<Rightarrow> 'a list \<Rightarrow> 'b \<Rightarrow> 'b outcome" where
  "foldO f [] b = Ok b"
| "foldO f (x # xs) b = bindO (f x b) (foldO f xs)"

primrec mapO :: "('a \<Rightarrow> 'b outcome) \<Rightarrow> 'a list \<Rightarrow> 'b list outcome" where
  "mapO f [] = Ok []"
| "mapO f (x # xs) = bindO (f x) (\<lambda>y. bindO (mapO f xs) (\<lambda>ys. Ok (y # ys)))"

text \<open>An operation on one component of the state.\<close>

definition zoomM :: "('t \<Rightarrow> 's) \<Rightarrow> ('s \<Rightarrow> 't \<Rightarrow> 't) \<Rightarrow> ('s, 'a) M \<Rightarrow> ('t, 'a) M" where
  "zoomM get put m t = (let (r, s) = m (get t) in (r, put s t))"

text \<open>\<open>keeps P m\<close>: running \<open>m\<close> from a state with \<open>P\<close> ends, on every branch, in one with \<open>P\<close>.\<close>

definition keeps :: "('s \<Rightarrow> bool) \<Rightarrow> ('s, 'a) M \<Rightarrow> bool" where
  "keeps P m \<longleftrightarrow> (\<forall>s. P s \<longrightarrow> P (snd (m s)))"

text \<open>A failure without the type of the value that was expected.\<close>

definition fail_of :: "'a outcome \<Rightarrow> unit outcome" where
  "fail_of r = (case r of Ok _ \<Rightarrow> Ok () | Err e \<Rightarrow> Err e | Panic p \<Rightarrow> Panic p)"

text \<open>
  \<open>runs F m s Q\<close>: from \<open>s\<close>, \<open>m\<close> returns normally (no error, no panic) and the value and the
  final state have the property \<open>Q\<close>, or it fails in a way that \<open>F\<close> accounts for.
\<close>

definition runs :: "(unit outcome \<Rightarrow> bool) \<Rightarrow> ('s, 'a) M \<Rightarrow> 's \<Rightarrow> ('a \<Rightarrow> 's \<Rightarrow> bool) \<Rightarrow> bool" where
  "runs F m s Q \<longleftrightarrow> (case m s of (Ok a, t) \<Rightarrow> Q a t | (Err e, _) \<Rightarrow> F (Err e) | (Panic p, _) \<Rightarrow> F (Panic p))"

section \<open>The Go standard library\<close>

text \<open>\<open>strings.Split\<close> with a one-character separator.\<close>

primrec split_on :: "char \<Rightarrow> string \<Rightarrow> string list" where
  "split_on c [] = [[]]"
| "split_on c (x # xs) =
     (if x = c then [] # split_on c xs
      else (case split_on c xs of [] \<Rightarrow> [[x]] | w # ws \<Rightarrow> (x # w) # ws))"

text \<open>\<open>strings.HasPrefix\<close>.\<close>

fun has_prefix :: "'a list \<Rightarrow> 'a list \<Rightarrow> bool" where
  "has_prefix xs [] = True"
| "has_prefix [] (y # ys) = False"
| "has_prefix (x # xs) (y # ys) = (x = y \<and> has_prefix xs ys)"

text \<open>
  \<open>for k, v := range m\<close> over a Go map visits the entries in an unspecified order.  The
  order is a parameter of the definitions that do it; all that the language promises is
  that it is a permutation of the entries.
\<close>

definition go_range :: "('e list \<Rightarrow> 'e list) \<Rightarrow> bool" where
  "go_range rng \<longleftrightarrow> (\<forall>xs. mset (rng xs) = mset xs)"

text \<open>A Go map literal built up by assignments \<open>m[k] = v\<close>, as its list of entries.\<close>

primrec gomap_set :: "'k \<Rightarrow> 'v \<Rightarrow> ('k \<times> 'v) list \<Rightarrow> ('k \<times> 'v) list" where
  "gomap_set k v [] = [(k, v)]"
| "gomap_set k v (e # es) = (if fst e = k then (k, v) # es else e # gomap_set k v es)"

definition gomap_delete :: "'k \<Rightarrow> ('k \<times> 'v) list \<Rightarrow> ('k \<times> 'v) list" where
  "gomap_delete k es = filter (\<lambda>e. fst e \<noteq> k) es"

section \<open>Lemmas on outcomes and operations\<close>

lemma bindO_eq_Ok [simp]: "bindO r f = Ok b \<longleftrightarrow> (\<exists>a. r = Ok a \<and> f a = Ok b)"
  by (cases r) auto

lemma guardO_eq_Ok [simp]: "guardO b e = Ok u \<longleftrightarrow> b"
  by (simp add: guardO_def)

lemma guardO_True [simp]: "guardO True e = Ok ()"
  by (simp add: guardO_def)

lemma guardO_False [simp]: "guardO False e = Err e"
  by (simp add: guardO_def)

lemma is_Ok_iff: "is_Ok r \<longleftrightarrow> (\<exists>a. r = Ok a)"
  by (cases r) auto

lemma is_Ok_run: "is_Ok (fst p) \<Longrightarrow> p = (Ok (), snd p)"
  by (cases p) (auto simp: is_Ok_iff)

lemma bindM_ret [simp]: "bindM (ret a) f = f a"
  by (simp add: fun_eq_iff bindM_def ret_def)

lemma bindM_throw [simp]: "bindM (throw e) f = throw e"
  by (simp add: fun_eq_iff bindM_def throw_def)

lemma bindM_panic [simp]: "bindM (panic p) f = panic p"
  by (simp add: fun_eq_iff bindM_def panic_def)

text \<open>The simplifier's normal form of a finished operation is \<open>Pair r\<close>.\<close>

lemma bindM_Pair [simp]:
  "bindM (Pair (Ok a)) f = f a"
  "bindM (Pair (Err e)) f = Pair (Err e)"
  "bindM (Pair (Panic p)) f = Pair (Panic p)"
  by (simp_all add: fun_eq_iff bindM_def)

lemma bindM_assoc: "bindM (bindM m f) g = bindM m (\<lambda>a. bindM (f a) g)"
  by (auto simp: fun_eq_iff bindM_def split: prod.splits outcome.splits)

lemma bindM_Ok: "m s = (Ok a, t) \<Longrightarrow> bindM m f s = f a t"
  by (simp add: bindM_def)

lemma bindM_Err: "m s = (Err e, t) \<Longrightarrow> bindM m f s = (Err e, t)"
  by (simp add: bindM_def)

lemma bindM_Panic: "m s = (Panic p, t) \<Longrightarrow> bindM m f s = (Panic p, t)"
  by (simp add: bindM_def)

lemma bindM_eq_Ok:
  "bindM m f s = (Ok b, u) \<longleftrightarrow> (\<exists>a t. m s = (Ok a, t) \<and> f a t = (Ok b, u))"
  by (auto simp: bindM_def split: prod.splits outcome.splits)

lemma bindM_eq_OkE [elim!]:
  assumes "bindM m f s = (Ok b, u)"
  obtains a t where "m s = (Ok a, t)" and "f a t = (Ok b, u)"
  using assms by (auto simp: bindM_eq_Ok)

lemma thenM_ret [simp]: "thenM (ret a) k = k"
  by (simp add: thenM_def)

lemma thenM_Pair [simp]:
  "thenM (Pair (Ok a)) k = k"
  "thenM (Pair (Err e)) k = Pair (Err e)"
  "thenM (Pair (Panic p)) k = Pair (Panic p)"
  by (simp_all add: thenM_def)

lemma thenM_eq_Ok:
  "thenM m k s = (Ok b, u) \<longleftrightarrow> (\<exists>a t. m s = (Ok a, t) \<and> k t = (Ok b, u))"
  by (simp add: thenM_def bindM_eq_Ok)

lemma thenM_Ok: "m s = (Ok a, t) \<Longrightarrow> thenM m k s = k t"
  by (simp add: thenM_def bindM_def)

lemma thenM_Err: "m s = (Err e, t) \<Longrightarrow> thenM m k s = (Err e, t)"
  by (simp add: thenM_def bindM_def)

lemma ret_apply [simp]: "ret a s = (Ok a, s)"
  by (simp add: ret_def)

lemma throw_apply [simp]: "throw e s = (Err e, s)"
  by (simp add: throw_def)

lemma panic_apply [simp]: "panic p s = (Panic p, s)"
  by (simp add: panic_def)

lemma liftO_apply [simp]: "liftO r s = (r, s)"
  by (simp add: liftO_def)

lemma liftO_Pair [simp]:
  "liftO (Ok a) = Pair (Ok a)"
  "liftO (Err e) = Pair (Err e)"
  "liftO (Panic p) = Pair (Panic p)"
  by (simp_all add: fun_eq_iff liftO_def)

lemma getsM_apply [simp]: "getsM f s = (Ok (f s), s)"
  by (simp add: getsM_def)

lemma modifyM_apply [simp]: "modifyM f s = (Ok (), f s)"
  by (simp add: modifyM_def)

lemma guardM_apply [simp]: "guardM b e s = (if b then Ok () else Err e, s)"
  by (simp add: guardM_def)

lemma attempt_Ok: "m s = (Ok a, t) \<Longrightarrow> attempt m s = (Ok (Inr a), t)"
  by (simp add: attempt_def)

lemma attempt_Err: "m s = (Err e, t) \<Longrightarrow> attempt m s = (Ok (Inl e), t)"
  by (simp add: attempt_def)

lemma attempt_Pair [simp]:
  "attempt (Pair (Ok a)) = Pair (Ok (Inr a))"
  "attempt (Pair (Err e)) = Pair (Ok (Inl e))"
  "attempt (Pair (Panic p)) = Pair (Panic p)"
  by (simp_all add: fun_eq_iff attempt_def)

lemma must_eq_Ok [simp]: "must m s = (Ok a, t) \<longleftrightarrow> m s = (Ok a, t)"
  by (auto simp: must_def bindM_def attempt_def split: prod.splits outcome.splits sum.splits)

lemma must_no_Err: "fst (must m s) \<noteq> Err e"
  by (auto simp: must_def bindM_def attempt_def split: prod.splits outcome.splits sum.splits)

lemma forM_append: "forM (xs @ ys) f = bindM (forM xs f) (\<lambda>_. forM ys f)"
  by (induction xs) (simp_all add: bindM_assoc)

text \<open>A loop whose body always succeeds with the same effect is a fold of that effect.\<close>

lemma forM_total:
  assumes "\<And>x s. x \<in> set xs \<Longrightarrow> f x s = (Ok (), g x s)"
  shows "forM xs f s = (Ok (), fold g xs s)"
  using assms by (induction xs arbitrary: s) (auto simp: bindM_def)

text \<open>What every successful iteration keeps, a successful loop keeps.\<close>

lemma forM_Ok_induct [consumes 2]:
  assumes "forM xs f s = (Ok u, t)" "P s"
    and "\<And>x s t v. x \<in> set xs \<Longrightarrow> P s \<Longrightarrow> f x s = (Ok v, t) \<Longrightarrow> P t"
  shows "P t"
  using assms
proof (induction xs arbitrary: s)
  case Nil
  then show ?case by simp
next
  case (Cons x xs)
  from Cons.prems(1) obtain v s' where "f x s = (Ok v, s')" "forM xs f s' = (Ok u, t)"
    by auto
  with Cons show ?case by (metis list.set_intros(1,2))
qed

lemma foldO_Ok_induct:
  assumes "foldO f xs b = Ok r" "P b"
    and "\<And>x b c. x \<in> set xs \<Longrightarrow> P b \<Longrightarrow> f x b = Ok c \<Longrightarrow> P c"
  shows "P r"
  using assms by (induction xs arbitrary: b) auto

lemma mapO_eq_Ok: "mapO f xs = Ok ys \<longleftrightarrow> list_all2 (\<lambda>x y. f x = Ok y) xs ys"
  by (induction xs arbitrary: ys) (auto simp: list_all2_Cons1)

section \<open>Predicates an operation keeps\<close>

lemma keepsI: "(\<And>s. P s \<Longrightarrow> P (snd (m s))) \<Longrightarrow> keeps P m"
  by (simp add: keeps_def)

lemma keepsD: "keeps P m \<Longrightarrow> P s \<Longrightarrow> m s = (r, t) \<Longrightarrow> P t"
  by (metis keeps_def snd_conv)

lemma keeps_snd: "keeps P m \<Longrightarrow> P s \<Longrightarrow> P (snd (m s))"
  by (simp add: keeps_def)

lemma keeps_ret [keeps_intro]: "keeps P (ret a)"
  by (simp add: keeps_def)

lemma keeps_throw [keeps_intro]: "keeps P (throw e)"
  by (simp add: keeps_def)

lemma keeps_panic [keeps_intro]: "keeps P (panic p)"
  by (simp add: keeps_def)

lemma keeps_liftO [keeps_intro]: "keeps P (liftO r)"
  by (simp add: keeps_def)

lemma keeps_getsM [keeps_intro]: "keeps P (getsM f)"
  by (simp add: keeps_def)

lemma keeps_guardM [keeps_intro]: "keeps P (guardM b e)"
  by (simp add: keeps_def)

lemma keeps_bindM [keeps_intro]:
  assumes "keeps P m" "\<And>a. keeps P (f a)"
  shows "keeps P (bindM m f)"
  using assms by (fastforce simp: keeps_def bindM_def split: prod.splits outcome.splits)

lemma keeps_bind_liftO [keeps_intro]:
  "(\<And>a. r = Ok a \<Longrightarrow> keeps P (f a)) \<Longrightarrow> keeps P (bindM (liftO r) f)"
  by (cases r) (auto simp: keeps_def)

lemma keeps_thenM [keeps_intro]: "keeps P m \<Longrightarrow> keeps P k \<Longrightarrow> keeps P (thenM m k)"
  by (simp add: thenM_def keeps_bindM)

lemma keeps_attempt [keeps_intro]: "keeps P m \<Longrightarrow> keeps P (attempt m)"
  by (fastforce simp: keeps_def attempt_def split: prod.splits outcome.splits)

lemma keeps_modifyM [keeps_intro]: "(\<And>s. P s \<Longrightarrow> P (f s)) \<Longrightarrow> keeps P (modifyM f)"
  by (simp add: keeps_def)

lemma keeps_forM [keeps_intro]: "(\<And>x. keeps P (f x)) \<Longrightarrow> keeps P (forM xs f)"
  by (induction xs) (auto intro: keeps_intro)

lemma keeps_foldM [keeps_intro]: "(\<And>x b. keeps P (f x b)) \<Longrightarrow> keeps P (foldM f xs b)"
  by (induction xs arbitrary: b) (auto intro: keeps_intro)

lemma keeps_zoomM [keeps_intro]:
  "(\<And>s t. P t \<Longrightarrow> P (put s t)) \<Longrightarrow> keeps P (zoomM get put m)"
  by (simp add: keeps_def zoomM_def split: prod.splits)

lemma keeps_if [keeps_intro]: "keeps P m \<Longrightarrow> keeps P k \<Longrightarrow> keeps P (if b then m else k)"
  by simp

lemma keeps_sum_case [keeps_intro]:
  "(\<And>e. keeps P (f e)) \<Longrightarrow> (\<And>a. keeps P (g a)) \<Longrightarrow> keeps P (case x of Inl e \<Rightarrow> f e | Inr a \<Rightarrow> g a)"
  by (cases x) auto

lemma keeps_must [keeps_intro]: "keeps P m \<Longrightarrow> keeps P (must m)"
  unfolding must_def by (intro keeps_bindM keeps_attempt keeps_sum_case keeps_panic keeps_ret)

lemma keeps_option_case [keeps_intro]:
  "keeps P m \<Longrightarrow> (\<And>a. keeps P (f a)) \<Longrightarrow> keeps P (case x of None \<Rightarrow> m | Some a \<Rightarrow> f a)"
  by (cases x) auto

section \<open>Operations that return\<close>

lemma fail_of_simps [simp]:
  "fail_of (Ok a) = Ok ()" "fail_of (Err e) = Err e" "fail_of (Panic p) = Panic p"
  by (simp_all add: fail_of_def)

lemma is_Ok_fail_of [simp]: "is_Ok (fail_of r) = is_Ok r"
  by (cases r) simp_all

lemma runs_eq: "runs F m s Q \<longleftrightarrow> (if is_Ok (fst (m s)) then \<forall>a t. m s = (Ok a, t) \<longrightarrow> Q a t else F (fail_of (fst (m s))))"
  by (cases "m s"; cases "fst (m s)") (auto simp: runs_def)

lemma runs_cases [consumes 1, case_names ok fail]:
  assumes "runs F m s Q"
  obtains a t where "m s = (Ok a, t)" "Q a t" | r t where "m s = (r, t)" "\<not> is_Ok r" "F (fail_of r)"
  using assms by (cases "m s"; cases "fst (m s)") (auto simp: runs_def)

lemma runs_outcome: "runs F m s Q \<Longrightarrow> is_Ok (fst (m s)) \<or> F (fail_of (fst (m s)))"
  by (simp add: runs_eq split: if_splits)

lemma runs_Ok: "m s = (Ok a, t) \<Longrightarrow> runs F m s Q \<longleftrightarrow> Q a t"
  by (simp add: runs_def)

lemma runs_fail: "m s = (r, t) \<Longrightarrow> \<not> is_Ok r \<Longrightarrow> F (fail_of r) \<Longrightarrow> runs F m s Q"
  by (simp add: runs_eq)

lemma runs_mono: "runs F m s Q \<Longrightarrow> (\<And>a t. m s = (Ok a, t) \<Longrightarrow> Q a t \<Longrightarrow> R a t) \<Longrightarrow> runs F m s R"
  by (simp add: runs_eq split: if_splits)

lemma runs_ret [runs_intro]: "Q a s \<Longrightarrow> runs F (ret a) s Q"
  by (simp add: runs_def)

lemma runs_liftO [runs_intro]: "r = Ok a \<Longrightarrow> Q a s \<Longrightarrow> runs F (liftO r) s Q"
  by (simp add: runs_def)

lemma runs_liftO_or: "(\<And>a. r = Ok a \<Longrightarrow> Q a s) \<Longrightarrow> (\<not> is_Ok r \<Longrightarrow> F (fail_of r)) \<Longrightarrow> runs F (liftO r) s Q"
  by (cases r) (simp_all add: runs_def liftO_def)

lemma runs_getsM [runs_intro]: "Q (f s) s \<Longrightarrow> runs F (getsM f) s Q"
  by (simp add: runs_def)

lemma runs_modifyM [runs_intro]: "Q () (f s) \<Longrightarrow> runs F (modifyM f) s Q"
  by (simp add: runs_def)

lemma runs_bindM [runs_intro]:
  "runs F m s (\<lambda>a t. runs F (f a) t Q) \<Longrightarrow> runs F (bindM m f) s Q"
  by (auto simp: runs_def bindM_def split: prod.splits outcome.splits)

lemma runs_thenM [runs_intro]: "runs F m s (\<lambda>_ t. runs F k t Q) \<Longrightarrow> runs F (thenM m k) s Q"
  unfolding thenM_def by (rule runs_bindM)

lemma runs_bind_Ok: "m s = (Ok a, t) \<Longrightarrow> runs F (bindM m f) s Q \<longleftrightarrow> runs F (f a) t Q"
  by (simp add: runs_def bindM_def)

lemma runs_bind_fail: "m s = (r, t) \<Longrightarrow> \<not> is_Ok r \<Longrightarrow> F (fail_of r) \<Longrightarrow> runs F (bindM m f) s Q"
  by (cases r) (simp_all add: runs_def bindM_def)

text \<open>A loop returns when its body does, under an invariant indexed by what is left to visit.\<close>

lemma runs_forM:
  assumes "I xs s" "\<And>x xs s. I (x # xs) s \<Longrightarrow> runs F (f x) s (\<lambda>_ t. I xs t)"
  shows "runs F (forM xs f) s (\<lambda>_ t. I [] t)"
  using assms(1)
proof (induction xs arbitrary: s)
  case (Cons x xs)
  then show ?case
    by (auto intro!: runs_intro intro: runs_mono [OF assms(2)])
qed (simp add: runs_def)

lemma runs_foldM:
  assumes "I xs b s" "\<And>x xs b s. I (x # xs) b s \<Longrightarrow> runs F (f x b) s (\<lambda>c t. I xs c t)"
  shows "runs F (foldM f xs b) s (\<lambda>c t. I [] c t)"
  using assms(1)
proof (induction xs arbitrary: b s)
  case (Cons x xs)
  then show ?case
    by (auto intro!: runs_intro intro: runs_mono [OF assms(2)])
qed (simp add: runs_def)

section \<open>Lemmas on strings, ranges and Go maps\<close>

lemma split_on_nonempty [simp]: "split_on c xs \<noteq> []"
  by (induction xs) (auto split: list.splits)

lemma split_on_absent: "c \<notin> set xs \<Longrightarrow> split_on c xs = [xs]"
  by (induction xs) auto

lemma split_on_append:
  "c \<notin> set xs \<Longrightarrow> split_on c (xs @ c # ys) = xs # split_on c ys"
  by (induction xs) auto

lemma split_on_join: "concat (map (\<lambda>w. c # w) (split_on c xs)) = c # xs"
  by (induction xs) (auto split: list.splits)

lemma split_on_clean: "w \<in> set (split_on c xs) \<Longrightarrow> c \<notin> set w"
  by (induction xs arbitrary: w) (auto split: list.splits if_splits)

lemma has_prefix_append [simp]: "has_prefix (xs @ ys) xs"
  by (induction xs) auto

lemma has_prefix_iff: "has_prefix xs ys \<longleftrightarrow> (\<exists>zs. xs = ys @ zs)"
  by (induction xs ys rule: has_prefix.induct) auto

lemma go_range_set: "go_range rng \<Longrightarrow> set (rng xs) = set xs"
  unfolding go_range_def by (metis set_mset_mset)

lemma go_range_length: "go_range rng \<Longrightarrow> length (rng xs) = length xs"
  unfolding go_range_def by (metis size_mset)

text \<open>A rearrangement of the image of a list is the image of a rearrangement.\<close>

lemma mset_eq_map:
  "mset ys = mset (map g xs) \<Longrightarrow> \<exists>es. mset es = mset xs \<and> ys = map g es"
proof (induction ys arbitrary: xs)
  case Nil
  then show ?case by simp
next
  case (Cons y ys)
  then have "y \<in> set (map g xs)" by (metis list.set_intros(1) mset_eq_setD)
  then obtain us x vs where xs: "xs = us @ x # vs" and y: "y = g x"
    by (auto simp: in_set_conv_decomp)
  have "add_mset y (mset ys) = mset (map g xs)" using Cons.prems by simp
  also have "\<dots> = add_mset y (mset (map g (us @ vs)))" by (simp add: xs y)
  finally have "mset ys = mset (map g (us @ vs))" by (simp only: add_mset_add_mset_same_iff)
  then obtain es where es: "mset es = mset (us @ vs)" and ys: "ys = map g es"
    using Cons.IH by blast
  have "mset (x # es) = mset xs" unfolding xs by (simp add: es)
  moreover have "y # ys = map g (x # es)" by (simp add: y ys)
  ultimately show ?case by (intro exI [of _ "x # es"] conjI)
qed

lemma go_range_map:
  "go_range rng \<Longrightarrow> \<exists>es. mset es = mset xs \<and> rng (map g xs) = map g es"
  by (rule mset_eq_map) (simp add: go_range_def)

lemma go_range_id: "go_range (\<lambda>xs. xs)"
  by (simp add: go_range_def)

lemma go_range_rev: "go_range rev"
  by (simp add: go_range_def)

lemma gomap_set_keys: "set (map fst (gomap_set k v es)) = insert k (set (map fst es))"
  by (induction es) auto

lemma gomap_set_distinct:
  "distinct (map fst es) \<Longrightarrow> distinct (map fst (gomap_set k v es))"
  using gomap_set_keys[of k v] by (induction es) (auto split: if_splits)

lemma gomap_set_get:
  "map_of (gomap_set k v es) k' = (if k' = k then Some v else map_of es k')"
  by (induction es) auto

lemma gomap_delete_get:
  "map_of (gomap_delete k es) k' = (if k' = k then None else map_of es k')"
  unfolding gomap_delete_def by (induction es) auto

lemma map_of_filter_key: "map_of (filter (\<lambda>e. fst e \<noteq> a) es) b = (if b = a then None else map_of es b)"
  by (induction es) auto

lemma gomap_delete_distinct:
  "distinct (map fst es) \<Longrightarrow> distinct (map fst (gomap_delete k es))"
  unfolding gomap_delete_def by (induction es) auto

end
