(* ===== verification/KVStore.thy ===== *)
theory KVStore
  imports Prelude
begin

text \<open>
  The key-value store behind every keeper (\<open>storeService.OpenKVStore\<close> and the typed
  \<open>collections.Map\<close> on top of it): a list of entries in strictly ascending key order,
  because the sources rely on the order in which iterators visit keys.  The contract the
  keepers rely on is the locale \<open>keyed_store\<close>; each keeper interprets it on its own
  operations, and the facts proved inside it (a sequence of writes refines the same
  sequence on a map) become facts about that keeper.
\<close>

section \<open>The store\<close>

type_synonym ('k, 'v) kv = "('k \<times> 'v) list"

definition kv_ok :: "('k::linorder, 'v) kv \<Rightarrow> bool" where
  "kv_ok es \<longleftrightarrow> sorted_wrt (<) (map fst es)"

definition kv_get :: "('k, 'v) kv \<Rightarrow> 'k \<Rightarrow> 'v option" where
  "kv_get es k = map_of es k"

primrec kv_set :: "'k::linorder \<Rightarrow> 'v \<Rightarrow> ('k, 'v) kv \<Rightarrow> ('k, 'v) kv" where
  "kv_set k v [] = [(k, v)]"
| "kv_set k v (e # es) =
     (if k < fst e then (k, v) # e # es
      else if k = fst e then (k, v) # es
      else e # kv_set k v es)"

definition kv_delete :: "'k \<Rightarrow> ('k, 'v) kv \<Rightarrow> ('k, 'v) kv" where
  "kv_delete k es = filter (\<lambda>e. fst e \<noteq> k) es"

text \<open>
  \<open>store.Iterator(p, storetypes.PrefixEndBytes(p))\<close>: the entries whose key starts with
  \<open>p\<close>, in ascending key order.
\<close>

definition kv_prefix :: "'b list \<Rightarrow> ('b list, 'v) kv \<Rightarrow> ('b list, 'v) kv" where
  "kv_prefix p es = filter (\<lambda>e. has_prefix (fst e) p) es"

text \<open>Writes as data, to speak about sequences of them.\<close>

datatype ('k, 'v) kvop = Put 'k 'v | Del 'k

fun absop :: "('k, 'v) kvop \<Rightarrow> ('k \<rightharpoonup> 'v) \<Rightarrow> ('k \<rightharpoonup> 'v)" where
  "absop (Put k v) m = m(k \<mapsto> v)"
| "absop (Del k) m = m(k := None)"

section \<open>The contract\<close>

locale keyed_store =
  fixes lookup :: "'s \<Rightarrow> 'k \<Rightarrow> 'v option"
    and put :: "'k \<Rightarrow> 'v \<Rightarrow> 's \<Rightarrow> 's"
    and remove :: "'k \<Rightarrow> 's \<Rightarrow> 's"
    and wf :: "'s \<Rightarrow> bool"
  assumes lookup_put: "wf s \<Longrightarrow> lookup (put k v s) = (lookup s)(k \<mapsto> v)"
    and lookup_remove: "wf s \<Longrightarrow> lookup (remove k s) = (lookup s)(k := None)"
    and wf_put: "wf s \<Longrightarrow> wf (put k v s)"
    and wf_remove: "wf s \<Longrightarrow> wf (remove k s)"
begin

primrec run1 :: "('k, 'v) kvop \<Rightarrow> 's \<Rightarrow> 's" where
  "run1 (Put k v) s = put k v s"
| "run1 (Del k) s = remove k s"

lemma run1_wf: "wf s \<Longrightarrow> wf (run1 p s)"
  by (cases p) (auto intro: wf_put wf_remove)

lemma run1_refines: "wf s \<Longrightarrow> lookup (run1 p s) = absop p (lookup s)"
  by (cases p) (simp_all add: lookup_put lookup_remove)

lemma run_wf: "wf s \<Longrightarrow> wf (fold run1 ps s)"
  by (induction ps arbitrary: s) (auto intro: run1_wf)

lemma run_refines: "wf s \<Longrightarrow> lookup (fold run1 ps s) = fold absop ps (lookup s)"
  by (induction ps arbitrary: s) (auto simp: run1_refines run1_wf)

lemma get_put_same: "wf s \<Longrightarrow> lookup (put k v s) k = Some v"
  by (simp add: lookup_put)

lemma get_put_other: "wf s \<Longrightarrow> k' \<noteq> k \<Longrightarrow> lookup (put k v s) k' = lookup s k'"
  by (simp add: lookup_put)

lemma get_remove_same: "wf s \<Longrightarrow> lookup (remove k s) k = None"
  by (simp add: lookup_remove)

lemma get_remove_other: "wf s \<Longrightarrow> k' \<noteq> k \<Longrightarrow> lookup (remove k s) k' = lookup s k'"
  by (simp add: lookup_remove)

lemma remove_put: "wf s \<Longrightarrow> lookup s k = None \<Longrightarrow> lookup (remove k (put k v s)) = lookup s"
  by (auto simp: lookup_put lookup_remove wf_put)

end

section \<open>The sorted list meets the contract\<close>

lemma kv_ok_Nil [simp]: "kv_ok []"
  by (simp add: kv_ok_def)

lemma kv_ok_Cons: "kv_ok (e # es) \<longleftrightarrow> (\<forall>x \<in> set es. fst e < fst x) \<and> kv_ok es"
  by (auto simp: kv_ok_def)

lemma kv_ok_distinct: "kv_ok es \<Longrightarrow> distinct (map fst es)"
  by (simp add: kv_ok_def strict_sorted_iff)

lemma kv_set_keys: "fst ` set (kv_set k v es) = insert k (fst ` set es)"
  by (induction es) auto

lemma kv_set_entries: "x \<in> set (kv_set k v es) \<Longrightarrow> x = (k, v) \<or> x \<in> set es"
  by (induction es) (auto split: if_splits)

lemma kv_ok_set: "kv_ok es \<Longrightarrow> kv_ok (kv_set k v es)"
proof (induction es)
  case Nil
  then show ?case by (simp add: kv_ok_def)
next
  case (Cons e es)
  then have ok: "kv_ok es" and lt: "\<forall>x \<in> set es. fst e < fst x"
    by (auto simp: kv_ok_Cons)
  show ?case
  proof (cases "k < fst e")
    case True
    with lt have "\<forall>x \<in> set es. k < fst x" by (auto intro: less_trans)
    with True Cons.prems show ?thesis by (auto simp: kv_ok_Cons)
  next
    case False
    with Cons.IH [OF ok] lt ok show ?thesis
      by (auto simp: kv_ok_Cons dest!: kv_set_entries)
  qed
qed

lemma kv_ok_delete: "kv_ok es \<Longrightarrow> kv_ok (kv_delete k es)"
  unfolding kv_delete_def by (induction es) (auto simp: kv_ok_Cons)

lemma kv_ok_prefix: "kv_ok es \<Longrightarrow> kv_ok (kv_prefix p es)"
  unfolding kv_prefix_def by (induction es) (auto simp: kv_ok_Cons)

lemma kv_get_absent: "kv_get es k = None \<longleftrightarrow> k \<notin> fst ` set es"
  by (simp add: kv_get_def map_of_eq_None_iff)

lemma kv_get_mem: "kv_ok es \<Longrightarrow> kv_get es k = Some v \<longleftrightarrow> (k, v) \<in> set es"
  by (simp add: kv_get_def kv_ok_distinct)

lemma kv_get_set: "kv_get (kv_set k v es) = (kv_get es)(k \<mapsto> v)"
  unfolding kv_get_def by (induction es) (auto simp: fun_eq_iff)

lemma kv_get_delete: "kv_get (kv_delete k es) = (kv_get es)(k := None)"
  unfolding kv_get_def kv_delete_def by (induction es) (auto simp: fun_eq_iff)

lemma kv_get_Nil [simp]: "kv_get [] k = None"
  by (simp add: kv_get_def)

interpretation kvs: keyed_store kv_get kv_set kv_delete kv_ok
  by unfold_locales (auto simp: kv_get_set kv_get_delete intro: kv_ok_set kv_ok_delete)

text \<open>Two well-formed stores that answer every lookup alike are the same list.\<close>

lemma kv_by_keys: "kv_ok es \<Longrightarrow> es = map (\<lambda>k. (k, the (kv_get es k))) (map fst es)"
proof (induction es)
  case Nil
  then show ?case by simp
next
  case (Cons e es)
  then have "\<forall>x \<in> set es. fst e < fst x" and ok: "kv_ok es" by (auto simp: kv_ok_Cons)
  then have "\<forall>x \<in> set es. kv_get (e # es) (fst x) = kv_get es (fst x)"
    by (cases e) (auto simp: kv_get_def)
  then have "map (\<lambda>k. (k, the (kv_get (e # es) k))) (map fst es) =
      map (\<lambda>k. (k, the (kv_get es k))) (map fst es)"
    by simp
  also have "\<dots> = es" using Cons.IH [OF ok] by simp
  finally show ?case by (cases e) (simp add: kv_get_def)
qed

lemma kv_ext:
  assumes "kv_ok es" "kv_ok fs" "kv_get es = kv_get fs"
  shows "es = fs"
proof -
  have "set (map fst es) = set (map fst fs)"
    using kv_get_absent [of es] kv_get_absent [of fs] assms(3) by (auto simp: set_eq_iff)
  then have "map fst es = map fst fs"
    using assms(1,2) by (intro sorted_distinct_set_unique) (simp_all add: kv_ok_def strict_sorted_iff)
  then show ?thesis
    using kv_by_keys [OF assms(1)] kv_by_keys [OF assms(2)] assms(3) by simp
qed

lemma kv_set_set: "kv_ok es \<Longrightarrow> kv_set k v (kv_set k w es) = kv_set k v es"
  by (rule kv_ext) (auto simp: kv_get_set intro: kv_ok_set)

lemma kv_delete_set: "kv_ok es \<Longrightarrow> kv_get es k = None \<Longrightarrow> kv_delete k (kv_set k v es) = es"
  by (rule kv_ext) (auto simp: kv_get_set kv_get_delete fun_eq_iff intro: kv_ok_set kv_ok_delete)

text \<open>Writing a list of entries back, in any order, rebuilds the store.\<close>

lemma kv_get_fold_set:
  "distinct (map fst xs) \<Longrightarrow>
    kv_get (fold (\<lambda>e. kv_set (fst e) (snd e)) xs es) = kv_get es ++ map_of xs"
  by (induction xs arbitrary: es)
    (auto simp: kv_get_set map_add_upd_left map_of_eq_None_iff dom_map_of_conv_image_fst)

lemma kv_ok_fold_set: "kv_ok es \<Longrightarrow> kv_ok (fold (\<lambda>e. kv_set (fst e) (snd e)) xs es)"
  by (induction xs arbitrary: es) (auto intro: kv_ok_set)

lemma kv_rebuild:
  assumes "kv_ok es" "mset xs = mset es"
  shows "fold (\<lambda>e. kv_set (fst e) (snd e)) xs [] = es"
proof (rule kv_ext)
  have dx: "distinct (map fst xs)"
    using kv_ok_distinct [OF assms(1)] assms(2) by (metis mset_eq_imp_distinct_iff mset_map)
  have "set xs = set es" using assms(2) by (metis set_mset_mset)
  then have "map_of xs = map_of es"
    using map_of_inject_set [OF dx kv_ok_distinct [OF assms(1)]] by simp
  moreover have "kv_get [] ++ map_of xs = map_of xs"
    by (simp add: map_add_def fun_eq_iff split: option.splits)
  moreover have "kv_get es = map_of es" by (simp add: fun_eq_iff kv_get_def)
  ultimately show "kv_get (fold (\<lambda>e. kv_set (fst e) (snd e)) xs []) = kv_get es"
    by (simp add: kv_get_fold_set [OF dx])
qed (use assms in \<open>auto intro: kv_ok_fold_set\<close>)

end
