(* ===== verification/Types.thy ===== *)
theory Types
  imports KVStore
begin

text \<open>
  The data the modules exchange and store (the structs of the generated \<open>*.pb.go\<close> files
  and of the SDK packages the sources use), the execution context the keepers run in, and
  the parameters that stand for code outside the repository.

  The context holds the stores the repository's own keepers own, the event log, the block
  header fields the sources read, and \<open>ext\<close>: the state of every other module.  A call
  into another module's keeper is a parameter acting on \<open>ext\<close> only, as a keeper can only
  open the stores whose key it was given.

  Amounts (\<open>math.Int\<close>) are integers; \<open>LegacyDec\<close> is an integer in units of
  \<open>10\<^sup>-\<^sup>1\<^sup>8\<close>, its documented representation.
\<close>

section \<open>Coins, events, addresses\<close>

record Coin =
  Denom :: string
  Amount :: int

type_synonym Coins = "Coin list"
type_synonym AccAddress = bytes
type_synonym ValAddress = bytes
type_synonym LegacyDec = int

text \<open>The amount of one denomination in a list of coins.\<close>

definition amount_of :: "Coins \<Rightarrow> string \<Rightarrow> int" where
  "amount_of cs d = sum_list (map Amount (filter (\<lambda>c. Denom c = d) cs))"

record Event =
  ev_Type :: string
  ev_Attributes :: "(string \<times> string) list"

text \<open>The bech32 conversions of \<open>sdk.AccAddress\<close> and \<open>sdk.ValAddress\<close>.\<close>

record Bech32 =
  AccAddressFromBech32 :: "string \<Rightarrow> AccAddress outcome"
  AccAddress_String :: "AccAddress \<Rightarrow> string"
  ValAddressFromBech32 :: "string \<Rightarrow> ValAddress outcome"
  ValAddress_String :: "ValAddress \<Rightarrow> string"

text \<open>
  What the sources rely on: parsing returns a non-empty address of at most 255 bytes or
  an error, never a panic, and the printed form of a parsed address parses back to it.
\<close>

definition val_codec_laws :: "Bech32 \<Rightarrow> bool" where
  "val_codec_laws b \<longleftrightarrow>
     (\<forall>s. \<not> is_Panic (ValAddressFromBech32 b s)) \<and>
     (\<forall>s a. ValAddressFromBech32 b s = Ok a \<longrightarrow>
        0 < length a \<and> length a \<le> 255 \<and>
        ValAddressFromBech32 b (ValAddress_String b a) = Ok a)"

definition acc_codec_laws :: "Bech32 \<Rightarrow> bool" where
  "acc_codec_laws b \<longleftrightarrow>
     (\<forall>s. \<not> is_Panic (AccAddressFromBech32 b s)) \<and>
     (\<forall>s a. AccAddressFromBech32 b s = Ok a \<longrightarrow>
        0 < length a \<and> length a \<le> 255 \<and>
        AccAddressFromBech32 b (AccAddress_String b a) = Ok a)"

text \<open>\<open>sdk.MustAccAddressFromBech32\<close>: the parse error becomes a panic.\<close>

definition MustAccAddressFromBech32 :: "Bech32 \<Rightarrow> string \<Rightarrow> AccAddress outcome" where
  "MustAccAddressFromBech32 b s = (case AccAddressFromBech32 b s of
      Ok a \<Rightarrow> Ok a
    | Err _ \<Rightarrow> Panic ''invalid address''
    | Panic p \<Rightarrow> Panic p)"

text \<open>The functions of the SDK's coin types the sources call.\<close>

record CoinOps =
  Coin_IsValid :: "Coin \<Rightarrow> bool"
  Coin_String :: "Coin \<Rightarrow> string"
  Coins_String :: "Coins \<Rightarrow> string"
  Coin_Add :: "Coin \<Rightarrow> Coin \<Rightarrow> Coin outcome"
  NewCoin :: "string \<Rightarrow> int \<Rightarrow> Coin outcome"
  NewCoins :: "Coin list \<Rightarrow> Coins outcome"
  Coins_IsValid :: "Coins \<Rightarrow> bool"
  Coins_Validate :: "Coins \<Rightarrow> unit outcome"
  Coins_IsAllPositive :: "Coins \<Rightarrow> bool"
  Coins_IsZero :: "Coins \<Rightarrow> bool"
  Coins_Add :: "Coins \<Rightarrow> Coin \<Rightarrow> Coins outcome"
  Coins_IsAnyGTE :: "Coins \<Rightarrow> Coins \<Rightarrow> bool"
  Coins_AmountOf :: "Coins \<Rightarrow> string \<Rightarrow> int"
  ValidateDenom :: "string \<Rightarrow> unit outcome"

text \<open>
  The functions of \<open>cosmossdk.io/math\<close> that can panic on overflow or division by zero.
\<close>

record DecOps =
  Dec_Add :: "LegacyDec \<Rightarrow> LegacyDec \<Rightarrow> LegacyDec outcome"
  Dec_Mul :: "LegacyDec \<Rightarrow> LegacyDec \<Rightarrow> LegacyDec outcome"
  Dec_MulInt :: "LegacyDec \<Rightarrow> int \<Rightarrow> LegacyDec outcome"
  Dec_TruncateInt :: "LegacyDec \<Rightarrow> int outcome"
  Int_Quo :: "int \<Rightarrow> int \<Rightarrow> int outcome"

text \<open>
  Their documented results: exact sums and integer multiples, products rounded to the
  nearest unit, truncation towards zero.
\<close>

definition dec_laws :: "DecOps \<Rightarrow> bool" where
  "dec_laws m \<longleftrightarrow>
     (\<forall>a b r. Dec_Add m a b = Ok r \<longrightarrow> r = a + b) \<and>
     (\<forall>a b r. Dec_Mul m a b = Ok r \<longrightarrow> 0 \<le> a \<longrightarrow> 0 \<le> b \<longrightarrow>
        0 \<le> r \<and> 2 * \<bar>r * 10 ^ 18 - a * b\<bar> \<le> 10 ^ 18) \<and>
     (\<forall>a n r. Dec_MulInt m a n = Ok r \<longrightarrow> r = a * n) \<and>
     (\<forall>a r. Dec_TruncateInt m a = Ok r \<longrightarrow> 0 \<le> a \<longrightarrow> r = a div 10 ^ 18)"

section \<open>Staking data\<close>

record Description =
  Moniker :: string
  Identity :: string
  Website :: string
  SecurityContact :: string
  Details :: string

record PubKey =
  pk_Type :: string
  pk_Bytes :: bytes

text \<open>A protobuf \<open>Any\<close>: its type URL and the cached Go value.\<close>

datatype CachedValue = CachedPubKey PubKey | CachedOther

record AnyPk =
  any_TypeUrl :: string
  any_Cached :: CachedValue

record CommissionRates =
  Rate :: LegacyDec
  MaxRate :: LegacyDec
  MaxChangeRate :: LegacyDec

record Commission =
  CommissionRatesOf :: CommissionRates
  UpdateTime :: int

datatype BondStatus = Unspecified | Unbonded | Unbonding | Bonded

record Validator =
  OperatorAddress :: string
  ConsensusPubkey :: "PubKey option"
  Jailed :: bool
  Status :: BondStatus
  Tokens :: int
  DelegatorShares :: LegacyDec
  ValDescription :: Description
  ValCommission :: Commission
  MinSelfDelegation :: int
  UnbondingHeight :: int

record MsgCreateValidator =
  cv_ValidatorAddress :: string
  cv_DelegatorAddress :: string
  cv_MinSelfDelegation :: int
  cv_Pubkey :: "AnyPk option"
  cv_Value :: Coin
  cv_Description :: Description
  cv_Commission :: CommissionRates

text \<open>Stateless functions of the SDK staking types that the sources call.\<close>

record StakingFns =
  GetConsAddress :: "PubKey \<Rightarrow> bytes"
  EnsureLength :: "Description \<Rightarrow> unit outcome"
  NewValidator :: "string \<Rightarrow> PubKey \<Rightarrow> Description \<Rightarrow> Validator outcome"
  SetInitialCommission :: "Validator \<Rightarrow> Commission \<Rightarrow> Validator outcome"

section \<open>Messages and stored values of the modules\<close>

record VolunteerValidator =
  vv_Address :: string
  vv_Power :: int64

record BurnProposal =
  bp_ProposalId :: uint64
  bp_Proposer :: string
  bp_Amount :: Coins

record Params =
  FeePoolRate :: LegacyDec
  CommunityPoolRate :: LegacyDec
  ReserveRate :: LegacyDec
  ReserveAccount :: string
  RewardDistributeAccount :: string

section \<open>The execution context\<close>

record 'x Ctx =
  volunteer_kv :: "(bytes, VolunteerValidator) kv"
  burn_kv :: "(uint64, BurnProposal) kv"
  reward_kv :: "(bytes, Params) kv"
  slice_kv :: "(bytes, bytes) kv"
  events :: "Event list"
  block_height :: int
  block_time :: int
  validator_pubkey_types :: "string list option"
  gas_limit :: uint64
  is_check_tx :: bool
  ext :: 'x

definition extM :: "('x, 'a) M \<Rightarrow> ('x Ctx, 'a) M" where
  "extM = zoomM ext (\<lambda>x c. c\<lparr>ext := x\<rparr>)"

definition EmitEvent :: "Event \<Rightarrow> ('x Ctx, unit) M" where
  "EmitEvent e = modifyM (\<lambda>c. c\<lparr>events := events c @ [e]\<rparr>)"

section \<open>A reference environment\<close>

text \<open>
  Concrete functions that meet the laws above, on which the theorems are instantiated: an
  address is printed as the string of its bytes, length prefixing is the documented one,
  and \<open>ref_ctx\<close> is an empty chain at height 1.
\<close>

definition ref_parse :: "string \<Rightarrow> bytes outcome" where
  "ref_parse s = (if s = [] \<or> 255 < length s then Err (ErrExternal ''invalid address'')
     else Ok (map (\<lambda>ch. word_of_nat (of_char ch)) s))"

definition ref_print :: "bytes \<Rightarrow> string" where
  "ref_print a = map (\<lambda>w. char_of (unat w)) a"

definition ref_bech32 :: Bech32 where
  "ref_bech32 = \<lparr>AccAddressFromBech32 = ref_parse, AccAddress_String = ref_print,
     ValAddressFromBech32 = ref_parse, ValAddress_String = ref_print\<rparr>"

definition ref_length_prefix :: "bytes \<Rightarrow> bytes outcome" where
  "ref_length_prefix a =
     (if length a \<le> 255 then Ok (word_of_nat (length a) # a) else Panic ''address too long'')"

definition ref_coin_ok :: "Coin \<Rightarrow> bool" where
  "ref_coin_ok c \<longleftrightarrow> Denom c \<noteq> [] \<and> 0 \<le> Amount c"

definition ref_denoms_sorted :: "Coins \<Rightarrow> bool" where
  "ref_denoms_sorted cs \<longleftrightarrow> sorted_wrt (\<lambda>a b. Denom a < Denom b) cs"

definition ref_coins :: CoinOps where
  "ref_coins = \<lparr>Coin_IsValid = ref_coin_ok, Coin_String = Denom,
     Coins_String = (\<lambda>cs. concat (map Denom cs)),
     Coin_Add = (\<lambda>a b. if Denom a = Denom b then Ok (a\<lparr>Amount := Amount a + Amount b\<rparr>)
                      else Panic ''invalid coin denominations''),
     NewCoin = (\<lambda>d n. if d \<noteq> [] \<and> 0 \<le> n then Ok \<lparr>Denom = d, Amount = n\<rparr>
                     else Panic ''invalid coin''),
     NewCoins = (\<lambda>cs. let pos = sort_key Denom (filter (\<lambda>c. Amount c \<noteq> 0) cs) in
        if list_all ref_coin_ok pos \<and> ref_denoms_sorted pos then Ok pos else Panic ''invalid coins''),
     Coins_IsValid = (\<lambda>cs. list_all (\<lambda>c. ref_coin_ok c \<and> 0 < Amount c) cs \<and> ref_denoms_sorted cs),
     Coins_Validate = (\<lambda>cs. guardO (list_all (\<lambda>c. ref_coin_ok c \<and> 0 < Amount c) cs \<and>
        ref_denoms_sorted cs) ErrInvalidCoins),
     Coins_IsAllPositive = (\<lambda>cs. cs \<noteq> [] \<and> list_all (\<lambda>c. 0 < Amount c) cs),
     Coins_IsZero = list_all (\<lambda>c. Amount c = 0),
     Coins_Add = (\<lambda>cs c. Ok (c # cs)),
     Coins_IsAnyGTE = (\<lambda>cs ds. list_ex (\<lambda>c. list_ex (\<lambda>d. Denom c = Denom d \<and> Amount d \<le> Amount c) ds) cs),
     Coins_AmountOf = (\<lambda>cs d. sum_list (map Amount (filter (\<lambda>c. Denom c = d) cs))),
     ValidateDenom = (\<lambda>d. guardO (d \<noteq> []) (ErrExternal ''invalid denom''))\<rparr>"

definition ref_dec :: DecOps where
  "ref_dec = \<lparr>Dec_Add = (\<lambda>a b. Ok (a + b)),
     Dec_Mul = (\<lambda>a b. Ok ((a * b + 5 * 10 ^ 17) div 10 ^ 18)),
     Dec_MulInt = (\<lambda>a n. Ok (a * n)), Dec_TruncateInt = (\<lambda>a. Ok (a div 10 ^ 18)),
     Int_Quo = (\<lambda>a b. if b = 0 then Panic ''division by zero'' else Ok (a div b))\<rparr>"

definition ref_ctx :: "'x \<Rightarrow> 'x Ctx" where
  "ref_ctx x = \<lparr>volunteer_kv = [], burn_kv = [], reward_kv = [], slice_kv = [], events = [],
     block_height = 1, block_time = 0, validator_pubkey_types = None, gas_limit = 0,
     is_check_tx = False, ext = x\<rparr>"

section \<open>Lemmas\<close>

lemma ext_self [simp]: "c\<lparr>ext := ext c\<rparr> = c"
  by (cases c) simp

lemma extM_apply: "extM m c = (let (r, x) = m (ext c) in (r, c\<lparr>ext := x\<rparr>))"
  by (simp add: extM_def zoomM_def)

lemma extM_Pair: "m (ext c) = (r, x) \<Longrightarrow> extM m c = (r, c\<lparr>ext := x\<rparr>)"
  by (simp add: extM_apply)

lemma extM_eq: "extM m c = (r, d) \<longleftrightarrow> (\<exists>x. m (ext c) = (r, x) \<and> d = c\<lparr>ext := x\<rparr>)"
  by (auto simp: extM_apply split: prod.splits)

lemma bindM_extM_eq:
  "bindM (extM m) f c = (Ok b, d) \<longleftrightarrow> (\<exists>a x. m (ext c) = (Ok a, x) \<and> f a (c\<lparr>ext := x\<rparr>) = (Ok b, d))"
  by (auto simp: bindM_eq_Ok extM_eq)

lemma thenM_extM_eq:
  "thenM (extM m) f c = (Ok b, d) \<longleftrightarrow> (\<exists>a x. m (ext c) = (Ok a, x) \<and> f (c\<lparr>ext := x\<rparr>) = (Ok b, d))"
  by (simp add: thenM_def bindM_extM_eq)

lemmas run_ext = bindM_extM_eq thenM_extM_eq extM_eq

lemma EmitEvent_apply [simp]: "EmitEvent e c = (Ok (), c\<lparr>events := events c @ [e]\<rparr>)"
  by (simp add: EmitEvent_def)

text \<open>Calls into other modules, and events, leave the repository's own stores alone.\<close>

lemma keeps_extM [keeps_intro]: "(\<And>x c. P c \<Longrightarrow> P (c\<lparr>ext := x\<rparr>)) \<Longrightarrow> keeps P (extM m)"
  unfolding extM_def by (rule keeps_zoomM)

lemma keeps_EmitEvent [keeps_intro]:
  "(\<And>es c. P c \<Longrightarrow> P (c\<lparr>events := es\<rparr>)) \<Longrightarrow> keeps P (EmitEvent e)"
  unfolding EmitEvent_def by (rule keeps_modifyM)

lemma ref_parse_print:
  "a \<noteq> [] \<Longrightarrow> length a \<le> 255 \<Longrightarrow> ref_parse (ref_print a) = Ok a"
proof -
  have byte: "word_of_nat (unat w mod 256) = w" for w :: byte
  proof -
    have "unat w < 256" using unsigned_less [of w] by simp
    then show ?thesis by simp
  qed
  show "a \<noteq> [] \<Longrightarrow> length a \<le> 255 \<Longrightarrow> ref_parse (ref_print a) = Ok a"
    by (simp add: ref_parse_def ref_print_def comp_def byte)
qed

lemma ref_parse_Ok: "ref_parse s = Ok a \<Longrightarrow> a \<noteq> [] \<and> length a \<le> 255"
  by (auto simp: ref_parse_def split: if_splits)

lemma ref_val_laws: "val_codec_laws ref_bech32"
  by (auto simp: val_codec_laws_def ref_bech32_def ref_parse_print dest: ref_parse_Ok)
    (simp add: ref_parse_def split: if_splits)

lemma ref_acc_laws: "acc_codec_laws ref_bech32"
  by (auto simp: acc_codec_laws_def ref_bech32_def ref_parse_print dest: ref_parse_Ok)
    (simp add: ref_parse_def split: if_splits)

lemma ref_dec_laws: "dec_laws ref_dec"
proof -
  have "2 * \<bar>(a * b + 5 * 10 ^ 17) div 10 ^ 18 * 10 ^ 18 - a * b\<bar> \<le> 10 ^ 18" for a b :: int
    using pos_mod_bound [of "10 ^ 18" "a * b + 5 * 10 ^ 17"] pos_mod_sign [of "10 ^ 18" "a * b + 5 * 10 ^ 17"]
      div_mult_mod_eq [of "a * b + 5 * 10 ^ 17" "10 ^ 18"] by simp
  moreover have "0 \<le> (a * b + 5 * 10 ^ 17) div 10 ^ 18" if "0 \<le> a" "0 \<le> b" for a b :: int
    using mult_nonneg_nonneg [OF that] by (simp add: pos_imp_zdiv_nonneg_iff)
  ultimately show ?thesis by (simp add: dec_laws_def ref_dec_def)
qed

lemma MustAccAddress_eq_Ok [simp]:
  "MustAccAddressFromBech32 b s = Ok a \<longleftrightarrow> AccAddressFromBech32 b s = Ok a"
  by (cases "AccAddressFromBech32 b s") (auto simp: MustAccAddressFromBech32_def)

end
