(* ===== verification/Burn.thy ===== *)
theory Burn
  imports Types
begin

text \<open>
  The burn module, \<open>src/x/burn\<close>: governance proposals that burn coins.  On submission the
  amount is moved from the proposer to the module account and the proposal is recorded;
  when the proposal fails the amount goes back; when it passes, the message burns it from
  the module account.  State: \<open>burn_kv\<close> of the context, the typed map
  \<open>OngoingBurnProposals\<close> from proposal id to proposal.
\<close>

section \<open>Data, interfaces, keeper\<close>

record MsgBurn =
  mb_Authority :: string
  mb_Amount :: Coins

text \<open>A packed message, and what the codec's \<open>UnpackAny\<close> yields for it.\<close>

record Any =
  a_TypeUrl :: string
  a_Value :: bytes

datatype SdkMsg = SdkMsgBurn MsgBurn | SdkMsgOther

datatype ProposalStatus =
  StatusUnspecified | StatusDepositPeriod | StatusVotingPeriod | StatusPassed | StatusRejected | StatusFailed

record Proposal =
  pr_Messages :: "Any list"
  pr_Status :: ProposalStatus
  pr_Proposer :: string

record 'x BurnKeeper =
  bu_BurnCoins :: "string \<Rightarrow> Coins \<Rightarrow> ('x, unit) M"
  bu_SendCoinsFromAccountToModule :: "AccAddress \<Rightarrow> string \<Rightarrow> Coins \<Rightarrow> ('x, unit) M"
  bu_SendCoinsFromModuleToAccount :: "string \<Rightarrow> AccAddress \<Rightarrow> Coins \<Rightarrow> ('x, unit) M"
  bu_Proposal :: "uint64 \<Rightarrow> ('x, Proposal) M"
  bu_UnpackAny :: "Any \<Rightarrow> SdkMsg outcome"
  bu_authority :: string
  bu_bech32 :: Bech32
  bu_coins :: CoinOps

definition Burn_GetAuthority :: "'x BurnKeeper \<Rightarrow> string" where
  "Burn_GetAuthority k = bu_authority k"

definition UnpackMsgBurn :: "'x BurnKeeper \<Rightarrow> Any \<Rightarrow> MsgBurn outcome" where
  "UnpackMsgBurn k msg = bindO (bu_UnpackAny k msg) (\<lambda>m. case m of
      SdkMsgBurn b \<Rightarrow> Ok b
    | SdkMsgOther \<Rightarrow> Err ErrUnpackAny)"

section \<open>The store\<close>

definition burn_lookup :: "'x Ctx \<Rightarrow> uint64 \<Rightarrow> BurnProposal option" where
  "burn_lookup c pid = kv_get (burn_kv c) pid"

definition burn_put :: "uint64 \<Rightarrow> BurnProposal \<Rightarrow> 'x Ctx \<Rightarrow> 'x Ctx" where
  "burn_put pid p c = c\<lparr>burn_kv := kv_set pid p (burn_kv c)\<rparr>"

definition burn_remove :: "uint64 \<Rightarrow> 'x Ctx \<Rightarrow> 'x Ctx" where
  "burn_remove pid c = c\<lparr>burn_kv := kv_delete pid (burn_kv c)\<rparr>"

text \<open>\<open>OngoingBurnProposals.Get\<close>: a missing key is \<open>collections.ErrNotFound\<close>.\<close>

definition burn_get :: "uint64 \<Rightarrow> ('x Ctx, BurnProposal) M" where
  "burn_get pid = bindM (getsM (\<lambda>c. burn_lookup c pid)) (\<lambda>r. case r of
      None \<Rightarrow> throw ErrNotFound
    | Some p \<Rightarrow> ret p)"

text \<open>\<open>Walk\<close> over the map in key order; the callback returns whether to stop.\<close>

primrec walk_burn :: "(BurnProposal \<Rightarrow> 'b \<Rightarrow> bool \<times> 'b) \<Rightarrow> (uint64, BurnProposal) kv \<Rightarrow> 'b \<Rightarrow> 'b" where
  "walk_burn cb [] b = b"
| "walk_burn cb (e # es) b = (case cb (snd e) b of
      (True, b') \<Rightarrow> b'
    | (False, b') \<Rightarrow> walk_burn cb es b')"

definition IterateAllOngoingBurnProposals ::
    "(BurnProposal \<Rightarrow> 'b \<Rightarrow> bool \<times> 'b) \<Rightarrow> 'b \<Rightarrow> ('x Ctx, 'b) M" where
  "IterateAllOngoingBurnProposals cb b = getsM (\<lambda>c. walk_burn cb (burn_kv c) b)"

definition GetAllOngoingBurnProposals :: "('x Ctx, BurnProposal list) M" where
  "GetAllOngoingBurnProposals = IterateAllOngoingBurnProposals (\<lambda>p acc. (False, acc @ [p])) []"

section \<open>Governance hooks\<close>

definition submit_one ::
    "'x BurnKeeper \<Rightarrow> uint64 \<Rightarrow> AccAddress \<Rightarrow> Any \<Rightarrow> ('x Ctx, unit) M" where
  "submit_one k pid proposer msg = (case UnpackMsgBurn k msg of
      Err _ \<Rightarrow> ret ()
    | Panic p \<Rightarrow> panic p
    | Ok b \<Rightarrow>
        thenM (modifyM (burn_put pid \<lparr>bp_ProposalId = pid,
                 bp_Proposer = AccAddress_String (bu_bech32 k) proposer, bp_Amount = mb_Amount b\<rparr>))
          (extM (bu_SendCoinsFromAccountToModule k proposer ''burn'' (mb_Amount b))))"

definition AfterProposalSubmission :: "'x BurnKeeper \<Rightarrow> uint64 \<Rightarrow> ('x Ctx, unit) M" where
  "AfterProposalSubmission k pid =
     bindM (extM (bu_Proposal k pid)) (\<lambda>p.
     bindM (liftO (AccAddressFromBech32 (bu_bech32 k) (pr_Proposer p))) (\<lambda>proposer.
       forM (pr_Messages p) (submit_one k pid proposer)))"

definition AfterProposalDeposit :: "uint64 \<Rightarrow> AccAddress \<Rightarrow> ('x Ctx, unit) M" where
  "AfterProposalDeposit pid depositor = ret ()"

definition AfterProposalVote :: "uint64 \<Rightarrow> AccAddress \<Rightarrow> ('x Ctx, unit) M" where
  "AfterProposalVote pid voter = ret ()"

definition AfterProposalFailedMinDeposit :: "'x BurnKeeper \<Rightarrow> uint64 \<Rightarrow> ('x Ctx, unit) M" where
  "AfterProposalFailedMinDeposit k pid =
     bindM (getsM (\<lambda>c. burn_lookup c pid \<noteq> None)) (\<lambda>has.
     if \<not> has then ret ()
     else bindM (burn_get pid) (\<lambda>bp.
          bindM (liftO (AccAddressFromBech32 (bu_bech32 k) (bp_Proposer bp))) (\<lambda>proposer.
          thenM (extM (bu_SendCoinsFromModuleToAccount k ''burn'' proposer (bp_Amount bp)))
            (modifyM (burn_remove pid)))))"

definition refund_one :: "'x BurnKeeper \<Rightarrow> AccAddress \<Rightarrow> Any \<Rightarrow> ('x Ctx, unit) M" where
  "refund_one k proposer msg = (case UnpackMsgBurn k msg of
      Err _ \<Rightarrow> ret ()
    | Panic p \<Rightarrow> panic p
    | Ok b \<Rightarrow> extM (bu_SendCoinsFromModuleToAccount k ''burn'' proposer (mb_Amount b)))"

definition AfterProposalVotingPeriodEnded :: "'x BurnKeeper \<Rightarrow> uint64 \<Rightarrow> ('x Ctx, unit) M" where
  "AfterProposalVotingPeriodEnded k pid =
     bindM (getsM (\<lambda>c. burn_lookup c pid \<noteq> None)) (\<lambda>has.
     if \<not> has then ret ()
     else bindM (extM (bu_Proposal k pid)) (\<lambda>p.
          thenM (modifyM (burn_remove pid)) (
          if pr_Status p = StatusPassed then ret ()
          else bindM (liftO (AccAddressFromBech32 (bu_bech32 k) (pr_Proposer p))) (\<lambda>proposer.
               forM (pr_Messages p) (refund_one k proposer)))))"

section \<open>Message server, genesis, queries\<close>

definition Burn :: "'x BurnKeeper \<Rightarrow> MsgBurn \<Rightarrow> ('x Ctx, unit) M" where
  "Burn k req =
     thenM (guardM (Burn_GetAuthority k = mb_Authority req) ErrInvalidSigner) (
     thenM (guardM (Coins_IsValid (bu_coins k) (mb_Amount req) \<and>
              Coins_IsAllPositive (bu_coins k) (mb_Amount req)) ErrInvalidCoins) (
     extM (bu_BurnCoins k ''burn'' (mb_Amount req))))"

definition Burn_InitGenesis :: "BurnProposal list \<Rightarrow> ('x Ctx, unit) M" where
  "Burn_InitGenesis ps = forM ps (\<lambda>p. modifyM (burn_put (bp_ProposalId p) p))"

definition Burn_ExportGenesis :: "('x Ctx, BurnProposal list) M" where
  "Burn_ExportGenesis = GetAllOngoingBurnProposals"

definition BurnProposal_Validate :: "Bech32 \<Rightarrow> CoinOps \<Rightarrow> BurnProposal \<Rightarrow> unit outcome" where
  "BurnProposal_Validate b co p =
     bindO (guardO (bp_ProposalId p \<noteq> 0) (Error ''proposal ID cannot be 0'')) (\<lambda>_.
     bindO (AccAddressFromBech32 b (bp_Proposer p)) (\<lambda>_.
     Coins_Validate co (bp_Amount p)))"

definition Burn_GenesisState_Validate :: "Bech32 \<Rightarrow> CoinOps \<Rightarrow> BurnProposal list \<Rightarrow> unit outcome" where
  "Burn_GenesisState_Validate b co ps = foldO (\<lambda>p _. BurnProposal_Validate b co p) ps ()"

definition Burn_DefaultGenesisState :: "BurnProposal list" where
  "Burn_DefaultGenesisState = []"

definition Query_OngoingProposals :: "unit option \<Rightarrow> ('x Ctx, BurnProposal list) M" where
  "Query_OngoingProposals req = (case req of
      None \<Rightarrow> throw (ErrInvalidArgument ''empty request'')
    | Some _ \<Rightarrow> GetAllOngoingBurnProposals)"

definition Query_OngoingProposal :: "uint64 option \<Rightarrow> ('x Ctx, string \<times> Coins) M" where
  "Query_OngoingProposal req = (case req of
      None \<Rightarrow> throw (ErrInvalidArgument ''empty request'')
    | Some pid \<Rightarrow> bindM (burn_get pid) (\<lambda>p. ret (bp_Proposer p, bp_Amount p)))"

section \<open>Specification\<close>

text \<open>
  What the bank module documents about the three calls: the balances \<open>acct\<close> of ordinary
  accounts and the balance \<open>esc\<close> of the burn module account, whose address is \<open>addr\<close>.
\<close>

definition burn_bank_laws ::
    "'x BurnKeeper \<Rightarrow> AccAddress \<Rightarrow> ('x \<Rightarrow> bytes \<Rightarrow> string \<Rightarrow> int) \<Rightarrow> ('x \<Rightarrow> string \<Rightarrow> int) \<Rightarrow> bool" where
  "burn_bank_laws k addr acct esc \<longleftrightarrow>
     (\<forall>a cs x y. a \<noteq> addr \<longrightarrow> bu_SendCoinsFromAccountToModule k a ''burn'' cs x = (Ok (), y) \<longrightarrow>
        acct y = (acct x)(a := (\<lambda>d. acct x a d - amount_of cs d)) \<and>
        esc y = (\<lambda>d. esc x d + amount_of cs d)) \<and>
     (\<forall>a cs x y. a \<noteq> addr \<longrightarrow> bu_SendCoinsFromModuleToAccount k ''burn'' a cs x = (Ok (), y) \<longrightarrow>
        acct y = (acct x)(a := (\<lambda>d. acct x a d + amount_of cs d)) \<and>
        esc y = (\<lambda>d. esc x d - amount_of cs d)) \<and>
     (\<forall>cs x y. bu_BurnCoins k ''burn'' cs x = (Ok (), y) \<longrightarrow>
        acct y = acct x \<and> esc y = (\<lambda>d. esc x d - amount_of cs d)) \<and>
     (\<forall>pid x. snd (bu_Proposal k pid x) = x)"

text \<open>The burn messages of a proposal, in order.\<close>

primrec burns_of :: "'x BurnKeeper \<Rightarrow> Any list \<Rightarrow> MsgBurn list" where
  "burns_of k [] = []"
| "burns_of k (m # ms) = (case UnpackMsgBurn k m of Ok b \<Rightarrow> b # burns_of k ms | _ \<Rightarrow> burns_of k ms)"

text \<open>What submission does for one burn message.\<close>

definition submit_burn :: "'x BurnKeeper \<Rightarrow> uint64 \<Rightarrow> AccAddress \<Rightarrow> MsgBurn \<Rightarrow> ('x Ctx, unit) M" where
  "submit_burn k pid a b = thenM (modifyM (burn_put pid \<lparr>bp_ProposalId = pid,
     bp_Proposer = AccAddress_String (bu_bech32 k) a, bp_Amount = mb_Amount b\<rparr>))
       (extM (bu_SendCoinsFromAccountToModule k a ''burn'' (mb_Amount b)))"

definition burn_total :: "(uint64, BurnProposal) kv \<Rightarrow> string \<Rightarrow> int" where
  "burn_total es d = sum_list (map (\<lambda>e. amount_of (bp_Amount (snd e)) d) es)"

text \<open>
  The life of burn proposals that carry one burn message each, with the free coins \<open>g\<close> of the
  module account: what it held at the start and what others sent to it since, less what was burnt
  without a record.  A proposal id is submitted once; it then fails its deposit, is rejected, or
  passes, in which case the governance module executes the message and calls the hook; the
  proposal's messages and proposer do not change in between.  An expedited proposal that fails is
  treated like a rejected one by the hook and may still pass later as a regular one, without a
  record.  Other transactions may change anything but this module's store.
\<close>

inductive burn_reach ::
    "'x BurnKeeper \<Rightarrow> AccAddress \<Rightarrow> ('x \<Rightarrow> string \<Rightarrow> int) \<Rightarrow> (string \<Rightarrow> int) \<Rightarrow> 'x Ctx \<Rightarrow> bool"
  for k addr esc where
  br_init: "burn_kv c = [] \<Longrightarrow> burn_reach k addr esc (esc (ext c)) c"
| br_submit: "burn_reach k addr esc g c \<Longrightarrow> burn_lookup c pid = None \<Longrightarrow>
    fst (bu_Proposal k pid (ext c)) = Ok p \<Longrightarrow> burns_of k (pr_Messages p) = [b] \<Longrightarrow>
    AccAddressFromBech32 (bu_bech32 k) (pr_Proposer p) \<noteq> Ok addr \<Longrightarrow>
    AfterProposalSubmission k pid c = (Ok (), d) \<Longrightarrow> burn_reach k addr esc g d"
| br_deposit_failed: "burn_reach k addr esc g c \<Longrightarrow>
    \<forall>bp. burn_lookup c pid = Some bp \<longrightarrow> AccAddressFromBech32 (bu_bech32 k) (bp_Proposer bp) \<noteq> Ok addr \<Longrightarrow>
    AfterProposalFailedMinDeposit k pid c = (Ok (), d) \<Longrightarrow> burn_reach k addr esc g d"
| br_rejected: "burn_reach k addr esc g c \<Longrightarrow> burn_lookup c pid = Some bp \<Longrightarrow>
    fst (bu_Proposal k pid (ext c)) = Ok p \<Longrightarrow> pr_Status p \<noteq> StatusPassed \<Longrightarrow>
    burns_of k (pr_Messages p) = [b] \<Longrightarrow> mb_Amount b = bp_Amount bp \<Longrightarrow>
    AccAddressFromBech32 (bu_bech32 k) (pr_Proposer p) \<noteq> Ok addr \<Longrightarrow>
    AfterProposalVotingPeriodEnded k pid c = (Ok (), d) \<Longrightarrow> burn_reach k addr esc g d"
| br_passed: "burn_reach k addr esc g c \<Longrightarrow> burn_lookup c pid = Some bp \<Longrightarrow>
    mb_Amount b = bp_Amount bp \<Longrightarrow> Burn k b c = (Ok (), c') \<Longrightarrow>
    fst (bu_Proposal k pid (ext c')) = Ok p \<Longrightarrow> pr_Status p = StatusPassed \<Longrightarrow>
    AfterProposalVotingPeriodEnded k pid c' = (Ok (), d) \<Longrightarrow> burn_reach k addr esc g d"
| br_unrecorded: "burn_reach k addr esc g c \<Longrightarrow> burn_lookup c pid = None \<Longrightarrow> Burn k b c = (Ok (), c') \<Longrightarrow>
    AfterProposalVotingPeriodEnded k pid c' = (Ok (), d) \<Longrightarrow>
    burn_reach k addr esc (\<lambda>dn. g dn - amount_of (mb_Amount b) dn) d"
| br_other: "burn_reach k addr esc g c \<Longrightarrow> burn_kv d = burn_kv c \<Longrightarrow>
    burn_reach k addr esc (\<lambda>dn. g dn + esc (ext d) dn - esc (ext c) dn) d"

section \<open>A reference keeper\<close>

record RefBank =
  rb_acct :: "bytes \<Rightarrow> string \<Rightarrow> int"
  rb_esc :: "string \<Rightarrow> int"
  rb_status :: ProposalStatus
  rb_msgs :: "Any list"

definition rb_in :: "AccAddress \<Rightarrow> string \<Rightarrow> Coins \<Rightarrow> (RefBank, unit) M" where
  "rb_in a m cs = modifyM (\<lambda>x. x\<lparr>
     rb_acct := (rb_acct x)(a := (\<lambda>d. rb_acct x a d - amount_of cs d)),
     rb_esc := (\<lambda>d. rb_esc x d + amount_of cs d)\<rparr>)"

definition rb_out :: "string \<Rightarrow> AccAddress \<Rightarrow> Coins \<Rightarrow> (RefBank, unit) M" where
  "rb_out m a cs = modifyM (\<lambda>x. x\<lparr>
     rb_acct := (rb_acct x)(a := (\<lambda>d. rb_acct x a d + amount_of cs d)),
     rb_esc := (\<lambda>d. rb_esc x d - amount_of cs d)\<rparr>)"

definition rb_unpack :: "Any \<Rightarrow> SdkMsg outcome" where
  "rb_unpack a = (if a_TypeUrl a = ''burn'' then
     Ok (SdkMsgBurn \<lparr>mb_Authority = ''gov'',
       mb_Amount = [\<lparr>Denom = ''axpla'', Amount = sum_list (map uint (a_Value a))\<rparr>]\<rparr>)
     else Ok SdkMsgOther)"

definition ref_bk :: "RefBank BurnKeeper" where
  "ref_bk = \<lparr>bu_BurnCoins = (\<lambda>m cs. modifyM (\<lambda>x. x\<lparr>rb_esc := (\<lambda>d. rb_esc x d - amount_of cs d)\<rparr>)),
     bu_SendCoinsFromAccountToModule = rb_in, bu_SendCoinsFromModuleToAccount = rb_out,
     bu_Proposal = (\<lambda>pid. getsM (\<lambda>x. \<lparr>pr_Messages = rb_msgs x, pr_Status = rb_status x, pr_Proposer = ''p''\<rparr>)),
     bu_UnpackAny = rb_unpack, bu_authority = ''gov'', bu_bech32 = ref_bech32, bu_coins = ref_coins\<rparr>"

definition ref_burn_any :: "byte \<Rightarrow> Any" where
  "ref_burn_any n = \<lparr>a_TypeUrl = ''burn'', a_Value = [n]\<rparr>"

definition ref_burn_ctx :: "Any list \<Rightarrow> RefBank Ctx" where
  "ref_burn_ctx ms = ref_ctx \<lparr>rb_acct = (\<lambda>a d. 100), rb_esc = (\<lambda>_. 0), rb_status = StatusRejected, rb_msgs = ms\<rparr>"

section \<open>The store contract\<close>

interpretation burn_store: keyed_store burn_lookup burn_put burn_remove "\<lambda>c. kv_ok (burn_kv c)"
  by unfold_locales
    (auto simp: burn_lookup_def burn_put_def burn_remove_def fun_eq_iff
      kv_get_set kv_get_delete intro: kv_ok_set kv_ok_delete)

section \<open>Escrow\<close>

lemma unpack_forM:
  assumes "\<And>m. f m = (case UnpackMsgBurn k m of Err _ \<Rightarrow> ret () | Panic p \<Rightarrow> panic p | Ok b \<Rightarrow> g b)"
    and "forM ms f c = (Ok (), d)"
  shows "forM (burns_of k ms) g c = (Ok (), d)"
  using assms(2)
proof (induction ms arbitrary: c)
  case (Cons m ms)
  then show ?case by (cases "UnpackMsgBurn k m") (auto simp: assms(1) bindM_eq_Ok)
qed simp

lemma law_proposal:
  assumes "burn_bank_laws k addr acct esc" "fst (bu_Proposal k pid (ext c)) = Ok p"
  shows "extM (bu_Proposal k pid) c = (Ok p, c)"
proof -
  have "snd (bu_Proposal k pid (ext c)) = ext c" using assms(1) by (simp add: burn_bank_laws_def)
  with assms(2) show ?thesis by (simp add: extM_apply split_def)
qed

lemma submission_burns:
  assumes laws: "burn_bank_laws k addr acct esc" and run: "AfterProposalSubmission k pid c = (Ok (), d)"
    and p: "fst (bu_Proposal k pid (ext c)) = Ok p"
  obtains a where "AccAddressFromBech32 (bu_bech32 k) (pr_Proposer p) = Ok a"
    "forM (burns_of k (pr_Messages p)) (submit_burn k pid a) c = (Ok (), d)"
proof -
  note rd = law_proposal [OF laws p]
  from run obtain a where a: "AccAddressFromBech32 (bu_bech32 k) (pr_Proposer p) = Ok a"
      and loop: "forM (pr_Messages p) (submit_one k pid a) c = (Ok (), d)"
    by (cases "AccAddressFromBech32 (bu_bech32 k) (pr_Proposer p)")
      (auto simp: AfterProposalSubmission_def bindM_Ok rd)
  have "forM (burns_of k (pr_Messages p)) (submit_burn k pid a) c = (Ok (), d)"
    by (rule unpack_forM [OF _ loop]) (simp add: submit_one_def submit_burn_def split: outcome.split)
  with a that show thesis by blast
qed

lemma ended_refunds:
  assumes laws: "burn_bank_laws k addr acct esc" and run: "AfterProposalVotingPeriodEnded k pid c = (Ok (), d)"
    and p: "fst (bu_Proposal k pid (ext c)) = Ok p" "pr_Status p \<noteq> StatusPassed" and has: "burn_lookup c pid \<noteq> None"
  obtains a where "AccAddressFromBech32 (bu_bech32 k) (pr_Proposer p) = Ok a"
    "forM (burns_of k (pr_Messages p))
       (\<lambda>b. extM (bu_SendCoinsFromModuleToAccount k ''burn'' a (mb_Amount b))) (burn_remove pid c) = (Ok (), d)"
proof -
  note rd = law_proposal [OF laws p(1)]
  from run obtain a where a: "AccAddressFromBech32 (bu_bech32 k) (pr_Proposer p) = Ok a"
      and loop: "forM (pr_Messages p) (refund_one k a) (burn_remove pid c) = (Ok (), d)"
    using has p(2) by (cases "AccAddressFromBech32 (bu_bech32 k) (pr_Proposer p)")
      (auto simp: AfterProposalVotingPeriodEnded_def bindM_Ok rd thenM_def)
  have "forM (burns_of k (pr_Messages p))
       (\<lambda>b. extM (bu_SendCoinsFromModuleToAccount k ''burn'' a (mb_Amount b))) (burn_remove pid c) = (Ok (), d)"
    by (rule unpack_forM [OF _ loop]) (simp add: refund_one_def)
  with a that show thesis by blast
qed

lemma law_in:
  assumes "burn_bank_laws k addr acct esc" "a \<noteq> addr"
    and "bu_SendCoinsFromAccountToModule k a ''burn'' cs x = (Ok (), y)"
  shows "acct y = (acct x)(a := (\<lambda>d. acct x a d - amount_of cs d)) \<and> esc y = (\<lambda>d. esc x d + amount_of cs d)"
  using assms unfolding burn_bank_laws_def by blast

lemma law_out:
  assumes "burn_bank_laws k addr acct esc" "a \<noteq> addr"
    and "bu_SendCoinsFromModuleToAccount k ''burn'' a cs x = (Ok (), y)"
  shows "acct y = (acct x)(a := (\<lambda>d. acct x a d + amount_of cs d)) \<and> esc y = (\<lambda>d. esc x d - amount_of cs d)"
  using assms unfolding burn_bank_laws_def by blast

lemma law_burn:
  assumes "burn_bank_laws k addr acct esc" "bu_BurnCoins k ''burn'' cs x = (Ok (), y)"
  shows "acct y = acct x \<and> esc y = (\<lambda>d. esc x d - amount_of cs d)"
  using assms unfolding burn_bank_laws_def by blast

lemma burn_total_set:
  assumes "kv_ok es" "kv_get es pid = None"
  shows "burn_total (kv_set pid p es) d = burn_total es d + amount_of (bp_Amount p) d"
  using assms by (induction es) (auto simp: burn_total_def kv_ok_Cons kv_get_def split: if_splits)

lemma burn_total_delete:
  assumes "kv_ok es" "kv_get es pid = Some p"
  shows "burn_total (kv_delete pid es) d = burn_total es d - amount_of (bp_Amount p) d"
  using assms
proof (induction es)
  case (Cons e es)
  show ?case
  proof (cases "fst e = pid")
    case True
    with Cons.prems(1) have "filter (\<lambda>e. fst e \<noteq> pid) es = es" by (auto simp: filter_id_conv kv_ok_Cons)
    with True Cons.prems(2) show ?thesis by (cases e) (auto simp: burn_total_def kv_delete_def kv_get_def)
  next
    case False
    with Cons show ?thesis by (cases e) (auto simp: burn_total_def kv_delete_def kv_get_def kv_ok_Cons)
  qed
qed simp

lemma Burn_Ok:
  assumes "Burn k b c = (Ok (), d)"
  shows "Burn_GetAuthority k = mb_Authority b \<and> Coins_IsValid (bu_coins k) (mb_Amount b) \<and>
    Coins_IsAllPositive (bu_coins k) (mb_Amount b) \<and>
    (\<exists>x. bu_BurnCoins k ''burn'' (mb_Amount b) (ext c) = (Ok (), x) \<and> d = c\<lparr>ext := x\<rparr>)"
  using assms by (auto simp: Burn_def thenM_def extM_eq split: if_splits)

lemma escrow_step_submit:
  assumes laws: "burn_bank_laws k addr acct esc" and ok: "kv_ok (burn_kv c)" "burn_lookup c pid = None"
    and p: "fst (bu_Proposal k pid (ext c)) = Ok p" "burns_of k (pr_Messages p) = [b]"
    and a: "AccAddressFromBech32 (bu_bech32 k) (pr_Proposer p) \<noteq> Ok addr"
    and run: "AfterProposalSubmission k pid c = (Ok (), d)"
  shows "kv_ok (burn_kv d) \<and> (\<forall>dn. esc (ext d) dn - burn_total (burn_kv d) dn = esc (ext c) dn - burn_total (burn_kv c) dn)"
proof -
  from submission_burns [OF laws run p(1)] p(2) obtain a' where
    a': "AccAddressFromBech32 (bu_bech32 k) (pr_Proposer p) = Ok a'" and
    one: "submit_burn k pid a' b c = (Ok (), d)" by (auto simp: bindM_eq_Ok)
  let ?p = "\<lparr>bp_ProposalId = pid, bp_Proposer = AccAddress_String (bu_bech32 k) a', bp_Amount = mb_Amount b\<rparr>"
  from one obtain x where send: "bu_SendCoinsFromAccountToModule k a' ''burn'' (mb_Amount b) (ext c) = (Ok (), x)"
      and d: "d = (burn_put pid ?p c)\<lparr>ext := x\<rparr>"
    by (auto simp: submit_burn_def thenM_def extM_eq burn_put_def)
  have "a' \<noteq> addr" using a a' by auto
  from law_in [OF laws this send] d ok burn_total_set [of "burn_kv c" pid ?p] show ?thesis
    by (auto simp: burn_put_def burn_lookup_def intro: kv_ok_set)
qed

lemma escrow_remove:
  assumes "kv_ok (burn_kv c)" "burn_lookup c pid = Some bp"
    and "burn_kv d = kv_delete pid (burn_kv c)"
    and "esc (ext d) = (\<lambda>dn. esc (ext c) dn - amount_of (bp_Amount bp) dn)"
  shows "kv_ok (burn_kv d) \<and> (\<forall>dn. esc (ext d) dn - burn_total (burn_kv d) dn = esc (ext c) dn - burn_total (burn_kv c) dn)"
  using assms burn_total_delete [OF assms(1)] by (auto simp: burn_lookup_def intro: kv_ok_delete)

lemma burn_reach_escrow:
  assumes laws: "burn_bank_laws k addr acct esc" and "burn_reach k addr esc g c"
  shows "kv_ok (burn_kv c) \<and> (\<forall>dn. esc (ext c) dn - burn_total (burn_kv c) dn = g dn)"
  using assms(2)
proof induction
  case (br_init c)
  then show ?case by (simp add: burn_total_def)
next
  case (br_submit g c pid p b d)
  then show ?case using escrow_step_submit [OF laws] by metis
next
  case (br_deposit_failed g c pid d)
  show ?case
  proof (cases "burn_lookup c pid")
    case None
    with br_deposit_failed show ?thesis by (simp add: AfterProposalFailedMinDeposit_def bindM_def)
  next
    case (Some bp)
    with br_deposit_failed(3) obtain a x where a: "AccAddressFromBech32 (bu_bech32 k) (bp_Proposer bp) = Ok a"
        and send: "bu_SendCoinsFromModuleToAccount k ''burn'' a (bp_Amount bp) (ext c) = (Ok (), x)"
        and d: "d = burn_remove pid (c\<lparr>ext := x\<rparr>)"
      by (cases "AccAddressFromBech32 (bu_bech32 k) (bp_Proposer bp)")
        (auto simp: AfterProposalFailedMinDeposit_def burn_get_def bindM_Ok thenM_extM_eq)
    have "a \<noteq> addr" using a Some br_deposit_failed(2) by auto
    from law_out [OF laws this send] d
      escrow_remove [where c = c and d = d and esc = esc, OF conjunct1 [OF br_deposit_failed.IH] Some]
      br_deposit_failed.IH
    show ?thesis by (simp add: burn_remove_def)
  qed
next
  case (br_rejected g c pid bp p b d)
  then have has: "burn_lookup c pid \<noteq> None" by simp
  obtain a where a: "AccAddressFromBech32 (bu_bech32 k) (pr_Proposer p) = Ok a" and
    loop: "forM (burns_of k (pr_Messages p))
       (\<lambda>b. extM (bu_SendCoinsFromModuleToAccount k ''burn'' a (mb_Amount b))) (burn_remove pid c) = (Ok (), d)"
    by (rule ended_refunds [OF laws br_rejected(8,3,4) has])
  from loop br_rejected(5) obtain x where
    send: "bu_SendCoinsFromModuleToAccount k ''burn'' a (mb_Amount b) (ext (burn_remove pid c)) = (Ok (), x)" and
    d: "d = (burn_remove pid c)\<lparr>ext := x\<rparr>"
    by (auto simp: extM_eq)
  have "a \<noteq> addr" using a br_rejected(7) by auto
  from law_out [OF laws this send] d br_rejected(6)
    escrow_remove [where c = c and d = d and esc = esc, OF conjunct1 [OF br_rejected.IH] br_rejected(2)]
    br_rejected.IH
  show ?case by (simp add: burn_remove_def)
next
  case (br_passed g c pid bp b c' p d)
  from Burn_Ok [OF br_passed(4)] obtain x where
    burn: "bu_BurnCoins k ''burn'' (mb_Amount b) (ext c) = (Ok (), x)" and c': "c' = c\<lparr>ext := x\<rparr>" by blast
  have rd: "extM (bu_Proposal k pid) c' = (Ok p, c')" by (rule law_proposal [OF laws br_passed(5)])
  have "burn_lookup c' pid = Some bp" using br_passed(2) c' by (simp add: burn_lookup_def)
  with br_passed(6,7) rd have d: "d = burn_remove pid c'"
    by (auto simp: AfterProposalVotingPeriodEnded_def bindM_Ok thenM_def)
  from law_burn [OF laws burn] c' d br_passed(3)
    escrow_remove [where c = c and d = d and esc = esc, OF conjunct1 [OF br_passed.IH] br_passed(2)]
    br_passed.IH
  show ?case by (simp add: burn_remove_def)
next
  case (br_unrecorded g c pid b c' d)
  from Burn_Ok [OF br_unrecorded(3)] obtain x where
    burn: "bu_BurnCoins k ''burn'' (mb_Amount b) (ext c) = (Ok (), x)" and c': "c' = c\<lparr>ext := x\<rparr>" by blast
  have "burn_lookup c' pid = None" using br_unrecorded(2) c' by (simp add: burn_lookup_def)
  with br_unrecorded(4) have "d = c'" by (simp add: AfterProposalVotingPeriodEnded_def bindM_def)
  with law_burn [OF laws burn] c' br_unrecorded.IH show ?case by (simp add: algebra_simps)
next
  case (br_other g c d)
  then show ?case by (simp add: algebra_simps)
qed

lemma submit_loop:
  assumes laws: "burn_bank_laws k addr acct esc" and a: "a \<noteq> addr"
    and "forM bs (submit_burn k pid a) c = (Ok (), d)" "kv_ok (burn_kv c)"
  shows "acct (ext d) = (acct (ext c))(a := (\<lambda>dn. acct (ext c) a dn - (\<Sum>b\<leftarrow>bs. amount_of (mb_Amount b) dn))) \<and>
    esc (ext d) = (\<lambda>dn. esc (ext c) dn + (\<Sum>b\<leftarrow>bs. amount_of (mb_Amount b) dn)) \<and>
    (bs = [] \<longrightarrow> burn_kv d = burn_kv c) \<and> (bs \<noteq> [] \<longrightarrow> (\<exists>q. burn_kv d = kv_set pid q (burn_kv c)))"
  using assms(3,4)
proof (induction bs arbitrary: c)
  case Nil
  then show ?case by (simp add: fun_eq_iff)
next
  case (Cons b bs)
  then obtain c0 where one: "submit_burn k pid a b c = (Ok (), c0)"
      and rest: "forM bs (submit_burn k pid a) c0 = (Ok (), d)" by auto
  from one obtain q x where x: "bu_SendCoinsFromAccountToModule k a ''burn'' (mb_Amount b) (ext c) = (Ok (), x)"
      and c0: "c0 = (burn_put pid q c)\<lparr>ext := x\<rparr>"
    by (auto simp: submit_burn_def thenM_def extM_eq burn_put_def)
  have kv: "burn_kv c0 = kv_set pid q (burn_kv c)" by (simp add: c0 burn_put_def)
  have "kv_ok (burn_kv c0)" unfolding kv by (rule kv_ok_set [OF Cons.prems(2)])
  note IH = Cons.IH [OF rest this]
  have "\<exists>q. burn_kv d = kv_set pid q (burn_kv c)"
    using IH unfolding kv by (cases "bs = []") (auto simp: kv_set_set [OF Cons.prems(2)])
  with IH law_in [OF laws a x] c0 show ?case by (auto simp: fun_eq_iff)
qed

lemma refund_loop:
  assumes laws: "burn_bank_laws k addr acct esc" and a: "a \<noteq> addr"
    and "forM bs (\<lambda>b. extM (bu_SendCoinsFromModuleToAccount k ''burn'' a (mb_Amount b))) c = (Ok (), d)"
  shows "acct (ext d) = (acct (ext c))(a := (\<lambda>dn. acct (ext c) a dn + (\<Sum>b\<leftarrow>bs. amount_of (mb_Amount b) dn))) \<and>
    esc (ext d) = (\<lambda>dn. esc (ext c) dn - (\<Sum>b\<leftarrow>bs. amount_of (mb_Amount b) dn)) \<and> burn_kv d = burn_kv c"
  using assms(3)
proof (induction bs arbitrary: c)
  case Nil
  then show ?case by (simp add: fun_eq_iff)
next
  case (Cons b bs)
  then obtain x where x: "bu_SendCoinsFromModuleToAccount k ''burn'' a (mb_Amount b) (ext c) = (Ok (), x)"
      and rest: "forM bs (\<lambda>b. extM (bu_SendCoinsFromModuleToAccount k ''burn'' a (mb_Amount b))) (c\<lparr>ext := x\<rparr>) = (Ok (), d)"
    by (auto simp: bindM_extM_eq)
  with Cons.IH [OF rest] law_out [OF laws a x] show ?case by (auto simp: fun_eq_iff)
qed

lemma walk_collect: "walk_burn (\<lambda>p acc. (False, acc @ [p])) es acc = acc @ map snd es"
  by (induction es arbitrary: acc) auto

lemma burn_init_entries:
  "\<forall>e \<in> set es. bp_ProposalId (snd e) = fst e \<Longrightarrow> Burn_InitGenesis (map snd es) c =
    (Ok (), c\<lparr>burn_kv := fold (\<lambda>e. kv_set (fst e) (snd e)) es (burn_kv c)\<rparr>)"
  by (induction es arbitrary: c) (auto simp: Burn_InitGenesis_def bindM_def burn_put_def)

text \<open>A refund undoes the submission, however many burn messages there are.\<close>

lemma refund_restores:
  assumes laws: "burn_bank_laws k addr acct esc"
    and "fst (bu_Proposal k pid (ext c)) = Ok p" "burns_of k (pr_Messages p) \<noteq> []"
    and "AccAddressFromBech32 (bu_bech32 k) (pr_Proposer p) = Ok a" "a \<noteq> addr"
    and "kv_ok (burn_kv c)" "burn_lookup c pid = None"
    and "AfterProposalSubmission k pid c = (Ok (), c1)"
    and "fst (bu_Proposal k pid (ext c1)) = Ok (p\<lparr>pr_Status := st\<rparr>)" "st \<noteq> StatusPassed"
    and "AfterProposalVotingPeriodEnded k pid c1 = (Ok (), d)"
  shows "acct (ext d) = acct (ext c) \<and> esc (ext d) = esc (ext c) \<and> burn_kv d = burn_kv c"
proof -
  let ?bs = "burns_of k (pr_Messages p)"
  have "forM ?bs (submit_burn k pid a) c = (Ok (), c1)"
    using submission_burns [OF laws assms(8,2)] assms(4) by (metis outcome.inject(1))
  note s = submit_loop [OF laws assms(5) this assms(6)]
  then obtain q where kv: "burn_kv c1 = kv_set pid q (burn_kv c)" using assms(3) by blast
  have has: "burn_lookup c1 pid \<noteq> None" by (simp add: burn_lookup_def kv kv_get_set)
  have st: "pr_Status (p\<lparr>pr_Status := st\<rparr>) \<noteq> StatusPassed" using assms(10) by simp
  obtain a' where a': "AccAddressFromBech32 (bu_bech32 k) (pr_Proposer (p\<lparr>pr_Status := st\<rparr>)) = Ok a'"
    and loop: "forM (burns_of k (pr_Messages (p\<lparr>pr_Status := st\<rparr>)))
       (\<lambda>b. extM (bu_SendCoinsFromModuleToAccount k ''burn'' a' (mb_Amount b))) (burn_remove pid c1) = (Ok (), d)"
    by (rule ended_refunds [OF laws assms(11,9) st has])
  have "a' = a" using a' assms(4) by simp
  with loop have "forM ?bs (\<lambda>b. extM (bu_SendCoinsFromModuleToAccount k ''burn'' a (mb_Amount b)))
      (burn_remove pid c1) = (Ok (), d)" by simp
  note r = refund_loop [OF laws assms(5) this]
  have "kv_delete pid (burn_kv c1) = burn_kv c"
    unfolding kv using assms(6,7) by (intro kv_delete_set) (auto simp: burn_lookup_def)
  with s r show ?thesis by (auto simp: burn_remove_def fun_eq_iff)
qed

lemma ref_bank_laws: "burn_bank_laws ref_bk [0] rb_acct rb_esc"
  by (auto simp: burn_bank_laws_def ref_bk_def rb_in_def rb_out_def)

section \<open>Properties\<close>

text \<open>C30: The escrow is exact: through every history of burn proposals with one burn message
  each, the module account holds, in every denomination, precisely the sum of the amounts of
  the ongoing proposals and the free coins: what it held at the start, plus what others sent to
  it, minus what proposals without a record burnt.  So it holds exactly the sum when nobody else
  moves its coins and no proposal's voting ends twice.\<close>

theorem escrow_matches_ongoing:
  assumes "burn_bank_laws k addr acct esc" "burn_reach k addr esc g c"
  shows "esc (ext c) dn = burn_total (burn_kv c) dn + g dn"
  using burn_reach_escrow [OF assms] by (simp add: algebra_simps)

theorem escrow_matches_ongoing_witness:
  "rb_esc (ext (snd (AfterProposalSubmission ref_bk 1 (ref_burn_ctx [ref_burn_any 7])))) ''axpla'' = 7"
proof -
  let ?c = "ref_burn_ctx [ref_burn_any 7]"
  let ?d = "snd (AfterProposalSubmission ref_bk 1 ?c)"
  let ?p = "\<lparr>pr_Messages = [ref_burn_any 7], pr_Status = StatusRejected, pr_Proposer = ''p''\<rparr>"
  have run: "AfterProposalSubmission ref_bk 1 ?c = (Ok (), ?d)" by (rule is_Ok_run) code_simp
  have "burn_reach ref_bk [0] rb_esc (rb_esc (ext ?c)) ?c" by (rule br_init) (simp add: ref_burn_ctx_def ref_ctx_def)
  then have "burn_reach ref_bk [0] rb_esc (rb_esc (ext ?c)) ?d"
  proof (rule br_submit [OF _ _ _ _ _ run])
    show "burn_lookup ?c 1 = None" by (simp add: burn_lookup_def ref_burn_ctx_def ref_ctx_def)
    show "fst (bu_Proposal ref_bk 1 (ext ?c)) = Ok ?p" by (simp add: ref_bk_def ref_burn_ctx_def ref_ctx_def)
    show "burns_of ref_bk (pr_Messages ?p) = [\<lparr>mb_Authority = ''gov'', mb_Amount = [\<lparr>Denom = ''axpla'', Amount = 7\<rparr>]\<rparr>]"
      by code_simp
    show "AccAddressFromBech32 (bu_bech32 ref_bk) (pr_Proposer ?p) \<noteq> Ok [0]" by code_simp
  qed
  from escrow_matches_ongoing [OF ref_bank_laws this, of "''axpla''"]
  have "rb_esc (ext ?d) ''axpla'' = burn_total (burn_kv ?d) ''axpla''"
    by (simp add: ref_burn_ctx_def ref_ctx_def)
  moreover have "burn_total (burn_kv ?d) ''axpla'' = 7" by code_simp
  ultimately show ?thesis by simp
qed

text \<open>C36: A proposal that carries several burn messages and misses its deposit gets back only
  the last one: all amounts went into escrow, one comes out, the entry is gone, and the sum of the
  others stays in the module account at the proposer's cost.\<close>

theorem failed_deposit_refunds_last_only:
  assumes laws: "burn_bank_laws k addr acct esc" and codec: "acc_codec_laws (bu_bech32 k)"
    and "fst (bu_Proposal k pid (ext c)) = Ok p" "burns_of k (pr_Messages p) = bs @ [b]"
    and "AccAddressFromBech32 (bu_bech32 k) (pr_Proposer p) = Ok a" "a \<noteq> addr" "kv_ok (burn_kv c)"
    and "AfterProposalSubmission k pid c = (Ok (), c1)" "AfterProposalFailedMinDeposit k pid c1 = (Ok (), d)"
  shows "burn_lookup d pid = None \<and>
    esc (ext d) dn = esc (ext c) dn + (\<Sum>m\<leftarrow>bs. amount_of (mb_Amount m) dn) \<and>
    acct (ext d) a dn = acct (ext c) a dn - (\<Sum>m\<leftarrow>bs. amount_of (mb_Amount m) dn)"
proof -
  from submission_burns [OF laws assms(8,3)] assms(4,5) obtain c0 where
    s1: "forM bs (submit_burn k pid a) c = (Ok (), c0)" and s2: "submit_burn k pid a b c0 = (Ok (), c1)"
    by (auto simp: forM_append bindM_eq_Ok)
  note loop = submit_loop [OF laws assms(6) s1 assms(7)]
  let ?p = "\<lparr>bp_ProposalId = pid, bp_Proposer = AccAddress_String (bu_bech32 k) a, bp_Amount = mb_Amount b\<rparr>"
  from s2 obtain y where y: "bu_SendCoinsFromAccountToModule k a ''burn'' (mb_Amount b) (ext c0) = (Ok (), y)"
      and c1: "c1 = (burn_put pid ?p c0)\<lparr>ext := y\<rparr>"
    by (auto simp: submit_burn_def thenM_def extM_eq burn_put_def)
  have look: "burn_lookup c1 pid = Some ?p"
    unfolding c1 by (simp add: burn_lookup_def burn_put_def kv_get_set)
  have parse: "AccAddressFromBech32 (bu_bech32 k) (AccAddress_String (bu_bech32 k) a) = Ok a"
    using codec assms(5) by (auto simp: acc_codec_laws_def)
  from assms(9) look parse obtain z where
    z: "bu_SendCoinsFromModuleToAccount k ''burn'' a (mb_Amount b) (ext c1) = (Ok (), z)" and
    d: "d = burn_remove pid (c1\<lparr>ext := z\<rparr>)"
    by (auto simp: AfterProposalFailedMinDeposit_def burn_get_def bindM_Ok thenM_extM_eq)
  have "burn_lookup d pid = None" unfolding d by (simp add: burn_lookup_def burn_remove_def kv_get_delete)
  with loop law_in [OF laws assms(6) y] law_out [OF laws assms(6) z]
  show ?thesis by (simp add: c1 d burn_put_def burn_remove_def)
qed

theorem failed_deposit_refunds_last_only_witness:
  "rb_esc (ext (snd (AfterProposalFailedMinDeposit ref_bk 1
     (snd (AfterProposalSubmission ref_bk 1 (ref_burn_ctx [ref_burn_any 7, ref_burn_any 5])))))) ''axpla'' = 7"
proof -
  let ?c = "ref_burn_ctx [ref_burn_any 7, ref_burn_any 5]"
  let ?c1 = "snd (AfterProposalSubmission ref_bk 1 ?c)"
  let ?d = "snd (AfterProposalFailedMinDeposit ref_bk 1 ?c1)"
  let ?p = "\<lparr>pr_Messages = [ref_burn_any 7, ref_burn_any 5], pr_Status = StatusRejected, pr_Proposer = ''p''\<rparr>"
  let ?b = "\<lambda>n. \<lparr>mb_Authority = ''gov'', mb_Amount = [\<lparr>Denom = ''axpla'', Amount = n\<rparr>]\<rparr>"
  have r1: "AfterProposalSubmission ref_bk 1 ?c = (Ok (), ?c1)" by (rule is_Ok_run) code_simp
  have r2: "AfterProposalFailedMinDeposit ref_bk 1 ?c1 = (Ok (), ?d)" by (rule is_Ok_run) code_simp
  have p: "fst (bu_Proposal ref_bk 1 (ext ?c)) = Ok ?p" by (simp add: ref_bk_def ref_burn_ctx_def ref_ctx_def)
  have b: "burns_of ref_bk (pr_Messages ?p) = [?b 7] @ [?b 5]" by code_simp
  have a: "AccAddressFromBech32 (bu_bech32 ref_bk) (pr_Proposer ?p) = Ok [112]" by code_simp
  have codec: "acc_codec_laws (bu_bech32 ref_bk)" by (simp add: ref_bk_def ref_acc_laws)
  from failed_deposit_refunds_last_only [OF ref_bank_laws codec p b a _ _ r1 r2, of "''axpla''"]
  show ?thesis by (simp add: ref_burn_ctx_def ref_ctx_def amount_of_def)
qed

text \<open>C37: An expedited proposal that fails first and passes later burns other people's coins.
  When its first voting period ends the hook refunds the proposer in full and removes the record;
  when it then passes as a regular proposal the message burns the amount again from the module
  account.  In the end the proposer has paid nothing, the records are those before the submission,
  and the escrow lacks the burnt amount.\<close>

theorem expedited_burns_others:
  assumes laws: "burn_bank_laws k addr acct esc"
    and "fst (bu_Proposal k pid (ext c)) = Ok p" "burns_of k (pr_Messages p) = [b]"
    and "AccAddressFromBech32 (bu_bech32 k) (pr_Proposer p) = Ok a" "a \<noteq> addr"
    and "kv_ok (burn_kv c)" "burn_lookup c pid = None"
    and "AfterProposalSubmission k pid c = (Ok (), c1)"
    and "fst (bu_Proposal k pid (ext c1)) = Ok (p\<lparr>pr_Status := st\<rparr>)" "st \<noteq> StatusPassed"
    and "AfterProposalVotingPeriodEnded k pid c1 = (Ok (), c2)"
    and "Burn k b c2 = (Ok (), c3)" "AfterProposalVotingPeriodEnded k pid c3 = (Ok (), d)"
  shows "acct (ext d) = acct (ext c) \<and> burn_kv d = burn_kv c \<and>
    esc (ext d) dn = esc (ext c) dn - amount_of (mb_Amount b) dn"
proof -
  have c2: "acct (ext c2) = acct (ext c) \<and> esc (ext c2) = esc (ext c) \<and> burn_kv c2 = burn_kv c"
    using refund_restores [OF laws assms(2) _ assms(4-11)] assms(3) by simp
  from Burn_Ok [OF assms(12)] obtain x where
    burn: "bu_BurnCoins k ''burn'' (mb_Amount b) (ext c2) = (Ok (), x)" and c3: "c3 = c2\<lparr>ext := x\<rparr>" by blast
  have "burn_lookup c3 pid = None" using assms(7) c2 c3 by (simp add: burn_lookup_def)
  with assms(13) have "d = c3" by (simp add: AfterProposalVotingPeriodEnded_def bindM_def)
  with law_burn [OF laws burn] c2 c3 show ?thesis by simp
qed

theorem expedited_burns_others_witness:
  "let c = (ref_burn_ctx [ref_burn_any 7])\<lparr>ext := (ext (ref_burn_ctx [ref_burn_any 7]))\<lparr>rb_esc := (\<lambda>_. 9)\<rparr>\<rparr>;
       b = \<lparr>mb_Authority = ''gov'', mb_Amount = [\<lparr>Denom = ''axpla'', Amount = 7\<rparr>]\<rparr>;
       c2 = snd (AfterProposalVotingPeriodEnded ref_bk 1 (snd (AfterProposalSubmission ref_bk 1 c)));
       d = snd (AfterProposalVotingPeriodEnded ref_bk 1 (snd (Burn ref_bk b c2))) in
     rb_acct (ext d) = rb_acct (ext c) \<and> rb_esc (ext d) ''axpla'' = 2"
proof -
  let ?c = "(ref_burn_ctx [ref_burn_any 7])\<lparr>ext := (ext (ref_burn_ctx [ref_burn_any 7]))\<lparr>rb_esc := (\<lambda>_. 9)\<rparr>\<rparr>"
  let ?b = "\<lparr>mb_Authority = ''gov'', mb_Amount = [\<lparr>Denom = ''axpla'', Amount = 7\<rparr>]\<rparr>"
  let ?c1 = "snd (AfterProposalSubmission ref_bk 1 ?c)"
  let ?c2 = "snd (AfterProposalVotingPeriodEnded ref_bk 1 ?c1)"
  let ?c3 = "snd (Burn ref_bk ?b ?c2)"
  let ?d = "snd (AfterProposalVotingPeriodEnded ref_bk 1 ?c3)"
  let ?p = "\<lparr>pr_Messages = [ref_burn_any 7], pr_Status = StatusRejected, pr_Proposer = ''p''\<rparr>"
  have r1: "AfterProposalSubmission ref_bk 1 ?c = (Ok (), ?c1)" by (rule is_Ok_run) code_simp
  have r2: "AfterProposalVotingPeriodEnded ref_bk 1 ?c1 = (Ok (), ?c2)" by (rule is_Ok_run) code_simp
  have r3: "Burn ref_bk ?b ?c2 = (Ok (), ?c3)" by (rule is_Ok_run) code_simp
  have r4: "AfterProposalVotingPeriodEnded ref_bk 1 ?c3 = (Ok (), ?d)" by (rule is_Ok_run) code_simp
  have p: "fst (bu_Proposal ref_bk 1 (ext ?c)) = Ok ?p" by (simp add: ref_bk_def ref_burn_ctx_def ref_ctx_def)
  have b: "burns_of ref_bk (pr_Messages ?p) = [?b]" by code_simp
  have a: "AccAddressFromBech32 (bu_bech32 ref_bk) (pr_Proposer ?p) = Ok [112]" by code_simp
  have n: "burn_lookup ?c 1 = None" "kv_ok (burn_kv ?c)"
    by (simp_all add: burn_lookup_def ref_burn_ctx_def ref_ctx_def)
  have p1: "fst (bu_Proposal ref_bk 1 (ext ?c1)) = Ok (?p\<lparr>pr_Status := StatusRejected\<rparr>)" by code_simp
  from expedited_burns_others [OF ref_bank_laws p b a _ n(2,1) r1 p1 _ r2 r3 r4, of "''axpla''"] show ?thesis
    unfolding Let_def by (simp add: ref_burn_ctx_def ref_ctx_def amount_of_def)
qed

text \<open>A rejected proposal is refunded in full, however many burn messages it carries: the
  proposer, the escrow and the record of ongoing proposals are as before the submission.\<close>

theorem rejected_refunds_all:
  assumes laws: "burn_bank_laws k addr acct esc"
    and "fst (bu_Proposal k pid (ext c)) = Ok p" "burns_of k (pr_Messages p) \<noteq> []"
    and "AccAddressFromBech32 (bu_bech32 k) (pr_Proposer p) = Ok a" "a \<noteq> addr"
    and "kv_ok (burn_kv c)" "burn_lookup c pid = None"
    and "AfterProposalSubmission k pid c = (Ok (), c1)"
    and "fst (bu_Proposal k pid (ext c1)) = Ok (p\<lparr>pr_Status := st\<rparr>)" "st \<noteq> StatusPassed"
    and "AfterProposalVotingPeriodEnded k pid c1 = (Ok (), d)"
  shows "acct (ext d) = acct (ext c) \<and> esc (ext d) = esc (ext c) \<and> burn_kv d = burn_kv c"
  by (rule refund_restores [OF assms])

theorem rejected_refunds_all_witness:
  "burn_kv (snd (AfterProposalVotingPeriodEnded ref_bk 1
     (snd (AfterProposalSubmission ref_bk 1 (ref_burn_ctx [ref_burn_any 7, ref_burn_any 5]))))) = []"
proof -
  let ?c = "ref_burn_ctx [ref_burn_any 7, ref_burn_any 5]"
  let ?c1 = "snd (AfterProposalSubmission ref_bk 1 ?c)"
  let ?d = "snd (AfterProposalVotingPeriodEnded ref_bk 1 ?c1)"
  let ?p = "\<lparr>pr_Messages = [ref_burn_any 7, ref_burn_any 5], pr_Status = StatusRejected, pr_Proposer = ''p''\<rparr>"
  have r1: "AfterProposalSubmission ref_bk 1 ?c = (Ok (), ?c1)" by (rule is_Ok_run) code_simp
  have r2: "AfterProposalVotingPeriodEnded ref_bk 1 ?c1 = (Ok (), ?d)" by (rule is_Ok_run) code_simp
  have p: "fst (bu_Proposal ref_bk 1 (ext ?c)) = Ok ?p" by (simp add: ref_bk_def ref_burn_ctx_def ref_ctx_def)
  have b: "burns_of ref_bk (pr_Messages ?p) \<noteq> []" by code_simp
  have a: "AccAddressFromBech32 (bu_bech32 ref_bk) (pr_Proposer ?p) = Ok [112]" by code_simp
  have n: "burn_lookup ?c 1 = None" "kv_ok (burn_kv ?c)"
    by (simp_all add: burn_lookup_def ref_burn_ctx_def ref_ctx_def)
  have p1: "fst (bu_Proposal ref_bk 1 (ext ?c1)) = Ok (?p\<lparr>pr_Status := StatusRejected\<rparr>)" by code_simp
  from rejected_refunds_all [OF ref_bank_laws p b a _ n(2,1) r1 p1 _ r2] show ?thesis
    by (simp add: ref_burn_ctx_def ref_ctx_def)
qed

text \<open>Exporting the ongoing proposals and importing them into an empty module restores the
  store, provided each proposal is stored under its own id, as every submission does.\<close>

theorem burn_genesis_roundtrip:
  assumes "kv_ok (burn_kv c)" "\<forall>e \<in> set (burn_kv c). bp_ProposalId (snd e) = fst e"
  shows "\<exists>gs. Burn_ExportGenesis c = (Ok gs, c) \<and> Burn_InitGenesis gs (c\<lparr>burn_kv := []\<rparr>) = (Ok (), c)"
proof -
  have "Burn_ExportGenesis c = (Ok (map snd (burn_kv c)), c)"
    by (simp add: Burn_ExportGenesis_def GetAllOngoingBurnProposals_def IterateAllOngoingBurnProposals_def walk_collect)
  moreover have "Burn_InitGenesis (map snd (burn_kv c)) (c\<lparr>burn_kv := []\<rparr>) =
      (Ok (), c\<lparr>burn_kv := fold (\<lambda>e. kv_set (fst e) (snd e)) (burn_kv c) []\<rparr>)"
    using assms(2) by (simp add: burn_init_entries)
  ultimately show ?thesis using kv_rebuild [OF assms(1)] by simp
qed

theorem burn_genesis_roundtrip_witness:
  "\<exists>gs. Burn_ExportGenesis (snd (AfterProposalSubmission ref_bk 1 (ref_burn_ctx [ref_burn_any 7]))) =
     (Ok gs, snd (AfterProposalSubmission ref_bk 1 (ref_burn_ctx [ref_burn_any 7])))"
proof -
  let ?c = "snd (AfterProposalSubmission ref_bk 1 (ref_burn_ctx [ref_burn_any 7]))"
  have "kv_ok (burn_kv ?c)" by code_simp
  moreover have "\<forall>e \<in> set (burn_kv ?c). bp_ProposalId (snd e) = fst e" by code_simp
  ultimately show ?thesis using burn_genesis_roundtrip [of ?c] by blast
qed

end
