(* ===== verification/Reward.thy ===== *)
theory Reward
  imports Types
begin

text \<open>
  The reward module, \<open>src/x/reward\<close>: governance parameters, the block hook that withdraws
  the staking rewards of one account and splits them between the fee pool, the community
  pool and a reserve account, deposits into the reward pool, genesis and the migration from
  the parameter subspace.  State: \<open>reward_kv\<close> of the context.
\<close>

section \<open>Interfaces and keeper\<close>

text \<open>
  \<open>rw_IterateDelegations\<close> is the list of validator addresses the iteration visits; the
  source drops the error of \<open>IterateDelegations\<close> itself.
\<close>

record 'x RewardKeeper =
  rw_authority :: string
  rw_GetModuleAccountAddress :: "('x, AccAddress) M"
  rw_GetAllBalances :: "AccAddress \<Rightarrow> ('x, Coins) M"
  rw_SendCoins :: "AccAddress \<Rightarrow> AccAddress \<Rightarrow> Coins \<Rightarrow> ('x, unit) M"
  rw_SendCoinsFromAccountToModule :: "AccAddress \<Rightarrow> string \<Rightarrow> Coins \<Rightarrow> ('x, unit) M"
  rw_SendCoinsFromModuleToModule :: "string \<Rightarrow> string \<Rightarrow> Coins \<Rightarrow> ('x, unit) M"
  rw_IterateDelegations :: "'x \<Rightarrow> AccAddress \<Rightarrow> string list"
  rw_ValStringToBytes :: "string \<Rightarrow> ValAddress outcome"
  rw_WithdrawDelegationRewards :: "AccAddress \<Rightarrow> ValAddress \<Rightarrow> ('x, Coins) M"
  rw_FundCommunityPool :: "Coins \<Rightarrow> AccAddress \<Rightarrow> ('x, unit) M"
  rw_BlocksPerYear :: "('x, uint64) M"
  rw_GetParamSet :: "('x, Params) M"
  rw_bech32 :: Bech32
  rw_coins :: CoinOps
  rw_dec :: DecOps

definition Reward_GetAuthority :: "'x RewardKeeper \<Rightarrow> string" where
  "Reward_GetAuthority k = rw_authority k"

section \<open>Parameters\<close>

definition one_dec :: LegacyDec where
  "one_dec = 10 ^ 18"

definition DefaultParams :: Params where
  "DefaultParams = \<lparr>FeePoolRate = 20 * 10 ^ 16, CommunityPoolRate = 80 * 10 ^ 16, ReserveRate = 0,
     ReserveAccount = [], RewardDistributeAccount = []\<rparr>"

definition TotalRate :: "DecOps \<Rightarrow> Params \<Rightarrow> LegacyDec outcome" where
  "TotalRate m p = bindO (Dec_Add m (CommunityPoolRate p) (FeePoolRate p)) (\<lambda>s. Dec_Add m s (ReserveRate p))"

definition Params_ValidateBasic :: "DecOps \<Rightarrow> Params \<Rightarrow> unit outcome" where
  "Params_ValidateBasic m p =
     bindO (guardO (\<not> (ReserveAccount p = [] \<and> 0 < ReserveRate p))
       (Error ''reserve account must be set up for reserve compensation'')) (\<lambda>_.
     bindO (guardO (\<not> CommunityPoolRate p < 0) (Error ''community pool rate should be positive'')) (\<lambda>_.
     bindO (guardO (\<not> FeePoolRate p < 0) (Error ''fee pool rate should be positive'')) (\<lambda>_.
     bindO (guardO (\<not> ReserveRate p < 0) (Error ''reserve rate should be positive'')) (\<lambda>_.
     bindO (TotalRate m p) (\<lambda>t.
     guardO (\<not> one_dec < t) (Error ''sum of fee pool, community pool and reserve cannot be greater than one''))))))"

text \<open>
  The validators of the legacy parameter set take an \<open>interface{}\<close>: a decimal (possibly
  nil), a string, or something else.
\<close>

datatype ParamValue = DecValue "LegacyDec option" | StringValue string | OtherValue

definition validate_rate :: "string \<Rightarrow> string \<Rightarrow> ParamValue \<Rightarrow> unit outcome" where
  "validate_rate name typeErr i = (case i of
      DecValue v \<Rightarrow> (case v of
          None \<Rightarrow> Err (Error (name @ '' must be not nil''))
        | Some r \<Rightarrow>
            if r < 0 then Err (Error (name @ '' must be positive''))
            else if one_dec < r then Err (Error (name @ '' too large''))
            else Ok ())
    | _ \<Rightarrow> Err (Error typeErr))"

definition validateFeePoolRate :: "ParamValue \<Rightarrow> unit outcome" where
  "validateFeePoolRate = validate_rate ''fee pool rate'' ''invalid fee pool rate parameter type''"

definition validateCommunityPoolRate :: "ParamValue \<Rightarrow> unit outcome" where
  "validateCommunityPoolRate = validate_rate ''community pool rate'' ''invalid community pool rate parameter type''"

definition validateReserveRate :: "ParamValue \<Rightarrow> unit outcome" where
  "validateReserveRate = validate_rate ''reserve rate'' ''reserve rate parameter type''"

definition validateAccount :: "Bech32 \<Rightarrow> ParamValue \<Rightarrow> unit outcome" where
  "validateAccount b i = (case i of
      StringValue v \<Rightarrow>
        if v = [] then Ok ()
        else (case AccAddressFromBech32 b v of
            Ok _ \<Rightarrow> Ok ()
          | Err _ \<Rightarrow> Err (Error ''invalid reserve account'')
          | Panic p \<Rightarrow> Panic p)
    | _ \<Rightarrow> Err (Error ''invalid reserve account parameter type''))"

definition ParamSetPairs :: "Bech32 \<Rightarrow> Params \<Rightarrow> (string \<times> ParamValue \<times> (ParamValue \<Rightarrow> unit outcome)) list" where
  "ParamSetPairs b p =
     [(''feepoolrate'', DecValue (Some (FeePoolRate p)), validateFeePoolRate),
      (''communitypoolrate'', DecValue (Some (CommunityPoolRate p)), validateCommunityPoolRate),
      (''reserverate'', DecValue (Some (ReserveRate p)), validateReserveRate),
      (''reserveaccount'', StringValue (ReserveAccount p), validateAccount b),
      (''rewarddistributeaccount'', StringValue (RewardDistributeAccount p), validateAccount b)]"

definition ParamsKey :: bytes where
  "ParamsKey = [0x01]"

text \<open>The Go zero value; its nil decimals are written 0, and no code computes with them.\<close>

definition zero_Params :: Params where
  "zero_Params = \<lparr>FeePoolRate = 0, CommunityPoolRate = 0, ReserveRate = 0, ReserveAccount = [],
     RewardDistributeAccount = []\<rparr>"

definition reward_lookup :: "'x Ctx \<Rightarrow> bytes \<Rightarrow> Params option" where
  "reward_lookup c key = kv_get (reward_kv c) key"

definition reward_put :: "bytes \<Rightarrow> Params \<Rightarrow> 'x Ctx \<Rightarrow> 'x Ctx" where
  "reward_put key p c = c\<lparr>reward_kv := kv_set key p (reward_kv c)\<rparr>"

definition reward_remove :: "bytes \<Rightarrow> 'x Ctx \<Rightarrow> 'x Ctx" where
  "reward_remove key c = c\<lparr>reward_kv := kv_delete key (reward_kv c)\<rparr>"

definition GetParams :: "('x Ctx, Params) M" where
  "GetParams = getsM (\<lambda>c. case reward_lookup c ParamsKey of None \<Rightarrow> zero_Params | Some p \<Rightarrow> p)"

definition SetParams :: "'x RewardKeeper \<Rightarrow> Params \<Rightarrow> ('x Ctx, unit) M" where
  "SetParams k p = thenM (liftO (Params_ValidateBasic (rw_dec k) p)) (modifyM (reward_put ParamsKey p))"

section \<open>Messages, genesis, queries, migration\<close>

record MsgFundRewardPool =
  fr_Amount :: Coins
  fr_Depositor :: string

record MsgUpdateParams =
  mu_Authority :: string
  mu_Params :: Params

definition NewMsgFundRewardPool :: "Bech32 \<Rightarrow> Coins \<Rightarrow> AccAddress \<Rightarrow> MsgFundRewardPool" where
  "NewMsgFundRewardPool b amount depositor =
     \<lparr>fr_Amount = amount, fr_Depositor = AccAddress_String b depositor\<rparr>"

definition MsgFundRewardPool_ValidateBasic :: "CoinOps \<Rightarrow> MsgFundRewardPool \<Rightarrow> unit outcome" where
  "MsgFundRewardPool_ValidateBasic co msg =
     bindO (guardO (Coins_IsValid co (fr_Amount msg)) ErrInvalidCoins) (\<lambda>_.
     guardO (fr_Depositor msg \<noteq> []) ErrInvalidAddress)"

definition MsgUpdateParams_ValidateBasic :: "Bech32 \<Rightarrow> DecOps \<Rightarrow> MsgUpdateParams \<Rightarrow> unit outcome" where
  "MsgUpdateParams_ValidateBasic b m msg =
     bindO (AccAddressFromBech32 b (mu_Authority msg)) (\<lambda>_. Params_ValidateBasic m (mu_Params msg))"

definition Keeper_FundRewardPool :: "'x RewardKeeper \<Rightarrow> Coins \<Rightarrow> AccAddress \<Rightarrow> ('x Ctx, unit) M" where
  "Keeper_FundRewardPool k amount sender = extM (rw_SendCoinsFromAccountToModule k sender ''reward'' amount)"

definition FundRewardPool :: "'x RewardKeeper \<Rightarrow> MsgFundRewardPool \<Rightarrow> ('x Ctx, unit) M" where
  "FundRewardPool k msg =
     bindM (liftO (AccAddressFromBech32 (rw_bech32 k) (fr_Depositor msg))) (\<lambda>depositor.
     thenM (Keeper_FundRewardPool k (fr_Amount msg) depositor)
       (EmitEvent \<lparr>ev_Type = ''message'',
          ev_Attributes = [(''module'', ''reward''), (''sender'', fr_Depositor msg)]\<rparr>))"

definition UpdateParams :: "'x RewardKeeper \<Rightarrow> MsgUpdateParams \<Rightarrow> ('x Ctx, unit) M" where
  "UpdateParams k req =
     thenM (guardM (rw_authority k = mu_Authority req) ErrInvalidSigner) (SetParams k (mu_Params req))"

definition Reward_InitGenesis :: "'x RewardKeeper \<Rightarrow> Params \<Rightarrow> ('x Ctx, unit) M" where
  "Reward_InitGenesis k data =
     bindM (attempt (SetParams k data)) (\<lambda>r. case r of
       Inl _ \<Rightarrow> panic ''error setting params''
     | Inr _ \<Rightarrow> ret ())"

definition Reward_ExportGenesis :: "('x Ctx, Params) M" where
  "Reward_ExportGenesis = GetParams"

definition Reward_DefaultGenesisState :: Params where
  "Reward_DefaultGenesisState = DefaultParams"

definition Reward_ValidateGenesis :: "DecOps \<Rightarrow> Params \<Rightarrow> unit outcome" where
  "Reward_ValidateGenesis m gs = Params_ValidateBasic m gs"

definition PoolBalances :: "'x RewardKeeper \<Rightarrow> ('x Ctx, Coins) M" where
  "PoolBalances k = bindM (extM (rw_GetModuleAccountAddress k)) (\<lambda>a. extM (rw_GetAllBalances k a))"

definition Query_Params :: "('x Ctx, Params) M" where
  "Query_Params = GetParams"

definition Query_Pool :: "'x RewardKeeper \<Rightarrow> ('x Ctx, Coins) M" where
  "Query_Pool k = PoolBalances k"

definition MigrateStore :: "'x RewardKeeper \<Rightarrow> ('x Ctx, unit) M" where
  "MigrateStore k =
     bindM (extM (rw_GetParamSet k)) (\<lambda>p.
     thenM (liftO (Params_ValidateBasic (rw_dec k) p)) (modifyM (reward_put ParamsKey p)))"

definition Reward_Migrate1to2 :: "'x RewardKeeper \<Rightarrow> ('x Ctx, unit) M" where
  "Reward_Migrate1to2 k = MigrateStore k"

section \<open>The block hook\<close>

text \<open>Adding one withdrawn coin to the running totals, a Go map by denomination.\<close>

definition add_reward :: "CoinOps \<Rightarrow> Coin \<Rightarrow> (string \<times> Coin) list \<Rightarrow> (string \<times> Coin) list outcome" where
  "add_reward co coin totals =
     (if Amount coin = 0 then Ok totals
      else case map_of totals (Denom coin) of
          Some c \<Rightarrow> bindO (Coin_Add co c coin) (\<lambda>s. Ok (gomap_set (Denom coin) s totals))
        | None \<Rightarrow> Ok (gomap_set (Denom coin) coin totals))"

text \<open>The callback of the delegation iteration.\<close>

definition withdraw_one ::
    "'x RewardKeeper \<Rightarrow> AccAddress \<Rightarrow> string \<Rightarrow> (string \<times> Coin) list \<Rightarrow> ('x Ctx, (string \<times> Coin) list) M" where
  "withdraw_one k acct val totals =
     bindM (liftO (rw_ValStringToBytes k val)) (\<lambda>valAddr.
     bindM (attempt (extM (rw_WithdrawDelegationRewards k acct valAddr))) (\<lambda>r. case r of
       Inl e \<Rightarrow> (if e = ErrEmptyDelegationDistInfo then ret totals else throw e)
     | Inr reward \<Rightarrow> liftO (foldO (add_reward (rw_coins k)) reward totals)))"

text \<open>One iteration of the splitting loop: the fee pool, reserve and community coins of a total.\<close>

definition split_one ::
    "DecOps \<Rightarrow> CoinOps \<Rightarrow> LegacyDec \<Rightarrow> LegacyDec \<Rightarrow> string \<times> Coin \<Rightarrow> (Coin \<times> Coin \<times> Coin) outcome" where
  "split_one m co feePoolRate reserveRate e =
     bindO (Dec_MulInt m feePoolRate (Amount (snd e))) (\<lambda>f.
     bindO (Dec_TruncateInt m f) (\<lambda>fi.
     bindO (NewCoin co (fst e) fi) (\<lambda>fee.
     bindO (Dec_MulInt m reserveRate (Amount (snd e))) (\<lambda>r.
     bindO (Dec_TruncateInt m r) (\<lambda>ri.
     bindO (NewCoin co (fst e) ri) (\<lambda>res.
     bindO (NewCoin co (fst e) (Amount (snd e) - Amount fee - Amount res)) (\<lambda>com.
     Ok (fee, res, com))))))))"

definition split_rewards ::
    "DecOps \<Rightarrow> CoinOps \<Rightarrow> Params \<Rightarrow> LegacyDec \<Rightarrow> (string \<times> Coin) list \<Rightarrow> (Coin \<times> Coin \<times> Coin) list outcome" where
  "split_rewards m co p rate totals =
     bindO (Dec_Mul m (FeePoolRate p) rate) (\<lambda>feePoolRate.
     bindO (Dec_Mul m (ReserveRate p) rate) (\<lambda>reserveRate.
     mapO (split_one m co feePoolRate reserveRate) totals))"

text \<open>The per-block share of the reward pool: every balance divided by the blocks per year.\<close>

definition per_block :: "DecOps \<Rightarrow> uint64 \<Rightarrow> Coins \<Rightarrow> Coins outcome" where
  "per_block m n balances =
     mapO (\<lambda>c. bindO (Int_Quo m (Amount c) (sint n)) (\<lambda>q. Ok (c\<lparr>Amount := q\<rparr>))) balances"

definition distribute_pool :: "'x RewardKeeper \<Rightarrow> ('x Ctx, unit) M" where
  "distribute_pool k =
     bindM (extM (rw_GetModuleAccountAddress k)) (\<lambda>a.
     bindM (extM (rw_GetAllBalances k a)) (\<lambda>balances.
     bindM (extM (rw_BlocksPerYear k)) (\<lambda>n.
     bindM (liftO (per_block (rw_dec k) n balances)) (\<lambda>share.
       if \<not> Coins_IsZero (rw_coins k) share
       then extM (rw_SendCoinsFromModuleToModule k ''reward'' ''fee_collector'' share)
       else ret ()))))"

definition Reward_BeginBlocker ::
    "((string \<times> Coin) list \<Rightarrow> (string \<times> Coin) list) \<Rightarrow> 'x RewardKeeper \<Rightarrow> ('x Ctx, unit) M" where
  "Reward_BeginBlocker rng k =
     bindM GetParams (\<lambda>params.
     if RewardDistributeAccount params = [] then ret ()
     else
     bindM (liftO (TotalRate (rw_dec k) params)) (\<lambda>total.
     bindM (liftO (MustAccAddressFromBech32 (rw_bech32 k) (RewardDistributeAccount params))) (\<lambda>acct.
     bindM (getsM (\<lambda>c. rw_IterateDelegations k (ext c) acct)) (\<lambda>dels.
     bindM (foldM (withdraw_one k acct) dels []) (\<lambda>totalRewards.
     bindM (liftO (split_rewards (rw_dec k) (rw_coins k) params total (rng totalRewards))) (\<lambda>parts.
     let fees = map fst parts; reserves = map (\<lambda>t. fst (snd t)) parts; communities = map (\<lambda>t. snd (snd t)) parts in
     thenM (if fees \<noteq> [] then extM (rw_SendCoinsFromAccountToModule k acct ''reward'' fees) else ret ()) (
     thenM (distribute_pool k) (
     thenM (if communities \<noteq> [] then extM (rw_FundCommunityPool k communities acct) else ret ()) (
     if reserves \<noteq> [] \<and> ReserveAccount params \<noteq> [] then
       bindM (liftO (MustAccAddressFromBech32 (rw_bech32 k) (ReserveAccount params))) (\<lambda>reserve.
       thenM (attempt (extM (rw_SendCoins k acct reserve reserves))) (ret ()))
     else ret ())))))))))"

section \<open>Specification\<close>

definition reward_inv :: "'x RewardKeeper \<Rightarrow> 'x Ctx \<Rightarrow> bool" where
  "reward_inv k c \<longleftrightarrow> (\<forall>p. reward_lookup c ParamsKey = Some p \<longrightarrow> Params_ValidateBasic (rw_dec k) p = Ok ())"

text \<open>
  Every way the parameters can change: governance, genesis, the migration; the other
  operations of the module; and anything that leaves this module's store alone.
\<close>

inductive reward_reach :: "'x RewardKeeper \<Rightarrow> 'x Ctx \<Rightarrow> bool" for k where
  rr_init: "reward_kv c = [] \<Longrightarrow> reward_reach k c"
| rr_update: "reward_reach k c \<Longrightarrow> reward_reach k (snd (UpdateParams k req c))"
| rr_genesis: "reward_reach k c \<Longrightarrow> reward_reach k (snd (Reward_InitGenesis k p c))"
| rr_migrate: "reward_reach k c \<Longrightarrow> reward_reach k (snd (Reward_Migrate1to2 k c))"
| rr_fund: "reward_reach k c \<Longrightarrow> reward_reach k (snd (FundRewardPool k msg c))"
| rr_block: "reward_reach k c \<Longrightarrow> reward_reach k (snd (Reward_BeginBlocker rng k c))"
| rr_other: "reward_reach k c \<Longrightarrow> reward_kv d = reward_kv c \<Longrightarrow> reward_reach k d"

text \<open>
  Decimals have 315 bits and integers 256, and the operations panic only beyond: the product of two
  numbers up to one, the product of such a number with an integer below \<open>2^255\<close>, and the integer part
  of such a product are within the range.
\<close>

definition dec_range :: "DecOps \<Rightarrow> bool" where
  "dec_range m \<longleftrightarrow>
     (\<forall>a b. \<bar>a\<bar> \<le> 10 ^ 18 \<longrightarrow> \<bar>b\<bar> \<le> 10 ^ 18 \<longrightarrow> is_Ok (Dec_Mul m a b)) \<and>
     (\<forall>a n. \<bar>a\<bar> \<le> 10 ^ 18 \<longrightarrow> \<bar>n\<bar> < 2 ^ 255 \<longrightarrow> is_Ok (Dec_MulInt m a n)) \<and>
     (\<forall>a. \<bar>a\<bar> < 10 ^ 18 * 2 ^ 255 \<longrightarrow> is_Ok (Dec_TruncateInt m a))"

text \<open>\<open>sdk.NewCoin\<close>: with a non-negative amount, a coin of that denomination and amount.\<close>

definition new_coin_laws :: "CoinOps \<Rightarrow> string set \<Rightarrow> bool" where
  "new_coin_laws co D \<longleftrightarrow> (\<forall>d \<in> D. \<forall>n. 0 \<le> n \<longrightarrow> NewCoin co d n = Ok \<lparr>Denom = d, Amount = n\<rparr>)"

section \<open>A reference keeper\<close>

record RefRewards =
  rr_bal :: "bytes \<Rightarrow> string \<Rightarrow> int"
  rr_dels :: "(string \<times> Coins) list"

definition rr_valid :: "Coins \<Rightarrow> bool" where
  "rr_valid cs \<longleftrightarrow> sorted_wrt (<) (map Denom cs) \<and> list_all (\<lambda>c. 0 < Amount c) cs"

definition rr_send :: "AccAddress \<Rightarrow> AccAddress \<Rightarrow> Coins \<Rightarrow> (RefRewards, unit) M" where
  "rr_send a b cs = thenM (guardM (rr_valid cs) ErrInvalidCoins)
     (modifyM (\<lambda>x. x\<lparr>rr_bal := (\<lambda>e d. rr_bal x e d + (if e = b then amount_of cs d else 0) -
        (if e = a then amount_of cs d else 0))\<rparr>))"

definition ref_rk :: "RefRewards RewardKeeper" where
  "ref_rk = \<lparr>rw_authority = ''gov'', rw_GetModuleAccountAddress = ret [1],
     rw_GetAllBalances = (\<lambda>a. getsM (\<lambda>x. [\<lparr>Denom = ''a'', Amount = rr_bal x a ''a''\<rparr>])),
     rw_SendCoins = rr_send, rw_SendCoinsFromAccountToModule = (\<lambda>a m. rr_send a [1]),
     rw_SendCoinsFromModuleToModule = (\<lambda>m n. rr_send [1] [2]),
     rw_IterateDelegations = (\<lambda>x a. map fst (rr_dels x)), rw_ValStringToBytes = ref_parse,
     rw_WithdrawDelegationRewards = (\<lambda>a v. getsM (\<lambda>x. case map_of (rr_dels x) (ref_print v) of Some cs \<Rightarrow> cs | None \<Rightarrow> [])),
     rw_FundCommunityPool = (\<lambda>cs a. rr_send a [3] cs), rw_BlocksPerYear = ret 1,
     rw_GetParamSet = ret DefaultParams, rw_bech32 = ref_bech32, rw_coins = ref_coins, rw_dec = ref_dec\<rparr>"

definition ref_params :: Params where
  "ref_params = DefaultParams\<lparr>RewardDistributeAccount := ''r''\<rparr>"

definition ref_reward_ctx :: "Coins \<Rightarrow> RefRewards Ctx" where
  "ref_reward_ctx cs = (ref_ctx \<lparr>rr_bal = (\<lambda>_ _. 0), rr_dels = [(''v'', cs)]\<rparr>)\<lparr>reward_kv := [(ParamsKey, ref_params)]\<rparr>"

section \<open>The store contract\<close>

interpretation reward_store: keyed_store reward_lookup reward_put reward_remove "\<lambda>c. kv_ok (reward_kv c)"
  by unfold_locales
    (auto simp: reward_lookup_def reward_put_def reward_remove_def fun_eq_iff
      kv_get_set kv_get_delete intro: kv_ok_set kv_ok_delete)

section \<open>The parameters stay valid\<close>

lemma reward_inv_ext [simp]: "reward_inv k (c\<lparr>ext := x\<rparr>) = reward_inv k c"
  by (simp add: reward_inv_def reward_lookup_def)

lemma reward_inv_events [simp]: "reward_inv k (c\<lparr>events := es\<rparr>) = reward_inv k c"
  by (simp add: reward_inv_def reward_lookup_def)

lemma reward_inv_put:
  "Params_ValidateBasic (rw_dec k) p = Ok () \<Longrightarrow> reward_inv k (reward_put ParamsKey p c)"
  by (simp add: reward_inv_def reward_lookup_def reward_put_def kv_get_set)

lemma keeps_then_valid [keeps_intro]:
  "keeps (reward_inv k) (thenM (liftO (Params_ValidateBasic (rw_dec k) p)) (modifyM (reward_put ParamsKey p)))"
  unfolding thenM_def by (intro keeps_bind_liftO keeps_modifyM reward_inv_put) simp

lemma SetParams_keeps: "keeps (reward_inv k) (SetParams k p)"
  unfolding SetParams_def by (rule keeps_then_valid)

lemma reward_ops_keep:
  "keeps (reward_inv k) (UpdateParams k req)"
  "keeps (reward_inv k) (Reward_InitGenesis k p)"
  "keeps (reward_inv k) (Reward_Migrate1to2 k)"
  "keeps (reward_inv k) (FundRewardPool k msg)"
  unfolding UpdateParams_def Reward_InitGenesis_def Reward_Migrate1to2_def MigrateStore_def
    FundRewardPool_def Keeper_FundRewardPool_def
  by (intro keeps_intro SetParams_keeps; simp)+

lemma BeginBlocker_keeps_reward: "keeps (reward_inv k) (Reward_BeginBlocker rng k)"
  unfolding Reward_BeginBlocker_def GetParams_def withdraw_one_def distribute_pool_def Let_def
  by (intro keeps_intro; simp)

lemma reward_reach_inv: "reward_reach k c \<Longrightarrow> reward_inv k c"
proof (induction rule: reward_reach.induct)
  case (rr_init c)
  then show ?case by (simp add: reward_inv_def reward_lookup_def)
next
  case (rr_other c d)
  then show ?case by (simp add: reward_inv_def reward_lookup_def)
qed (auto intro: keeps_snd [OF reward_ops_keep(1)] keeps_snd [OF reward_ops_keep(2)]
    keeps_snd [OF reward_ops_keep(3)] keeps_snd [OF reward_ops_keep(4)] keeps_snd [OF BeginBlocker_keeps_reward])

section \<open>Splitting a reward\<close>

lemma Params_valid_iff:
  "Params_ValidateBasic m p = Ok () \<longleftrightarrow> (ReserveAccount p = [] \<longrightarrow> ReserveRate p \<le> 0) \<and>
     0 \<le> CommunityPoolRate p \<and> 0 \<le> FeePoolRate p \<and> 0 \<le> ReserveRate p \<and>
     (\<exists>t. TotalRate m p = Ok t \<and> t \<le> one_dec)"
  by (auto simp: Params_ValidateBasic_def not_less)

lemma TotalRate_sum:
  "dec_laws m \<Longrightarrow> TotalRate m p = Ok t \<Longrightarrow> t = CommunityPoolRate p + FeePoolRate p + ReserveRate p"
  unfolding dec_laws_def TotalRate_def by (metis bindO_eq_Ok)

text \<open>A rate multiplied by a factor of at most one and rounded to nearest does not grow.\<close>

lemma Dec_Mul_le:
  assumes "dec_laws m" "Dec_Mul m a t = Ok r" "0 \<le> a" "0 \<le> t" "t \<le> one_dec"
  shows "0 \<le> r \<and> r \<le> a"
proof -
  from assms have r: "0 \<le> r" and d: "2 * \<bar>r * 10 ^ 18 - a * t\<bar> \<le> 10 ^ 18" by (auto simp: dec_laws_def)
  have "a * t \<le> a * 10 ^ 18" using assms(3,5) by (simp add: one_dec_def mult_left_mono)
  moreover have "r * 10 ^ 18 - a * t \<le> \<bar>r * 10 ^ 18 - a * t\<bar>" by (rule abs_ge_self)
  ultimately have "2 * (r * 10 ^ 18) \<le> 2 * (a * 10 ^ 18) + 10 ^ 18" using d by simp
  then have "r \<le> a" by simp
  with r show ?thesis by simp
qed

lemma split_amounts:
  fixes fr rr n :: int
  assumes "0 \<le> fr" "0 \<le> rr" "fr + rr \<le> 10 ^ 18" "0 \<le> n"
  shows "0 \<le> fr * n div 10 ^ 18" "0 \<le> rr * n div 10 ^ 18" "fr * n div 10 ^ 18 + rr * n div 10 ^ 18 \<le> n"
proof -
  have f: "0 \<le> fr * n" and r: "0 \<le> rr * n" using assms by simp_all
  then show "0 \<le> fr * n div 10 ^ 18" "0 \<le> rr * n div 10 ^ 18" by (simp_all add: pos_imp_zdiv_nonneg_iff)
  have "(fr + rr) * n \<le> 10 ^ 18 * n" using assms by (intro mult_right_mono) simp_all
  then have "(fr * n + rr * n) div 10 ^ 18 \<le> n"
    by (metis distrib_right mult.commute zdiv_mono1 nonzero_mult_div_cancel_right zero_less_numeral zero_less_power power_not_zero zero_neq_numeral)
  moreover have "fr * n div 10 ^ 18 + rr * n div 10 ^ 18 \<le> (fr * n + rr * n) div 10 ^ 18"
    by (simp add: div_add1_eq [of "fr * n"] pos_imp_zdiv_nonneg_iff)
  ultimately show "fr * n div 10 ^ 18 + rr * n div 10 ^ 18 \<le> n" by linarith
qed

lemma split_one_exact:
  assumes "dec_laws m" "dec_range m" "new_coin_laws co {fst e}"
    and "0 \<le> fr" "0 \<le> rr" "fr + rr \<le> 10 ^ 18" "0 \<le> Amount (snd e)" "Amount (snd e) < 2 ^ 255"
  shows "split_one m co fr rr e = Ok (\<lparr>Denom = fst e, Amount = fr * Amount (snd e) div 10 ^ 18\<rparr>,
    \<lparr>Denom = fst e, Amount = rr * Amount (snd e) div 10 ^ 18\<rparr>,
    \<lparr>Denom = fst e, Amount = Amount (snd e) - fr * Amount (snd e) div 10 ^ 18 - rr * Amount (snd e) div 10 ^ 18\<rparr>)"
proof -
  let ?n = "Amount (snd e)"
  have nn: "0 \<le> fr * ?n" "0 \<le> rr * ?n" using assms(4,5,7) by simp_all
  have r: "fr \<le> 10 ^ 18" "rr \<le> 10 ^ 18" using assms(4-6) by simp_all
  have mi: "Dec_MulInt m a ?n = Ok (a * ?n)" if "0 \<le> a" "a \<le> 10 ^ 18" for a
  proof -
    have "is_Ok (Dec_MulInt m a ?n)" using assms(2,7,8) that by (auto simp: dec_range_def)
    then show ?thesis using assms(1) unfolding dec_laws_def by (metis is_Ok_iff)
  qed
  have ti: "Dec_TruncateInt m (a * ?n) = Ok (a * ?n div 10 ^ 18)" if "0 \<le> a" "a \<le> 10 ^ 18" for a
  proof -
    have "a * ?n \<le> 10 ^ 18 * ?n" using that assms(7) by (intro mult_right_mono)
    also have "\<dots> < 10 ^ 18 * 2 ^ 255" using assms(8) by (intro mult_strict_left_mono) simp_all
    finally have "is_Ok (Dec_TruncateInt m (a * ?n))" using assms(2,7) that by (simp add: dec_range_def)
    then show ?thesis using assms(1,7) that unfolding dec_laws_def by (metis is_Ok_iff mult_nonneg_nonneg)
  qed
  note s = split_amounts [OF assms(4-7)]
  note mi = mi [OF assms(4) r(1)] mi [OF assms(5) r(2)] and ti = ti [OF assms(4) r(1)] ti [OF assms(5) r(2)]
  have nc: "NewCoin co (fst e) n = Ok \<lparr>Denom = fst e, Amount = n\<rparr>" if "0 \<le> n" for n
    using assms(3) that by (simp add: new_coin_laws_def)
  show ?thesis using s nc nn mi ti by (simp add: split_one_def)
qed

lemma split_rates:
  assumes "dec_laws m" "dec_range m" "Params_ValidateBasic m p = Ok ()" "TotalRate m p = Ok t"
  obtains fr rr where "Dec_Mul m (FeePoolRate p) t = Ok fr" "Dec_Mul m (ReserveRate p) t = Ok rr"
    "0 \<le> fr" "fr \<le> FeePoolRate p" "0 \<le> rr" "rr \<le> ReserveRate p" "fr + rr \<le> 10 ^ 18"
proof -
  from assms(3,4) have v: "0 \<le> CommunityPoolRate p" "0 \<le> FeePoolRate p" "0 \<le> ReserveRate p" "t \<le> one_dec"
    by (auto simp: Params_valid_iff)
  have t: "t = CommunityPoolRate p + FeePoolRate p + ReserveRate p" by (rule TotalRate_sum [OF assms(1,4)])
  with v have t0: "0 \<le> t" by simp
  obtain fr rr where fr: "Dec_Mul m (FeePoolRate p) t = Ok fr" and rr: "Dec_Mul m (ReserveRate p) t = Ok rr"
  proof -
    have "is_Ok (Dec_Mul m (FeePoolRate p) t)" "is_Ok (Dec_Mul m (ReserveRate p) t)"
      using assms(2) v t t0 by (auto simp: dec_range_def one_dec_def)
    then show thesis using that by (auto simp: is_Ok_iff)
  qed
  have "0 \<le> fr \<and> fr \<le> FeePoolRate p" "0 \<le> rr \<and> rr \<le> ReserveRate p"
    using Dec_Mul_le [OF assms(1) fr v(2) t0 v(4)] Dec_Mul_le [OF assms(1) rr v(3) t0 v(4)] by blast+
  moreover from this have "fr + rr \<le> 10 ^ 18" using t v by (simp add: one_dec_def)
  ultimately show thesis using fr rr that by blast
qed

lemma mapO_map:
  assumes "\<forall>x \<in> set xs. f x = Ok (g x)"
  shows "mapO f xs = Ok (map g xs)"
  using assms by (induction xs) auto

text \<open>The fee pool's coins the split produces, in the order of the entries.\<close>

lemma split_fee_coins:
  assumes "dec_laws m" "dec_range m" "Params_ValidateBasic m p = Ok ()" "TotalRate m p = Ok t"
    and "new_coin_laws co (fst ` set es)" "\<forall>e \<in> set es. 0 \<le> Amount (snd e) \<and> Amount (snd e) < 2 ^ 255"
  obtains fr parts where "0 \<le> fr" "fr \<le> FeePoolRate p" "split_rewards m co p t es = Ok parts"
    "map fst parts = map (\<lambda>e. \<lparr>Denom = fst e, Amount = fr * Amount (snd e) div 10 ^ 18\<rparr>) es"
proof -
  obtain fr rr where r: "Dec_Mul m (FeePoolRate p) t = Ok fr" "Dec_Mul m (ReserveRate p) t = Ok rr"
    "0 \<le> fr" "fr \<le> FeePoolRate p" "0 \<le> rr" "rr \<le> ReserveRate p" "fr + rr \<le> 10 ^ 18"
    by (rule split_rates [OF assms(1-4)])
  have "\<exists>q. split_one m co fr rr e = Ok q \<and> fst q = \<lparr>Denom = fst e, Amount = fr * Amount (snd e) div 10 ^ 18\<rparr>"
    if "e \<in> set es" for e
    using that assms(5,6) split_one_exact [OF assms(1,2) _ r(3,5,7), of co e] by (auto simp: new_coin_laws_def)
  then obtain g where g: "\<forall>e \<in> set es. split_one m co fr rr e = Ok (g e) \<and>
      fst (g e) = \<lparr>Denom = fst e, Amount = fr * Amount (snd e) div 10 ^ 18\<rparr>" by metis
  then have "split_rewards m co p t es = Ok (map g es)" using r by (simp add: split_rewards_def mapO_map)
  with g r(3,4) show thesis by (intro that) auto
qed

lemma begin_blocker_fee_error:
  assumes "reward_lookup c ParamsKey = Some p" "RewardDistributeAccount p \<noteq> []"
    and "TotalRate (rw_dec k) p = Ok t"
    and "AccAddressFromBech32 (rw_bech32 k) (RewardDistributeAccount p) = Ok acct"
    and "foldM (withdraw_one k acct) (rw_IterateDelegations k (ext c) acct) [] c = (Ok totals, c1)"
    and "split_rewards (rw_dec k) (rw_coins k) p t (rng totals) = Ok parts" "parts \<noteq> []"
    and "rw_SendCoinsFromAccountToModule k acct ''reward'' (map fst parts) (ext c1) = (Err e, ext c1)"
  shows "Reward_BeginBlocker rng k c = (Err e, c1)"
proof -
  have g: "GetParams c = (Ok p, c)" by (simp add: GetParams_def assms(1))
  have m: "MustAccAddressFromBech32 (rw_bech32 k) (RewardDistributeAccount p) = Ok acct" using assms(4) by simp
  have s: "extM (rw_SendCoinsFromAccountToModule k acct ''reward'' (map fst parts)) c1 = (Err e, c1)"
    by (simp add: extM_apply assms(8))
  show ?thesis
    by (simp add: Reward_BeginBlocker_def bindM_Ok [where m = GetParams] g assms(2,3,6,7) m bindM_Ok assms(5)
        Let_def thenM_Err s)
qed

lemma rev_sorted_not_ascending:
  fixes xs :: "('a::linorder \<times> 'b) list"
  assumes "2 \<le> length xs" "sorted (map fst xs)"
  shows "\<not> sorted_wrt (<) (map fst (rev xs))"
proof
  assume "sorted_wrt (<) (map fst (rev xs))"
  then have "sorted_wrt (<) (rev (map fst xs))" by (simp only: rev_map)
  then have "sorted_wrt (\<lambda>a b. b < a) (map fst xs)" by (simp only: sorted_wrt_rev)
  with assms(1) have "map fst xs ! 1 < map fst xs ! 0"
    by (intro sorted_wrt_nth_less [of "\<lambda>a b. b < a" "map fst xs" 0 1]) simp_all
  moreover have "map fst xs ! 0 \<le> map fst xs ! 1" using assms by (intro sorted_nth_mono) simp_all
  ultimately show False by simp
qed

lemma ref_dec_range: "dec_range ref_dec"
  by (simp add: dec_range_def ref_dec_def)

lemma ref_new_coin: "\<forall>d \<in> D. d \<noteq> [] \<Longrightarrow> new_coin_laws ref_coins D"
  by (simp add: new_coin_laws_def ref_coins_def)

lemma valid_params_rates:
  assumes "dec_laws m" "Params_ValidateBasic m p = Ok ()"
  shows "0 \<le> FeePoolRate p \<and> 0 \<le> CommunityPoolRate p \<and> 0 \<le> ReserveRate p \<and>
    FeePoolRate p + CommunityPoolRate p + ReserveRate p \<le> one_dec \<and>
    (0 < ReserveRate p \<longrightarrow> ReserveAccount p \<noteq> [])"
proof -
  from assms(2) obtain t where v: "ReserveAccount p = [] \<longrightarrow> ReserveRate p \<le> 0" "0 \<le> CommunityPoolRate p"
      "0 \<le> FeePoolRate p" "0 \<le> ReserveRate p" "TotalRate m p = Ok t" "t \<le> one_dec"
    unfolding Params_valid_iff by blast
  then show ?thesis using TotalRate_sum [OF assms(1) v(5)] by auto
qed

section \<open>Properties\<close>

text \<open>C31: With valid parameters the split of rewards below \<open>2^255\<close> never fails and loses nothing: for every
  denomination the three parts are non-negative, add up to the reward exactly, and the fee
  pool and the reserve get at most their rate of it.\<close>

theorem reward_split_exact:
  assumes "dec_laws m" "dec_range m" "Params_ValidateBasic m p = Ok ()" "TotalRate m p = Ok t"
    and "new_coin_laws co (fst ` set totals)" "\<forall>e \<in> set totals. 0 \<le> Amount (snd e) \<and> Amount (snd e) < 2 ^ 255"
  shows "\<exists>parts. split_rewards m co p t totals = Ok parts \<and>
    list_all2 (\<lambda>e (fee, res, com). Denom fee = fst e \<and> Denom res = fst e \<and> Denom com = fst e \<and>
      0 \<le> Amount fee \<and> 0 \<le> Amount res \<and> 0 \<le> Amount com \<and>
      Amount fee + Amount res + Amount com = Amount (snd e) \<and>
      Amount fee * 10 ^ 18 \<le> FeePoolRate p * Amount (snd e) \<and>
      Amount res * 10 ^ 18 \<le> ReserveRate p * Amount (snd e)) totals parts"
proof -
  obtain fr rr where r: "Dec_Mul m (FeePoolRate p) t = Ok fr" "Dec_Mul m (ReserveRate p) t = Ok rr"
    "0 \<le> fr" "fr \<le> FeePoolRate p" "0 \<le> rr" "rr \<le> ReserveRate p" "fr + rr \<le> 10 ^ 18"
    by (rule split_rates [OF assms(1-4)])
  let ?g = "\<lambda>e :: string \<times> Coin. let n = Amount (snd e); f = fr * n div 10 ^ 18; s = rr * n div 10 ^ 18 in
    (\<lparr>Denom = fst e, Amount = f\<rparr>, \<lparr>Denom = fst e, Amount = s\<rparr>, \<lparr>Denom = fst e, Amount = n - f - s\<rparr>)"
  have "split_one m co fr rr e = Ok (?g e)" if "e \<in> set totals" for e
    using that assms(5,6) split_one_exact [OF assms(1,2) _ r(3,5,7), of co e]
    by (auto simp: new_coin_laws_def Let_def)
  then have ok: "split_rewards m co p t totals = Ok (map ?g totals)"
    using r by (simp add: split_rewards_def mapO_map)
  have floor: "a * n div 10 ^ 18 * 10 ^ 18 \<le> b * n" if "a \<le> b" "0 \<le> n" for a b n :: int
  proof -
    have "a * n div 10 ^ 18 * 10 ^ 18 \<le> a * n"
      using pos_mod_sign [of "10 ^ 18" "a * n"] div_mult_mod_eq [of "a * n" "10 ^ 18"] by simp
    also have "\<dots> \<le> b * n" using that by (rule mult_right_mono)
    finally show ?thesis .
  qed
  have "list_all2 (\<lambda>e (fee, res, com). Denom fee = fst e \<and> Denom res = fst e \<and> Denom com = fst e \<and>
      0 \<le> Amount fee \<and> 0 \<le> Amount res \<and> 0 \<le> Amount com \<and>
      Amount fee + Amount res + Amount com = Amount (snd e) \<and>
      Amount fee * 10 ^ 18 \<le> FeePoolRate p * Amount (snd e) \<and>
      Amount res * 10 ^ 18 \<le> ReserveRate p * Amount (snd e)) totals (map ?g totals)"
    unfolding list.rel_map(2)
  proof (rule list.rel_refl_strong)
    fix e
    assume "e \<in> set totals"
    with assms(6) have n: "0 \<le> Amount (snd e)" by blast
    note s = split_amounts [OF r(3,5,7) n] floor [OF r(4) n] floor [OF r(6) n]
    from s show "case ?g e of (fee, res, com) \<Rightarrow> Denom fee = fst e \<and> Denom res = fst e \<and> Denom com = fst e \<and>
      0 \<le> Amount fee \<and> 0 \<le> Amount res \<and> 0 \<le> Amount com \<and>
      Amount fee + Amount res + Amount com = Amount (snd e) \<and>
      Amount fee * 10 ^ 18 \<le> FeePoolRate p * Amount (snd e) \<and>
      Amount res * 10 ^ 18 \<le> ReserveRate p * Amount (snd e)" by (simp add: Let_def)
  qed
  with ok show ?thesis by blast
qed

theorem reward_split_exact_witness:
  "\<exists>parts. split_rewards ref_dec ref_coins ref_params (10 ^ 18) [(''axpla'', \<lparr>Denom = ''axpla'', Amount = 7\<rparr>)] = Ok parts \<and>
     length parts = 1 \<and> (\<forall>(fee, res, com) \<in> set parts. Amount fee + Amount res + Amount com = 7)"
proof -
  let ?t = "[(''axpla'', \<lparr>Denom = ''axpla'', Amount = 7\<rparr>)]"
  have "Params_ValidateBasic ref_dec ref_params = Ok ()" "TotalRate ref_dec ref_params = Ok (10 ^ 18)"
    by code_simp+
  from reward_split_exact [OF ref_dec_laws ref_dec_range this, of ref_coins ?t] show ?thesis
    by (auto simp: ref_new_coin list_all2_Cons1)
qed

text \<open>The stored parameters are valid in every reachable state: no rate is negative, the
  rates add up to at most one, and a reserve rate above zero comes with a reserve account.\<close>

theorem reward_params_always_valid:
  assumes "dec_laws (rw_dec k)" "reward_reach k c" "reward_lookup c ParamsKey = Some p"
  shows "0 \<le> FeePoolRate p \<and> 0 \<le> CommunityPoolRate p \<and> 0 \<le> ReserveRate p \<and>
    FeePoolRate p + CommunityPoolRate p + ReserveRate p \<le> one_dec \<and>
    (0 < ReserveRate p \<longrightarrow> ReserveAccount p \<noteq> [])"
proof (rule valid_params_rates [OF assms(1)])
  show "Params_ValidateBasic (rw_dec k) p = Ok ()"
    using reward_reach_inv [OF assms(2)] assms(3) by (simp add: reward_inv_def)
qed

theorem reward_params_always_valid_witness:
  "FeePoolRate ref_params + CommunityPoolRate ref_params + ReserveRate ref_params \<le> one_dec"
proof -
  let ?c = "snd (UpdateParams ref_rk \<lparr>mu_Authority = ''gov'', mu_Params = ref_params\<rparr>
    (ref_ctx \<lparr>rr_bal = (\<lambda>_ _. 0), rr_dels = []\<rparr>))"
  have "reward_reach ref_rk ?c" by (intro rr_update rr_init) (simp add: ref_ctx_def)
  moreover have "reward_lookup ?c ParamsKey = Some ref_params" by code_simp
  moreover have "dec_laws (rw_dec ref_rk)" by (simp add: ref_rk_def ref_dec_laws)
  ultimately show ?thesis using reward_params_always_valid by blast
qed

text \<open>The block hook depends on Go's map order.  When the withdrawn rewards come in two or
  more denominations and the bank accepts only coins in ascending order of denomination, as
  its documentation requires, there is an iteration order for which the hook fails.\<close>

theorem reward_order_can_fail:
  assumes "reward_lookup c ParamsKey = Some p" "RewardDistributeAccount p \<noteq> []"
    and "dec_laws (rw_dec k)" "dec_range (rw_dec k)" "Params_ValidateBasic (rw_dec k) p = Ok ()"
    and "AccAddressFromBech32 (rw_bech32 k) (RewardDistributeAccount p) = Ok acct"
    and "foldM (withdraw_one k acct) (rw_IterateDelegations k (ext c) acct) [] c = (Ok totals, c1)"
    and "distinct (map fst totals)" "2 \<le> length totals"
    and "\<forall>e \<in> set totals. 0 \<le> Amount (snd e) \<and> Amount (snd e) < 2 ^ 255" "new_coin_laws (rw_coins k) (fst ` set totals)"
    and "\<forall>cs. \<not> sorted_wrt (<) (map Denom cs) \<longrightarrow>
      rw_SendCoinsFromAccountToModule k acct ''reward'' cs (ext c1) = (Err ErrInvalidCoins, ext c1)"
  shows "\<exists>rng. go_range rng \<and> Reward_BeginBlocker rng k c = (Err ErrInvalidCoins, c1)"
proof -
  let ?rng = "\<lambda>es :: (string \<times> Coin) list. rev (sort_key fst es)"
  obtain t where t: "TotalRate (rw_dec k) p = Ok t" using assms(5) by (auto simp: Params_valid_iff)
  obtain fr parts where parts: "split_rewards (rw_dec k) (rw_coins k) p t (?rng totals) = Ok parts"
      and fees: "map fst parts = map (\<lambda>e. \<lparr>Denom = fst e, Amount = fr * Amount (snd e) div 10 ^ 18\<rparr>) (?rng totals)"
    by (rule split_fee_coins [OF assms(3-5) t, of "rw_coins k" "?rng totals"]) (use assms(10,11) in auto)
  have denoms: "map Denom (map fst parts) = map fst (?rng totals)" by (simp add: fees comp_def)
  have d: "distinct (map fst (?rng totals))" "length (?rng totals) = length totals" "sorted (map fst (sort_key fst totals))"
    using assms(8) by (auto simp: distinct_map rev_map)
  have "\<not> sorted_wrt (<) (map Denom (map fst parts))"
    unfolding denoms using d assms(9) by (intro rev_sorted_not_ascending) simp_all
  with assms(12) have send: "rw_SendCoinsFromAccountToModule k acct ''reward'' (map fst parts) (ext c1) =
      (Err ErrInvalidCoins, ext c1)" by blast
  have "length parts = length totals" using arg_cong [OF denoms, of length] by simp
  with assms(9) have "parts \<noteq> []" by auto
  from begin_blocker_fee_error [where rng = ?rng, OF assms(1,2) t assms(6,7) parts this send]
  have "Reward_BeginBlocker ?rng k c = (Err ErrInvalidCoins, c1)" .
  moreover have "go_range ?rng" by (simp add: go_range_def)
  ultimately show ?thesis by blast
qed

theorem reward_order_can_fail_witness:
  "\<exists>rng. go_range rng \<and> fst (Reward_BeginBlocker rng ref_rk (ref_reward_ctx [\<lparr>Denom = ''a'', Amount = 10\<rparr>, \<lparr>Denom = ''b'', Amount = 20\<rparr>])) =
     Err ErrInvalidCoins"
proof -
  let ?cs = "[\<lparr>Denom = ''a'', Amount = 10\<rparr>, \<lparr>Denom = ''b'', Amount = 20\<rparr>] :: Coins"
  let ?c = "ref_reward_ctx ?cs"
  let ?w = "foldM (withdraw_one ref_rk [114]) (rw_IterateDelegations ref_rk (ext ?c) [114]) [] ?c"
  let ?t = "[(''a'', \<lparr>Denom = ''a'', Amount = 10\<rparr>), (''b'', \<lparr>Denom = ''b'', Amount = 20\<rparr>)]"
  have 1: "reward_lookup ?c ParamsKey = Some ref_params" by code_simp
  have 2: "RewardDistributeAccount ref_params \<noteq> []" by code_simp
  have 3: "dec_laws (rw_dec ref_rk)" "dec_range (rw_dec ref_rk)"
    by (simp_all add: ref_rk_def ref_dec_laws ref_dec_range)
  have 4: "Params_ValidateBasic (rw_dec ref_rk) ref_params = Ok ()" by code_simp
  have 5: "AccAddressFromBech32 (rw_bech32 ref_rk) (RewardDistributeAccount ref_params) = Ok [114]" by code_simp
  have "fst ?w = Ok ?t" by code_simp
  then have 6: "?w = (Ok ?t, snd ?w)" by (metis prod.collapse)
  have 7: "new_coin_laws (rw_coins ref_rk) (fst ` set ?t)" by (simp add: ref_rk_def ref_new_coin)
  have 8: "\<forall>cs. \<not> sorted_wrt (<) (map Denom cs) \<longrightarrow>
      rw_SendCoinsFromAccountToModule ref_rk [114] ''reward'' cs (ext (snd ?w)) = (Err ErrInvalidCoins, ext (snd ?w))"
    by (simp add: ref_rk_def rr_send_def rr_valid_def thenM_def bindM_def)
  show ?thesis
    using reward_order_can_fail [OF 1 2 3 4 5 6 _ _ _ 7 8] by force
qed

text \<open>Dust stops the block.  When for some denomination the withdrawn reward times the
  fee pool rate is below one unit, the fee pool coin is zero; the bank accepts only lists of
  positive coins, so the hook returns its error, in whatever order the map is visited.\<close>

theorem reward_dust_fails:
  assumes "go_range rng" "reward_lookup c ParamsKey = Some p" "RewardDistributeAccount p \<noteq> []"
    and "dec_laws (rw_dec k)" "dec_range (rw_dec k)" "Params_ValidateBasic (rw_dec k) p = Ok ()"
    and "AccAddressFromBech32 (rw_bech32 k) (RewardDistributeAccount p) = Ok acct"
    and "foldM (withdraw_one k acct) (rw_IterateDelegations k (ext c) acct) [] c = (Ok totals, c1)"
    and "\<forall>e \<in> set totals. 0 \<le> Amount (snd e) \<and> Amount (snd e) < 2 ^ 255" "new_coin_laws (rw_coins k) (fst ` set totals)"
    and "e \<in> set totals" "FeePoolRate p * Amount (snd e) < 10 ^ 18"
    and "\<forall>cs. (\<exists>co \<in> set cs. Amount co = 0) \<longrightarrow>
      rw_SendCoinsFromAccountToModule k acct ''reward'' cs (ext c1) = (Err ErrInvalidCoins, ext c1)"
  shows "Reward_BeginBlocker rng k c = (Err ErrInvalidCoins, c1)"
proof -
  obtain t where t: "TotalRate (rw_dec k) p = Ok t" using assms(6) by (auto simp: Params_valid_iff)
  have rs: "set (rng totals) = set totals" by (rule go_range_set [OF assms(1)])
  obtain fr parts where fr: "0 \<le> fr" "fr \<le> FeePoolRate p"
      and parts: "split_rewards (rw_dec k) (rw_coins k) p t (rng totals) = Ok parts"
      and fees: "map fst parts = map (\<lambda>e. \<lparr>Denom = fst e, Amount = fr * Amount (snd e) div 10 ^ 18\<rparr>) (rng totals)"
    by (rule split_fee_coins [OF assms(4-6) t, of "rw_coins k" "rng totals"]) (use assms(9,10) rs in auto)
  have n: "0 \<le> Amount (snd e)" using assms(9,11) by blast
  with fr(2) have "fr * Amount (snd e) \<le> FeePoolRate p * Amount (snd e)" by (rule mult_right_mono)
  with assms(12) fr(1) n have "fr * Amount (snd e) div 10 ^ 18 = 0"
    by (intro div_pos_pos_trivial mult_nonneg_nonneg) simp_all
  with assms(11) rs fees have "\<exists>co \<in> set (map fst parts). Amount co = 0" by force
  moreover from this have "parts \<noteq> []" by auto
  ultimately show ?thesis
    using begin_blocker_fee_error [where rng = rng, OF assms(2,3) t assms(7,8) parts] assms(13) by blast
qed

theorem reward_dust_fails_witness:
  "fst (Reward_BeginBlocker rev ref_rk (ref_reward_ctx [\<lparr>Denom = ''a'', Amount = 4\<rparr>])) = Err ErrInvalidCoins"
proof -
  let ?c = "ref_reward_ctx [\<lparr>Denom = ''a'', Amount = 4\<rparr>]"
  let ?w = "foldM (withdraw_one ref_rk [114]) (rw_IterateDelegations ref_rk (ext ?c) [114]) [] ?c"
  let ?t = "[(''a'', \<lparr>Denom = ''a'', Amount = 4\<rparr>)] :: (string \<times> Coin) list"
  have 1: "reward_lookup ?c ParamsKey = Some ref_params" by code_simp
  have 2: "RewardDistributeAccount ref_params \<noteq> []" by code_simp
  have 3: "dec_laws (rw_dec ref_rk)" "dec_range (rw_dec ref_rk)"
    by (simp_all add: ref_rk_def ref_dec_laws ref_dec_range)
  have 4: "Params_ValidateBasic (rw_dec ref_rk) ref_params = Ok ()" by code_simp
  have 5: "AccAddressFromBech32 (rw_bech32 ref_rk) (RewardDistributeAccount ref_params) = Ok [114]" by code_simp
  have "fst ?w = Ok ?t" by code_simp
  then have 6: "?w = (Ok ?t, snd ?w)" by (metis prod.collapse)
  have 7: "new_coin_laws (rw_coins ref_rk) (fst ` set ?t)" by (simp add: ref_rk_def ref_new_coin)
  have 8: "\<forall>cs. (\<exists>co \<in> set cs. Amount co = 0) \<longrightarrow>
      rw_SendCoinsFromAccountToModule ref_rk [114] ''reward'' cs (ext (snd ?w)) = (Err ErrInvalidCoins, ext (snd ?w))"
    by (force simp: ref_rk_def rr_send_def rr_valid_def thenM_def bindM_def list_all_iff)
  have 9: "FeePoolRate ref_params * Amount (snd (hd ?t)) < 10 ^ 18" by code_simp
  show ?thesis
    using reward_dust_fails [OF go_range_rev 1 2 3 4 5 6 _ 7 _ 9 8] by simp
qed

end
