(* ===== verification/Volunteer.thy ===== *)
theory Volunteer
  imports Types
begin

text \<open>
  The volunteer-validator registry, \<open>src/x/volunteer\<close>: the keeper over the volunteer
  store, the governance messages that register and unregister a validator, the creation
  of the staking validator behind a registration, the block hook that hands every
  volunteer's commission to the community pool, and genesis.

  State: \<open>volunteer_kv\<close> of the context.  Other modules: the staking and distribution
  keepers of \<open>expected_keeper.go\<close> as records of functions on \<open>ext\<close>.
\<close>

section \<open>Interfaces and keeper\<close>

record 'x VolStakingKeeper =
  sk_GetValidator :: "ValAddress \<Rightarrow> ('x, Validator) M"
  sk_GetValidatorByConsAddr :: "bytes \<Rightarrow> ('x, Validator) M"
  sk_BondDenom :: "('x, string) M"
  sk_SetValidator :: "Validator \<Rightarrow> ('x, unit) M"
  sk_SetValidatorByConsAddr :: "Validator \<Rightarrow> ('x, unit) M"
  sk_SetNewValidatorByPowerIndex :: "Validator \<Rightarrow> ('x, unit) M"
  sk_Delegate :: "AccAddress \<Rightarrow> int \<Rightarrow> BondStatus \<Rightarrow> Validator \<Rightarrow> bool \<Rightarrow> ('x, LegacyDec) M"
  sk_Undelegate :: "AccAddress \<Rightarrow> ValAddress \<Rightarrow> LegacyDec \<Rightarrow> ('x, int \<times> int) M"
  sk_AfterValidatorCreated :: "ValAddress \<Rightarrow> ('x, unit) M"
  sk_StringToBytes :: "string \<Rightarrow> ValAddress outcome"

record 'x VolDistKeeper =
  dk_WithdrawValidatorCommission :: "ValAddress \<Rightarrow> ('x, Coins) M"
  dk_FundCommunityPool :: "Coins \<Rightarrow> AccAddress \<Rightarrow> ('x, unit) M"

text \<open>
  The keeper, with the SDK's address, coin and staking functions its methods call beside
  the fields of the Go struct.
\<close>

record 'x VolunteerKeeper =
  vk_stakingKeeper :: "'x VolStakingKeeper"
  vk_distKeeper :: "'x VolDistKeeper"
  vk_authority :: string
  vk_bech32 :: Bech32
  vk_coins :: CoinOps
  vk_staking :: StakingFns
  vk_LengthPrefix :: "bytes \<Rightarrow> bytes outcome"

text \<open>\<open>address.MustLengthPrefix\<close>: defined up to 255 bytes, and injective.\<close>

definition length_prefix_laws :: "(bytes \<Rightarrow> bytes outcome) \<Rightarrow> bool" where
  "length_prefix_laws lp \<longleftrightarrow>
     (\<forall>a. length a \<le> 255 \<longrightarrow> is_Ok (lp a)) \<and>
     (\<forall>a b p. lp a = Ok p \<longrightarrow> lp b = Ok p \<longrightarrow> a = b)"

definition GetAuthority :: "'x VolunteerKeeper \<Rightarrow> string" where
  "GetAuthority k = vk_authority k"

section \<open>The store\<close>

definition VolunteerValidatorKey :: bytes where
  "VolunteerValidatorKey = [0x11]"

definition GetVolunteerValidatorKey :: "'x VolunteerKeeper \<Rightarrow> ValAddress \<Rightarrow> bytes outcome" where
  "GetVolunteerValidatorKey k a =
     bindO (vk_LengthPrefix k a) (\<lambda>p. Ok (VolunteerValidatorKey @ p))"

text \<open>The writes of \<open>store.Set\<close> and \<open>store.Delete\<close> on the module's store.\<close>

definition volunteer_lookup :: "'x Ctx \<Rightarrow> bytes \<Rightarrow> VolunteerValidator option" where
  "volunteer_lookup c key = kv_get (volunteer_kv c) key"

definition volunteer_put :: "bytes \<Rightarrow> VolunteerValidator \<Rightarrow> 'x Ctx \<Rightarrow> 'x Ctx" where
  "volunteer_put key v c = c\<lparr>volunteer_kv := kv_set key v (volunteer_kv c)\<rparr>"

definition volunteer_remove :: "bytes \<Rightarrow> 'x Ctx \<Rightarrow> 'x Ctx" where
  "volunteer_remove key c = c\<lparr>volunteer_kv := kv_delete key (volunteer_kv c)\<rparr>"

definition NewVolunteerValidator :: "'x VolunteerKeeper \<Rightarrow> ValAddress \<Rightarrow> int64 \<Rightarrow> VolunteerValidator" where
  "NewVolunteerValidator k a p =
     \<lparr>vv_Address = ValAddress_String (vk_bech32 k) a, vv_Power = p\<rparr>"

definition GetVolunteerValidator ::
    "'x VolunteerKeeper \<Rightarrow> ValAddress \<Rightarrow> ('x Ctx, VolunteerValidator) M" where
  "GetVolunteerValidator k a =
     bindM (liftO (GetVolunteerValidatorKey k a)) (\<lambda>key.
     bindM (getsM (\<lambda>c. volunteer_lookup c key)) (\<lambda>bz.
       case bz of
         None \<Rightarrow> throw (Error ''no volunteer validator found'')
       | Some v \<Rightarrow> ret v))"

definition SetVolunteerValidator ::
    "'x VolunteerKeeper \<Rightarrow> ValAddress \<Rightarrow> VolunteerValidator \<Rightarrow> ('x Ctx, unit) M" where
  "SetVolunteerValidator k a v =
     bindM (liftO (GetVolunteerValidatorKey k a)) (\<lambda>key.
       modifyM (volunteer_put key v))"

definition DeleteVolunteerValidator ::
    "'x VolunteerKeeper \<Rightarrow> ValAddress \<Rightarrow> ('x Ctx, unit) M" where
  "DeleteVolunteerValidator k a =
     bindM (liftO (GetVolunteerValidatorKey k a)) (\<lambda>key.
       modifyM (volunteer_remove key))"

text \<open>The Go map the iterator loop builds: entries keyed by the stored address string.\<close>

definition volunteer_map :: "(bytes, VolunteerValidator) kv \<Rightarrow> (string \<times> VolunteerValidator) list" where
  "volunteer_map es =
     fold (\<lambda>e m. gomap_set (vv_Address (snd e)) (snd e) m)
       (kv_prefix VolunteerValidatorKey es) []"

definition GetVolunteerValidators ::
    "'x VolunteerKeeper \<Rightarrow> ('x Ctx, (string \<times> VolunteerValidator) list) M" where
  "GetVolunteerValidators k = getsM (\<lambda>c. volunteer_map (volunteer_kv c))"

section \<open>Messages\<close>

record MsgRegisterVolunteerValidator =
  rv_Authority :: string
  rv_ValidatorDescription :: Description
  rv_DelegatorAddress :: string
  rv_ValidatorAddress :: string
  rv_Pubkey :: "AnyPk option"
  rv_Amount :: Coin

record MsgUnregisterVolunteerValidator =
  uv_Authority :: string
  uv_ValidatorAddress :: string

record RegisterVolunteerValidatorProposal =
  rp_Title :: string
  rp_Description :: string
  rp_ValidatorDescription :: Description
  rp_DelegatorAddress :: string
  rp_ValidatorAddress :: string
  rp_Pubkey :: "AnyPk option"
  rp_Amount :: Coin

record UnregisterVolunteerValidatorProposal =
  up_Title :: string
  up_Description :: string
  up_ValidatorAddress :: string

definition LegacyOneDec :: LegacyDec where
  "LegacyOneDec = 10 ^ 18"

definition empty_Description :: Description where
  "empty_Description = \<lparr>Moniker = [], Identity = [], Website = [], SecurityContact = [], Details = []\<rparr>"

definition MsgRegister_ToCreateValidator ::
    "MsgRegisterVolunteerValidator \<Rightarrow> MsgCreateValidator" where
  "MsgRegister_ToCreateValidator p =
     \<lparr>cv_ValidatorAddress = rv_ValidatorAddress p,
      cv_DelegatorAddress = rv_DelegatorAddress p,
      cv_MinSelfDelegation = 1,
      cv_Pubkey = rv_Pubkey p,
      cv_Value = rv_Amount p,
      cv_Description = rv_ValidatorDescription p,
      cv_Commission = \<lparr>Rate = LegacyOneDec, MaxRate = LegacyOneDec, MaxChangeRate = 0\<rparr>\<rparr>"

definition Proposal_ToCreateValidator ::
    "RegisterVolunteerValidatorProposal \<Rightarrow> MsgCreateValidator" where
  "Proposal_ToCreateValidator p =
     \<lparr>cv_ValidatorAddress = rp_ValidatorAddress p,
      cv_DelegatorAddress = rp_DelegatorAddress p,
      cv_MinSelfDelegation = 1,
      cv_Pubkey = rp_Pubkey p,
      cv_Value = rp_Amount p,
      cv_Description = rp_ValidatorDescription p,
      cv_Commission = \<lparr>Rate = LegacyOneDec, MaxRate = LegacyOneDec, MaxChangeRate = 0\<rparr>\<rparr>"

text \<open>
  The checks both registration forms share, in the order of the code: the delegator and
  the validator address, that they are the same account, the key, the amount, the
  description.
\<close>

definition register_checks ::
    "Bech32 \<Rightarrow> CoinOps \<Rightarrow> string \<Rightarrow> string \<Rightarrow> AnyPk option \<Rightarrow> Coin \<Rightarrow> Description \<Rightarrow> unit outcome" where
  "register_checks b co delegator validator pubkey amount description =
     bindO (AccAddressFromBech32 b delegator) (\<lambda>delAddr.
     bindO (guardO (delAddr \<noteq> []) ErrEmptyDelegatorAddr) (\<lambda>_.
     bindO (guardO (validator \<noteq> []) ErrEmptyValidatorAddr) (\<lambda>_.
     bindO (ValAddressFromBech32 b validator) (\<lambda>valAddr.
     bindO (guardO (valAddr = delAddr) (ErrInvalidRequest ''validator address is invalid'')) (\<lambda>_.
     bindO (guardO (pubkey \<noteq> None) ErrEmptyValidatorPubKey) (\<lambda>_.
     bindO (guardO (Coin_IsValid co amount \<and> 0 < Amount amount)
              (ErrInvalidRequest ''invalid delegation amount'')) (\<lambda>_.
     guardO (description \<noteq> empty_Description) (ErrInvalidRequest ''empty description''))))))))"

definition MsgRegister_ValidateBasic ::
    "Bech32 \<Rightarrow> CoinOps \<Rightarrow> MsgRegisterVolunteerValidator \<Rightarrow> unit outcome" where
  "MsgRegister_ValidateBasic b co msg =
     (case AccAddressFromBech32 b (rv_Authority msg) of
        Err _ \<Rightarrow> Err ErrInvalidAddress
      | Panic p \<Rightarrow> Panic p
      | Ok _ \<Rightarrow> register_checks b co (rv_DelegatorAddress msg) (rv_ValidatorAddress msg)
                 (rv_Pubkey msg) (rv_Amount msg) (rv_ValidatorDescription msg))"

definition MsgUnregister_ValidateBasic ::
    "Bech32 \<Rightarrow> MsgUnregisterVolunteerValidator \<Rightarrow> unit outcome" where
  "MsgUnregister_ValidateBasic b msg =
     (case AccAddressFromBech32 b (uv_Authority msg) of
        Err _ \<Rightarrow> Err ErrInvalidAddress
      | Panic p \<Rightarrow> Panic p
      | Ok _ \<Rightarrow>
          bindO (guardO (uv_ValidatorAddress msg \<noteq> []) ErrEmptyValidatorAddr) (\<lambda>_.
          bindO (ValAddressFromBech32 b (uv_ValidatorAddress msg)) (\<lambda>_. Ok ())))"

text \<open>
  The legacy governance contents; \<open>va\<close> is \<open>govtypes.ValidateAbstract\<close> on the title and
  the description.
\<close>

definition RegisterProposal_ValidateBasic ::
    "(string \<Rightarrow> string \<Rightarrow> unit outcome) \<Rightarrow> Bech32 \<Rightarrow> CoinOps \<Rightarrow>
     RegisterVolunteerValidatorProposal \<Rightarrow> unit outcome" where
  "RegisterProposal_ValidateBasic va b co p =
     bindO (va (rp_Title p) (rp_Description p)) (\<lambda>_.
       register_checks b co (rp_DelegatorAddress p) (rp_ValidatorAddress p)
         (rp_Pubkey p) (rp_Amount p) (rp_ValidatorDescription p))"

definition UnregisterProposal_ValidateBasic ::
    "(string \<Rightarrow> string \<Rightarrow> unit outcome) \<Rightarrow> Bech32 \<Rightarrow>
     UnregisterVolunteerValidatorProposal \<Rightarrow> unit outcome" where
  "UnregisterProposal_ValidateBasic va b p =
     bindO (va (up_Title p) (up_Description p)) (\<lambda>_.
     bindO (guardO (up_ValidatorAddress p \<noteq> []) ErrEmptyValidatorAddr) (\<lambda>_.
     bindO (ValAddressFromBech32 b (up_ValidatorAddress p)) (\<lambda>_. Ok ())))"

text \<open>
  \<open>NewMsgRegisterVolunteerValidator\<close>; packing the key into an \<open>Any\<close> is the parameter
  \<open>newAny\<close> (\<open>codectypes.NewAnyWithValue\<close>).
\<close>

definition NewMsgRegisterVolunteerValidator ::
    "(PubKey \<Rightarrow> AnyPk outcome) \<Rightarrow> Bech32 \<Rightarrow> string \<Rightarrow> string \<Rightarrow> AccAddress \<Rightarrow> ValAddress \<Rightarrow>
     PubKey option \<Rightarrow> Coin \<Rightarrow> Description \<Rightarrow> RegisterVolunteerValidatorProposal outcome" where
  "NewMsgRegisterVolunteerValidator newAny b title description delAddr valAddr pubKey
       selfDelegation validatorDescription =
     bindO (case pubKey of None \<Rightarrow> Ok None | Some pk \<Rightarrow> bindO (newAny pk) (\<lambda>a. Ok (Some a)))
       (\<lambda>pkAny. Ok
         \<lparr>rp_Title = title, rp_Description = description,
          rp_ValidatorDescription = validatorDescription,
          rp_DelegatorAddress = AccAddress_String b delAddr,
          rp_ValidatorAddress = ValAddress_String b valAddr,
          rp_Pubkey = pkAny, rp_Amount = selfDelegation\<rparr>)"

definition NewUnregisterVolunteerValidatorProposal ::
    "Bech32 \<Rightarrow> string \<Rightarrow> string \<Rightarrow> ValAddress \<Rightarrow> UnregisterVolunteerValidatorProposal" where
  "NewUnregisterVolunteerValidatorProposal b title description valAddr =
     \<lparr>up_Title = title, up_Description = description,
      up_ValidatorAddress = ValAddress_String b valAddr\<rparr>"

section \<open>Creating the validator\<close>

text \<open>The check of the key type against the consensus parameters.\<close>

definition pubkey_type_allowed :: "string list option \<Rightarrow> string \<Rightarrow> bool" where
  "pubkey_type_allowed cp t = (case cp of None \<Rightarrow> True | Some ts \<Rightarrow> t \<in> set ts)"

definition cached_pubkey :: "AnyPk option \<Rightarrow> PubKey outcome" where
  "cached_pubkey a = (case a of
      None \<Rightarrow> Panic ''nil pointer dereference''
    | Some any \<Rightarrow> (case any_Cached any of
          CachedPubKey pk \<Rightarrow> Ok pk
        | CachedOther \<Rightarrow> Err ErrInvalidType))"

definition CreateValidator :: "'x VolunteerKeeper \<Rightarrow> MsgCreateValidator \<Rightarrow> ('x Ctx, unit) M" where
  "CreateValidator k msg =
     (let sk = vk_stakingKeeper k; fns = vk_staking k; b = vk_bech32 k in
     bindM (liftO (ValAddressFromBech32 b (cv_ValidatorAddress msg))) (\<lambda>valAddr.
     bindM (attempt (extM (sk_GetValidator sk valAddr))) (\<lambda>found.
     thenM (guardM (isl found) ErrValidatorOwnerExists) (
     bindM (liftO (cached_pubkey (cv_Pubkey msg))) (\<lambda>pk.
     bindM (attempt (extM (sk_GetValidatorByConsAddr sk (GetConsAddress fns pk)))) (\<lambda>byCons.
     thenM (guardM (isl byCons) ErrValidatorPubKeyExists) (
     bindM (extM (sk_BondDenom sk)) (\<lambda>bondDenom.
     thenM (guardM (Denom (cv_Value msg) = bondDenom)
              (ErrInvalidRequest ''invalid coin denomination'')) (
     thenM (liftO (EnsureLength fns (cv_Description msg))) (
     bindM (getsM validator_pubkey_types) (\<lambda>cp.
     thenM (guardM (pubkey_type_allowed cp (pk_Type pk)) ErrValidatorPubKeyTypeNotSupported) (
     bindM (liftO (NewValidator fns (ValAddress_String b valAddr) pk (cv_Description msg))) (\<lambda>v0.
     bindM (getsM block_time) (\<lambda>time.
     bindM (liftO (SetInitialCommission fns v0
              \<lparr>CommissionRatesOf = cv_Commission msg, UpdateTime = time\<rparr>)) (\<lambda>v1.
     bindM (liftO (AccAddressFromBech32 b (cv_DelegatorAddress msg))) (\<lambda>delegatorAddress.
     let validator = v1\<lparr>MinSelfDelegation := cv_MinSelfDelegation msg\<rparr> in
     thenM (extM (sk_SetValidator sk validator)) (
     thenM (extM (sk_SetValidatorByConsAddr sk validator)) (
     thenM (extM (sk_SetNewValidatorByPowerIndex sk validator)) (
     bindM (liftO (sk_StringToBytes sk (OperatorAddress validator))) (\<lambda>valBz.
     thenM (extM (sk_AfterValidatorCreated sk valBz)) (
     thenM (extM (sk_Delegate sk delegatorAddress (Amount (cv_Value msg)) Unbonded validator True)) (
     EmitEvent \<lparr>ev_Type = ''create_validator'',
       ev_Attributes = [(''validator'', cv_ValidatorAddress msg),
                        (''amount'', Coin_String (vk_coins k) (cv_Value msg))]\<rparr>))))))))))))))))))))))"

section \<open>Message server, block hook, genesis, queries\<close>

definition RegisterVolunteerValidator ::
    "'x VolunteerKeeper \<Rightarrow> MsgRegisterVolunteerValidator \<Rightarrow> ('x Ctx, unit) M" where
  "RegisterVolunteerValidator k req =
     thenM (guardM (vk_authority k = rv_Authority req) ErrInvalidSigner) (
     bindM (liftO (ValAddressFromBech32 (vk_bech32 k) (rv_ValidatorAddress req))) (\<lambda>valAddress.
     bindM (attempt (extM (sk_GetValidator (vk_stakingKeeper k) valAddress))) (\<lambda>found.
     thenM (guardM (isl found) ErrValidatorOwnerExists) (
     thenM (SetVolunteerValidator k valAddress (NewVolunteerValidator k valAddress 0))
       (CreateValidator k (MsgRegister_ToCreateValidator req))))))"

definition UnregisterVolunteerValidator ::
    "'x VolunteerKeeper \<Rightarrow> MsgUnregisterVolunteerValidator \<Rightarrow> ('x Ctx, unit) M" where
  "UnregisterVolunteerValidator k req =
     thenM (guardM (vk_authority k = uv_Authority req) ErrInvalidSigner) (
     bindM (liftO (ValAddressFromBech32 (vk_bech32 k) (uv_ValidatorAddress req))) (\<lambda>valAddress.
     thenM (GetVolunteerValidator k valAddress) (
     bindM (attempt (extM (sk_GetValidator (vk_stakingKeeper k) valAddress))) (\<lambda>found.
       case found of
         Inl _ \<Rightarrow> ret ()
       | Inr validator \<Rightarrow>
           thenM (extM (sk_Undelegate (vk_stakingKeeper k) valAddress valAddress
                    (DelegatorShares validator)))
             (DeleteVolunteerValidator k valAddress)))))"

text \<open>One iteration of the commission loop; a validator without commission is skipped.\<close>

definition commission_step :: "'x VolunteerKeeper \<Rightarrow> string \<Rightarrow> ('x Ctx, unit) M" where
  "commission_step k strValAddr =
     bindM (liftO (ValAddressFromBech32 (vk_bech32 k) strValAddr)) (\<lambda>valAddr.
     bindM (attempt (extM (dk_WithdrawValidatorCommission (vk_distKeeper k) valAddr))) (\<lambda>r.
       case r of
         Inl _ \<Rightarrow> ret ()
       | Inr commissions \<Rightarrow> extM (dk_FundCommunityPool (vk_distKeeper k) commissions valAddr)))"

definition VolunteerValidatorCommissionProcess ::
    "((string \<times> VolunteerValidator) list \<Rightarrow> (string \<times> VolunteerValidator) list) \<Rightarrow>
     'x VolunteerKeeper \<Rightarrow> ('x Ctx, unit) M" where
  "VolunteerValidatorCommissionProcess rng k =
     bindM (GetVolunteerValidators k) (\<lambda>vols. forM (rng vols) (\<lambda>e. commission_step k (fst e)))"

definition Volunteer_BeginBlocker ::
    "((string \<times> VolunteerValidator) list \<Rightarrow> (string \<times> VolunteerValidator) list) \<Rightarrow>
     'x VolunteerKeeper \<Rightarrow> ('x Ctx, unit) M" where
  "Volunteer_BeginBlocker rng k = VolunteerValidatorCommissionProcess rng k"

definition init_one :: "'x VolunteerKeeper \<Rightarrow> VolunteerValidator \<Rightarrow> ('x Ctx, unit) M" where
  "init_one k v = (case ValAddressFromBech32 (vk_bech32 k) (vv_Address v) of
      Ok a \<Rightarrow> SetVolunteerValidator k a v
    | Err _ \<Rightarrow> panic ''invalid volunteer validator address''
    | Panic p \<Rightarrow> panic p)"

definition Volunteer_InitGenesis ::
    "'x VolunteerKeeper \<Rightarrow> VolunteerValidator list \<Rightarrow> ('x Ctx, unit) M" where
  "Volunteer_InitGenesis k data = forM data (init_one k)"

definition Volunteer_ExportGenesis ::
    "((string \<times> VolunteerValidator) list \<Rightarrow> (string \<times> VolunteerValidator) list) \<Rightarrow>
     'x VolunteerKeeper \<Rightarrow> ('x Ctx, VolunteerValidator list) M" where
  "Volunteer_ExportGenesis rng k =
     bindM (GetVolunteerValidators k) (\<lambda>vols.
       ret (map (\<lambda>e. \<lparr>vv_Address = fst e, vv_Power = vv_Power (snd e)\<rparr>) (rng vols)))"

definition Volunteer_ValidateGenesis :: "Bech32 \<Rightarrow> VolunteerValidator list \<Rightarrow> unit outcome" where
  "Volunteer_ValidateGenesis b data =
     foldO (\<lambda>v _. bindO (ValAddressFromBech32 b (vv_Address v)) (\<lambda>_. Ok ())) data ()"

definition Volunteer_DefaultGenesisState :: "VolunteerValidator list" where
  "Volunteer_DefaultGenesisState = []"

text \<open>The gRPC query; \<open>None\<close> is a nil request.\<close>

definition Query_VolunteerValidators ::
    "((string \<times> VolunteerValidator) list \<Rightarrow> (string \<times> VolunteerValidator) list) \<Rightarrow>
     'x VolunteerKeeper \<Rightarrow> unit option \<Rightarrow> ('x Ctx, string list) M" where
  "Query_VolunteerValidators rng k req = (case req of
      None \<Rightarrow> throw (ErrInvalidArgument ''empty request'')
    | Some _ \<Rightarrow> bindM (GetVolunteerValidators k) (\<lambda>vols. ret (map fst (rng vols))))"

definition Volunteer_Migrate1to2 :: "('x Ctx, unit) M" where
  "Volunteer_Migrate1to2 = ret ()"

section \<open>Invariant and specification views\<close>

text \<open>
  Every stored entry sits under the key of the address its own \<open>Address\<close> field parses
  to.  The loops over the registry rely on it: they parse the stored strings and fail the
  block when one does not parse.
\<close>

definition vol_entry_ok :: "'x VolunteerKeeper \<Rightarrow> bytes \<times> VolunteerValidator \<Rightarrow> bool" where
  "vol_entry_ok k e \<longleftrightarrow>
     (\<exists>a. ValAddressFromBech32 (vk_bech32 k) (vv_Address (snd e)) = Ok a \<and>
          GetVolunteerValidatorKey k a = Ok (fst e))"

definition vol_inv :: "'x VolunteerKeeper \<Rightarrow> 'x Ctx \<Rightarrow> bool" where
  "vol_inv k c \<longleftrightarrow> kv_ok (volunteer_kv c) \<and> (\<forall>e \<in> set (volunteer_kv c). vol_entry_ok k e)"

definition is_volunteer :: "'x VolunteerKeeper \<Rightarrow> 'x Ctx \<Rightarrow> ValAddress \<Rightarrow> bool" where
  "is_volunteer k c a \<longleftrightarrow>
     (\<exists>key v. GetVolunteerValidatorKey k a = Ok key \<and> volunteer_lookup c key = Some v)"

text \<open>
  What the distribution module documents about the two calls of the commission loop:
  account balances \<open>bal\<close>, the community pool \<open>pool\<close>, the outstanding commission \<open>com\<close>
  and the withdraw address \<open>wd\<close> of an account.
\<close>

definition commission_laws ::
    "'x VolDistKeeper \<Rightarrow> ('x \<Rightarrow> bytes \<Rightarrow> string \<Rightarrow> int) \<Rightarrow> ('x \<Rightarrow> string \<Rightarrow> int) \<Rightarrow>
     ('x \<Rightarrow> bytes \<Rightarrow> string \<Rightarrow> int) \<Rightarrow> ('x \<Rightarrow> bytes \<Rightarrow> bytes) \<Rightarrow> bool" where
  "commission_laws dk bal pool com wd \<longleftrightarrow>
     (\<forall>a x cs y. dk_WithdrawValidatorCommission dk a x = (Ok cs, y) \<longrightarrow>
        bal y = (bal x)(wd x a := (\<lambda>d. bal x (wd x a) d + amount_of cs d)) \<and>
        com y = (com x)(a := (\<lambda>d. com x a d - amount_of cs d)) \<and>
        pool y = pool x \<and> wd y = wd x) \<and>
     (\<forall>a x e y. dk_WithdrawValidatorCommission dk a x = (Err e, y) \<longrightarrow>
        bal y = bal x \<and> com y = com x \<and> pool y = pool x \<and> wd y = wd x) \<and>
     (\<forall>cs a x y. dk_FundCommunityPool dk cs a x = (Ok (), y) \<longrightarrow>
        bal y = (bal x)(a := (\<lambda>d. bal x a d - amount_of cs d)) \<and>
        pool y = (\<lambda>d. pool x d + amount_of cs d) \<and> com y = com x \<and> wd y = wd x)"

text \<open>
  From \<open>x\<close> to \<open>y\<close> commission has only flowed: what the accounts \<open>A\<close> have less of it went to their
  withdraw addresses, and the same amounts went from the accounts themselves to the pool.
\<close>

definition commission_flow ::
    "('x \<Rightarrow> bytes \<Rightarrow> string \<Rightarrow> int) \<Rightarrow> ('x \<Rightarrow> string \<Rightarrow> int) \<Rightarrow> ('x \<Rightarrow> bytes \<Rightarrow> string \<Rightarrow> int) \<Rightarrow>
     ('x \<Rightarrow> bytes \<Rightarrow> bytes) \<Rightarrow> bytes set \<Rightarrow> 'x \<Rightarrow> 'x \<Rightarrow> bool" where
  "commission_flow bal pool com wd A x y \<longleftrightarrow>
     wd y = wd x \<and> (\<forall>dn b. b \<notin> A \<longrightarrow> com y b dn = com x b dn) \<and>
     (\<forall>dn. pool y dn = pool x dn + (\<Sum>a\<in>A. com x a dn - com y a dn)) \<and>
     (\<forall>dn b. bal y b dn = bal x b dn + (\<Sum>a\<in>A. if wd x a = b then com x a dn - com y a dn else 0) -
        (if b \<in> A then com x b dn - com y b dn else 0))"


section \<open>Reachable states\<close>

text \<open>
  Every way the running chain can change the context: the two messages (on any request,
  and keeping what a failed one wrote), the block hook, genesis, and any other module or
  any transaction touching everything but the volunteer store.
\<close>

inductive vol_step :: "'x VolunteerKeeper \<Rightarrow> 'x Ctx \<Rightarrow> 'x Ctx \<Rightarrow> bool" for k where
  vs_register: "vol_step k c (snd (RegisterVolunteerValidator k req c))"
| vs_unregister: "vol_step k c (snd (UnregisterVolunteerValidator k ureq c))"
| vs_begin_block: "vol_step k c (snd (Volunteer_BeginBlocker rng k c))"
| vs_genesis: "vol_step k c (snd (Volunteer_InitGenesis k data c))"
| vs_other: "volunteer_kv d = volunteer_kv c \<Longrightarrow> vol_step k c d"

inductive vol_reach :: "'x VolunteerKeeper \<Rightarrow> 'x Ctx \<Rightarrow> bool" for k where
  vr_init: "volunteer_kv c = [] \<Longrightarrow> vol_reach k c"
| vr_step: "vol_reach k c \<Longrightarrow> vol_step k c d \<Longrightarrow> vol_reach k d"

section \<open>A reference keeper\<close>

text \<open>
  A small staking and distribution ledger: the created validators, balances, the
  community pool, and the outstanding commissions, which are withdrawn to the validator's
  own account.
\<close>

record RefLedger =
  led_vals :: "(bytes \<times> Validator) list"
  led_bal :: "bytes \<Rightarrow> string \<Rightarrow> int"
  led_pool :: "string \<Rightarrow> int"
  led_com :: "bytes \<Rightarrow> string \<Rightarrow> int"

definition ref_withdraw :: "ValAddress \<Rightarrow> (RefLedger, Coins) M" where
  "ref_withdraw a = bindM (getsM (\<lambda>l. led_com l a ''axpla'')) (\<lambda>n.
     if n \<le> 0 then throw (ErrExternal ''no validator commission to withdraw'')
     else thenM (modifyM (\<lambda>l. l\<lparr>led_bal := (led_bal l)(a := (led_bal l a)(''axpla'' := led_bal l a ''axpla'' + n)),
              led_com := (led_com l)(a := (led_com l a)(''axpla'' := 0))\<rparr>))
            (ret [\<lparr>Denom = ''axpla'', Amount = n\<rparr>]))"

definition ref_fund :: "Coins \<Rightarrow> AccAddress \<Rightarrow> (RefLedger, unit) M" where
  "ref_fund cs a = modifyM (\<lambda>l. l\<lparr>
     led_bal := (led_bal l)(a := (\<lambda>d. led_bal l a d - amount_of cs d)),
     led_pool := (\<lambda>d. led_pool l d + amount_of cs d)\<rparr>)"

definition ref_get_validator :: "ValAddress \<Rightarrow> (RefLedger, Validator) M" where
  "ref_get_validator a = bindM (getsM led_vals) (\<lambda>vs. case map_of vs a of
     None \<Rightarrow> throw (ErrExternal ''validator does not exist'') | Some v \<Rightarrow> ret v)"

definition ref_set_validator :: "Validator \<Rightarrow> (RefLedger, unit) M" where
  "ref_set_validator v = bindM (liftO (ref_parse (OperatorAddress v))) (\<lambda>a.
     modifyM (\<lambda>l. l\<lparr>led_vals := gomap_set a v (led_vals l)\<rparr>))"

definition ref_staking :: "RefLedger VolStakingKeeper" where
  "ref_staking = \<lparr>sk_GetValidator = ref_get_validator,
     sk_GetValidatorByConsAddr = (\<lambda>_. throw (ErrExternal ''validator does not exist'')),
     sk_BondDenom = ret ''axpla'', sk_SetValidator = ref_set_validator,
     sk_SetValidatorByConsAddr = (\<lambda>_. ret ()), sk_SetNewValidatorByPowerIndex = (\<lambda>_. ret ()),
     sk_Delegate = (\<lambda>_ n _ v _. thenM (ref_set_validator (v\<lparr>DelegatorShares := n * 10 ^ 18\<rparr>)) (ret n)),
     sk_Undelegate = (\<lambda>_ a s. bindM (ref_get_validator a) (\<lambda>v.
        thenM (ref_set_validator (v\<lparr>DelegatorShares := DelegatorShares v - s\<rparr>)) (ret (0, s)))),
     sk_AfterValidatorCreated = (\<lambda>_. ret ()), sk_StringToBytes = ref_parse\<rparr>"

definition ref_new_validator :: "string \<Rightarrow> PubKey \<Rightarrow> Description \<Rightarrow> Validator outcome" where
  "ref_new_validator op pk d = Ok \<lparr>OperatorAddress = op, ConsensusPubkey = Some pk, Jailed = False,
     Status = Unbonded, Tokens = 0, DelegatorShares = 0, ValDescription = d,
     ValCommission = \<lparr>CommissionRatesOf = \<lparr>Rate = 0, MaxRate = 0, MaxChangeRate = 0\<rparr>, UpdateTime = 0\<rparr>,
     MinSelfDelegation = 1, UnbondingHeight = 0\<rparr>"

text \<open>Keepers that know no validator and hold no commission, over any state.\<close>

definition ref_no_staking :: "'x VolStakingKeeper" where
  "ref_no_staking = \<lparr>sk_GetValidator = (\<lambda>_. throw ErrNotFound),
     sk_GetValidatorByConsAddr = (\<lambda>_. throw ErrNotFound), sk_BondDenom = ret ''axpla'',
     sk_SetValidator = (\<lambda>_. ret ()), sk_SetValidatorByConsAddr = (\<lambda>_. ret ()),
     sk_SetNewValidatorByPowerIndex = (\<lambda>_. ret ()), sk_Delegate = (\<lambda>_ n _ _ _. ret n),
     sk_Undelegate = (\<lambda>_ _ _. throw ErrNotFound), sk_AfterValidatorCreated = (\<lambda>_. ret ()),
     sk_StringToBytes = ref_parse\<rparr>"

definition ref_no_dist :: "'x VolDistKeeper" where
  "ref_no_dist = \<lparr>dk_WithdrawValidatorCommission = (\<lambda>_. throw ErrNotFound),
     dk_FundCommunityPool = (\<lambda>_ _. ret ())\<rparr>"

definition ref_vk_of :: "'x VolStakingKeeper \<Rightarrow> 'x VolDistKeeper \<Rightarrow> 'x VolunteerKeeper" where
  "ref_vk_of sk dk = \<lparr>vk_stakingKeeper = sk, vk_distKeeper = dk,
     vk_authority = ''gov'', vk_bech32 = ref_bech32, vk_coins = ref_coins,
     vk_staking = \<lparr>GetConsAddress = pk_Bytes, EnsureLength = (\<lambda>_. Ok ()),
       NewValidator = ref_new_validator, SetInitialCommission = (\<lambda>v cm. Ok (v\<lparr>ValCommission := cm\<rparr>))\<rparr>,
     vk_LengthPrefix = ref_length_prefix\<rparr>"

definition ref_vk :: "RefLedger VolunteerKeeper" where
  "ref_vk = ref_vk_of ref_staking
     \<lparr>dk_WithdrawValidatorCommission = ref_withdraw, dk_FundCommunityPool = ref_fund\<rparr>"

definition ref_ledger :: RefLedger where
  "ref_ledger = \<lparr>led_vals = [], led_bal = (\<lambda>_ _. 0), led_pool = (\<lambda>_. 0),
     led_com = (\<lambda>a d. if a = [118] \<and> d = ''axpla'' then 7 else 0)\<rparr>"

definition ref_register :: MsgRegisterVolunteerValidator where
  "ref_register = \<lparr>rv_Authority = ''gov'',
     rv_ValidatorDescription = \<lparr>Moniker = ''v'', Identity = [], Website = [], SecurityContact = [], Details = []\<rparr>,
     rv_DelegatorAddress = ''v'', rv_ValidatorAddress = ''v'',
     rv_Pubkey = Some \<lparr>any_TypeUrl = ''/ed25519'', any_Cached = CachedPubKey \<lparr>pk_Type = ''ed25519'', pk_Bytes = [1]\<rparr>\<rparr>,
     rv_Amount = \<lparr>Denom = ''axpla'', Amount = 5\<rparr>\<rparr>"

text \<open>The reference chain after one registration.\<close>

definition ref_volunteer :: VolunteerValidator where
  "ref_volunteer = \<lparr>vv_Address = ''v'', vv_Power = 0\<rparr>"

definition ref_vol_ctx :: "RefLedger Ctx" where
  "ref_vol_ctx = (ref_ctx ref_ledger)\<lparr>volunteer_kv := [([0x11, 1, 118], ref_volunteer)]\<rparr>"

section \<open>The store contract\<close>

interpretation vol: keyed_store volunteer_lookup volunteer_put volunteer_remove
    "\<lambda>c. kv_ok (volunteer_kv c)"
  by unfold_locales
    (auto simp: volunteer_lookup_def volunteer_put_def volunteer_remove_def fun_eq_iff
      kv_get_set kv_get_delete intro: kv_ok_set kv_ok_delete)

lemma GetVolunteerValidator_apply:
  "GetVolunteerValidatorKey k a = Ok key \<Longrightarrow> GetVolunteerValidator k a c =
     ((case volunteer_lookup c key of
         None \<Rightarrow> Err (Error ''no volunteer validator found'') | Some v \<Rightarrow> Ok v), c)"
  by (simp add: GetVolunteerValidator_def bindM_def split: option.splits)

lemma SetVolunteerValidator_apply:
  "GetVolunteerValidatorKey k a = Ok key \<Longrightarrow>
     SetVolunteerValidator k a v c = (Ok (), volunteer_put key v c)"
  by (simp add: SetVolunteerValidator_def)

lemma DeleteVolunteerValidator_apply:
  "GetVolunteerValidatorKey k a = Ok key \<Longrightarrow>
     DeleteVolunteerValidator k a c = (Ok (), volunteer_remove key c)"
  by (simp add: DeleteVolunteerValidator_def)

lemma vol_key_exists:
  assumes "val_codec_laws (vk_bech32 k)" "length_prefix_laws (vk_LengthPrefix k)"
    and "ValAddressFromBech32 (vk_bech32 k) s = Ok a"
  obtains key where "GetVolunteerValidatorKey k a = Ok key"
proof -
  from assms(1,3) have "length a \<le> 255" by (auto simp: val_codec_laws_def)
  with assms(2) have "is_Ok (vk_LengthPrefix k a)" by (auto simp: length_prefix_laws_def)
  then show ?thesis using that by (auto simp: is_Ok_iff GetVolunteerValidatorKey_def)
qed

lemma vol_key_inj:
  assumes "length_prefix_laws (vk_LengthPrefix k)"
    and "GetVolunteerValidatorKey k a = Ok key" "GetVolunteerValidatorKey k b = Ok key"
  shows "a = b"
  using assms by (auto simp: length_prefix_laws_def GetVolunteerValidatorKey_def)

section \<open>Preservation of the invariant\<close>

lemma vol_inv_ext [simp]: "vol_inv k (c\<lparr>ext := x\<rparr>) = vol_inv k c"
  by (simp add: vol_inv_def)

lemma vol_inv_events [simp]: "vol_inv k (c\<lparr>events := es\<rparr>) = vol_inv k c"
  by (simp add: vol_inv_def)

lemma vol_inv_put:
  assumes "vol_inv k c" "vol_entry_ok k (key, v)"
  shows "vol_inv k (volunteer_put key v c)"
  using assms
  by (auto simp: vol_inv_def volunteer_put_def intro: kv_ok_set dest!: kv_set_entries)

lemma vol_inv_remove: "vol_inv k c \<Longrightarrow> vol_inv k (volunteer_remove key c)"
  by (auto simp: vol_inv_def volunteer_remove_def intro: kv_ok_delete)
    (auto simp: kv_delete_def)

lemma Set_keeps_inv:
  assumes "ValAddressFromBech32 (vk_bech32 k) (vv_Address v) = Ok a"
  shows "keeps (vol_inv k) (SetVolunteerValidator k a v)"
  unfolding SetVolunteerValidator_def
  by (intro keeps_intro vol_inv_put) (auto simp: vol_entry_ok_def assms)

lemma Delete_keeps_inv: "keeps (vol_inv k) (DeleteVolunteerValidator k a)"
  unfolding DeleteVolunteerValidator_def by (intro keeps_intro vol_inv_remove)

lemma Get_keeps: "keeps P (GetVolunteerValidator k a)"
  unfolding GetVolunteerValidator_def by (intro keeps_intro)

lemma CreateValidator_keeps:
  assumes "\<And>x c. P c \<Longrightarrow> P (c\<lparr>ext := x\<rparr>)" "\<And>es c. P c \<Longrightarrow> P (c\<lparr>events := es\<rparr>)"
  shows "keeps P (CreateValidator k msg)"
  unfolding CreateValidator_def Let_def by (intro keeps_intro assms)

lemma NewVolunteerValidator_address:
  assumes "val_codec_laws (vk_bech32 k)" "ValAddressFromBech32 (vk_bech32 k) s = Ok a"
  shows "ValAddressFromBech32 (vk_bech32 k) (vv_Address (NewVolunteerValidator k a p)) = Ok a"
  using assms by (auto simp: val_codec_laws_def NewVolunteerValidator_def)

lemma Register_keeps_inv:
  assumes "val_codec_laws (vk_bech32 k)"
  shows "keeps (vol_inv k) (RegisterVolunteerValidator k req)"
  unfolding RegisterVolunteerValidator_def
  by (intro keeps_intro Set_keeps_inv CreateValidator_keeps NewVolunteerValidator_address [OF assms])
    simp_all

lemma Unregister_keeps_inv: "keeps (vol_inv k) (UnregisterVolunteerValidator k req)"
  unfolding UnregisterVolunteerValidator_def
  by (intro keeps_intro Get_keeps Delete_keeps_inv) simp_all

lemma commission_step_keeps:
  assumes "\<And>x c. P c \<Longrightarrow> P (c\<lparr>ext := x\<rparr>)"
  shows "keeps P (commission_step k s)"
  unfolding commission_step_def by (intro keeps_intro assms)

lemma BeginBlocker_keeps:
  assumes "\<And>x c. P c \<Longrightarrow> P (c\<lparr>ext := x\<rparr>)"
  shows "keeps P (Volunteer_BeginBlocker rng k)"
  unfolding Volunteer_BeginBlocker_def VolunteerValidatorCommissionProcess_def
    GetVolunteerValidators_def
  by (intro keeps_intro commission_step_keeps assms)

lemma InitGenesis_keeps_inv: "keeps (vol_inv k) (Volunteer_InitGenesis k data)"
proof -
  have "keeps (vol_inv k) (init_one k v)" for v
    by (cases "ValAddressFromBech32 (vk_bech32 k) (vv_Address v)")
      (auto simp: init_one_def intro: keeps_intro Set_keeps_inv)
  then show ?thesis unfolding Volunteer_InitGenesis_def by (intro keeps_intro)
qed

section \<open>The registry as a map\<close>

lemma gomap_set_new: "k \<notin> fst ` set es \<Longrightarrow> gomap_set k v es = es @ [(k, v)]"
  by (induction es) auto

lemma fold_gomap_distinct:
  "distinct (map f es @ map fst m) \<Longrightarrow>
    fold (\<lambda>e m. gomap_set (f e) (g e) m) es m = m @ map (\<lambda>e. (f e, g e)) es"
proof (induction es arbitrary: m)
  case Nil
  then show ?case by simp
next
  case (Cons e es)
  then have "gomap_set (f e) (g e) m = m @ [(f e, g e)]"
    by (intro gomap_set_new) auto
  with Cons show ?case by (auto simp del: gomap_set.simps)
qed

lemma vol_inv_strings_distinct:
  assumes "vol_inv k c"
  shows "distinct (map (\<lambda>e. vv_Address (snd e)) (volunteer_kv c))"
proof -
  have "inj_on (\<lambda>e. vv_Address (snd e)) (set (volunteer_kv c))"
  proof (rule inj_onI)
    fix e f assume e: "e \<in> set (volunteer_kv c)" and f: "f \<in> set (volunteer_kv c)"
      and eq: "vv_Address (snd e) = vv_Address (snd f)"
    from assms e f have "vol_entry_ok k e" "vol_entry_ok k f" by (auto simp: vol_inv_def)
    with eq have "fst e = fst f" by (auto simp: vol_entry_ok_def)
    moreover have "distinct (map fst (volunteer_kv c))"
      using assms by (auto simp: vol_inv_def intro: kv_ok_distinct)
    ultimately show "e = f" using e f by (metis eq_key_imp_eq_value prod.collapse)
  qed
  moreover have "distinct (volunteer_kv c)"
    using assms kv_ok_distinct by (auto simp: vol_inv_def distinct_map)
  ultimately show ?thesis by (simp add: distinct_map)
qed

lemma vol_inv_prefix:
  assumes "vol_inv k c"
  shows "kv_prefix VolunteerValidatorKey (volunteer_kv c) = volunteer_kv c"
proof -
  have "\<forall>e \<in> set (volunteer_kv c). has_prefix (fst e) VolunteerValidatorKey"
  proof
    fix e assume "e \<in> set (volunteer_kv c)"
    with assms have "vol_entry_ok k e" by (simp add: vol_inv_def)
    then obtain p where "VolunteerValidatorKey @ p = fst e"
      by (auto simp: vol_entry_ok_def GetVolunteerValidatorKey_def)
    then show "has_prefix (fst e) VolunteerValidatorKey" by (metis has_prefix_append)
  qed
  then show ?thesis unfolding kv_prefix_def by (simp add: filter_id_conv)
qed

lemma volunteer_map_eq:
  assumes "vol_inv k c"
  shows "volunteer_map (volunteer_kv c) = map (\<lambda>e. (vv_Address (snd e), snd e)) (volunteer_kv c)"
  using vol_inv_strings_distinct [OF assms] fold_gomap_distinct [where m = "[]"]
  by (simp add: volunteer_map_def vol_inv_prefix [OF assms])

lemma volunteer_map_parses:
  assumes "vol_inv k c" "e \<in> set (volunteer_map (volunteer_kv c))"
  shows "\<exists>a. ValAddressFromBech32 (vk_bech32 k) (fst e) = Ok a \<and> is_volunteer k c a"
proof -
  from assms volunteer_map_eq [OF assms(1)] obtain f where f: "f \<in> set (volunteer_kv c)"
      and e: "e = (vv_Address (snd f), snd f)" by auto
  from assms(1) f have "vol_entry_ok k f" and ok: "kv_ok (volunteer_kv c)"
    by (auto simp: vol_inv_def)
  then obtain a where a: "ValAddressFromBech32 (vk_bech32 k) (vv_Address (snd f)) = Ok a"
      and key: "GetVolunteerValidatorKey k a = Ok (fst f)"
    by (auto simp: vol_entry_ok_def)
  have "volunteer_lookup c (fst f) = Some (snd f)"
    using f kv_get_mem [OF ok] by (simp add: volunteer_lookup_def)
  with a key e show ?thesis unfolding is_volunteer_def by auto
qed

section \<open>Genesis\<close>

lemma init_one_apply:
  assumes "ValAddressFromBech32 (vk_bech32 k) (vv_Address v) = Ok a"
    and "GetVolunteerValidatorKey k a = Ok key"
  shows "init_one k v c = (Ok (), volunteer_put key v c)"
  using assms by (simp add: init_one_def SetVolunteerValidator_apply)

lemma InitGenesis_entries:
  assumes "\<forall>e \<in> set es. vol_entry_ok k e"
  shows "Volunteer_InitGenesis k (map snd es) c =
    (Ok (), c\<lparr>volunteer_kv := fold (\<lambda>e. kv_set (fst e) (snd e)) es (volunteer_kv c)\<rparr>)"
  using assms
proof (induction es arbitrary: c)
  case Nil
  then show ?case by (simp add: Volunteer_InitGenesis_def)
next
  case (Cons e es)
  then have "init_one k (snd e) c = (Ok (), volunteer_put (fst e) (snd e) c)"
    by (auto simp: vol_entry_ok_def intro: init_one_apply)
  with Cons show ?case
    by (simp add: Volunteer_InitGenesis_def bindM_def volunteer_put_def)
qed

lemma ExportGenesis_apply:
  assumes "vol_inv k c" "go_range rng"
  obtains es where "mset es = mset (volunteer_kv c)"
    "Volunteer_ExportGenesis rng k c = (Ok (map snd es), c)"
proof -
  let ?g = "\<lambda>e :: bytes \<times> VolunteerValidator. (vv_Address (snd e), snd e)"
  obtain es where es: "mset es = mset (volunteer_kv c)"
      and rng: "rng (map ?g (volunteer_kv c)) = map ?g es"
    using go_range_map [OF assms(2)] by blast
  have "Volunteer_ExportGenesis rng k c = (Ok (map snd es), c)"
    using rng volunteer_map_eq [OF assms(1)]
    by (simp add: Volunteer_ExportGenesis_def GetVolunteerValidators_def bindM_def comp_def)
  with es that show ?thesis by blast
qed

lemma ValidateGenesis_entries:
  "\<forall>e \<in> set es. vol_entry_ok k e \<Longrightarrow> Volunteer_ValidateGenesis (vk_bech32 k) (map snd es) = Ok ()"
  by (induction es) (auto simp: Volunteer_ValidateGenesis_def vol_entry_ok_def)

section \<open>Reachable states\<close>

lemma vol_step_inv:
  assumes "val_codec_laws (vk_bech32 k)" "vol_step k c d" "vol_inv k c"
  shows "vol_inv k d"
  using assms(2)
proof cases
  case vs_other
  with assms(3) show ?thesis by (simp add: vol_inv_def)
qed (use assms(3) in \<open>auto intro: keeps_snd [OF Register_keeps_inv [OF assms(1)]]
      keeps_snd [OF Unregister_keeps_inv] keeps_snd [OF InitGenesis_keeps_inv]
      keeps_snd [OF BeginBlocker_keeps]\<close>)

lemma vol_reach_inv:
  assumes "val_codec_laws (vk_bech32 k)" "vol_reach k c"
  shows "vol_inv k c"
  using assms(2)
proof induction
  case (vr_init c)
  then show ?case by (simp add: vol_inv_def)
next
  case (vr_step c d)
  from vol_step_inv [OF assms(1) vr_step.hyps(2) vr_step.IH] show ?case .
qed

lemma volunteer_map_complete:
  assumes "length_prefix_laws (vk_LengthPrefix k)" "vol_inv k c"
  shows "is_volunteer k c a \<longleftrightarrow>
    (\<exists>s v. (s, v) \<in> set (volunteer_map (volunteer_kv c)) \<and> ValAddressFromBech32 (vk_bech32 k) s = Ok a)"
proof
  assume "is_volunteer k c a"
  then obtain key v where key: "GetVolunteerValidatorKey k a = Ok key"
      and "volunteer_lookup c key = Some v" by (auto simp: is_volunteer_def)
  then have mem: "(key, v) \<in> set (volunteer_kv c)"
    using assms(2) kv_get_mem [of "volunteer_kv c" key v]
    by (simp add: volunteer_lookup_def vol_inv_def)
  then obtain b where b: "ValAddressFromBech32 (vk_bech32 k) (vv_Address v) = Ok b"
      and "GetVolunteerValidatorKey k b = Ok key"
    using assms(2) by (fastforce simp: vol_inv_def vol_entry_ok_def)
  then have "b = a" using vol_key_inj [OF assms(1)] key by blast
  then show "\<exists>s v. (s, v) \<in> set (volunteer_map (volunteer_kv c)) \<and> ValAddressFromBech32 (vk_bech32 k) s = Ok a"
    using b mem by (force simp: volunteer_map_eq [OF assms(2)])
next
  assume "\<exists>s v. (s, v) \<in> set (volunteer_map (volunteer_kv c)) \<and> ValAddressFromBech32 (vk_bech32 k) s = Ok a"
  then show "is_volunteer k c a" using volunteer_map_parses [OF assms(2)] by fastforce
qed

section \<open>Facts about the single operations\<close>

lemma CreateValidator_volunteer_kv:
  "CreateValidator k msg c = (r, d) \<Longrightarrow> volunteer_kv d = volunteer_kv c"
  by (rule keepsD [OF CreateValidator_keeps [where P = "\<lambda>d. volunteer_kv d = volunteer_kv c"]]) auto

lemma is_volunteer_put:
  assumes "length_prefix_laws (vk_LengthPrefix k)" "kv_ok (volunteer_kv c)"
    and "GetVolunteerValidatorKey k a = Ok key"
    and "volunteer_lookup d = (volunteer_lookup c)(key \<mapsto> v)"
  shows "is_volunteer k d b \<longleftrightarrow> is_volunteer k c b \<or> b = a"
  using assms vol_key_inj [OF assms(1)] by (auto simp: is_volunteer_def)

lemma is_volunteer_remove:
  assumes "length_prefix_laws (vk_LengthPrefix k)"
    and "GetVolunteerValidatorKey k a = Ok key"
    and "volunteer_lookup d = (volunteer_lookup c)(key := None)"
  shows "is_volunteer k d b \<longleftrightarrow> is_volunteer k c b \<and> b \<noteq> a"
proof (cases "b = a")
  case True
  with assms(2,3) show ?thesis by (simp add: is_volunteer_def)
next
  case False
  then have "GetVolunteerValidatorKey k b \<noteq> Ok key" using vol_key_inj [OF assms(1,2)] by blast
  with assms(3) False show ?thesis by (auto simp: is_volunteer_def)
qed

lemma GetVolunteerValidator_Ok:
  "GetVolunteerValidator k a c = (Ok v, d) \<longleftrightarrow>
     d = c \<and> (\<exists>key. GetVolunteerValidatorKey k a = Ok key \<and> volunteer_lookup c key = Some v)"
  by (cases "GetVolunteerValidatorKey k a")
    (auto simp: GetVolunteerValidator_def bindM_def split: option.splits)

lemma volunteer_lookup_ext [simp]: "volunteer_lookup (c\<lparr>ext := x\<rparr>) = volunteer_lookup c"
  by (simp add: volunteer_lookup_def fun_eq_iff)

text \<open>One successful iteration of the commission loop.\<close>

lemma commission_step_Ok:
  assumes "commission_step k s c = (Ok (), d)"
  obtains a x cs where "ValAddressFromBech32 (vk_bech32 k) s = Ok a"
      "dk_WithdrawValidatorCommission (vk_distKeeper k) a (ext c) = (Ok cs, x)"
      "dk_FundCommunityPool (vk_distKeeper k) cs a x = (Ok (), ext d)" "d = c\<lparr>ext := ext d\<rparr>"
  | a e where "ValAddressFromBech32 (vk_bech32 k) s = Ok a"
      "dk_WithdrawValidatorCommission (vk_distKeeper k) a (ext c) = (Err e, ext d)"
      "d = c\<lparr>ext := ext d\<rparr>"
  using assms
  by (cases "ValAddressFromBech32 (vk_bech32 k) s")
    (auto simp: commission_step_def bindM_def attempt_def extM_apply
      split: prod.splits outcome.splits)




lemma commission_withdraw:
  assumes "commission_laws dk bal pool com wd" "dk_WithdrawValidatorCommission dk a x = (Ok cs, y)"
  shows "bal y = (bal x)(wd x a := (\<lambda>d. bal x (wd x a) d + amount_of cs d)) \<and>
    com y = (com x)(a := (\<lambda>d. com x a d - amount_of cs d)) \<and> pool y = pool x \<and> wd y = wd x"
  using assms unfolding commission_laws_def by blast

lemma commission_fund:
  assumes "commission_laws dk bal pool com wd" "dk_FundCommunityPool dk cs a x = (Ok (), y)"
  shows "bal y = (bal x)(a := (\<lambda>d. bal x a d - amount_of cs d)) \<and>
    pool y = (\<lambda>d. pool x d + amount_of cs d) \<and> com y = com x \<and> wd y = wd x"
  using assms unfolding commission_laws_def by blast

lemma commission_skip:
  assumes "commission_laws dk bal pool com wd" "dk_WithdrawValidatorCommission dk a x = (Err e, y)"
  shows "bal y = bal x \<and> com y = com x \<and> pool y = pool x \<and> wd y = wd x"
  using assms unfolding commission_laws_def by blast

text \<open>One more commission \<open>n\<close> of \<open>a\<close> paid, summed over all payers.\<close>

lemma sum_paid:
  fixes f g :: "bytes \<Rightarrow> int"
  assumes "finite A" "a \<in> A" "g = f(a := f a + n)"
  shows "(\<Sum>b\<in>A. if P b then g b else 0) = (\<Sum>b\<in>A. if P b then f b else 0) + (if P a then n else 0)"
proof -
  have "(if P b then g b else 0) = (if P b then f b else 0) + (if b = a then (if P a then n else 0) else 0)" for b
    using assms(3) by simp
  then show ?thesis using assms(1,2) by (simp add: sum.distrib)
qed

lemma commission_step_flow:
  assumes "commission_laws (vk_distKeeper k) bal pool com wd" "commission_step k s c = (Ok (), d)"
    and "finite A" "\<And>a. ValAddressFromBech32 (vk_bech32 k) s = Ok a \<Longrightarrow> a \<in> A"
    and flow: "commission_flow bal pool com wd A x (ext c)"
  shows "commission_flow bal pool com wd A x (ext d)"
  using assms(2)
proof (cases rule: commission_step_Ok)
  case (1 a y cs)
  note y = commission_withdraw [OF assms(1) 1(2)] and d = commission_fund [OF assms(1) 1(3)] and a = assms(4) [OF 1(1)]
  let ?f = "\<lambda>dn b. com x b dn - com (ext c) b dn" and ?g = "\<lambda>dn b. com x b dn - com (ext d) b dn"
  have g: "?g dn = (?f dn)(a := ?f dn a + amount_of cs dn)" for dn using y d by (auto simp: fun_eq_iff)
  note sums = sum_paid [OF assms(3) a g]
  have total: "(\<Sum>b\<in>A. ?g dn b) = (\<Sum>b\<in>A. ?f dn b) + amount_of cs dn" for dn using sums [where P = "\<lambda>_. True"] by simp
  have wd: "wd (ext c) = wd x" "wd (ext d) = wd x" using flow y d by (simp_all add: commission_flow_def)
  have bal: "bal (ext d) b dn = bal (ext c) b dn + (if wd x a = b then amount_of cs dn else 0) -
      (if b = a then amount_of cs dn else 0)" for b dn
    using y d wd by auto
  show ?thesis unfolding commission_flow_def
  proof (intro conjI allI impI)
    fix dn b
    show "pool (ext d) dn = pool x dn + (\<Sum>b\<in>A. ?g dn b)" using flow y d total by (simp add: commission_flow_def)
    have "bal (ext c) b dn = bal x b dn + (\<Sum>a\<in>A. if wd x a = b then ?f dn a else 0) - (if b \<in> A then ?f dn b else 0)"
      using flow by (simp add: commission_flow_def)
    moreover have "?g dn b = ?f dn b + (if b = a then amount_of cs dn else 0)" using fun_cong [OF g [of dn], of b] by simp
    ultimately show "bal (ext d) b dn = bal x b dn + (\<Sum>a\<in>A. if wd x a = b then ?g dn a else 0) - (if b \<in> A then ?g dn b else 0)"
      using a unfolding bal sums [of "\<lambda>a. wd x a = b" dn] by auto
    show "com (ext d) b dn = com x b dn" if "b \<notin> A"
      using flow y d a that by (auto simp: commission_flow_def)
  qed (simp add: wd)
next
  case (2 a e)
  from commission_skip [OF assms(1) 2(2)] have same: "bal (ext d) = bal (ext c)" "com (ext d) = com (ext c)"
    "pool (ext d) = pool (ext c)" "wd (ext d) = wd (ext c)" by blast+
  from flow show ?thesis unfolding commission_flow_def same .
qed

text \<open>A step for another address leaves the commission of \<open>a\<close> alone; the loop reaches every entry.\<close>

lemma commission_step_other:
  assumes "commission_laws (vk_distKeeper k) bal pool com wd" "commission_step k s c = (Ok v, d)"
    and "ValAddressFromBech32 (vk_bech32 k) s \<noteq> Ok a"
  shows "com (ext d) a = com (ext c) a"
  using assms(2) unfolding unit_eq [of v]
proof (cases rule: commission_step_Ok)
  case (1 b y cs)
  then show ?thesis using commission_withdraw [OF assms(1) 1(2)] commission_fund [OF assms(1) 1(3)] assms(3) by auto
next
  case (2 b e)
  then show ?thesis using commission_skip [OF assms(1) 2(2)] by simp
qed

lemma commission_step_own:
  assumes "commission_laws (vk_distKeeper k) bal pool com wd" "commission_step k s c = (Ok v, d)"
    and "ValAddressFromBech32 (vk_bech32 k) s = Ok a"
  shows "\<exists>r y. dk_WithdrawValidatorCommission (vk_distKeeper k) a (ext c) = (r, y) \<and> com (ext d) a = com y a"
  using assms(2) unfolding unit_eq [of v]
proof (cases rule: commission_step_Ok)
  case (1 b y cs)
  then show ?thesis using commission_fund [OF assms(1) 1(3)] assms(3) by auto
next
  case (2 b e)
  then show ?thesis using assms(3) by auto
qed

lemma forM_split:
  assumes "forM es f c = (Ok u, d)" "e \<in> set es"
  shows "\<exists>xs ys c1 c2 v w. es = xs @ e # ys \<and> forM xs f c = (Ok v, c1) \<and> f e c1 = (Ok w, c2) \<and> forM ys f c2 = (Ok u, d)"
proof -
  from assms(2) obtain xs ys where es: "es = xs @ e # ys" by (auto simp: in_set_conv_decomp)
  with assms(1) show ?thesis by (fastforce simp: forM_append)
qed

lemma volunteer_map_unique:
  assumes "vol_inv k c" "go_range rng" "rng (volunteer_map (volunteer_kv c)) = xs @ e # ys"
    and "ValAddressFromBech32 (vk_bech32 k) (fst e) = Ok a" "g \<in> set (xs @ ys)"
  shows "ValAddressFromBech32 (vk_bech32 k) (fst g) \<noteq> Ok a"
proof
  assume g: "ValAddressFromBech32 (vk_bech32 k) (fst g) = Ok a"
  have m: "set (rng (volunteer_map (volunteer_kv c))) = set (volunteer_map (volunteer_kv c))"
    by (rule go_range_set [OF assms(2)])
  have "distinct (map fst (volunteer_map (volunteer_kv c)))"
    using vol_inv_strings_distinct [OF assms(1)] by (simp add: volunteer_map_eq [OF assms(1)] comp_def)
  then have d: "distinct (map fst (rng (volunteer_map (volunteer_kv c))))"
    using assms(2) unfolding go_range_def by (metis mset_map mset_eq_imp_distinct_iff)
  have "e \<in> set (volunteer_map (volunteer_kv c))" "g \<in> set (volunteer_map (volunteer_kv c))"
    using m assms(3,5) by auto
  then obtain f h where f: "f \<in> set (volunteer_kv c)" "fst e = vv_Address (snd f)"
      and h: "h \<in> set (volunteer_kv c)" "fst g = vv_Address (snd h)"
    by (auto simp: volunteer_map_eq [OF assms(1)])
  then have "vol_entry_ok k f" "vol_entry_ok k h" "kv_ok (volunteer_kv c)" using assms(1) by (auto simp: vol_inv_def)
  then have "fst f = fst h" using assms(4) g f(2) h(2) by (auto simp: vol_entry_ok_def)
  then have "f = h" using f(1) h(1) kv_get_mem [OF \<open>kv_ok (volunteer_kv c)\<close>] by (metis option.inject prod.collapse)
  then have "fst g = fst e" using f h by simp
  moreover have "fst g \<in> fst ` set xs \<union> fst ` set ys" using assms(5) by auto
  ultimately show False using d assms(3) by auto
qed

lemma commission_withdrawn:
  assumes "length_prefix_laws (vk_LengthPrefix k)" "vol_inv k c" "go_range rng"
    and laws: "commission_laws (vk_distKeeper k) bal pool com wd"
    and run: "forM (rng (volunteer_map (volunteer_kv c))) (\<lambda>e. commission_step k (fst e)) c = (Ok u, d)"
    and "is_volunteer k c a"
  shows "\<exists>x r y. dk_WithdrawValidatorCommission (vk_distKeeper k) a x = (r, y) \<and>
    com x a = com (ext c) a \<and> com (ext d) a = com y a"
proof -
  from assms(6) obtain e where e: "e \<in> set (rng (volunteer_map (volunteer_kv c)))"
      and a: "ValAddressFromBech32 (vk_bech32 k) (fst e) = Ok a"
    unfolding volunteer_map_complete [OF assms(1,2)] by (force simp: go_range_set [OF assms(3)])
  from forM_split [OF run e] obtain xs ys c1 c2 v w where
    es: "rng (volunteer_map (volunteer_kv c)) = xs @ e # ys"
    and xs: "forM xs (\<lambda>e. commission_step k (fst e)) c = (Ok v, c1)"
    and st: "commission_step k (fst e) c1 = (Ok w, c2)"
    and ys: "forM ys (\<lambda>e. commission_step k (fst e)) c2 = (Ok u, d)" by blast
  note other = volunteer_map_unique [OF assms(2,3) es a]
  have "com (ext c1) a = com (ext c) a"
    using xs by (rule forM_Ok_induct) (use other commission_step_other [OF laws] in auto)
  moreover have "com (ext d) a = com (ext c2) a"
    using ys by (rule forM_Ok_induct) (use other commission_step_other [OF laws] in auto)
  ultimately show ?thesis using commission_step_own [OF laws st a] by metis
qed

lemma Unregister_Panic:
  assumes "ValAddressFromBech32 (vk_bech32 k) (uv_ValidatorAddress req) = Ok a"
    and "sk_GetValidator (vk_stakingKeeper k) a (ext c) = (Panic p, x)"
  shows "UnregisterVolunteerValidator k req c \<noteq> (Ok (), d)"
proof
  assume "UnregisterVolunteerValidator k req c = (Ok (), d)"
  then obtain w where "GetVolunteerValidator k a c = (Ok w, c)"
    using assms(1) by (fastforce simp: UnregisterVolunteerValidator_def thenM_def GetVolunteerValidator_Ok
        split: if_splits)
  with assms \<open>UnregisterVolunteerValidator k req c = (Ok (), d)\<close> show False
    by (auto simp: UnregisterVolunteerValidator_def thenM_def bindM_def attempt_def extM_apply split: if_splits)
qed

section \<open>The reference keeper meets the laws\<close>

lemma ref_vk_prefix: "length_prefix_laws (vk_LengthPrefix ref_vk)"
  by (auto simp: length_prefix_laws_def ref_vk_def ref_vk_of_def ref_length_prefix_def split: if_splits)

lemma ref_vk_codec: "val_codec_laws (vk_bech32 ref_vk)"
  by (simp add: ref_vk_def ref_vk_of_def ref_val_laws)

lemma ref_vk_commission: "commission_laws (vk_distKeeper ref_vk) led_bal led_pool led_com (\<lambda>_ a. a)"
  by (auto simp: commission_laws_def ref_vk_def ref_vk_of_def ref_withdraw_def ref_fund_def amount_of_def
      fun_eq_iff thenM_def bindM_def split: if_splits)

lemma ref_vol_inv: "vol_inv ref_vk ref_vol_ctx"
  by (simp add: vol_inv_def ref_vol_ctx_def kv_ok_def vol_entry_ok_def ref_volunteer_def
      ref_vk_def ref_vk_of_def ref_bech32_def ref_parse_def GetVolunteerValidatorKey_def ref_length_prefix_def
      VolunteerValidatorKey_def)

section \<open>Properties\<close>

text \<open>A registration or unregistration that does not carry the module authority is
  rejected with \<open>ErrInvalidSigner\<close> and changes nothing.\<close>

theorem volunteer_only_authority:
  assumes "rv_Authority req \<noteq> GetAuthority k" "uv_Authority ureq \<noteq> GetAuthority k"
  shows "RegisterVolunteerValidator k req c = (Err ErrInvalidSigner, c) \<and>
    UnregisterVolunteerValidator k ureq c = (Err ErrInvalidSigner, c)"
  using assms
  by (auto simp: RegisterVolunteerValidator_def UnregisterVolunteerValidator_def GetAuthority_def
      thenM_def bindM_def)

theorem volunteer_only_authority_witness:
  "RegisterVolunteerValidator ref_vk (ref_register\<lparr>rv_Authority := ''x''\<rparr>) ref_vol_ctx =
     (Err ErrInvalidSigner, ref_vol_ctx) \<and>
   UnregisterVolunteerValidator ref_vk \<lparr>uv_Authority = ''x'', uv_ValidatorAddress = ''v''\<rparr> ref_vol_ctx =
     (Err ErrInvalidSigner, ref_vol_ctx)"
  by (rule volunteer_only_authority) (simp_all add: GetAuthority_def ref_vk_def ref_vk_of_def)

text \<open>C32: A successful registration was requested by the authority for an address the
  staking module had no validator for, and its effect on the registry is to add exactly
  that address, with power 0: every other address keeps its status.\<close>

theorem register_adds_volunteer:
  assumes "length_prefix_laws (vk_LengthPrefix k)" "kv_ok (volunteer_kv c)"
    and "RegisterVolunteerValidator k req c = (Ok (), d)"
  shows "\<exists>a key e x. rv_Authority req = GetAuthority k \<and>
    ValAddressFromBech32 (vk_bech32 k) (rv_ValidatorAddress req) = Ok a \<and>
    sk_GetValidator (vk_stakingKeeper k) a (ext c) = (Err e, x) \<and>
    GetVolunteerValidatorKey k a = Ok key \<and>
    volunteer_lookup d = (volunteer_lookup c)(key \<mapsto> NewVolunteerValidator k a 0) \<and>
    (\<forall>b. is_volunteer k d b \<longleftrightarrow> is_volunteer k c b \<or> b = a)"
proof -
  from assms(3) obtain a key e x where auth: "rv_Authority req = vk_authority k"
    and a: "ValAddressFromBech32 (vk_bech32 k) (rv_ValidatorAddress req) = Ok a"
    and none: "sk_GetValidator (vk_stakingKeeper k) a (ext c) = (Err e, x)"
    and key: "GetVolunteerValidatorKey k a = Ok key"
    and cv: "CreateValidator k (MsgRegister_ToCreateValidator req)
      (volunteer_put key (NewVolunteerValidator k a 0) (c\<lparr>ext := x\<rparr>)) = (Ok (), d)"
    by (auto simp: RegisterVolunteerValidator_def SetVolunteerValidator_def thenM_def attempt_def
        extM_apply split: if_splits prod.splits outcome.splits)
  have "volunteer_lookup d = volunteer_lookup (volunteer_put key (NewVolunteerValidator k a 0) (c\<lparr>ext := x\<rparr>))"
    using CreateValidator_volunteer_kv [OF cv] by (simp add: volunteer_lookup_def fun_eq_iff)
  also have "\<dots> = (volunteer_lookup c)(key \<mapsto> NewVolunteerValidator k a 0)"
    using assms(2) by (simp add: vol.lookup_put)
  finally have look: "volunteer_lookup d = \<dots>" .
  show ?thesis
    using auth a none key look is_volunteer_put [OF assms(1,2) key look]
    unfolding GetAuthority_def by blast
qed

theorem register_adds_volunteer_witness:
  "\<exists>d. RegisterVolunteerValidator ref_vk ref_register (ref_ctx ref_ledger) = (Ok (), d) \<and>
     is_volunteer ref_vk d [118]"
proof -
  let ?d = "snd (RegisterVolunteerValidator ref_vk ref_register (ref_ctx ref_ledger))"
  have run: "RegisterVolunteerValidator ref_vk ref_register (ref_ctx ref_ledger) = (Ok (), ?d)"
    by (rule is_Ok_run) code_simp
  have "length_prefix_laws (vk_LengthPrefix ref_vk)" by (rule ref_vk_prefix)
  moreover have "kv_ok (volunteer_kv (ref_ctx ref_ledger))" by (simp add: ref_ctx_def)
  ultimately obtain a where a: "ValAddressFromBech32 (vk_bech32 ref_vk) (rv_ValidatorAddress ref_register) = Ok a"
      and iff: "\<forall>b. is_volunteer ref_vk ?d b \<longleftrightarrow> is_volunteer ref_vk (ref_ctx ref_ledger) b \<or> b = a"
    using register_adds_volunteer [OF _ _ run] by blast
  have "a = [118]" using a by (simp add: ref_vk_def ref_vk_of_def ref_bech32_def ref_register_def ref_parse_def)
  with run iff show ?thesis by blast
qed

text \<open>C33: A successful unregistration of a registered address does one of two things.  If the staking
  validator exists, all of its shares are undelegated from its own account and exactly that
  address is removed; if it does not, nothing but the state the lookup leaves changes and the
  address stays registered.\<close>

theorem unregister_removes_volunteer:
  assumes "length_prefix_laws (vk_LengthPrefix k)" "kv_ok (volunteer_kv c)"
    and "ValAddressFromBech32 (vk_bech32 k) (uv_ValidatorAddress req) = Ok a"
    and "UnregisterVolunteerValidator k req c = (Ok (), d)"
  shows "is_volunteer k c a \<and> (case sk_GetValidator (vk_stakingKeeper k) a (ext c) of
      (Ok v, x) \<Rightarrow> (\<forall>b. is_volunteer k d b \<longleftrightarrow> is_volunteer k c b \<and> b \<noteq> a) \<and>
        (\<exists>r. sk_Undelegate (vk_stakingKeeper k) a a (DelegatorShares v) x = (Ok r, ext d))
    | (Err _, x) \<Rightarrow> d = c\<lparr>ext := x\<rparr> \<and> is_volunteer k d a
    | (Panic _, _) \<Rightarrow> False)"
proof (cases "sk_GetValidator (vk_stakingKeeper k) a (ext c)")
  case (Pair r x)
  show ?thesis
  proof (cases r)
    case (Ok v)
    with Pair assms(3,4) obtain key w y r where key: "GetVolunteerValidatorKey k a = Ok key"
      and w: "volunteer_lookup c key = Some w"
      and und: "sk_Undelegate (vk_stakingKeeper k) a a (DelegatorShares v) x = (Ok r, y)"
      and d: "d = volunteer_remove key (c\<lparr>ext := y\<rparr>)"
      by (auto simp: UnregisterVolunteerValidator_def DeleteVolunteerValidator_def
          GetVolunteerValidator_Ok thenM_def bindM_def attempt_def extM_apply
          split: if_splits prod.splits outcome.splits)
    have "volunteer_lookup d = (volunteer_lookup c)(key := None)"
      using assms(2) by (simp add: d vol.lookup_remove)
    from is_volunteer_remove [OF assms(1) key this] key w und d Ok Pair show ?thesis
      by (auto simp: is_volunteer_def volunteer_remove_def)
  next
    case (Err e)
    with Pair assms(3,4) have "is_volunteer k c a" "d = c\<lparr>ext := x\<rparr>"
      by (auto simp: UnregisterVolunteerValidator_def GetVolunteerValidator_Ok is_volunteer_def thenM_def bindM_def attempt_def
          extM_apply split: if_splits prod.splits outcome.splits)
    with Err Pair show ?thesis by (auto simp: is_volunteer_def volunteer_lookup_def)
  next
    case (Panic p)
    with Pair assms(3,4) show ?thesis using Unregister_Panic by fast
  qed
qed

theorem unregister_removes_volunteer_witness:
  "\<not> is_volunteer ref_vk (snd (UnregisterVolunteerValidator ref_vk
      \<lparr>uv_Authority = ''gov'', uv_ValidatorAddress = ''v''\<rparr>
      (snd (RegisterVolunteerValidator ref_vk ref_register (ref_ctx ref_ledger))))) [118]"
proof -
  let ?u = "\<lparr>uv_Authority = ''gov'', uv_ValidatorAddress = ''v''\<rparr>"
  let ?c = "snd (RegisterVolunteerValidator ref_vk ref_register (ref_ctx ref_ledger))"
  let ?d = "snd (UnregisterVolunteerValidator ref_vk ?u ?c)"
  let ?get = "sk_GetValidator (vk_stakingKeeper ref_vk) [118] (ext ?c)"
  have "is_Ok (fst ?get)" by code_simp
  then obtain v x where get: "?get = (Ok v, x)" by (cases ?get) (auto simp: is_Ok_iff)
  have "UnregisterVolunteerValidator ref_vk ?u ?c = (Ok (), ?d)"
    by (rule is_Ok_run) code_simp
  moreover have "kv_ok (volunteer_kv ?c)" by code_simp
  moreover have "ValAddressFromBech32 (vk_bech32 ref_vk) (uv_ValidatorAddress ?u) = Ok [118]"
    by code_simp
  ultimately show ?thesis
    using unregister_removes_volunteer [OF ref_vk_prefix, of ?c ?u "[118]" ?d] get by auto
qed

text \<open>Unregistering a volunteer whose staking validator is gone reports success, and
  the address stays registered: nothing but the staking state read changes.\<close>

theorem unregister_orphan_stays:
  assumes "uv_Authority req = GetAuthority k"
    and "ValAddressFromBech32 (vk_bech32 k) (uv_ValidatorAddress req) = Ok a"
    and "is_volunteer k c a" "sk_GetValidator (vk_stakingKeeper k) a (ext c) = (Err e, x)"
  shows "UnregisterVolunteerValidator k req c = (Ok (), c\<lparr>ext := x\<rparr>) \<and>
    is_volunteer k (c\<lparr>ext := x\<rparr>) a"
  using assms
  by (auto simp: UnregisterVolunteerValidator_def GetAuthority_def is_volunteer_def thenM_def bindM_def
      GetVolunteerValidator_apply extM_apply attempt_def)

theorem unregister_orphan_stays_witness:
  "UnregisterVolunteerValidator ref_vk \<lparr>uv_Authority = ''gov'', uv_ValidatorAddress = ''v''\<rparr>
      ref_vol_ctx = (Ok (), ref_vol_ctx\<lparr>ext := ref_ledger\<rparr>) \<and>
   is_volunteer ref_vk (ref_vol_ctx\<lparr>ext := ref_ledger\<rparr>) [118]"
proof (rule unregister_orphan_stays)
  show "is_volunteer ref_vk ref_vol_ctx [118]"
    unfolding is_volunteer_def by (intro exI [of _ "[0x11, 1, 118]"] exI [of _ ref_volunteer]) code_simp
  show "sk_GetValidator (vk_stakingKeeper ref_vk) [118] (ext ref_vol_ctx) =
      (Err (ErrExternal ''validator does not exist''), ref_ledger)"
    by (simp add: ref_vk_def ref_vk_of_def ref_staking_def ref_get_validator_def ref_vol_ctx_def ref_ctx_def
        ref_ledger_def bindM_def)
qed code_simp+

text \<open>In every state the chain can reach, each registry entry sits under the key of the
  address its own string parses to, in key order; so the Go map that
  \<open>GetVolunteerValidators\<close> returns lists every registered address once and nothing else.\<close>

theorem volunteer_registry_invariant:
  assumes "val_codec_laws (vk_bech32 k)" "length_prefix_laws (vk_LengthPrefix k)" "vol_reach k c"
  shows "vol_inv k c \<and> (\<exists>m. GetVolunteerValidators k c = (Ok m, c) \<and> distinct (map fst m) \<and>
    (\<forall>a. is_volunteer k c a \<longleftrightarrow>
      (\<exists>s v. (s, v) \<in> set m \<and> ValAddressFromBech32 (vk_bech32 k) s = Ok a)))"
  using vol_reach_inv [OF assms(1,3)] volunteer_map_complete [OF assms(2)]
    vol_inv_strings_distinct volunteer_map_eq
  by (fastforce simp: GetVolunteerValidators_def comp_def)

theorem volunteer_registry_invariant_witness:
  "vol_inv ref_vk (snd (RegisterVolunteerValidator ref_vk ref_register (ref_ctx ref_ledger)))"
  using volunteer_registry_invariant [OF ref_vk_codec ref_vk_prefix
    vr_step [OF vr_init vs_register]] by (simp add: ref_ctx_def)



text \<open>C34: A successful block hook only lets commission flow.  In every denomination the community
  pool gains what the outstanding commissions of volunteers lose; that amount is paid to a
  volunteer's withdraw address and taken from the volunteer's own account, and no other balance
  or commission changes.  Every volunteer's commission is withdrawn, from what it was before the hook.  So balances stay as they were when all volunteers withdraw to
  themselves, and otherwise the volunteer pays for coins its withdraw address received.\<close>

theorem commission_conserved:
  assumes "vol_inv k c" "go_range rng" "commission_laws (vk_distKeeper k) bal pool com wd"
    and "finite A" "\<forall>a. is_volunteer k c a \<longrightarrow> a \<in> A"
    and "Volunteer_BeginBlocker rng k c = (Ok (), d)" "length_prefix_laws (vk_LengthPrefix k)"
  shows "commission_flow bal pool com wd A (ext c) (ext d) \<and>
    (\<forall>a. is_volunteer k c a \<longrightarrow> (\<exists>x r y. dk_WithdrawValidatorCommission (vk_distKeeper k) a x = (r, y) \<and>
       com x a = com (ext c) a \<and> com (ext d) a = com y a)) \<and>
    ((\<forall>a \<in> A. wd (ext c) a = a) \<longrightarrow> bal (ext d) = bal (ext c))"
proof -
  from assms(6) have run: "forM (rng (volunteer_map (volunteer_kv c))) (\<lambda>e. commission_step k (fst e)) c = (Ok (), d)"
    by (simp add: Volunteer_BeginBlocker_def VolunteerValidatorCommissionProcess_def
        GetVolunteerValidators_def bindM_def)
  then have flow: "commission_flow bal pool com wd A (ext c) (ext d)"
  proof (rule forM_Ok_induct)
    fix e s t and v :: unit
    assume e: "e \<in> set (rng (volunteer_map (volunteer_kv c)))" and s: "commission_flow bal pool com wd A (ext c) (ext s)"
      and step: "commission_step k (fst e) s = (Ok v, t)"
    have "a \<in> A" if "ValAddressFromBech32 (vk_bech32 k) (fst e) = Ok a" for a
      using that e volunteer_map_parses [OF assms(1)] assms(5) by (fastforce simp: go_range_set [OF assms(2)])
    with commission_step_flow [OF assms(3) _ assms(4) _ s] step show "commission_flow bal pool com wd A (ext c) (ext t)" by simp
  qed (simp add: commission_flow_def cong: if_cong)
  have "bal (ext d) b dn = bal (ext c) b dn" if own: "\<forall>a \<in> A. wd (ext c) a = a" for b dn
  proof -
    let ?p = "\<lambda>a. com (ext c) a dn - com (ext d) a dn"
    have "(\<Sum>a\<in>A. if wd (ext c) a = b then ?p a else 0) = (\<Sum>a\<in>A. if a = b then ?p a else 0)"
      using own by (intro sum.cong) auto
    also have "\<dots> = (if b \<in> A then ?p b else 0)" by (simp add: sum.delta [OF assms(4)])
    finally show ?thesis using flow by (simp add: commission_flow_def)
  qed
  then have "(\<forall>a \<in> A. wd (ext c) a = a) \<longrightarrow> bal (ext d) = bal (ext c)" by (simp add: fun_eq_iff)
  with flow commission_withdrawn [OF assms(7,1,2,3) run] show ?thesis by blast
qed

theorem commission_conserved_witness:
  "\<exists>d. Volunteer_BeginBlocker rev ref_vk ref_vol_ctx = (Ok (), d) \<and> led_bal (ext d) = (\<lambda>_ _. 0) \<and>
     led_pool (ext d) ''axpla'' + led_com (ext d) [118] ''axpla'' = 7"
proof -
  let ?d = "snd (Volunteer_BeginBlocker rev ref_vk ref_vol_ctx)"
  have run: "Volunteer_BeginBlocker rev ref_vk ref_vol_ctx = (Ok (), ?d)"
    by (rule is_Ok_run) code_simp
  have "a \<in> {[118]}" if "is_volunteer ref_vk ref_vol_ctx a" for a
    using that
    by (auto simp: is_volunteer_def GetVolunteerValidatorKey_def volunteer_lookup_def ref_vol_ctx_def
        kv_get_def ref_vk_def ref_vk_of_def ref_length_prefix_def VolunteerValidatorKey_def split: if_splits)
  with commission_conserved [OF ref_vol_inv go_range_rev ref_vk_commission _ _ run ref_vk_prefix, of "{[118]}"]
  have f: "commission_flow led_bal led_pool led_com (\<lambda>_ a. a) {[118]} (ext ref_vol_ctx) (ext ?d)" "led_bal (ext ?d) = led_bal (ext ref_vol_ctx)"
    by simp_all
  then have "led_pool (ext ?d) ''axpla'' + led_com (ext ?d) [118] ''axpla'' =
      led_pool (ext ref_vol_ctx) ''axpla'' + led_com (ext ref_vol_ctx) [118] ''axpla''"
    by (simp add: commission_flow_def)
  with f run show ?thesis by (auto simp: ref_vol_ctx_def ref_ctx_def ref_ledger_def)
qed

text \<open>Exporting the registry and importing the export on a chain with an empty registry
  rebuilds the same registry, whatever order the Go map is exported in, and the export
  passes the genesis validation.\<close>

theorem genesis_roundtrip:
  assumes "vol_inv k c" "go_range rng"
  shows "\<exists>gs. Volunteer_ExportGenesis rng k c = (Ok gs, c) \<and>
    Volunteer_ValidateGenesis (vk_bech32 k) gs = Ok () \<and>
    Volunteer_InitGenesis k gs (c\<lparr>volunteer_kv := []\<rparr>) = (Ok (), c)"
proof -
  obtain es where es: "mset es = mset (volunteer_kv c)"
      and ex: "Volunteer_ExportGenesis rng k c = (Ok (map snd es), c)"
    using ExportGenesis_apply [OF assms] .
  have entries: "\<forall>e \<in> set es. vol_entry_ok k e"
    using assms(1) es by (metis mset_eq_setD vol_inv_def)
  have "fold (\<lambda>e. kv_set (fst e) (snd e)) es [] = volunteer_kv c"
    using assms(1) es by (intro kv_rebuild) (auto simp: vol_inv_def)
  then have "Volunteer_InitGenesis k (map snd es) (c\<lparr>volunteer_kv := []\<rparr>) = (Ok (), c)"
    by (simp add: InitGenesis_entries [OF entries])
  with ex ValidateGenesis_entries [OF entries] show ?thesis by blast
qed

theorem genesis_roundtrip_witness:
  "\<exists>gs. Volunteer_ExportGenesis rev ref_vk ref_vol_ctx = (Ok gs, ref_vol_ctx) \<and>
    Volunteer_ValidateGenesis (vk_bech32 ref_vk) gs = Ok () \<and>
    Volunteer_InitGenesis ref_vk gs (ref_vol_ctx\<lparr>volunteer_kv := []\<rparr>) = (Ok (), ref_vol_ctx)"
  by (rule genesis_roundtrip [OF ref_vol_inv go_range_rev])

text \<open>Exactly the registration messages with a valid authority, one and the same non-empty
  account as delegator and validator, a key, a valid positive amount and a description pass
  \<open>ValidateBasic\<close>, and the handler's key unpacking can then not dereference nil.\<close>

theorem register_basic_iff:
  "MsgRegister_ValidateBasic b co msg = Ok () \<longleftrightarrow>
     is_Ok (AccAddressFromBech32 b (rv_Authority msg)) \<and>
     (\<exists>a. AccAddressFromBech32 b (rv_DelegatorAddress msg) = Ok a \<and> a \<noteq> [] \<and>
        rv_ValidatorAddress msg \<noteq> [] \<and> ValAddressFromBech32 b (rv_ValidatorAddress msg) = Ok a) \<and>
     rv_Pubkey msg \<noteq> None \<and> \<not> is_Panic (cached_pubkey (rv_Pubkey msg)) \<and>
     Coin_IsValid co (rv_Amount msg) \<and> 0 < Amount (rv_Amount msg) \<and>
     rv_ValidatorDescription msg \<noteq> empty_Description"
  by (auto simp: MsgRegister_ValidateBasic_def register_checks_def is_Ok_iff cached_pubkey_def
      split: outcome.splits CachedValue.splits)

end
