(* ===== verification/VolunteerAnte.thy ===== *)
theory VolunteerAnte
  imports Volunteer
begin

text \<open>
  The transaction check that keeps strangers from staking with volunteer validators,
  \<open>src/x/volunteer/ante\<close>.  The decorator sees the volunteer keeper through an interface of
  one method; the locale \<open>volunteer_view\<close> is that interface, and the volunteer keeper's own
  lookup interprets it.
\<close>

section \<open>Transactions\<close>

text \<open>
  The staking messages the decorator looks at, with the addresses it reads; any other message
  is \<open>MsgOther\<close>, with its type URL and the messages it may carry inside.
\<close>

datatype Msg =
    MsgDelegate (md_Delegator: string) (md_Validator: string)
  | MsgBeginRedelegate (mr_Delegator: string) (mr_Src: string) (mr_Dst: string)
  | MsgUndelegate (mu_Delegator: string) (mu_Validator: string)
  | MsgOther string "Msg list"

section \<open>The decorator\<close>

definition checkVolunteerValidator ::
    "Bech32 \<Rightarrow> (ValAddress \<Rightarrow> ('s, VolunteerValidator) M) \<Rightarrow> string \<Rightarrow> string \<Rightarrow> ('s, unit) M" where
  "checkVolunteerValidator b get validatorAddress delegatorAddress =
     (case ValAddressFromBech32 b validatorAddress of
        Err _ \<Rightarrow> throw ErrInvalidAddress
      | Panic p \<Rightarrow> panic p
      | Ok valAddress \<Rightarrow>
          bindM (attempt (get valAddress)) (\<lambda>r. case r of
            Inl _ \<Rightarrow> ret ()
          | Inr _ \<Rightarrow> (case AccAddressFromBech32 b delegatorAddress of
                Err _ \<Rightarrow> throw ErrInvalidAddress
              | Panic p \<Rightarrow> panic p
              | Ok delAddress \<Rightarrow>
                  if delAddress = valAddress then ret ()
                  else throw (ErrInvalidRequest ''cannot delegate to volunteer validator''))))"

fun check_msg :: "Bech32 \<Rightarrow> (ValAddress \<Rightarrow> ('s, VolunteerValidator) M) \<Rightarrow> Msg \<Rightarrow> ('s, unit) M" where
  "check_msg b get (MsgDelegate del val) = checkVolunteerValidator b get val del"
| "check_msg b get (MsgBeginRedelegate del src dst) =
     thenM (checkVolunteerValidator b get src del) (checkVolunteerValidator b get dst del)"
| "check_msg b get (MsgUndelegate del val) = checkVolunteerValidator b get val del"
| "check_msg b get (MsgOther t inner) = ret ()"

definition RejectDelegate_AnteHandle ::
    "Bech32 \<Rightarrow> (ValAddress \<Rightarrow> ('x Ctx, VolunteerValidator) M) \<Rightarrow> Msg list \<Rightarrow> bool \<Rightarrow>
      (Msg list \<Rightarrow> bool \<Rightarrow> ('x Ctx, 'a) M) \<Rightarrow> ('x Ctx, 'a) M" where
  "RejectDelegate_AnteHandle b get msgs simulate nxt =
     bindM (getsM gas_limit) (\<lambda>lim.
     if lim = 0 \<and> simulate then nxt msgs simulate
     else thenM (forM msgs (check_msg b get)) (nxt msgs simulate))"

section \<open>Specification\<close>

text \<open>The pairs of validator and delegator a message asks the check about.\<close>

fun staking_pairs :: "Msg \<Rightarrow> (string \<times> string) list" where
  "staking_pairs (MsgDelegate del val) = [(val, del)]"
| "staking_pairs (MsgBeginRedelegate del src dst) = [(src, del), (dst, del)]"
| "staking_pairs (MsgUndelegate del val) = [(val, del)]"
| "staking_pairs (MsgOther t inner) = []"

text \<open>A pair is allowed when the validator is no volunteer, or is the delegator itself.\<close>

definition pair_allowed :: "Bech32 \<Rightarrow> (ValAddress \<Rightarrow> bool) \<Rightarrow> string \<times> string \<Rightarrow> bool" where
  "pair_allowed b volunteer p \<longleftrightarrow> (case ValAddressFromBech32 b (fst p) of
      Ok v \<Rightarrow> volunteer v \<longrightarrow> AccAddressFromBech32 b (snd p) = Ok v
    | _ \<Rightarrow> False)"

section \<open>The keeper interface\<close>

locale volunteer_view =
  fixes get :: "ValAddress \<Rightarrow> ('s, VolunteerValidator) M"
    and volunteer :: "'s \<Rightarrow> ValAddress \<Rightarrow> bool"
    and answers :: "ValAddress \<Rightarrow> bool"
  assumes get_found: "answers a \<Longrightarrow> volunteer s a \<Longrightarrow> \<exists>v. get a s = (Ok v, s)"
    and get_missing: "answers a \<Longrightarrow> \<not> volunteer s a \<Longrightarrow> \<exists>e. get a s = (Err e, s)"
begin

lemma check_pair:
  assumes "val_codec_laws b" "acc_codec_laws b" "\<forall>t v. ValAddressFromBech32 b t = Ok v \<longrightarrow> answers v"
  shows "if pair_allowed b (volunteer s) (val, del) then checkVolunteerValidator b get val del s = (Ok (), s)
    else \<exists>e. checkVolunteerValidator b get val del s = (Err e, s)"
proof (cases "ValAddressFromBech32 b val")
  case (Ok v)
  have np: "\<not> is_Panic (AccAddressFromBech32 b del)" using assms(2) by (simp add: acc_codec_laws_def)
  from Ok assms(3) have a: "answers v" by blast
  show ?thesis
  proof (cases "volunteer s v")
    case True
    with get_found [OF a] obtain w where "get v s = (Ok w, s)" by blast
    with Ok True np show ?thesis
      by (cases "AccAddressFromBech32 b del")
        (auto simp: checkVolunteerValidator_def pair_allowed_def bindM_def attempt_def)
  next
    case False
    with get_missing [OF a] obtain e where "get v s = (Err e, s)" by blast
    with Ok False show ?thesis
      by (auto simp: checkVolunteerValidator_def pair_allowed_def bindM_def attempt_def)
  qed
next
  case (Err e)
  then show ?thesis by (simp add: checkVolunteerValidator_def pair_allowed_def)
next
  case (Panic p)
  with assms(1) show ?thesis by (metis is_Panic.simps(1) val_codec_laws_def)
qed

lemma check_message:
  assumes "val_codec_laws b" "acc_codec_laws b" "\<forall>t v. ValAddressFromBech32 b t = Ok v \<longrightarrow> answers v"
  shows "if list_all (pair_allowed b (volunteer s)) (staking_pairs m) then check_msg b get m s = (Ok (), s)
    else \<exists>e. check_msg b get m s = (Err e, s)"
proof (cases m)
  case (MsgBeginRedelegate del src dst)
  with check_pair [OF assms, where s = s and val = src and del = del] check_pair [OF assms, where s = s and val = dst and del = del] show ?thesis
    by (auto simp: thenM_def bindM_def split: if_splits)
qed (use check_pair [OF assms, where s = s] in \<open>auto split: if_splits\<close>)

lemma check_messages:
  assumes "val_codec_laws b" "acc_codec_laws b" "\<forall>t v. ValAddressFromBech32 b t = Ok v \<longrightarrow> answers v"
  shows "if list_all (pair_allowed b (volunteer s)) (concat (map staking_pairs ms))
    then forM ms (check_msg b get) s = (Ok (), s) else \<exists>e. forM ms (check_msg b get) s = (Err e, s)"
proof (induction ms)
  case Nil
  then show ?case by simp
next
  case (Cons m ms)
  with check_message [OF assms, where s = s and m = m] show ?case by (auto simp: bindM_def split: if_splits)
qed

end

text \<open>The volunteer keeper answers for every address its key encoding accepts.\<close>

interpretation vview: volunteer_view "GetVolunteerValidator k" "is_volunteer k"
  "\<lambda>a. is_Ok (GetVolunteerValidatorKey k a)" for k
  by unfold_locales
    (auto simp: GetVolunteerValidator_def is_volunteer_def is_Ok_iff bindM_def split: option.splits)

lemma parsed_key_ok:
  assumes "val_codec_laws b" "length_prefix_laws (vk_LengthPrefix k)" "ValAddressFromBech32 b t = Ok v"
  shows "is_Ok (GetVolunteerValidatorKey k v)"
proof -
  have "length v \<le> 255" using assms(1,3) by (auto simp: val_codec_laws_def)
  with assms(2) have "is_Ok (vk_LengthPrefix k v)" by (auto simp: length_prefix_laws_def)
  then show ?thesis by (auto simp: GetVolunteerValidatorKey_def is_Ok_iff)
qed

section \<open>Properties\<close>

text \<open>The decorator lets a transaction through exactly when every delegation,
  redelegation and undelegation in it that names a volunteer validator comes from that
  validator itself; otherwise it returns an error.  In both cases it changes nothing.\<close>

theorem ante_guards_volunteers:
  assumes "val_codec_laws b" "acc_codec_laws b" "length_prefix_laws (vk_LengthPrefix k)"
    and "\<not> (gas_limit c = 0 \<and> simulate)"
  shows "if \<forall>m \<in> set msgs. \<forall>p \<in> set (staking_pairs m). pair_allowed b (is_volunteer k c) p
    then RejectDelegate_AnteHandle b (GetVolunteerValidator k) msgs simulate nxt c = nxt msgs simulate c
    else \<exists>e. RejectDelegate_AnteHandle b (GetVolunteerValidator k) msgs simulate nxt c = (Err e, c)"
proof -
  have "list_all (pair_allowed b (is_volunteer k c)) (concat (map staking_pairs msgs)) \<longleftrightarrow>
      (\<forall>m \<in> set msgs. \<forall>p \<in> set (staking_pairs m). pair_allowed b (is_volunteer k c) p)"
    by (auto simp: list_all_iff)
  moreover have keys: "\<forall>t v. ValAddressFromBech32 b t = Ok v \<longrightarrow> is_Ok (GetVolunteerValidatorKey k v)"
    using parsed_key_ok [OF assms(1,3)] by blast
  ultimately show ?thesis
    using vview.check_messages [OF assms(1,2) keys, where s = c and ms = msgs] assms(4)
    by (auto simp: RejectDelegate_AnteHandle_def bindM_def thenM_def split: if_splits)
qed

theorem ante_guards_volunteers_witness:
  "\<exists>e. RejectDelegate_AnteHandle ref_bech32 (GetVolunteerValidator (ref_vk_of ref_no_staking ref_no_dist))
     [MsgDelegate ''d'' ''v''] False (\<lambda>_ _. ret ())
     ((ref_ctx ())\<lparr>volunteer_kv := [([17, 1, 118], \<lparr>vv_Address = ''v'', vv_Power = 0\<rparr>)]\<rparr>) =
     (Err e, (ref_ctx ())\<lparr>volunteer_kv := [([17, 1, 118], \<lparr>vv_Address = ''v'', vv_Power = 0\<rparr>)]\<rparr>)"
proof -
  let ?c = "(ref_ctx ())\<lparr>volunteer_kv := [([17, 1, 118], \<lparr>vv_Address = ''v'', vv_Power = 0\<rparr>)]\<rparr>"
  let ?k = "ref_vk_of ref_no_staking ref_no_dist"
  have lp: "length_prefix_laws (vk_LengthPrefix ?k)" 
    by (auto simp: length_prefix_laws_def ref_vk_of_def ref_length_prefix_def split: if_splits)
  have "GetVolunteerValidatorKey ?k [118] = Ok [17, 1, 118]" by code_simp
  moreover have "volunteer_lookup ?c [17, 1, 118] = Some \<lparr>vv_Address = ''v'', vv_Power = 0\<rparr>" by code_simp
  ultimately have "is_volunteer ?k ?c [118]" by (auto simp: is_volunteer_def)
  moreover have "ValAddressFromBech32 ref_bech32 ''v'' = Ok [118]" by code_simp
  moreover have "AccAddressFromBech32 ref_bech32 ''d'' = Ok [100]" by code_simp
  ultimately have "\<not> pair_allowed ref_bech32 (is_volunteer ?k ?c) (''v'', ''d'')" by (simp add: pair_allowed_def)
  then show ?thesis
    using ante_guards_volunteers [OF ref_val_laws ref_acc_laws lp, of ?c False "[MsgDelegate ''d'' ''v'']" "\<lambda>_ _. ret ()"]
    by simp
qed

text \<open>Messages carried inside another message are not looked at: a transaction whose
  top-level messages are of other types passes the decorator whatever they contain.\<close>

theorem ante_ignores_inner:
  assumes "\<forall>m \<in> set msgs. \<exists>t inner. m = MsgOther t inner"
  shows "RejectDelegate_AnteHandle b get msgs simulate nxt c = nxt msgs simulate c"
proof -
  have "forM msgs (check_msg b get) c = (Ok (), c)" using assms by (induction msgs) auto
  then show ?thesis by (simp add: RejectDelegate_AnteHandle_def bindM_def thenM_def)
qed

theorem ante_ignores_inner_witness:
  "RejectDelegate_AnteHandle ref_bech32 (GetVolunteerValidator (ref_vk_of ref_no_staking ref_no_dist))
     [MsgOther ''/cosmos.authz.v1beta1.MsgExec'' [MsgDelegate ''d'' ''v'']] False (\<lambda>_ _. ret ()) (ref_ctx ()) =
   (Ok (), ref_ctx ())"
  by (subst ante_ignores_inner) simp_all

end
