(* ===== verification/Ante.thy ===== *)
theory Ante
  imports VolunteerAnte
begin

text \<open>
  The transaction checks of \<open>src/ante\<close>: the minimum fee decorator (\<open>fee.go\<close>), the gas charged
  for signatures (\<open>sigverify.go\<close>), and the handler that puts them together with the SDK's, the
  wasm module's and the EVM module's decorators (\<open>ante.go\<close>).  Decorators from outside the
  repository, the gas meter, the keepers and \<open>sdk.ChainAnteDecorators\<close> are parameters.
\<close>

section \<open>Transactions\<close>

text \<open>
  What the checks read of a transaction.  \<open>tx_ExtensionOptions\<close> is \<open>None\<close> for a transaction
  that has no extension options at all, otherwise the options' type URLs.
\<close>

record AnteTx =
  tx_IsFeeTx :: bool
  tx_Msgs :: "Msg list"
  tx_Gas :: uint64
  tx_Fee :: Coins
  tx_ExtensionOptions :: "string list option"

type_synonym 'x AnteHandler = "AnteTx \<Rightarrow> bool \<Rightarrow> ('x Ctx, unit) M"
type_synonym 'x AnteDecorator = "AnteTx \<Rightarrow> bool \<Rightarrow> 'x AnteHandler \<Rightarrow> ('x Ctx, unit) M"

section \<open>The minimum fee\<close>

definition maxBypassMinFeeMsgGasUsage :: uint64 where
  "maxBypassMinFeeMsgGasUsage = 1000000"

text \<open>
  The reads of the fee market and EVM parameters, the type URL of a message, and the functions
  of \<open>cosmossdk.io/math\<close> used here beside \<open>DecOps\<close>.
\<close>

record 'x FeeEnv =
  fe_MinGasPrice :: "('x Ctx, LegacyDec) M"
  fe_EvmDenom :: "('x Ctx, string) M"
  fe_MsgTypeURL :: "Msg \<Rightarrow> string"
  fe_dec :: DecOps
  fe_coins :: CoinOps
  fe_NewDecFromBigInt :: "int \<Rightarrow> LegacyDec outcome"
  fe_Ceil :: "LegacyDec \<Rightarrow> LegacyDec outcome"
  fe_RoundInt :: "LegacyDec \<Rightarrow> int outcome"

fun bypassMinFeeMsgs :: "(Msg \<Rightarrow> string) \<Rightarrow> string list \<Rightarrow> Msg list \<Rightarrow> bool" where
  "bypassMinFeeMsgs url types [] = True"
| "bypassMinFeeMsgs url types (m # ms) = (if url m \<in> set types then bypassMinFeeMsgs url types ms else False)"

definition requiredFee :: "'x FeeEnv \<Rightarrow> LegacyDec \<Rightarrow> uint64 \<Rightarrow> int outcome" where
  "requiredFee fe price gas =
     bindO (fe_NewDecFromBigInt fe (uint gas)) (\<lambda>gasLimit.
     bindO (Dec_Mul (fe_dec fe) price gasLimit) (\<lambda>m. bindO (fe_Ceil fe m) (fe_RoundInt fe)))"

definition MinGasPrice_AnteHandle :: "'x FeeEnv \<Rightarrow> string list \<Rightarrow> 'x AnteDecorator" where
  "MinGasPrice_AnteHandle fe bypassTypes tx simulate nxt =
     thenM (guardM (tx_IsFeeTx tx) ErrTxDecode) (
     bindM (fe_MinGasPrice fe) (\<lambda>minGasPrice.
     bindM (fe_EvmDenom fe) (\<lambda>evmDenom.
     thenM (guardM (evmDenom \<noteq> []) (ErrInvalidRequest ''evm denom is empty'')) (
     bindM (getsM is_check_tx) (\<lambda>checkTx.
     if minGasPrice = 0 \<or> \<not> checkTx \<or> simulate \<or>
        (bypassMinFeeMsgs (fe_MsgTypeURL fe) bypassTypes (tx_Msgs tx) \<and>
         tx_Gas tx \<le> word_of_nat (length (tx_Msgs tx)) * maxBypassMinFeeMsgGasUsage)
     then nxt tx simulate
     else
       bindM (liftO (foldO (\<lambda>gp requiredFees.
           bindO (requiredFee fe (Amount gp) (tx_Gas tx)) (\<lambda>fee.
           if 0 < fee then Coins_Add (fe_coins fe) requiredFees \<lparr>Denom = Denom gp, Amount = fee\<rparr> else Ok requiredFees))
         [\<lparr>Denom = evmDenom, Amount = minGasPrice\<rparr>] [])) (\<lambda>requiredFees.
       thenM (guardM (Coins_IsAnyGTE (fe_coins fe) (tx_Fee tx) requiredFees) ErrInsufficientFee)
         (nxt tx simulate)))))))"

section \<open>Gas for signatures\<close>

datatype SigPubKey =
    EthSecp256k1Key
  | EthermintSecp256k1Key
  | Ed25519Key
  | Secp256k1Key
  | Secp256r1Key
  | MultisigKey "SigPubKey list"
  | UnknownKey

text \<open>A multi-signature has a bit per key and a signature per set bit.\<close>

datatype SigData = SingleSignatureData | MultiSignatureData "bool list" "SigData list"

record AuthParams =
  SigVerifyCostED25519 :: uint64
  SigVerifyCostSecp256k1 :: uint64
  SigVerifyCostSecp256r1 :: uint64

definition secp256k1VerifyCost :: uint64 where
  "secp256k1VerifyCost = 21000"

lemma SigData_index_size: "j < length sigs \<Longrightarrow> size (sigs ! j) < size_list size sigs"
proof (induction sigs arbitrary: j)
  case (Cons a sigs)
  then show ?case by (cases j) (auto intro: trans_less_add2 less_SucI)
qed simp

text \<open>
  \<open>consume\<close> is the meter's \<open>ConsumeGas\<close>, which panics when the gas is used up.  The second
  function is the loop of \<open>ConsumeMultisignatureVerificationGas\<close> at index \<open>i\<close>, with the bits not
  yet looked at.
\<close>

function SigVerificationGasConsumer ::
    "(uint64 \<Rightarrow> ('m, unit) M) \<Rightarrow> AuthParams \<Rightarrow> SigPubKey \<Rightarrow> SigData \<Rightarrow> ('m, unit) M"
  and ConsumeMultisignatureVerificationGas ::
    "(uint64 \<Rightarrow> ('m, unit) M) \<Rightarrow> AuthParams \<Rightarrow> bool list \<Rightarrow> SigData list \<Rightarrow> SigPubKey list \<Rightarrow> nat \<Rightarrow> nat \<Rightarrow> ('m, unit) M" where
  "SigVerificationGasConsumer consume params pubkey sig = (case pubkey of
      EthSecp256k1Key \<Rightarrow> consume secp256k1VerifyCost
    | EthermintSecp256k1Key \<Rightarrow> consume secp256k1VerifyCost
    | Ed25519Key \<Rightarrow> thenM (consume (SigVerifyCostED25519 params)) (throw ErrInvalidPubKey)
    | Secp256k1Key \<Rightarrow> consume (SigVerifyCostSecp256k1 params)
    | Secp256r1Key \<Rightarrow> consume (SigVerifyCostSecp256r1 params)
    | MultisigKey keys \<Rightarrow> (case sig of
          MultiSignatureData bits sigs \<Rightarrow> ConsumeMultisignatureVerificationGas consume params bits sigs keys 0 0
        | SingleSignatureData \<Rightarrow> throw (Error ''expected multi signature data''))
    | UnknownKey \<Rightarrow> throw ErrInvalidPubKey)"
| "ConsumeMultisignatureVerificationGas consume params [] sigs keys i sigIndex = ret ()"
| "ConsumeMultisignatureVerificationGas consume params (b # bits) sigs keys i sigIndex =
     (if \<not> b then ConsumeMultisignatureVerificationGas consume params bits sigs keys (i + 1) sigIndex
      else if length keys \<le> i then panic ''index out of range''
      else if length sigs \<le> sigIndex then panic ''index out of range''
      else bindM (SigVerificationGasConsumer consume params (keys ! i) (sigs ! sigIndex))
        (\<lambda>_. ConsumeMultisignatureVerificationGas consume params bits sigs keys (i + 1) (sigIndex + 1)))"
  by pat_completeness auto
termination
  by (relation "measures [\<lambda>a. case a of Inl (_, _, _, d) \<Rightarrow> size d | Inr (_, _, bits, sigs, _, _, _) \<Rightarrow> size_list size sigs,
      \<lambda>a. case a of Inl _ \<Rightarrow> 0 | Inr (_, _, bits, _, _, _, _) \<Rightarrow> length bits]")
    (auto simp: SigData_index_size)

section \<open>The handler\<close>

text \<open>
  The decorators from outside the repository, applied to what \<open>newCosmosAnteHandler\<close> and
  \<open>newEthAnteHandler\<close> pass them, and the keeper calls made while the chain is built.
\<close>

record 'x ExtAnte =
  xa_FeeMarketParams :: "('x Ctx, unit) M"
  xa_EvmParams :: "('x Ctx, unit) M"
  xa_RejectMessages :: "'x AnteDecorator"
  xa_AuthzLimiter :: "'x AnteDecorator"
  xa_SetUpContext :: "'x AnteDecorator"
  xa_LimitSimulationGas :: "uint64 option \<Rightarrow> 'x AnteDecorator"
  xa_CountTX :: "'x AnteDecorator"
  xa_ExtensionOptions :: "'x AnteDecorator"
  xa_ValidateBasic :: "'x AnteDecorator"
  xa_TxTimeoutHeight :: "'x AnteDecorator"
  xa_ValidateMemo :: "'x AnteDecorator"
  xa_ConsumeGasForTxSize :: "'x AnteDecorator"
  xa_DeductFee :: "'x AnteDecorator"
  xa_SetPubKey :: "'x AnteDecorator"
  xa_ValidateSigCount :: "'x AnteDecorator"
  xa_SigGasConsume :: "(AuthParams \<Rightarrow> SigPubKey \<Rightarrow> SigData \<Rightarrow> ('x Ctx, unit) M) \<Rightarrow> 'x AnteDecorator"
  xa_SigVerification :: "'x AnteDecorator"
  xa_IncrementSequence :: "'x AnteDecorator"
  xa_RedundantRelay :: "'x AnteDecorator"
  xa_GasWanted :: "'x AnteDecorator"
  xa_EVMMono :: "'x AnteDecorator"
  xa_ConsumeGas :: "uint64 \<Rightarrow> ('x Ctx, unit) M"
  xa_Chain :: "'x AnteDecorator list \<Rightarrow> 'x AnteHandler"

text \<open>
  The options.  Of the keepers that are only handed on to other decorators the model keeps
  whether they are \<open>nil\<close>; \<open>WasmConfig\<close> is its field \<open>SimulationGasLimit\<close>.
\<close>

record 'x HandlerOptions =
  has_AccountKeeper :: bool
  has_BankKeeper :: bool
  has_SignModeHandler :: bool
  has_IBCKeeper :: bool
  has_EvmKeeper :: bool
  has_FeegrantKeeper :: bool
  has_FeeMarketKeeper :: bool
  opt_VolunteerKeeper :: "(ValAddress \<Rightarrow> ('x Ctx, VolunteerValidator) M) option"
  has_Codec :: bool
  opt_SigGasConsumer :: "(AuthParams \<Rightarrow> SigPubKey \<Rightarrow> SigData \<Rightarrow> ('x Ctx, unit) M) option"
  has_TxFeeChecker :: bool
  opt_BypassMinFeeMsgTypes :: "string list"
  opt_WasmConfig :: "uint64 option option"

definition newCosmosAnteHandler ::
    "'x ExtAnte \<Rightarrow> 'x FeeEnv \<Rightarrow> Bech32 \<Rightarrow> 'x HandlerOptions \<Rightarrow> ('x Ctx, 'x AnteHandler) M" where
  "newCosmosAnteHandler xa fe b opts =
     (let sigGasConsumer = (case opt_SigGasConsumer opts of
          None \<Rightarrow> SigVerificationGasConsumer (xa_ConsumeGas xa)
        | Some f \<Rightarrow> f) in
     bindM (xa_FeeMarketParams xa) (\<lambda>_.
     bindM (liftO (case opt_WasmConfig opts of None \<Rightarrow> Panic ''nil pointer dereference'' | Some l \<Rightarrow> Ok l)) (\<lambda>limit.
     ret (xa_Chain xa [
       xa_RejectMessages xa,
       xa_AuthzLimiter xa,
       (\<lambda>tx sim nxt. case opt_VolunteerKeeper opts of
          None \<Rightarrow> panic ''nil pointer dereference''
        | Some get \<Rightarrow> RejectDelegate_AnteHandle b get (tx_Msgs tx) sim (\<lambda>_. nxt tx)),
       xa_SetUpContext xa,
       xa_LimitSimulationGas xa limit,
       xa_CountTX xa,
       xa_ExtensionOptions xa,
       MinGasPrice_AnteHandle fe (opt_BypassMinFeeMsgTypes opts),
       xa_ValidateBasic xa,
       xa_TxTimeoutHeight xa,
       xa_ValidateMemo xa,
       xa_ConsumeGasForTxSize xa,
       xa_DeductFee xa,
       xa_SetPubKey xa,
       xa_ValidateSigCount xa,
       xa_SigGasConsume xa sigGasConsumer,
       xa_SigVerification xa,
       xa_IncrementSequence xa,
       xa_RedundantRelay xa,
       xa_GasWanted xa]))))"

definition newEthAnteHandler :: "'x ExtAnte \<Rightarrow> ('x Ctx, 'x AnteHandler) M" where
  "newEthAnteHandler xa =
     bindM (xa_EvmParams xa) (\<lambda>_. bindM (xa_FeeMarketParams xa) (\<lambda>_. ret (xa_Chain xa [xa_EVMMono xa])))"

text \<open>\<open>defer Recover(...)\<close>: a panic of the body becomes the error \<open>ErrPanic\<close>.\<close>

definition Recover :: "('s, 'a) M \<Rightarrow> ('s, 'a) M" where
  "Recover m s = (case m s of (Panic _, t) \<Rightarrow> (Err ErrPanic, t) | r \<Rightarrow> r)"

definition ante_handle :: "'x ExtAnte \<Rightarrow> 'x FeeEnv \<Rightarrow> Bech32 \<Rightarrow> 'x HandlerOptions \<Rightarrow> 'x AnteHandler" where
  "ante_handle xa fe b opts tx sim = Recover (
     case tx_ExtensionOptions tx of
       Some (url # _) \<Rightarrow>
         if url = ''/cosmos.evm.vm.v1.ExtensionOptionsEthereumTx'' then
           bindM (newEthAnteHandler xa) (\<lambda>h. h tx sim)
         else if url = ''/cosmos.evm.types.v1.ExtensionOptionDynamicFeeTx'' then
           bindM (newCosmosAnteHandler xa fe b opts) (\<lambda>h. h tx sim)
         else throw ErrUnknownExtensionOptions
     | _ \<Rightarrow> bindM (newCosmosAnteHandler xa fe b opts) (\<lambda>h. h tx sim))"

definition NewAnteHandler ::
    "'x ExtAnte \<Rightarrow> 'x FeeEnv \<Rightarrow> Bech32 \<Rightarrow> 'x HandlerOptions \<Rightarrow> 'x AnteHandler outcome" where
  "NewAnteHandler xa fe b opts =
     bindO (guardO (has_AccountKeeper opts) (ErrLogic ''account keeper is required for AnteHandler'')) (\<lambda>_.
     bindO (guardO (has_BankKeeper opts) (ErrLogic ''bank keeper is required for AnteHandler'')) (\<lambda>_.
     bindO (guardO (has_SignModeHandler opts) (ErrLogic ''sign mode handler is required for AnteHandler'')) (\<lambda>_.
     bindO (guardO (has_IBCKeeper opts) (ErrLogic ''IBC keeper is required for AnteHandler'')) (\<lambda>_.
     bindO (guardO (has_EvmKeeper opts) (ErrLogic ''EVM keeper is required for AnteHandler'')) (\<lambda>_.
     bindO (guardO (has_FeegrantKeeper opts) (ErrLogic ''Feegrant keeper is required for AnteHandler'')) (\<lambda>_.
     bindO (guardO (has_FeeMarketKeeper opts) (ErrLogic ''FeeMarket keeper is required for AnteHandler'')) (\<lambda>_.
     bindO (guardO (opt_VolunteerKeeper opts \<noteq> None) (ErrLogic ''staking keeper is required for AnteHandler'')) (\<lambda>_.
     bindO (guardO (has_Codec opts) (ErrLogic ''codec is required for AnteHandler'')) (\<lambda>_.
     bindO (guardO (opt_SigGasConsumer opts \<noteq> None) (ErrLogic ''signature gas consumer is required for AnteHandler'')) (\<lambda>_.
     bindO (guardO (has_TxFeeChecker opts) (ErrLogic ''tx fee checker is required for AnteHandler'')) (\<lambda>_.
     Ok (ante_handle xa fe b opts))))))))))))"

section \<open>Specification\<close>

text \<open>
  Decimals: an integer of 64 bits becomes a decimal, a price of less than 128 bits times it is
  exact, \<open>Ceil\<close> rounds up to a whole number and \<open>RoundInt\<close> of a whole number is that number.
\<close>

definition fee_dec_laws :: "'x FeeEnv \<Rightarrow> bool" where
  "fee_dec_laws fe \<longleftrightarrow>
     (\<forall>n. 0 \<le> n \<longrightarrow> n < 2 ^ 64 \<longrightarrow> fe_NewDecFromBigInt fe n = Ok (n * 10 ^ 18)) \<and>
     (\<forall>a n. 0 \<le> a \<longrightarrow> a < 2 ^ 128 \<longrightarrow> 0 \<le> n \<longrightarrow> n < 2 ^ 64 \<longrightarrow> Dec_Mul (fe_dec fe) a (n * 10 ^ 18) = Ok (a * n)) \<and>
     (\<forall>a. 0 \<le> a \<longrightarrow> a < 2 ^ 192 \<longrightarrow> fe_Ceil fe a = Ok (- (- a div 10 ^ 18) * 10 ^ 18)) \<and>
     (\<forall>n. 0 \<le> n \<longrightarrow> n < 2 ^ 192 \<longrightarrow> fe_RoundInt fe (n * 10 ^ 18) = Ok n)"

text \<open>
  Coins: adding a positive coin to the empty list gives that coin, and \<open>IsAnyGTE\<close> with one
  positive coin looks for its denomination at that amount; with no coins it is false.
\<close>

definition fee_coin_laws :: "CoinOps \<Rightarrow> bool" where
  "fee_coin_laws co \<longleftrightarrow>
     (\<forall>c. 0 < Amount c \<longrightarrow> Coins_Add co [] c = Ok [c]) \<and>
     (\<forall>cs. \<not> Coins_IsAnyGTE co cs []) \<and>
     (\<forall>cs d. 0 < Amount d \<longrightarrow>
        Coins_IsAnyGTE co cs [d] = (\<exists>c \<in> set cs. Denom c = Denom d \<and> Amount d \<le> Amount c))"

text \<open>
  \<open>sig_charges\<close> lists what a signature costs, one entry per signing key in the order of the
  bits, up to the first key or signature that is refused, and how the check ends.  It walks
  the bits, keys and signatures together, without indices.
\<close>

fun leaf_charge :: "AuthParams \<Rightarrow> SigPubKey \<Rightarrow> uint64 list \<times> unit outcome" where
  "leaf_charge params EthSecp256k1Key = ([secp256k1VerifyCost], Ok ())"
| "leaf_charge params EthermintSecp256k1Key = ([secp256k1VerifyCost], Ok ())"
| "leaf_charge params Ed25519Key = ([SigVerifyCostED25519 params], Err ErrInvalidPubKey)"
| "leaf_charge params Secp256k1Key = ([SigVerifyCostSecp256k1 params], Ok ())"
| "leaf_charge params Secp256r1Key = ([SigVerifyCostSecp256r1 params], Ok ())"
| "leaf_charge params (MultisigKey keys) = ([], Err (Error ''expected multi signature data''))"
| "leaf_charge params UnknownKey = ([], Err ErrInvalidPubKey)"

definition charges_then :: "'g list \<times> unit outcome \<Rightarrow> 'g list \<times> unit outcome \<Rightarrow> 'g list \<times> unit outcome" where
  "charges_then p q = (case snd p of Ok _ \<Rightarrow> (fst p @ fst q, snd q) | _ \<Rightarrow> p)"

fun sig_charges :: "AuthParams \<Rightarrow> SigPubKey \<Rightarrow> SigData \<Rightarrow> uint64 list \<times> unit outcome"
  and multi_charges :: "AuthParams \<Rightarrow> bool list \<Rightarrow> SigData list \<Rightarrow> SigPubKey list \<Rightarrow> uint64 list \<times> unit outcome" where
  "sig_charges params (MultisigKey keys) (MultiSignatureData bits sigs) = multi_charges params bits sigs keys"
| "sig_charges params key sig = leaf_charge params key"
| "multi_charges params [] sigs keys = ([], Ok ())"
| "multi_charges params (False # bits) sigs keys = multi_charges params bits sigs (tl keys)"
| "multi_charges params (True # bits) (s # sigs) (k # keys) =
     charges_then (sig_charges params k s) (multi_charges params bits sigs keys)"
| "multi_charges params (True # bits) sigs keys = ([], Panic ''index out of range'')"

text \<open>Consume the charges in order, then end as listed.\<close>

definition run_charges :: "('g \<Rightarrow> ('m, unit) M) \<Rightarrow> 'g list \<times> unit outcome \<Rightarrow> ('m, unit) M" where
  "run_charges consume p = thenM (forM (fst p) consume) (liftO (snd p))"

text \<open>
  \<open>ChainAnteDecorators\<close> runs the decorators in order; one that only checks either passes the
  transaction on unchanged or returns an error.
\<close>

definition chain_laws :: "'x ExtAnte \<Rightarrow> bool" where
  "chain_laws xa \<longleftrightarrow> (\<forall>d ds tx sim. xa_Chain xa (d # ds) tx sim = d tx sim (xa_Chain xa ds))"

definition checks_only :: "'x AnteDecorator \<Rightarrow> bool" where
  "checks_only d \<longleftrightarrow> (\<forall>tx sim nxt c. d tx sim nxt c = nxt tx sim c \<or> (\<exists>e. d tx sim nxt c = (Err e, c)))"

definition is_eth_tx :: "AnteTx \<Rightarrow> bool" where
  "is_eth_tx tx \<longleftrightarrow> (case tx_ExtensionOptions tx of
      Some (url # _) \<Rightarrow> url = ''/cosmos.evm.vm.v1.ExtensionOptionsEthereumTx''
    | _ \<Rightarrow> False)"

section \<open>Reference environments\<close>

definition ref_fe :: "LegacyDec \<Rightarrow> 'x FeeEnv" where
  "ref_fe price = \<lparr>fe_MinGasPrice = ret price, fe_EvmDenom = ret ''axpla'', fe_MsgTypeURL = (\<lambda>m. case m of MsgOther t _ \<Rightarrow> t | _ \<Rightarrow> ''staking''),
     fe_dec = ref_dec, fe_coins = ref_coins, fe_NewDecFromBigInt = (\<lambda>n. Ok (n * 10 ^ 18)),
     fe_Ceil = (\<lambda>a. Ok (- (- a div 10 ^ 18) * 10 ^ 18)), fe_RoundInt = (\<lambda>a. Ok (a div 10 ^ 18))\<rparr>"

fun ref_chain :: "'x AnteDecorator list \<Rightarrow> 'x AnteHandler" where
  "ref_chain [] tx sim = ret ()"
| "ref_chain (d # ds) tx sim = d tx sim (ref_chain ds)"

definition ref_pass :: "'x AnteDecorator" where
  "ref_pass tx sim nxt = nxt tx sim"

definition ref_xa :: "'x ExtAnte" where
  "ref_xa = \<lparr>xa_FeeMarketParams = ret (), xa_EvmParams = ret (), xa_RejectMessages = ref_pass, xa_AuthzLimiter = ref_pass,
     xa_SetUpContext = ref_pass, xa_LimitSimulationGas = (\<lambda>_. ref_pass), xa_CountTX = ref_pass, xa_ExtensionOptions = ref_pass,
     xa_ValidateBasic = ref_pass, xa_TxTimeoutHeight = ref_pass, xa_ValidateMemo = ref_pass, xa_ConsumeGasForTxSize = ref_pass,
     xa_DeductFee = ref_pass, xa_SetPubKey = ref_pass, xa_ValidateSigCount = ref_pass, xa_SigGasConsume = (\<lambda>_. ref_pass),
     xa_SigVerification = ref_pass, xa_IncrementSequence = ref_pass, xa_RedundantRelay = ref_pass, xa_GasWanted = ref_pass,
     xa_EVMMono = ref_pass, xa_ConsumeGas = (\<lambda>_. ret ()), xa_Chain = ref_chain\<rparr>"

definition ref_opts :: "(ValAddress \<Rightarrow> ('x Ctx, VolunteerValidator) M) \<Rightarrow> 'x HandlerOptions" where
  "ref_opts get = \<lparr>has_AccountKeeper = True, has_BankKeeper = True, has_SignModeHandler = True, has_IBCKeeper = True,
     has_EvmKeeper = True, has_FeegrantKeeper = True, has_FeeMarketKeeper = True, opt_VolunteerKeeper = Some get,
     has_Codec = True, opt_SigGasConsumer = Some (SigVerificationGasConsumer (\<lambda>_. ret ())), has_TxFeeChecker = True,
     opt_BypassMinFeeMsgTypes = [''relay''], opt_WasmConfig = Some None\<rparr>"

definition ref_tx :: "Msg list \<Rightarrow> int \<Rightarrow> AnteTx" where
  "ref_tx msgs fee = \<lparr>tx_IsFeeTx = True, tx_Msgs = msgs, tx_Gas = 100000, tx_Fee = [\<lparr>Denom = ''axpla'', Amount = fee\<rparr>],
     tx_ExtensionOptions = None\<rparr>"

section \<open>Lemmas\<close>

lemma bypassMinFeeMsgs_iff: "bypassMinFeeMsgs url types ms \<longleftrightarrow> (\<forall>m \<in> set ms. url m \<in> set types)"
  by (induction ms) auto

text \<open>The bound on the gas of exempt messages does not wrap for fewer than \<open>2 ^ 44\<close> messages.\<close>

lemma bypass_bound:
  assumes "n < 2 ^ 44"
  shows "g \<le> word_of_nat n * maxBypassMinFeeMsgGasUsage \<longleftrightarrow> unat g \<le> n * 1000000"
proof -
  have e: "word_of_nat n * maxBypassMinFeeMsgGasUsage = word_of_nat (n * 1000000)"
    by (simp add: maxBypassMinFeeMsgGasUsage_def)
  have "n * 1000000 < 2 ^ 64" using assms by simp
  then have "unat (word_of_nat (n * 1000000) :: uint64) = n * 1000000"
    by (simp only: unsigned_of_nat) (simp add: take_bit_nat_eq_self)
  then show ?thesis unfolding e word_le_nat_alt by simp
qed

lemma ceil_div_le: "0 < c \<Longrightarrow> - (- a div c) \<le> (m :: int) \<longleftrightarrow> a \<le> m * c"
proof
  assume c: "0 < c" and "- (- a div c) \<le> m"
  then have "- (- a div c) * c \<le> m * c" by (intro mult_right_mono) simp_all
  then show "a \<le> m * c" using div_mult_mod_eq [of "- a" c] pos_mod_sign [OF c, of "- a"] by linarith
next
  assume c: "0 < c" and "a \<le> m * c"
  then have "(- m * c) div c \<le> - a div c" by (intro zdiv_mono1) simp_all
  moreover have "(- m * c) div c = - m" using c by (intro nonzero_mult_div_cancel_right) simp
  ultimately show "- (- a div c) \<le> m" by linarith
qed

lemmas ceil_div_le_iff = ceil_div_le [of "10 ^ 18", simplified]

lemma ceil_div_nonneg: "0 \<le> a \<Longrightarrow> 0 \<le> - (- a div 10 ^ 18 :: int)"
  by simp

lemma requiredFee_exact:
  assumes "fee_dec_laws fe" "0 \<le> price" "price < 2 ^ 128"
  shows "requiredFee fe price gas = Ok (- (- (price * uint gas) div 10 ^ 18))"
proof -
  have g: "0 \<le> uint gas" "uint gas < 2 ^ 64" using unsigned_less [of gas, where ?'a = int] by simp_all
  have p: "0 \<le> price * uint gas" using assms(2) g(1) by simp
  have "price * uint gas \<le> (2 ^ 128 - 1) * (2 ^ 64 - 1)" using assms(2,3) g by (intro mult_mono) auto
  then have b: "price * uint gas < 2 ^ 192" by simp
  let ?n = "- (- (price * uint gas) div 10 ^ 18)"
  have "0 \<le> ?n" "?n \<le> price * uint gas"
    using p ceil_div_nonneg [OF p] ceil_div_le [of "10 ^ 18" "price * uint gas" "price * uint gas"]
    by (simp_all add: mult_le_cancel_left1)
  with b have n: "0 \<le> ?n" "?n < 2 ^ 192" by linarith+
  from assms(1) have "fe_NewDecFromBigInt fe (uint gas) = Ok (uint gas * 10 ^ 18)"
      "Dec_Mul (fe_dec fe) price (uint gas * 10 ^ 18) = Ok (price * uint gas)"
      "fe_Ceil fe (price * uint gas) = Ok (?n * 10 ^ 18)" "fe_RoundInt fe (?n * 10 ^ 18) = Ok ?n"
    using g p b n assms(2,3) unfolding fee_dec_laws_def by blast+
  then show ?thesis by (simp add: requiredFee_def)
qed

lemma run_charges_then:
  "run_charges consume (charges_then p q) = thenM (run_charges consume p) (run_charges consume q)"
  by (cases p; cases "snd p")
    (auto simp: run_charges_def charges_then_def thenM_def forM_append bindM_assoc fun_eq_iff bindM_def liftO_def
      split: prod.splits outcome.splits)

text \<open>The loop at index \<open>i\<close> sees what the reference sees after dropping \<open>i\<close> keys and the used signatures.\<close>

lemma gas_consumer_charges:
  "SigVerificationGasConsumer consume params key sig = run_charges consume (sig_charges params key sig)"
  "ConsumeMultisignatureVerificationGas consume params bits sigs keys i j =
     run_charges consume (multi_charges params bits (drop j sigs) (drop i keys))"
proof (induction consume params key sig and consume params bits sigs keys i j
    rule: SigVerificationGasConsumer_ConsumeMultisignatureVerificationGas.induct)
  case (1 consume params pubkey sig)
  show ?case
  proof (cases pubkey)
    case (MultisigKey keys)
    with 1 show ?thesis by (cases sig) (auto simp: run_charges_def thenM_def fun_eq_iff liftO_def)
  qed (auto simp: run_charges_def thenM_def fun_eq_iff liftO_def bindM_def split: prod.splits outcome.splits)
next
  case (2 consume params sigs keys i j)
  show ?case by (simp add: run_charges_def fun_eq_iff liftO_def)
next
  case (3 consume params b bits sigs keys i j)
  show ?case
  proof (cases "b \<and> i < length keys \<and> j < length sigs")
    case True
    then have "drop i keys = keys ! i # drop (i + 1) keys" "drop j sigs = sigs ! j # drop (j + 1) sigs"
      by (simp_all add: Cons_nth_drop_Suc)
    with True 3 show ?thesis by (simp add: run_charges_then thenM_def)
  next
    case False
    with 3 show ?thesis
      by (cases b) (auto simp: tl_drop drop_Suc run_charges_def thenM_def fun_eq_iff liftO_def not_less
        multi_charges.simps split: if_splits)
  qed
qed

lemma ref_fee_dec_laws: "fee_dec_laws (ref_fe price)"
proof -
  have "(a * (n * 10 ^ 18) + 5 * 10 ^ 17) div 10 ^ 18 = a * n" for a n :: int
  proof -
    have "(5 * 10 ^ 17 + a * n * 10 ^ 18) div 10 ^ 18 = a * n + 5 * 10 ^ 17 div (10 ^ 18 :: int)"
      by (rule div_mult_self1) simp
    then show ?thesis by (simp add: ac_simps)
  qed
  then show ?thesis by (simp add: fee_dec_laws_def ref_fe_def ref_dec_def)
qed

lemma ref_fee_coin_laws: "fee_coin_laws (fe_coins (ref_fe price))"
  by (auto simp: fee_coin_laws_def ref_fe_def ref_coins_def list_ex_iff)

lemma checks_only_Ok: "checks_only d \<Longrightarrow> d tx sim nxt c = (Ok v, e) \<Longrightarrow> nxt tx sim c = (Ok v, e)"
  unfolding checks_only_def by (metis Pair_inject outcome.distinct(1))

lemma Recover_no_panic: "\<not> is_Panic (fst (Recover m s))"
  by (auto simp: Recover_def split: prod.splits outcome.splits)

lemma Recover_Ok [simp]: "Recover m s = (Ok v, t) \<longleftrightarrow> m s = (Ok v, t)"
  by (auto simp: Recover_def split: prod.splits outcome.splits)

lemma RejectDelegate_accepts:
  assumes "val_codec_laws b" "acc_codec_laws b" "length_prefix_laws (vk_LengthPrefix k)" "\<not> (gas_limit c = 0 \<and> sim)"
    and "RejectDelegate_AnteHandle b (GetVolunteerValidator k) msgs sim nxt c = (Ok v, d)"
  shows "\<forall>m \<in> set msgs. \<forall>p \<in> set (staking_pairs m). pair_allowed b (is_volunteer k c) p"
proof -
  have keys: "\<forall>t v. ValAddressFromBech32 b t = Ok v \<longrightarrow> is_Ok (GetVolunteerValidatorKey k v)"
    using parsed_key_ok [OF assms(1,3)] by blast
  from assms(4,5) obtain e where "forM msgs (check_msg b (GetVolunteerValidator k)) c = (Ok (), e)"
    by (auto simp: RejectDelegate_AnteHandle_def thenM_eq_Ok bindM_eq_Ok)
  with vview.check_messages [OF assms(1,2) keys, where s = c and ms = msgs]
  have "list_all (pair_allowed b (is_volunteer k c)) (concat (map staking_pairs msgs))"
    by (auto split: if_splits)
  then show ?thesis by (auto simp: list_all_iff)
qed

lemma NewAnteHandler_Ok: "NewAnteHandler xa fe b opts = Ok h \<Longrightarrow> h = ante_handle xa fe b opts"
  by (simp add: NewAnteHandler_def)

text \<open>A transaction that is not an Ethereum one is accepted only by the Cosmos chain.\<close>

lemma ante_handle_cosmos:
  assumes "\<not> is_eth_tx tx" "ante_handle xa fe b opts tx sim c = (Ok (), d)"
  shows "bindM (newCosmosAnteHandler xa fe b opts) (\<lambda>h. h tx sim) c = (Ok (), d)"
  using assms by (auto simp: ante_handle_def is_eth_tx_def split: option.splits list.splits if_splits)

text \<open>The first three decorators of the Cosmos chain.\<close>

lemma cosmos_chain_front:
  assumes "opt_VolunteerKeeper opts = Some get" "xa_FeeMarketParams xa c = (Ok (), c)"
    and "bindM (newCosmosAnteHandler xa fe b opts) f c = (Ok v, d)"
  shows "\<exists>ds. f (xa_Chain xa (xa_RejectMessages xa # xa_AuthzLimiter xa # (\<lambda>tx sim nxt.
      RejectDelegate_AnteHandle b get (tx_Msgs tx) sim (\<lambda>_. nxt tx)) # ds)) c = (Ok v, d)"
proof (cases "opt_WasmConfig opts")
  case None
  with assms(2,3) show ?thesis by (simp add: newCosmosAnteHandler_def Let_def bindM_def liftO_def)
next
  case (Some l)
  with assms show ?thesis
    unfolding newCosmosAnteHandler_def Let_def bindM_assoc by (auto simp: bindM_def)
qed

text \<open>The handler never panics, and guards volunteer validators.\<close>

lemma ante_handle_no_panic: "\<not> is_Panic (fst (ante_handle xa fe b opts tx sim c))"
  by (simp add: ante_handle_def Recover_no_panic)

lemma ante_handle_guards:
  assumes "opt_VolunteerKeeper opts = Some (GetVolunteerValidator k)"
    and "chain_laws xa" "checks_only (xa_RejectMessages xa)" "checks_only (xa_AuthzLimiter xa)"
    and "xa_FeeMarketParams xa c = (Ok (), c)" "\<not> is_eth_tx tx" "\<not> (gas_limit c = 0 \<and> sim)"
    and "val_codec_laws b" "acc_codec_laws b" "length_prefix_laws (vk_LengthPrefix k)"
    and "is_Ok (fst (ante_handle xa fe b opts tx sim c))"
  shows "\<forall>m \<in> set (tx_Msgs tx). \<forall>p \<in> set (staking_pairs m). pair_allowed b (is_volunteer k c) p"
proof -
  let ?h = "ante_handle xa fe b opts tx sim c"
  from assms(11) have "ante_handle xa fe b opts tx sim c = (Ok (), snd ?h)" by (rule is_Ok_run)
  from cosmos_chain_front [OF assms(1,5) ante_handle_cosmos [OF assms(6) this]] obtain ds where "xa_Chain xa (xa_RejectMessages xa # xa_AuthzLimiter xa # (\<lambda>tx sim nxt.
      RejectDelegate_AnteHandle b (GetVolunteerValidator k) (tx_Msgs tx) sim (\<lambda>_. nxt tx)) # ds) tx sim c = (Ok (), snd ?h)"
    by blast
  then have "xa_Chain xa ((\<lambda>tx sim nxt.
      RejectDelegate_AnteHandle b (GetVolunteerValidator k) (tx_Msgs tx) sim (\<lambda>_. nxt tx)) # ds) tx sim c = (Ok (), snd ?h)"
    using assms(2) by (auto simp: chain_laws_def dest!: checks_only_Ok [OF assms(3)] checks_only_Ok [OF assms(4)])
  then obtain nxt where "RejectDelegate_AnteHandle b (GetVolunteerValidator k) (tx_Msgs tx) sim nxt c = (Ok (), snd ?h)"
    using assms(2) by (auto simp: chain_laws_def)
  then show ?thesis by (rule RejectDelegate_accepts [OF assms(8-10,7)])
qed

section \<open>Properties\<close>

text \<open>The handler the application installs never panics, and it accepts a transaction that
  is not an Ethereum one only if every delegation, redelegation and undelegation in it that
  names a volunteer validator comes from that validator.  (The two decorators in front of the
  check are assumed only to pass a transaction on or to refuse it.)\<close>

theorem ante_handler_safe:
  assumes "NewAnteHandler xa fe b opts = Ok h" "opt_VolunteerKeeper opts = Some (GetVolunteerValidator k)"
    and "chain_laws xa" "checks_only (xa_RejectMessages xa)" "checks_only (xa_AuthzLimiter xa)"
    and "xa_FeeMarketParams xa c = (Ok (), c)" "\<not> is_eth_tx tx" "\<not> (gas_limit c = 0 \<and> sim)"
    and "val_codec_laws b" "acc_codec_laws b" "length_prefix_laws (vk_LengthPrefix k)"
  shows "\<not> is_Panic (fst (h tx sim c)) \<and> (is_Ok (fst (h tx sim c)) \<longrightarrow>
    (\<forall>m \<in> set (tx_Msgs tx). \<forall>p \<in> set (staking_pairs m). pair_allowed b (is_volunteer k c) p))"
  using ante_handle_no_panic ante_handle_guards [OF assms(2-11)] unfolding NewAnteHandler_Ok [OF assms(1)] by blast

theorem ante_handler_safe_witness:
  "let k = ref_vk_of ref_no_staking ref_no_dist; c = ref_ctx (); tx = ref_tx [MsgDelegate ''d'' ''v''] 0 in
    is_Ok (fst (ante_handle ref_xa (ref_fe 0) ref_bech32 (ref_opts (GetVolunteerValidator k)) tx False c)) \<and>
    pair_allowed ref_bech32 (is_volunteer k c) (''v'', ''d'')"
proof -
  let ?k = "ref_vk_of ref_no_staking ref_no_dist"
  let ?opts = "ref_opts (GetVolunteerValidator ?k)"
  let ?tx = "ref_tx [MsgDelegate ''d'' ''v''] 0"
  have lp: "length_prefix_laws (vk_LengthPrefix ?k)"
    by (auto simp: length_prefix_laws_def ref_vk_of_def ref_length_prefix_def split: if_splits)
  have ok: "is_Ok (fst (ante_handle ref_xa (ref_fe 0) ref_bech32 ?opts ?tx False (ref_ctx ())))" by code_simp
  have new: "NewAnteHandler ref_xa (ref_fe 0) ref_bech32 ?opts = Ok (ante_handle ref_xa (ref_fe 0) ref_bech32 ?opts)"
    by (simp add: NewAnteHandler_def ref_opts_def)
  have xa: "chain_laws ref_xa" "checks_only (xa_RejectMessages ref_xa)" "checks_only (xa_AuthzLimiter ref_xa)"
      "xa_FeeMarketParams ref_xa (ref_ctx ()) = (Ok (), ref_ctx ())"
    by (simp_all add: chain_laws_def checks_only_def ref_xa_def ref_pass_def)
  have "\<not> is_eth_tx ?tx" "\<not> (gas_limit (ref_ctx ()) = 0 \<and> False)" "opt_VolunteerKeeper ?opts = Some (GetVolunteerValidator ?k)"
    by (simp_all add: is_eth_tx_def ref_tx_def ref_opts_def)
  note ante_handler_safe [OF new this(3) xa this(1,2) ref_val_laws ref_acc_laws lp]
  with ok show ?thesis by (simp add: Let_def ref_tx_def)
qed

text \<open>C19: In the mempool check a transaction that is not exempt passes the minimum fee decorator
  exactly when one of its fee coins is in the EVM denomination and pays the minimum price for
  the whole gas limit, fractions rounded up.  Exempt are simulations, a zero price, and
  transactions of listed messages only with at most a million gas per message.  Outside the
  mempool check no fee is required.\<close>

theorem min_fee_enforced:
  assumes "fee_dec_laws fe" "fee_coin_laws (fe_coins fe)" "fe_MinGasPrice fe c = (Ok price, c)"
    and "fe_EvmDenom fe c = (Ok denom, c)" "denom \<noteq> []" "tx_IsFeeTx tx" "0 \<le> price" "price < 2 ^ 128"
    and "length (tx_Msgs tx) < 2 ^ 44"
  shows "MinGasPrice_AnteHandle fe types tx sim nxt c =
    (if price = 0 \<or> \<not> is_check_tx c \<or> sim \<or>
        ((\<forall>m \<in> set (tx_Msgs tx). fe_MsgTypeURL fe m \<in> set types) \<and>
         unat (tx_Gas tx) \<le> length (tx_Msgs tx) * 1000000) \<or>
        (0 < price * uint (tx_Gas tx) \<and> (\<exists>coin \<in> set (tx_Fee tx). Denom coin = denom \<and>
           price * uint (tx_Gas tx) \<le> Amount coin * 10 ^ 18))
     then nxt tx sim c else (Err ErrInsufficientFee, c))"
proof -
  let ?n = "- (- (price * uint (tx_Gas tx)) div 10 ^ 18)"
  have rf: "requiredFee fe price (tx_Gas tx) = Ok ?n" by (rule requiredFee_exact [OF assms(1,7,8)])
  have add: "0 < ?n \<Longrightarrow> Coins_Add (fe_coins fe) [] \<lparr>Denom = denom, Amount = ?n\<rparr> = Ok [\<lparr>Denom = denom, Amount = ?n\<rparr>]"
    using assms(2) unfolding fee_coin_laws_def by simp
  have pos: "0 < ?n \<longleftrightarrow> 0 < price * uint (tx_Gas tx)"
    using ceil_div_le [of "10 ^ 18" "price * uint (tx_Gas tx)" 0] by auto
  have gte: "0 < ?n \<Longrightarrow> Coins_IsAnyGTE (fe_coins fe) (tx_Fee tx) [\<lparr>Denom = denom, Amount = ?n\<rparr>] =
      (\<exists>coin \<in> set (tx_Fee tx). Denom coin = denom \<and> price * uint (tx_Gas tx) \<le> Amount coin * 10 ^ 18)"
    using assms(2) ceil_div_le [of "10 ^ 18" "price * uint (tx_Gas tx)"] unfolding fee_coin_laws_def by simp
  have none: "\<not> Coins_IsAnyGTE (fe_coins fe) (tx_Fee tx) []" using assms(2) by (simp add: fee_coin_laws_def)
  define exempt where "exempt \<longleftrightarrow> price = 0 \<or> \<not> is_check_tx c \<or> sim \<or>
    ((\<forall>m \<in> set (tx_Msgs tx). fe_MsgTypeURL fe m \<in> set types) \<and> unat (tx_Gas tx) \<le> length (tx_Msgs tx) * 1000000)"
  define need where "need = (if 0 < ?n then [\<lparr>Denom = denom, Amount = ?n\<rparr>] else [])"
  have "MinGasPrice_AnteHandle fe types tx sim nxt c =
      (if exempt then nxt tx sim c else if Coins_IsAnyGTE (fe_coins fe) (tx_Fee tx) need then nxt tx sim c
       else (Err ErrInsufficientFee, c))"
    using assms(3-6) rf add unfolding exempt_def need_def
    by (simp add: MinGasPrice_AnteHandle_def bypassMinFeeMsgs_iff bypass_bound [OF assms(9)] thenM_def bindM_def)
  moreover have "Coins_IsAnyGTE (fe_coins fe) (tx_Fee tx) need \<longleftrightarrow> 0 < price * uint (tx_Gas tx) \<and>
      (\<exists>coin \<in> set (tx_Fee tx). Denom coin = denom \<and> price * uint (tx_Gas tx) \<le> Amount coin * 10 ^ 18)"
    using gte none unfolding need_def pos by auto
  ultimately show ?thesis unfolding exempt_def by auto
qed

theorem min_fee_enforced_witness:
  "let c = (ref_ctx ())\<lparr>is_check_tx := True\<rparr>; dec = MinGasPrice_AnteHandle (ref_fe (5 * 10 ^ 17)) [''relay''] in
    dec (ref_tx [] 50000) False (\<lambda>_ _. ret ()) c = (Ok (), c) \<and>
    dec (ref_tx [] 49999) False (\<lambda>_ _. ret ()) c = (Err ErrInsufficientFee, c)"
proof -
  let ?c = "(ref_ctx ())\<lparr>is_check_tx := True\<rparr>"
  let ?fe = "ref_fe (5 * 10 ^ 17) :: unit FeeEnv"
  have env: "fe_MinGasPrice ?fe ?c = (Ok (5 * 10 ^ 17), ?c)" "fe_EvmDenom ?fe ?c = (Ok ''axpla'', ?c)"
    by (simp_all add: ref_fe_def)
  have tx: "tx_IsFeeTx (ref_tx [] n)" "length (tx_Msgs (ref_tx [] n)) < 2 ^ 44" for n by (simp_all add: ref_tx_def)
  note min_fee_enforced [OF ref_fee_dec_laws ref_fee_coin_laws env _ tx(1) _ _ tx(2)]
  then show ?thesis by (simp add: Let_def ref_tx_def)
qed

text \<open>C20: The gas charged for a signature, and how the check ends, are those of the reference
  that walks the bits, keys and signatures of a multi-signature side by side, at every nesting
  depth and for every gas meter: each signing key is charged once, in order, up to the first
  key that is refused; only a set bit without a key or a signature panics.\<close>

theorem sig_gas_exact:
  "SigVerificationGasConsumer consume params key sig = run_charges consume (sig_charges params key sig)"
  by (rule gas_consumer_charges)

end
