(* ===== verification/Auth.thy ===== *)
theory Auth
  imports Types
begin

text \<open>
  The account keeper, \<open>src/x/auth/keeper\<close>: the SDK's keeper with an index from the last 20
  bytes of a longer address (the form the EVM sees) to the full address.  State: \<open>slice_kv\<close> of
  the context.  The SDK's keeper, the address codec and the packing into a protobuf \<open>Any\<close> are
  parameters.
\<close>

section \<open>Data and keeper\<close>

record Account =
  acc_Address :: AccAddress
  acc_PubKey :: "PubKey option"
  acc_Number :: uint64
  acc_Sequence :: uint64

record 'x AccountKeeper =
  ak_GetAccount :: "AccAddress \<Rightarrow> ('x, Account option) M"
  ak_Has :: "AccAddress \<Rightarrow> ('x, bool) M"
  ak_SetAccount :: "Account \<Rightarrow> ('x, unit) M"
  ak_StringToBytes :: "string \<Rightarrow> AccAddress outcome"
  ak_PackAccount :: "Account \<Rightarrow> bytes outcome"
  ak_PackPubKey :: "PubKey \<Rightarrow> bytes outcome"

definition slice_lookup :: "'x Ctx \<Rightarrow> bytes \<Rightarrow> bytes option" where
  "slice_lookup c a = kv_get (slice_kv c) a"

definition slice_put :: "bytes \<Rightarrow> bytes \<Rightarrow> 'x Ctx \<Rightarrow> 'x Ctx" where
  "slice_put a v c = c\<lparr>slice_kv := kv_set a v (slice_kv c)\<rparr>"

definition slice_remove :: "bytes \<Rightarrow> 'x Ctx \<Rightarrow> 'x Ctx" where
  "slice_remove a c = c\<lparr>slice_kv := kv_delete a (slice_kv c)\<rparr>"

text \<open>A missing entry of the index means that the address stands for itself.\<close>

definition getSliceAddress :: "AccAddress \<Rightarrow> ('x Ctx, AccAddress) M" where
  "getSliceAddress addr = getsM (\<lambda>c. case slice_lookup c addr of None \<Rightarrow> addr | Some a \<Rightarrow> a)"

definition HasAccount :: "'x AccountKeeper \<Rightarrow> AccAddress \<Rightarrow> ('x Ctx, bool) M" where
  "HasAccount k addr = bindM (getSliceAddress addr) (\<lambda>a.
     bindM (attempt (extM (ak_Has k a))) (\<lambda>r. case r of Inl _ \<Rightarrow> ret False | Inr has \<Rightarrow> ret has))"

definition GetAccount :: "'x AccountKeeper \<Rightarrow> AccAddress \<Rightarrow> ('x Ctx, Account option) M" where
  "GetAccount k addr = bindM (getSliceAddress addr) (\<lambda>a. extM (ak_GetAccount k a))"

definition GetSequence :: "'x AccountKeeper \<Rightarrow> AccAddress \<Rightarrow> ('x Ctx, uint64) M" where
  "GetSequence k addr = bindM (GetAccount k addr) (\<lambda>acc. case acc of
      None \<Rightarrow> throw ErrUnknownAddress
    | Some a \<Rightarrow> ret (acc_Sequence a))"

text \<open>\<open>address[len(address)-20:]\<close>, out of range for a shorter address.\<close>

definition last20 :: "bytes \<Rightarrow> bytes" where
  "last20 a = drop (length a - 20) a"

definition SetAccount :: "'x AccountKeeper \<Rightarrow> Account \<Rightarrow> ('x Ctx, unit) M" where
  "SetAccount k acc =
     thenM (let address = acc_Address acc in
            if length address \<noteq> 20 then
              if length address < 20 then panic ''slice bounds out of range''
              else modifyM (slice_put (last20 address) address)
            else ret ())
       (extM (ak_SetAccount k acc))"

definition Query_Account :: "'x AccountKeeper \<Rightarrow> string option \<Rightarrow> ('x Ctx, bytes) M" where
  "Query_Account k req = (case req of
      None \<Rightarrow> throw (ErrInvalidArgument ''empty request'')
    | Some address \<Rightarrow>
        thenM (guardM (address \<noteq> []) (ErrInvalidArgument ''Address cannot be empty'')) (
        bindM (liftO (ak_StringToBytes k address)) (\<lambda>addr.
        bindM (GetAccount k addr) (\<lambda>account. case account of
          None \<Rightarrow> throw ErrNotFound
        | Some a \<Rightarrow> (case ak_PackAccount k a of
              Ok bz \<Rightarrow> ret bz
            | Err _ \<Rightarrow> throw (Error ''Internal'')
            | Panic p \<Rightarrow> panic p)))))"

record BaseAccountInfo =
  bai_Address :: string
  bai_PubKey :: "bytes option"
  bai_AccountNumber :: uint64
  bai_Sequence :: uint64

definition Query_AccountInfo :: "'x AccountKeeper \<Rightarrow> string option \<Rightarrow> ('x Ctx, BaseAccountInfo) M" where
  "Query_AccountInfo k req = (case req of
      None \<Rightarrow> throw (ErrInvalidArgument ''empty request'')
    | Some address \<Rightarrow>
        thenM (guardM (address \<noteq> []) (ErrInvalidArgument ''address cannot be empty'')) (
        bindM (liftO (ak_StringToBytes k address)) (\<lambda>addr.
        bindM (GetAccount k addr) (\<lambda>account. case account of
          None \<Rightarrow> throw ErrNotFound
        | Some a \<Rightarrow>
            bindM (case acc_PubKey a of
                None \<Rightarrow> ret None
              | Some pk \<Rightarrow> (case ak_PackPubKey k pk of
                    Ok bz \<Rightarrow> ret (Some bz)
                  | Err _ \<Rightarrow> throw (Error ''Internal'')
                  | Panic p \<Rightarrow> panic p)) (\<lambda>pkAny.
            ret \<lparr>bai_Address = address, bai_PubKey = pkAny, bai_AccountNumber = acc_Number a,
              bai_Sequence = acc_Sequence a\<rparr>)))))"

section \<open>Specification\<close>

text \<open>The SDK's keeper: a map from addresses to accounts, \<open>accts\<close>, that \<open>SetAccount\<close> updates.\<close>

definition account_laws :: "'x AccountKeeper \<Rightarrow> ('x \<Rightarrow> AccAddress \<Rightarrow> Account option) \<Rightarrow> bool" where
  "account_laws k accts \<longleftrightarrow>
     (\<forall>a x. ak_GetAccount k a x = (Ok (accts x a), x)) \<and>
     (\<forall>a x. ak_Has k a x = (Ok (accts x a \<noteq> None), x)) \<and>
     (\<forall>acc x y. ak_SetAccount k acc x = (Ok (), y) \<longrightarrow> accts y = (accts x)(acc_Address acc \<mapsto> acc))"

text \<open>The address the keeper uses for \<open>a\<close>.\<close>

definition resolve :: "'x Ctx \<Rightarrow> AccAddress \<Rightarrow> AccAddress" where
  "resolve c a = (case slice_lookup c a of None \<Rightarrow> a | Some v \<Rightarrow> v)"

text \<open>The index maps the last 20 bytes of long addresses, and nothing else, to those addresses.\<close>

definition slice_inv :: "'x Ctx \<Rightarrow> bool" where
  "slice_inv c \<longleftrightarrow> kv_ok (slice_kv c) \<and>
     (\<forall>a v. slice_lookup c a = Some v \<longrightarrow> 20 < length v \<and> a = last20 v)"

inductive auth_reach :: "'x AccountKeeper \<Rightarrow> 'x Ctx \<Rightarrow> bool" for k where
  ar_init: "slice_kv c = [] \<Longrightarrow> auth_reach k c"
| ar_set: "auth_reach k c \<Longrightarrow> auth_reach k (snd (SetAccount k acc c))"
| ar_other: "auth_reach k c \<Longrightarrow> slice_kv d = slice_kv c \<Longrightarrow> auth_reach k d"

text \<open>The states with the addresses of all accounts that were stored on the way, the newest first.\<close>

inductive auth_history :: "'x AccountKeeper \<Rightarrow> bytes list \<Rightarrow> 'x Ctx \<Rightarrow> bool" for k where
  ah_init: "slice_kv c = [] \<Longrightarrow> auth_history k [] c"
| ah_set: "auth_history k hs c \<Longrightarrow> auth_history k (acc_Address acc # hs) (snd (SetAccount k acc c))"
| ah_other: "auth_history k hs c \<Longrightarrow> slice_kv d = slice_kv c \<Longrightarrow> auth_history k hs d"

text \<open>What the index should hold for \<open>a\<close>: the newest long address that ends in \<open>a\<close>.\<close>

definition newest_long :: "bytes list \<Rightarrow> bytes \<Rightarrow> bytes option" where
  "newest_long hs a = find (\<lambda>v. 20 < length v \<and> last20 v = a) hs"

section \<open>A reference keeper\<close>

definition ref_ak :: "(bytes, Account) kv AccountKeeper" where
  "ref_ak = \<lparr>ak_GetAccount = (\<lambda>a. getsM (\<lambda>x. kv_get x a)), ak_Has = (\<lambda>a. getsM (\<lambda>x. kv_get x a \<noteq> None)),
     ak_SetAccount = (\<lambda>acc. modifyM (kv_set (acc_Address acc) acc)), ak_StringToBytes = ref_parse,
     ak_PackAccount = (\<lambda>a. Ok (acc_Address a)), ak_PackPubKey = (\<lambda>pk. Ok (pk_Bytes pk))\<rparr>"

definition ref_account :: "bytes \<Rightarrow> Account" where
  "ref_account a = \<lparr>acc_Address = a, acc_PubKey = None, acc_Number = 5, acc_Sequence = 9\<rparr>"

section \<open>The store contract\<close>

interpretation slices: keyed_store slice_lookup slice_put slice_remove "\<lambda>c. kv_ok (slice_kv c)"
  by unfold_locales
    (auto simp: slice_lookup_def slice_put_def slice_remove_def fun_eq_iff
      kv_get_set kv_get_delete intro: kv_ok_set kv_ok_delete)

section \<open>The index\<close>

lemma last20_length: "20 \<le> length a \<Longrightarrow> length (last20 a) = 20"
  by (simp add: last20_def)

lemma slice_ext [simp]: "slice_lookup (c\<lparr>ext := x\<rparr>) = slice_lookup c" "slice_inv (c\<lparr>ext := x\<rparr>) = slice_inv c"
  by (simp_all add: slice_lookup_def slice_inv_def fun_eq_iff)

lemma slice_inv_put: "slice_inv c \<Longrightarrow> 20 < length v \<Longrightarrow> slice_inv (slice_put (last20 v) v c)"
  using slices.lookup_put [of c "last20 v" v] slices.wf_put [of c "last20 v" v]
  by (auto simp: slice_inv_def split: if_splits)

lemma SetAccount_keeps: "keeps slice_inv (SetAccount k acc)"
proof -
  have "keeps slice_inv (modifyM (slice_put (last20 (acc_Address acc)) (acc_Address acc)))"
    if "20 < length (acc_Address acc)"
    using that by (intro keeps_modifyM slice_inv_put)
  then show ?thesis
    unfolding SetAccount_def Let_def
    by (cases "20 < length (acc_Address acc)") (auto intro!: keeps_thenM keeps_extM keeps_ret keeps_panic)
qed

lemma auth_reach_inv: "auth_reach k c \<Longrightarrow> slice_inv c"
proof (induction rule: auth_reach.induct)
  case (ar_init c)
  then show ?case by (simp add: slice_inv_def slice_lookup_def)
next
  case (ar_set c acc)
  then show ?case by (intro keeps_snd [OF SetAccount_keeps])
next
  case (ar_other c d)
  then show ?case by (simp add: slice_inv_def slice_lookup_def)
qed

lemma auth_history_reach: "auth_history k hs c \<Longrightarrow> auth_reach k c"
  by (induction rule: auth_history.induct) (auto intro: auth_reach.intros)

lemma SetAccount_slice:
  "slice_inv c \<Longrightarrow> slice_lookup (snd (SetAccount k acc c)) =
     (if 20 < length (acc_Address acc) then (slice_lookup c)(last20 (acc_Address acc) \<mapsto> acc_Address acc)
      else slice_lookup c)"
  by (auto simp: SetAccount_def Let_def thenM_def bindM_def extM_apply slices.lookup_put slice_inv_def
      split: prod.splits outcome.splits)

lemma auth_history_index: "auth_history k hs c \<Longrightarrow> slice_lookup c = newest_long hs"
proof (induction rule: auth_history.induct)
  case (ah_init c)
  then show ?case by (simp add: slice_lookup_def newest_long_def fun_eq_iff)
next
  case (ah_set hs c acc)
  then show ?case using SetAccount_slice [OF auth_reach_inv [OF auth_history_reach [OF ah_set(1)]]]
    by (auto simp: newest_long_def fun_eq_iff)
next
  case (ah_other hs c d)
  then show ?case by (simp add: slice_lookup_def fun_eq_iff)
qed

text \<open>Only 20-byte addresses have an entry, so every other address stands for itself.\<close>

lemma resolve_long: "slice_inv c \<Longrightarrow> length a \<noteq> 20 \<Longrightarrow> resolve c a = a"
  unfolding resolve_def slice_inv_def
  by (metis last20_length less_imp_le_nat option.case_eq_if option.collapse)

lemma GetAccount_run: "account_laws k accts \<Longrightarrow> GetAccount k a c = (Ok (accts (ext c) (resolve c a)), c)"
  by (simp add: GetAccount_def getSliceAddress_def bindM_def extM_apply account_laws_def resolve_def)

lemma HasAccount_run: "account_laws k accts \<Longrightarrow> HasAccount k a c = (Ok (accts (ext c) (resolve c a) \<noteq> None), c)"
  by (simp add: HasAccount_def getSliceAddress_def bindM_def attempt_def extM_apply account_laws_def resolve_def)

lemma SetAccount_run:
  assumes "account_laws k accts" "SetAccount k acc c = (Ok (), d)"
  obtains x where "20 \<le> length (acc_Address acc)" "accts x = (accts (ext c))(acc_Address acc \<mapsto> acc)"
    and "d = (if length (acc_Address acc) = 20 then c
      else slice_put (last20 (acc_Address acc)) (acc_Address acc) c)\<lparr>ext := x\<rparr>"
proof -
  have l: "20 \<le> length (acc_Address acc)"
    using assms(2) by (auto simp: SetAccount_def Let_def thenM_def bindM_def split: if_splits)
  let ?c = "if length (acc_Address acc) = 20 then c else slice_put (last20 (acc_Address acc)) (acc_Address acc) c"
  have "extM (ak_SetAccount k acc) ?c = (Ok (), d)"
    using assms(2) l by (auto simp: SetAccount_def Let_def thenM_def bindM_def split: if_splits)
  then obtain x where x: "ak_SetAccount k acc (ext ?c) = (Ok (), x)" "d = ?c\<lparr>ext := x\<rparr>" by (auto simp: extM_eq)
  moreover have "ext ?c = ext c" by (simp add: slice_put_def)
  ultimately show thesis using l assms(1) by (intro that) (auto simp: account_laws_def)
qed

lemma resolve_put:
  "slice_inv c \<Longrightarrow> resolve ((slice_put a v c)\<lparr>ext := x\<rparr>) b = (if b = a then v else resolve c b)"
  using slices.lookup_put [of c a v] by (simp add: resolve_def slice_inv_def)

lemma resolve_ext [simp]: "resolve (c\<lparr>ext := x\<rparr>) a = resolve c a"
  by (simp add: resolve_def)

lemma resolve_eq_long: "slice_inv c \<Longrightarrow> length v \<noteq> 20 \<Longrightarrow> resolve c b = v \<Longrightarrow> b = v \<or> b = last20 v"
  by (auto simp: resolve_def slice_inv_def split: option.splits)

lemma ref_account_laws: "account_laws ref_ak kv_get"
  by (simp add: account_laws_def ref_ak_def kv_get_set)

section \<open>Properties\<close>

text \<open>C40: The index is exact.  Whatever accounts were stored, in whatever order and with whatever
  outcome, it maps 20 bytes to the newest stored address that is longer than 20 bytes and ends in
  them, and to nothing if there is none; the keeper looks up that address instead, and never
  redirects an address that is not 20 bytes long.\<close>

theorem slice_index_invariant:
  assumes "auth_history k hs c"
  shows "slice_lookup c a = newest_long hs a \<and>
    getSliceAddress a c = (Ok (case newest_long hs a of None \<Rightarrow> a | Some v \<Rightarrow> v), c) \<and>
    (length a \<noteq> 20 \<longrightarrow> getSliceAddress a c = (Ok a, c))"
proof -
  have eq: "getSliceAddress a c = (Ok (resolve c a), c)" by (simp add: getSliceAddress_def resolve_def)
  with resolve_long [OF auth_reach_inv [OF auth_history_reach [OF assms]]]
  have "length a \<noteq> 20 \<longrightarrow> getSliceAddress a c = (Ok a, c)" by simp
  with eq auth_history_index [OF assms] show ?thesis by (simp add: resolve_def)
qed

theorem slice_index_invariant_witness:
  "let c = snd (SetAccount ref_ak (ref_account (1 # replicate 31 7)) (snd (SetAccount ref_ak (ref_account (replicate 32 7)) (ref_ctx [])))) in
     slice_lookup c (replicate 20 7) = Some (1 # replicate 31 7) \<and>
     getSliceAddress (replicate 20 7) c = (Ok (1 # replicate 31 7), c) \<and> getSliceAddress (replicate 32 7) c = (Ok (replicate 32 7), c)"
proof -
  let ?c = "snd (SetAccount ref_ak (ref_account (1 # replicate 31 7)) (snd (SetAccount ref_ak (ref_account (replicate 32 7)) (ref_ctx []))))"
  have "auth_history ref_ak [acc_Address (ref_account (1 # replicate 31 7)), acc_Address (ref_account (replicate 32 7))] ?c"
    by (intro ah_set ah_init) (simp add: ref_ctx_def)
  then have h: "auth_history ref_ak [1 # replicate 31 7, replicate 32 7] ?c" by (simp add: ref_account_def)
  have n: "newest_long [1 # replicate 31 7, replicate 32 7] (replicate 20 7) = Some (1 # replicate 31 7)" by code_simp
  have l: "length (replicate 32 7 :: bytes) \<noteq> 20" by simp
  from slice_index_invariant [OF h, of "replicate 20 7"] slice_index_invariant [OF h, of "replicate 32 7"] l
  show ?thesis unfolding Let_def n option.case by blast
qed

text \<open>Storing an account makes it readable under its address and, when the address is longer
  than 20 bytes, also under its last 20 bytes; no other address is affected.  (For a 20-byte
  address this needs that no longer address shares it as its last 20 bytes.)\<close>

theorem set_then_get_account:
  assumes "account_laws k accts" "auth_reach k c" "SetAccount k acc c = (Ok (), d)"
    and "length (acc_Address acc) = 20 \<Longrightarrow> slice_lookup c (acc_Address acc) = None"
  shows "20 \<le> length (acc_Address acc) \<and>
    (\<forall>a \<in> {acc_Address acc, last20 (acc_Address acc)}.
       GetAccount k a d = (Ok (Some acc), d) \<and> HasAccount k a d = (Ok True, d) \<and>
       GetSequence k a d = (Ok (acc_Sequence acc), d)) \<and>
    (\<forall>b. b \<notin> {acc_Address acc, last20 (acc_Address acc)} \<longrightarrow> fst (GetAccount k b d) = fst (GetAccount k b c))"
proof -
  note inv = auth_reach_inv [OF assms(2)]
  let ?v = "acc_Address acc"
  obtain x where x: "20 \<le> length ?v" "accts x = (accts (ext c))(?v \<mapsto> acc)"
    "d = (if length ?v = 20 then c else slice_put (last20 ?v) ?v c)\<lparr>ext := x\<rparr>"
    by (rule SetAccount_run [OF assms(1,3)])
  have "resolve d a = ?v" if "a \<in> {?v, last20 ?v}" for a
  proof (cases "length ?v = 20")
    case True
    then show ?thesis using that assms(4) x(3) by (auto simp: resolve_def last20_def)
  next
    case False
    moreover have "?v \<noteq> last20 ?v" using False x(1) last20_length by metis
    ultimately show ?thesis using that x(3) resolve_put [OF inv] resolve_long [OF inv, of ?v] by auto
  qed
  moreover have "resolve d b = resolve c b \<and> resolve c b \<noteq> ?v" if "b \<notin> {?v, last20 ?v}" for b
  proof (cases "length ?v = 20")
    case True
    then show ?thesis using that inv x(3) by (auto simp: resolve_def slice_inv_def split: option.splits)
  next
    case False
    then show ?thesis using that x(3) resolve_put [OF inv] resolve_eq_long [OF inv False] by auto
  qed
  moreover have "ext d = x" by (simp add: x(3))
  ultimately show ?thesis
    using x(1,2) by (auto simp: GetSequence_def GetAccount_run [OF assms(1)] HasAccount_run [OF assms(1)] bindM_def)
qed

theorem set_then_get_account_witness:
  "fst (GetAccount ref_ak (replicate 20 7) (snd (SetAccount ref_ak (ref_account (replicate 32 7)) (ref_ctx [])))) =
     Ok (Some (ref_account (replicate 32 7)))"
proof -
  let ?acc = "ref_account (replicate 32 7)"
  let ?d = "snd (SetAccount ref_ak ?acc (ref_ctx []))"
  have run: "SetAccount ref_ak ?acc (ref_ctx []) = (Ok (), ?d)" by (rule is_Ok_run) code_simp
  have r: "auth_reach ref_ak (ref_ctx ([] :: (bytes, Account) kv))" by (rule ar_init) (simp add: ref_ctx_def)
  have l: "length (acc_Address ?acc) \<noteq> 20" by code_simp
  have "last20 (acc_Address ?acc) = replicate 20 7" by code_simp
  with set_then_get_account [OF ref_account_laws r run] l show ?thesis by auto
qed

text \<open>A 20-byte account is hidden by a longer one: when the index already holds an entry
  for its address, storing the account succeeds but reading the address returns the account
  stored under the longer address, if there is one.\<close>

theorem short_account_hidden:
  assumes "account_laws k accts" "auth_reach k c" "SetAccount k acc c = (Ok (), d)"
    and "length (acc_Address acc) = 20" "slice_lookup c (acc_Address acc) = Some v"
  shows "GetAccount k (acc_Address acc) d = (Ok (accts (ext c) v), d)"
proof -
  obtain x where x: "accts x = (accts (ext c))(acc_Address acc \<mapsto> acc)" "d = c\<lparr>ext := x\<rparr>"
    using SetAccount_run [OF assms(1,3)] assms(4) by metis
  have "20 < length v" using auth_reach_inv [OF assms(2)] assms(5) by (auto simp: slice_inv_def)
  then have "v \<noteq> acc_Address acc" using assms(4) by auto
  then show ?thesis using x assms(5) by (simp add: GetAccount_run [OF assms(1)] resolve_def)
qed

theorem short_account_hidden_witness:
  "fst (GetAccount ref_ak (replicate 20 7) (snd (SetAccount ref_ak (ref_account (replicate 20 7))
     (snd (SetAccount ref_ak (ref_account (replicate 32 7)) (ref_ctx [])))))) = Ok (Some (ref_account (replicate 32 7)))"
proof -
  let ?c = "snd (SetAccount ref_ak (ref_account (replicate 32 7)) (ref_ctx []))"
  let ?acc = "ref_account (replicate 20 7)"
  let ?d = "snd (SetAccount ref_ak ?acc ?c)"
  have run: "SetAccount ref_ak ?acc ?c = (Ok (), ?d)" by (rule is_Ok_run) code_simp
  have r: "auth_reach ref_ak ?c" by (intro ar_set ar_init) (simp add: ref_ctx_def)
  have l: "length (acc_Address ?acc) = 20" by code_simp
  have s: "slice_lookup ?c (acc_Address ?acc) = Some (replicate 32 7)" by code_simp
  have a: "acc_Address ?acc = replicate 20 7" by code_simp
  have "kv_get (ext ?c) (replicate 32 7) = Some (ref_account (replicate 32 7))" by code_simp
  with short_account_hidden [OF ref_account_laws r run l s] show ?thesis by (simp only: a fst_conv)
qed

end
