(* ===== verification/Abi.thy ===== *)
theory Abi
  imports Types
begin

text \<open>
  Decoded EVM values and the helpers of \<open>src/precompile/util\<close> that turn them into SDK values.
  The EVM's ABI coder returns a list of \<open>interface{}\<close> values; \<open>AbiValue\<close> has one constructor
  for each dynamic type the helpers test for.  The conversions of go-ethereum and of
  \<open>cosmossdk.io/math\<close> are parameters.
\<close>

section \<open>Values\<close>

datatype AbiValue =
    AbiBool bool
  | AbiAddress bytes
  | AbiInt int
  | AbiString string
  | AbiBytes bytes
  | AbiTuple "(string \<times> AbiValue) list"
  | AbiArray "AbiValue list"
  | AbiOther

record EvmFns =
  BytesToAddress :: "bytes \<Rightarrow> bytes"
  HexToAddress :: "string \<Rightarrow> bytes"
  NewIntFromBigInt :: "int \<Rightarrow> int outcome"
  Int_Uint64 :: "int \<Rightarrow> uint64 outcome"
  ABI_Unpack :: "string \<Rightarrow> bytes \<Rightarrow> AbiValue list outcome"
  ABI_Pack :: "string \<Rightarrow> AbiValue list \<Rightarrow> bytes outcome"

section \<open>Helpers\<close>

definition GetBool :: "AbiValue \<Rightarrow> bool outcome" where
  "GetBool src = (case src of AbiBool b \<Rightarrow> Ok b | _ \<Rightarrow> Err (Error ''invalid bool''))"

definition GetAccAddress :: "AbiValue \<Rightarrow> AccAddress outcome" where
  "GetAccAddress src = (case src of AbiAddress a \<Rightarrow> Ok a | _ \<Rightarrow> Err (Error ''invalid addr''))"

definition GetBigInt :: "EvmFns \<Rightarrow> AbiValue \<Rightarrow> int outcome" where
  "GetBigInt ev src = (case src of AbiInt n \<Rightarrow> NewIntFromBigInt ev n | _ \<Rightarrow> Err (Error ''invalid big int''))"

definition GetString :: "AbiValue \<Rightarrow> string outcome" where
  "GetString src = (case src of AbiString s \<Rightarrow> Ok s | _ \<Rightarrow> Err (Error ''invalid string''))"

definition GetByteArray :: "AbiValue \<Rightarrow> bytes outcome" where
  "GetByteArray src = (case src of AbiBytes b \<Rightarrow> Ok b | _ \<Rightarrow> Err (Error ''invalid byte array''))"

definition GetCoin :: "EvmFns \<Rightarrow> CoinOps \<Rightarrow> AbiValue \<Rightarrow> Coin outcome" where
  "GetCoin ev co src = (case src of
      AbiTuple flds \<Rightarrow>
        (case (map_of flds ''Denom'', map_of flds ''Amount'') of
            (Some denomField, Some amountField) \<Rightarrow>
              (case denomField of
                  AbiString denom \<Rightarrow>
                    (case amountField of
                        AbiInt amount \<Rightarrow> bindO (NewIntFromBigInt ev amount) (NewCoin co denom)
                      | _ \<Rightarrow> Err (Error ''invalid coin / amount''))
                | _ \<Rightarrow> Err (Error ''invalid coin / denom''))
          | _ \<Rightarrow> Err (Error ''invalid coin / field''))
    | _ \<Rightarrow> Err (Error ''invalid coin / struct''))"

text \<open>
  What \<open>reflect\<close> sees as a slice or an array: besides ABI arrays also byte strings and the
  20-byte array of an address, whose elements are bytes.
\<close>

fun array_items :: "AbiValue \<Rightarrow> AbiValue list option" where
  "array_items (AbiArray vs) = Some vs"
| "array_items (AbiBytes b) = Some (map (\<lambda>_. AbiOther) b)"
| "array_items (AbiAddress a) = Some (map (\<lambda>_. AbiOther) a)"
| "array_items _ = None"

definition GetCoins :: "EvmFns \<Rightarrow> CoinOps \<Rightarrow> AbiValue \<Rightarrow> Coins outcome" where
  "GetCoins ev co src = (case array_items src of
      None \<Rightarrow> Err (Error ''invalid coins / not array-like input'')
    | Some items \<Rightarrow> bindO (mapO (GetCoin ev co) items) (NewCoins co))"

definition ValidateSigner :: "AccAddress \<Rightarrow> bytes \<Rightarrow> unit outcome" where
  "ValidateSigner sender caller = guardO (sender = caller) (Error ''invalid signer'')"

text \<open>\<open>args[i]\<close>: the index is out of range when the ABI declared fewer arguments.\<close>

definition arg :: "AbiValue list \<Rightarrow> nat \<Rightarrow> AbiValue outcome" where
  "arg args i = (if i < length args then Ok (args ! i) else Panic ''index out of range'')"

section \<open>Specification\<close>

text \<open>\<open>cmn.NewCoinsResponse\<close>, the form in which coins appear in the ABI.\<close>

definition abi_coin :: "Coin \<Rightarrow> AbiValue" where
  "abi_coin c = AbiTuple [(''Denom'', AbiString (Denom c)), (''Amount'', AbiInt (Amount c))]"

definition abi_coins :: "Coins \<Rightarrow> AbiValue" where
  "abi_coins cs = AbiArray (map abi_coin cs)"

text \<open>
  What the SDK documents: integers of at most 256 bits convert exactly, \<open>NewCoin\<close> accepts the
  coins of a valid list and \<open>NewCoins\<close> returns a valid list unchanged.
\<close>

definition bigint_laws :: "EvmFns \<Rightarrow> bool" where
  "bigint_laws ev \<longleftrightarrow> (\<forall>n. \<bar>n\<bar> < 2 ^ 256 \<longrightarrow> NewIntFromBigInt ev n = Ok n)"

definition valid_coin_laws :: "CoinOps \<Rightarrow> bool" where
  "valid_coin_laws co \<longleftrightarrow> (\<forall>cs. Coins_IsValid co cs \<longrightarrow>
     NewCoins co cs = Ok cs \<and> (\<forall>c \<in> set cs. NewCoin co (Denom c) (Amount c) = Ok c))"

section \<open>Reference functions\<close>

definition ref_addr20 :: "bytes \<Rightarrow> bytes" where
  "ref_addr20 a = (if length a < 20 then replicate (20 - length a) 0 @ a else drop (length a - 20) a)"

definition ref_evm :: EvmFns where
  "ref_evm = \<lparr>BytesToAddress = ref_addr20,
     HexToAddress = (\<lambda>s. ref_addr20 (map (\<lambda>ch. word_of_nat (of_char ch)) s)),
     NewIntFromBigInt = (\<lambda>n. if \<bar>n\<bar> < 2 ^ 256 then Ok n else Panic ''overflow''),
     Int_Uint64 = (\<lambda>n. if 0 \<le> n \<and> n < 2 ^ 64 then Ok (word_of_int n) else Panic ''overflow''),
     ABI_Unpack = (\<lambda>m bz. if bz = [] then Err (ErrExternal ''unpack'')
       else Ok [if m = ''transfer'' then AbiBool (hd bz \<noteq> 0) else AbiInt (uint (hd bz))]),
     ABI_Pack = (\<lambda>m vs. Ok (concat (map (\<lambda>v. case v of AbiBytes b \<Rightarrow> b | AbiBool b \<Rightarrow> [if b then 1 else 0]
        | AbiInt n \<Rightarrow> [word_of_int n] | AbiAddress a \<Rightarrow> a | _ \<Rightarrow> []) vs)))\<rparr>"

section \<open>Lemmas\<close>

lemma GetCoin_abi_coin:
  "bigint_laws ev \<Longrightarrow> \<bar>Amount c\<bar> < 2 ^ 256 \<Longrightarrow> NewCoin co (Denom c) (Amount c) = Ok c \<Longrightarrow>
    GetCoin ev co (abi_coin c) = Ok c"
  by (simp add: GetCoin_def abi_coin_def bigint_laws_def)

lemma mapO_inverse: "\<forall>c \<in> set cs. f (g c) = Ok c \<Longrightarrow> mapO f (map g cs) = Ok cs"
  by (induction cs) auto

lemma ref_bigint_laws: "bigint_laws ref_evm"
  by (simp add: bigint_laws_def ref_evm_def)

lemma ref_sorted_id: "ref_denoms_sorted cs \<Longrightarrow> sort_key Denom cs = cs"
proof (induction cs)
  case (Cons c cs)
  then have "ref_denoms_sorted cs" "\<forall>x \<in> set cs. Denom c < Denom x" by (auto simp: ref_denoms_sorted_def)
  with Cons.IH show ?case by (auto simp: less_imp_le insort_is_Cons)
qed simp

lemma ref_valid_coin_laws: "valid_coin_laws ref_coins"
proof -
  have "NewCoins ref_coins cs = Ok cs"
    if "list_all (\<lambda>c. ref_coin_ok c \<and> 0 < Amount c) cs" "ref_denoms_sorted cs" for cs
  proof -
    have "filter (\<lambda>c. Amount c \<noteq> 0) cs = cs" using that(1) by (intro filter_True) (auto simp: list_all_iff)
    with that show ?thesis by (auto simp: ref_coins_def ref_sorted_id list_all_iff)
  qed
  then show ?thesis by (auto simp: valid_coin_laws_def ref_coins_def ref_coin_ok_def list_all_iff)
qed

section \<open>Properties\<close>

text \<open>A valid list of coins, sent through the ABI and read back by the precompiles' decoder,
  comes back unchanged.\<close>

theorem coins_abi_roundtrip:
  assumes "bigint_laws ev" "valid_coin_laws co" "Coins_IsValid co cs" "\<forall>c \<in> set cs. \<bar>Amount c\<bar> < 2 ^ 256"
  shows "GetCoins ev co (abi_coins cs) = Ok cs"
proof -
  from assms(2,3) have v: "NewCoins co cs = Ok cs" "\<forall>c \<in> set cs. NewCoin co (Denom c) (Amount c) = Ok c"
    by (auto simp: valid_coin_laws_def)
  have "mapO (GetCoin ev co) (map abi_coin cs) = Ok cs"
    using assms(4) v(2) by (intro mapO_inverse ballI GetCoin_abi_coin [OF assms(1)]) auto
  with v(1) show ?thesis by (simp add: GetCoins_def abi_coins_def)
qed

theorem coins_abi_roundtrip_witness:
  "GetCoins ref_evm ref_coins (abi_coins [\<lparr>Denom = ''a'', Amount = 3\<rparr>, \<lparr>Denom = ''b'', Amount = 5\<rparr>]) =
     Ok [\<lparr>Denom = ''a'', Amount = 3\<rparr>, \<lparr>Denom = ''b'', Amount = 5\<rparr>]"
proof -
  have "Coins_IsValid ref_coins [\<lparr>Denom = ''a'', Amount = 3\<rparr>, \<lparr>Denom = ''b'', Amount = 5\<rparr>]" by code_simp
  from coins_abi_roundtrip [OF ref_bigint_laws ref_valid_coin_laws this] show ?thesis by simp
qed

end
