(* ===== verification/Bank.thy ===== *)
theory Bank
  imports Abi
begin

text \<open>
  The bank keeper, \<open>src/x/bank\<close>: the SDK's bank extended to ERC20 and CW20 tokens.  A
  denomination \<open>xerc20:<contract>\<close> or \<open>xcw20:<contract>\<close> is routed to a call of that contract,
  every other one to the SDK's keeper.

  The EVM, the wasm module and the SDK's keeper are parameters.  The messages exchanged with
  CW20 contracts are JSON; they are modelled as JSON values, with the field matching and the
  type checks of \<open>encoding/json\<close>, and not as the bytes of their text.
\<close>

section \<open>Denominations\<close>

definition ERC20 :: string where "ERC20 = ''xerc20''"
definition CW20 :: string where "CW20 = ''xcw20''"
definition TYPE_SEPARATOR :: char where "TYPE_SEPARATOR = CHR '':''"

datatype TokenType = Cosmos | Erc20 | Cw20

definition NewCw20Coin :: "CoinOps \<Rightarrow> string \<Rightarrow> int \<Rightarrow> Coin outcome" where
  "NewCw20Coin co contractAddress amount = NewCoin co (CW20 @ TYPE_SEPARATOR # contractAddress) amount"

definition NewErc20Coin :: "CoinOps \<Rightarrow> string \<Rightarrow> int \<Rightarrow> Coin outcome" where
  "NewErc20Coin co contractAddress amount = NewCoin co (ERC20 @ TYPE_SEPARATOR # contractAddress) amount"

definition ParseDenom :: "string \<Rightarrow> TokenType \<times> string" where
  "ParseDenom denom = (let res = split_on TYPE_SEPARATOR denom in
     if length res = 2 then
       if has_prefix denom ERC20 then (Erc20, res ! 1)
       else if has_prefix denom CW20 then (Cw20, res ! 1)
       else (Cosmos, denom)
     else (Cosmos, denom))"

section \<open>JSON\<close>

text \<open>A number is kept as its integer value, when it is written as one.\<close>

datatype json =
    JNull
  | JBool bool
  | JNum "int option"
  | JStr string
  | JArr "json list"
  | JObj "(string \<times> json) list"

definition ascii_lower :: "char \<Rightarrow> char" where
  "ascii_lower ch = (let n = of_char ch :: nat in if 65 \<le> n \<and> n \<le> 90 then char_of (n + 32) else ch)"

text \<open>Keys match field names up to case; \<open>null\<close> leaves the field; another type is an error.\<close>

definition key_is :: "string \<Rightarrow> string \<Rightarrow> bool" where
  "key_is name key \<longleftrightarrow> map ascii_lower key = map ascii_lower name"

fun unmarshal_string :: "json \<Rightarrow> string \<Rightarrow> string outcome" where
  "unmarshal_string JNull old = Ok old"
| "unmarshal_string (JStr s) old = Ok s"
| "unmarshal_string _ old = Err (Error ''json: cannot unmarshal into string'')"

fun unmarshal_int :: "json \<Rightarrow> int \<Rightarrow> int outcome" where
  "unmarshal_int JNull old = Ok old"
| "unmarshal_int (JNum (Some n)) old =
     (if - (2 ^ 63) \<le> n \<and> n < 2 ^ 63 then Ok n else Err (Error ''json: cannot unmarshal into int''))"
| "unmarshal_int _ old = Err (Error ''json: cannot unmarshal into int'')"

record TokenInfoResponse =
  ti_Decimals :: int
  ti_Name :: string
  ti_Symbol :: string
  ti_TotalSupply :: string

definition token_info_field :: "string \<times> json \<Rightarrow> TokenInfoResponse \<Rightarrow> TokenInfoResponse outcome" where
  "token_info_field f r =
     (if key_is ''decimals'' (fst f) then bindO (unmarshal_int (snd f) (ti_Decimals r)) (\<lambda>v. Ok (r\<lparr>ti_Decimals := v\<rparr>))
      else if key_is ''name'' (fst f) then bindO (unmarshal_string (snd f) (ti_Name r)) (\<lambda>v. Ok (r\<lparr>ti_Name := v\<rparr>))
      else if key_is ''symbol'' (fst f) then bindO (unmarshal_string (snd f) (ti_Symbol r)) (\<lambda>v. Ok (r\<lparr>ti_Symbol := v\<rparr>))
      else if key_is ''total_supply'' (fst f) then
        bindO (unmarshal_string (snd f) (ti_TotalSupply r)) (\<lambda>v. Ok (r\<lparr>ti_TotalSupply := v\<rparr>))
      else Ok r)"

fun unmarshal_token_info :: "json option \<Rightarrow> TokenInfoResponse outcome" where
  "unmarshal_token_info (Some (JObj fs)) = foldO token_info_field fs
     \<lparr>ti_Decimals = 0, ti_Name = [], ti_Symbol = [], ti_TotalSupply = []\<rparr>"
| "unmarshal_token_info (Some JNull) = Ok \<lparr>ti_Decimals = 0, ti_Name = [], ti_Symbol = [], ti_TotalSupply = []\<rparr>"
| "unmarshal_token_info _ = Err (Error ''json: cannot unmarshal into TokenInfoResponse'')"

definition balance_field :: "string \<times> json \<Rightarrow> string \<Rightarrow> string outcome" where
  "balance_field f b = (if key_is ''balance'' (fst f) then unmarshal_string (snd f) b else Ok b)"

text \<open>\<open>BalanceResponse\<close> has the one field \<open>Balance\<close>.\<close>

fun unmarshal_balance :: "json option \<Rightarrow> string outcome" where
  "unmarshal_balance (Some (JObj fs)) = foldO balance_field fs []"
| "unmarshal_balance (Some JNull) = Ok []"
| "unmarshal_balance _ = Err (Error ''json: cannot unmarshal into BalanceResponse'')"

section \<open>Keepers\<close>

record QueryMsg_Balance =
  qb_Address :: string

record ExecuteMsg_Transfer =
  et_Amount :: string
  et_Recipient :: string

record MsgExecuteContract =
  ec_Sender :: string
  ec_Contract :: string
  ec_Msg :: json
  ec_Funds :: Coins

text \<open>
  \<open>bb_*\<close> is the SDK's keeper, \<open>ba_*\<close> the account keeper.  \<open>CallEVM\<close> includes the fresh
  state database it is given: caller, contract, whether to commit, method and arguments; it
  returns the call's return data.  \<open>QuerySmart\<close> answers with a JSON value, or \<open>None\<close> when the
  answer is not JSON.
\<close>

record 'x BankKeeper =
  bb_GetBalance :: "AccAddress \<Rightarrow> string \<Rightarrow> ('x, Coin) M"
  bb_GetSupply :: "string \<Rightarrow> ('x, Coin) M"
  bb_SendCoins :: "AccAddress \<Rightarrow> AccAddress \<Rightarrow> Coins \<Rightarrow> ('x, unit) M"
  bb_IsSendEnabledCoins :: "Coins \<Rightarrow> ('x, unit) M"
  bb_LockedCoins :: "AccAddress \<Rightarrow> ('x, Coins) M"
  bb_BlockedAddr :: "AccAddress \<Rightarrow> bool"
  bb_InputOutputCoins :: "string \<times> Coins \<Rightarrow> (string \<times> Coins) list \<Rightarrow> ('x, unit) M"
  bb_ValidateInputOutputs :: "string \<times> Coins \<Rightarrow> (string \<times> Coins) list \<Rightarrow> unit outcome"
  ba_GetModuleAccount :: "string \<Rightarrow> ('x, AccAddress) M"
  ba_StringToBytes :: "string \<Rightarrow> AccAddress outcome"
  ek_CallEVM :: "bytes \<Rightarrow> bytes \<Rightarrow> bool \<Rightarrow> string \<Rightarrow> AbiValue list \<Rightarrow> ('x, bytes) M"
  wk_QuerySmart :: "AccAddress \<Rightarrow> json \<Rightarrow> ('x, json option) M"
  wm_ExecuteContract :: "MsgExecuteContract \<Rightarrow> ('x, bytes) M"
  bn_bech32 :: Bech32
  bn_coins :: CoinOps
  bn_evm :: EvmFns
  Int_String :: "int \<Rightarrow> string"
  NewIntFromString :: "string \<Rightarrow> int option"
  Coin_SubAmount :: "Coin \<Rightarrow> int \<Rightarrow> Coin outcome"

subsection \<open>ERC20\<close>

definition QueryTotalSupply :: "'x BankKeeper \<Rightarrow> bytes \<Rightarrow> ('x, int) M" where
  "QueryTotalSupply k contractAddress =
     bindM (ba_GetModuleAccount k ''bank'') (\<lambda>ma.
     bindM (ek_CallEVM k (BytesToAddress (bn_evm k) ma) contractAddress False ''totalSupply'' []) (\<lambda>res.
     bindM (liftO (ABI_Unpack (bn_evm k) ''totalSupply'' res)) (\<lambda>unpacked.
     case unpacked of
       [] \<Rightarrow> ret 0
     | AbiInt n # _ \<Rightarrow> liftO (NewIntFromBigInt (bn_evm k) n)
     | _ \<Rightarrow> throw ErrErc20TotalSupply)))"

definition QueryBalanceOf :: "'x BankKeeper \<Rightarrow> bytes \<Rightarrow> AccAddress \<Rightarrow> ('x, int) M" where
  "QueryBalanceOf k contractAddress account =
     bindM (ba_GetModuleAccount k ''bank'') (\<lambda>ma.
     bindM (ek_CallEVM k (BytesToAddress (bn_evm k) ma) contractAddress False ''balanceOf''
             [AbiAddress (BytesToAddress (bn_evm k) account)]) (\<lambda>res.
     bindM (liftO (ABI_Unpack (bn_evm k) ''balanceOf'' res)) (\<lambda>unpacked.
     case unpacked of
       [] \<Rightarrow> ret 0
     | AbiInt n # _ \<Rightarrow> liftO (NewIntFromBigInt (bn_evm k) n)
     | _ \<Rightarrow> throw ErrErc20Balance)))"

definition Erc20_ExecuteTransfer ::
    "'x BankKeeper \<Rightarrow> bytes \<Rightarrow> AccAddress \<Rightarrow> AccAddress \<Rightarrow> int \<Rightarrow> ('x, unit) M" where
  "Erc20_ExecuteTransfer k contractAddress sender to amount =
     bindM (ek_CallEVM k (BytesToAddress (bn_evm k) sender) contractAddress True ''transfer''
             [AbiAddress (BytesToAddress (bn_evm k) to), AbiInt amount]) (\<lambda>res.
     bindM (liftO (ABI_Unpack (bn_evm k) ''transfer'' res)) (\<lambda>unpacked.
     case unpacked of
       [] \<Rightarrow> throw ErrErc20Transfer
     | AbiBool b # _ \<Rightarrow> if b then ret () else throw ErrErc20Transfer
     | _ \<Rightarrow> panic ''interface conversion''))"

definition Erc20_GetSupply :: "'x BankKeeper \<Rightarrow> string \<Rightarrow> ('x, Coin) M" where
  "Erc20_GetSupply k contractAddress =
     bindM (attempt (QueryTotalSupply k (HexToAddress (bn_evm k) contractAddress))) (\<lambda>r. case r of
       Inl _ \<Rightarrow> liftO (NewErc20Coin (bn_coins k) contractAddress 0)
     | Inr totalSupply \<Rightarrow> liftO (NewErc20Coin (bn_coins k) contractAddress totalSupply))"

definition erc20_send_one :: "'x BankKeeper \<Rightarrow> AccAddress \<Rightarrow> AccAddress \<Rightarrow> Coin \<Rightarrow> ('x, unit) M" where
  "erc20_send_one k fromAddr toAddr coin = (case ParseDenom (Denom coin) of
      (Erc20, address) \<Rightarrow> Erc20_ExecuteTransfer k (HexToAddress (bn_evm k) address) fromAddr toAddr (Amount coin)
    | _ \<Rightarrow> throw ErrInvalidCoins)"

definition Erc20_SendCoins :: "'x BankKeeper \<Rightarrow> AccAddress \<Rightarrow> AccAddress \<Rightarrow> Coins \<Rightarrow> ('x, unit) M" where
  "Erc20_SendCoins k fromAddr toAddr amt = forM amt (erc20_send_one k fromAddr toAddr)"

definition Erc20_GetBalance :: "'x BankKeeper \<Rightarrow> AccAddress \<Rightarrow> string \<Rightarrow> ('x, Coin) M" where
  "Erc20_GetBalance k addr hexErc20Address =
     bindM (attempt (QueryBalanceOf k (HexToAddress (bn_evm k) hexErc20Address) addr)) (\<lambda>r. case r of
       Inl _ \<Rightarrow> panic ''query balance''
     | Inr amount \<Rightarrow> liftO (NewErc20Coin (bn_coins k) hexErc20Address amount))"

subsection \<open>CW20\<close>

definition QueryTokenInfo :: "'x BankKeeper \<Rightarrow> AccAddress \<Rightarrow> ('x, TokenInfoResponse) M" where
  "QueryTokenInfo k contractAddress =
     bindM (wk_QuerySmart k contractAddress (JObj [(''token_info'', JObj [])])) (\<lambda>res.
     liftO (unmarshal_token_info res))"

definition QueryBalance :: "'x BankKeeper \<Rightarrow> AccAddress \<Rightarrow> QueryMsg_Balance \<Rightarrow> ('x, string) M" where
  "QueryBalance k contractAddress req =
     bindM (wk_QuerySmart k contractAddress (JObj [(''balance'', JObj [(''address'', JStr (qb_Address req))])])) (\<lambda>res.
     liftO (unmarshal_balance res))"

definition transfer_json :: "ExecuteMsg_Transfer \<Rightarrow> json" where
  "transfer_json req = JObj [(''transfer'',
     JObj [(''amount'', JStr (et_Amount req)), (''recipient'', JStr (et_Recipient req))])]"

definition Cw20_ExecuteTransfer ::
    "'x BankKeeper \<Rightarrow> AccAddress \<Rightarrow> AccAddress \<Rightarrow> ExecuteMsg_Transfer \<Rightarrow> ('x, bytes) M" where
  "Cw20_ExecuteTransfer k sender contractAddress req =
     bindM (liftO (NewCoins (bn_coins k) [])) (\<lambda>funds.
     wm_ExecuteContract k \<lparr>ec_Sender = AccAddress_String (bn_bech32 k) sender,
       ec_Contract = AccAddress_String (bn_bech32 k) contractAddress, ec_Msg = transfer_json req, ec_Funds = funds\<rparr>)"

definition Cw20_GetSupply :: "'x BankKeeper \<Rightarrow> string \<Rightarrow> ('x, Coin) M" where
  "Cw20_GetSupply k contractAddress =
     bindM (liftO (MustAccAddressFromBech32 (bn_bech32 k) contractAddress)) (\<lambda>token.
     bindM (attempt (QueryTokenInfo k token)) (\<lambda>r. case r of
       Inl _ \<Rightarrow> liftO (NewCw20Coin (bn_coins k) contractAddress 0)
     | Inr info \<Rightarrow> (case NewIntFromString k (ti_TotalSupply info) of
           None \<Rightarrow> liftO (NewCw20Coin (bn_coins k) contractAddress 0)
         | Some n \<Rightarrow> liftO (NewCw20Coin (bn_coins k) contractAddress n))))"

definition cw20_send_one :: "'x BankKeeper \<Rightarrow> AccAddress \<Rightarrow> AccAddress \<Rightarrow> Coin \<Rightarrow> ('x, unit) M" where
  "cw20_send_one k fromAddr toAddr coin = (case ParseDenom (Denom coin) of
      (Cw20, address) \<Rightarrow>
        bindM (liftO (AccAddressFromBech32 (bn_bech32 k) address)) (\<lambda>contractAddress.
        thenM (Cw20_ExecuteTransfer k fromAddr contractAddress
          \<lparr>et_Amount = Int_String k (Amount coin), et_Recipient = AccAddress_String (bn_bech32 k) toAddr\<rparr>) (ret ()))
    | _ \<Rightarrow> throw ErrInvalidCoins)"

definition Cw20_SendCoins :: "'x BankKeeper \<Rightarrow> AccAddress \<Rightarrow> AccAddress \<Rightarrow> Coins \<Rightarrow> ('x, unit) M" where
  "Cw20_SendCoins k fromAddr toAddr amt = forM amt (cw20_send_one k fromAddr toAddr)"

definition Cw20_GetBalance :: "'x BankKeeper \<Rightarrow> AccAddress \<Rightarrow> string \<Rightarrow> ('x, Coin) M" where
  "Cw20_GetBalance k addr cw20Address =
     bindM (liftO (MustAccAddressFromBech32 (bn_bech32 k) cw20Address)) (\<lambda>contractAddress.
     bindM (attempt (QueryBalance k contractAddress \<lparr>qb_Address = AccAddress_String (bn_bech32 k) addr\<rparr>)) (\<lambda>r. case r of
       Inl _ \<Rightarrow> liftO (NewCw20Coin (bn_coins k) cw20Address 0)
     | Inr b \<Rightarrow> (case NewIntFromString k b of
           None \<Rightarrow> liftO (NewCw20Coin (bn_coins k) cw20Address 0)
         | Some n \<Rightarrow> liftO (NewCw20Coin (bn_coins k) cw20Address n))))"

subsection \<open>The bank keeper\<close>

definition Bank_GetBalance :: "'x BankKeeper \<Rightarrow> AccAddress \<Rightarrow> string \<Rightarrow> ('x, Coin) M" where
  "Bank_GetBalance k addr denom = (case ParseDenom denom of
      (Erc20, address) \<Rightarrow> Erc20_GetBalance k addr address
    | (Cw20, address) \<Rightarrow> Cw20_GetBalance k addr address
    | (Cosmos, _) \<Rightarrow> bb_GetBalance k addr denom)"

definition Bank_GetSupply :: "'x BankKeeper \<Rightarrow> string \<Rightarrow> ('x, Coin) M" where
  "Bank_GetSupply k denom = (case ParseDenom denom of
      (Erc20, address) \<Rightarrow> Erc20_GetSupply k address
    | (Cw20, address) \<Rightarrow> Cw20_GetSupply k address
    | (Cosmos, _) \<Rightarrow> bb_GetSupply k denom)"

definition coins_of_type :: "TokenType \<Rightarrow> Coins \<Rightarrow> Coins" where
  "coins_of_type t amt = filter (\<lambda>c. fst (ParseDenom (Denom c)) = t) amt"

text \<open>The loop sorts the coins into three lists by appending; the empty \<open>NewCoins()\<close> cannot fail.\<close>

definition SendCoins :: "'x BankKeeper \<Rightarrow> AccAddress \<Rightarrow> AccAddress \<Rightarrow> Coins \<Rightarrow> ('x, unit) M" where
  "SendCoins k fromAddr toAddr amt =
     (let evmCoins = coins_of_type Erc20 amt; cw20Coins = coins_of_type Cw20 amt;
          cosmosCoins = coins_of_type Cosmos amt in
      thenM (Erc20_SendCoins k fromAddr toAddr evmCoins) (
      thenM (Cw20_SendCoins k fromAddr toAddr cw20Coins) (
      bb_SendCoins k fromAddr toAddr cosmosCoins)))"

definition IsSendEnabledCoins :: "'x BankKeeper \<Rightarrow> Coins \<Rightarrow> ('x, unit) M" where
  "IsSendEnabledCoins k coins = bb_IsSendEnabledCoins k (coins_of_type Cosmos coins)"

definition SpendableCoin :: "'x BankKeeper \<Rightarrow> AccAddress \<Rightarrow> string \<Rightarrow> ('x, Coin) M" where
  "SpendableCoin k addr denom =
     bindM (Bank_GetBalance k addr denom) (\<lambda>balance.
     bindM (bb_LockedCoins k addr) (\<lambda>locked.
     liftO (Coin_SubAmount k balance (Coins_AmountOf (bn_coins k) locked denom))))"

section \<open>Messages and queries\<close>

record MsgSend =
  ms_FromAddress :: string
  ms_ToAddress :: string
  ms_Amount :: Coins

record MsgMultiSend =
  mm_Inputs :: "(string \<times> Coins) list"
  mm_Outputs :: "(string \<times> Coins) list"

definition address_or :: "error \<Rightarrow> 'a outcome \<Rightarrow> 'a outcome" where
  "address_or e r = (case r of Err _ \<Rightarrow> Err e | _ \<Rightarrow> r)"

definition Send :: "'x BankKeeper \<Rightarrow> MsgSend \<Rightarrow> ('x, unit) M" where
  "Send k msg =
     bindM (liftO (address_or ErrInvalidAddress (ba_StringToBytes k (ms_FromAddress msg)))) (\<lambda>src.
     bindM (liftO (address_or ErrInvalidAddress (ba_StringToBytes k (ms_ToAddress msg)))) (\<lambda>dst.
     thenM (guardM (Coins_IsValid (bn_coins k) (ms_Amount msg)) ErrInvalidCoins) (
     thenM (guardM (Coins_IsAllPositive (bn_coins k) (ms_Amount msg)) ErrInvalidCoins) (
     thenM (IsSendEnabledCoins k (ms_Amount msg)) (
     thenM (guardM (\<not> bb_BlockedAddr k dst) ErrUnauthorized) (
     SendCoins k src dst (ms_Amount msg)))))))"

definition MultiSend :: "'x BankKeeper \<Rightarrow> MsgMultiSend \<Rightarrow> ('x, unit) M" where
  "MultiSend k msg =
     thenM (guardM (mm_Inputs msg \<noteq> []) ErrNoInputs) (
     thenM (guardM (length (mm_Inputs msg) = 1) ErrMultipleSenders) (
     thenM (guardM (mm_Outputs msg \<noteq> []) ErrNoOutputs) (
     thenM (liftO (bb_ValidateInputOutputs k (hd (mm_Inputs msg)) (mm_Outputs msg))) (
     thenM (forM (mm_Inputs msg) (\<lambda>i. IsSendEnabledCoins k (snd i))) (
     thenM (forM (mm_Outputs msg) (\<lambda>out.
       bindM (liftO (ba_StringToBytes k (fst out))) (\<lambda>accAddr.
       guardM (\<not> bb_BlockedAddr k accAddr) ErrUnauthorized))) (
     bb_InputOutputCoins k (hd (mm_Inputs msg)) (mm_Outputs msg)))))))"

record QueryBalanceRequest =
  qr_Address :: string
  qr_Denom :: string

definition Query_Balance :: "'x BankKeeper \<Rightarrow> QueryBalanceRequest option \<Rightarrow> ('x, Coin) M" where
  "Query_Balance k req = (case req of
      None \<Rightarrow> throw (ErrInvalidArgument ''empty request'')
    | Some r \<Rightarrow>
        thenM (liftO (address_or (ErrInvalidArgument ''denom'') (ValidateDenom (bn_coins k) (qr_Denom r)))) (
        bindM (liftO (address_or (ErrInvalidArgument ''invalid address'') (AccAddressFromBech32 (bn_bech32 k) (qr_Address r)))) (\<lambda>a.
        Bank_GetBalance k a (qr_Denom r))))"

definition SpendableBalanceByDenom :: "'x BankKeeper \<Rightarrow> QueryBalanceRequest option \<Rightarrow> ('x, Coin) M" where
  "SpendableBalanceByDenom k req = (case req of
      None \<Rightarrow> throw (ErrInvalidArgument ''empty request'')
    | Some r \<Rightarrow>
        bindM (liftO (address_or (ErrInvalidArgument ''invalid address'') (ba_StringToBytes k (qr_Address r)))) (\<lambda>a.
        thenM (liftO (address_or (ErrInvalidArgument ''denom'') (ValidateDenom (bn_coins k) (qr_Denom r)))) (
        SpendableCoin k a (qr_Denom r))))"

definition SupplyOf :: "'x BankKeeper \<Rightarrow> string option \<Rightarrow> ('x, Coin) M" where
  "SupplyOf k req = (case req of
      None \<Rightarrow> throw (ErrInvalidArgument ''empty request'')
    | Some denom \<Rightarrow>
        thenM (liftO (address_or (ErrInvalidArgument ''denom'') (ValidateDenom (bn_coins k) denom))) (
        bindM (Bank_GetSupply k denom) (\<lambda>supply.
        liftO (NewCoin (bn_coins k) denom (Amount supply)))))"

section \<open>Specification: one ledger\<close>

text \<open>
  Seen from outside, the keeper is one ledger \<open>L\<close> from tokens and holders to amounts.  ERC20
  contracts know holders by their 20-byte form.
\<close>

datatype Token = NativeToken string | Erc20Token bytes | Cw20Token bytes

definition token_of :: "'x BankKeeper \<Rightarrow> string \<Rightarrow> Token option" where
  "token_of k d = (case ParseDenom d of
      (Erc20, a) \<Rightarrow> Some (Erc20Token (HexToAddress (bn_evm k) a))
    | (Cw20, a) \<Rightarrow> (case AccAddressFromBech32 (bn_bech32 k) a of Ok c \<Rightarrow> Some (Cw20Token c) | _ \<Rightarrow> None)
    | (Cosmos, _) \<Rightarrow> Some (NativeToken d))"

definition holder :: "'x BankKeeper \<Rightarrow> Token \<Rightarrow> AccAddress \<Rightarrow> bytes" where
  "holder k t a = (case t of Erc20Token _ \<Rightarrow> BytesToAddress (bn_evm k) a | _ \<Rightarrow> a)"

definition token_amount :: "'x BankKeeper \<Rightarrow> Token \<Rightarrow> Coins \<Rightarrow> int" where
  "token_amount k t amt = sum_list (map Amount (filter (\<lambda>c. token_of k (Denom c) = Some t) amt))"

type_synonym ledger = "Token \<Rightarrow> bytes \<Rightarrow> int"

definition move :: "Token \<Rightarrow> bytes \<Rightarrow> bytes \<Rightarrow> int \<Rightarrow> ledger \<Rightarrow> ledger" where
  "move t f g n L = (\<lambda>t' a. L t' a + (if t' = t \<and> a = g then n else 0) - (if t' = t \<and> a = f then n else 0))"

text \<open>
  What the backends promise: a successful ERC20 transfer, and a successful CW20 transfer with no
  funds attached (what \<open>NewCoins()\<close> returns), moves the amount in that contract's ledger, a successful \<open>SendCoins\<close> of the SDK's keeper moves each coin, and none of
  them changes anything else.
\<close>

definition ledger_laws :: "'x BankKeeper \<Rightarrow> ('x \<Rightarrow> ledger) \<Rightarrow> bool" where
  "ledger_laws k L \<longleftrightarrow>
     (\<forall>f g c n x y r vs. ek_CallEVM k f c True ''transfer'' [AbiAddress g, AbiInt n] x = (Ok r, y) \<longrightarrow>
        ABI_Unpack (bn_evm k) ''transfer'' r = Ok (AbiBool True # vs) \<longrightarrow> L y = move (Erc20Token c) f g n (L x)) \<and>
     (\<forall>f g c n fs x y r. NewCoins (bn_coins k) [] = Ok fs \<longrightarrow> wm_ExecuteContract k
          \<lparr>ec_Sender = AccAddress_String (bn_bech32 k) f, ec_Contract = AccAddress_String (bn_bech32 k) c,
           ec_Msg = transfer_json \<lparr>et_Amount = Int_String k n, et_Recipient = AccAddress_String (bn_bech32 k) g\<rparr>,
           ec_Funds = fs\<rparr> x = (Ok r, y) \<longrightarrow> L y = move (Cw20Token c) f g n (L x)) \<and>
     (\<forall>f g cs x y. bb_SendCoins k f g cs x = (Ok (), y) \<longrightarrow>
        L y = fold (\<lambda>c. move (NativeToken (Denom c)) f g (Amount c)) cs (L x))"

text \<open>
  What they promise about reading in the state \<open>x\<close>: the answers are the ledger's, amounts
  survive their decimal form, and nothing changes.
\<close>

definition view_laws :: "'x BankKeeper \<Rightarrow> ('x \<Rightarrow> ledger) \<Rightarrow> 'x \<Rightarrow> bool" where
  "view_laws k L x \<longleftrightarrow>
     (\<exists>ma. ba_GetModuleAccount k ''bank'' x = (Ok ma, x)) \<and>
     (\<forall>f c h. \<exists>r. ek_CallEVM k f c False ''balanceOf'' [AbiAddress h] x = (Ok r, x) \<and>
        ABI_Unpack (bn_evm k) ''balanceOf'' r = Ok [AbiInt (L x (Erc20Token c) h)]) \<and>
     (\<forall>t h. 0 \<le> L x t h \<and> NewIntFromBigInt (bn_evm k) (L x t h) = Ok (L x t h) \<and>
        NewIntFromString k (Int_String k (L x t h)) = Some (L x t h)) \<and>
     (\<forall>c a. AccAddressFromBech32 (bn_bech32 k) (AccAddress_String (bn_bech32 k) a) = Ok a \<longrightarrow>
        wk_QuerySmart k c (JObj [(''balance'', JObj [(''address'', JStr (AccAddress_String (bn_bech32 k) a))])]) x =
        (Ok (Some (JObj [(''balance'', JStr (Int_String k (L x (Cw20Token c) a)))])), x)) \<and>
     (\<forall>a d. bb_GetBalance k a d x = (Ok \<lparr>Denom = d, Amount = L x (NativeToken d) a\<rparr>, x))"

text \<open>The denomination the answer to a query about \<open>d\<close> carries.\<close>

definition answer_denom :: "string \<Rightarrow> string" where
  "answer_denom d = (case ParseDenom d of
      (Erc20, a) \<Rightarrow> ERC20 @ TYPE_SEPARATOR # a
    | (Cw20, a) \<Rightarrow> CW20 @ TYPE_SEPARATOR # a
    | (Cosmos, _) \<Rightarrow> d)"

text \<open>The effect of one coin on the ledger.\<close>

definition coin_move :: "'x BankKeeper \<Rightarrow> AccAddress \<Rightarrow> AccAddress \<Rightarrow> Coin \<Rightarrow> ledger \<Rightarrow> ledger" where
  "coin_move k f g c L = (\<lambda>t a. if token_of k (Denom c) = Some t
     then L t a + (if a = holder k t g then Amount c else 0) - (if a = holder k t f then Amount c else 0) else L t a)"

section \<open>A reference keeper\<close>

text \<open>A keeper over a ledger; amounts are written in unary.\<close>

definition ref_int_string :: "int \<Rightarrow> string" where
  "ref_int_string n = (if n < 0 then CHR ''-'' # replicate (nat (- n)) CHR ''1'' else replicate (nat n) CHR ''1'')"

definition ref_int_parse :: "string \<Rightarrow> int option" where
  "ref_int_parse s = (case s of c # cs \<Rightarrow> if c = CHR ''-'' then Some (- int (length cs)) else Some (int (length s))
     | [] \<Rightarrow> Some 0)"

definition ref_call :: "bytes \<Rightarrow> bytes \<Rightarrow> bool \<Rightarrow> string \<Rightarrow> AbiValue list \<Rightarrow> (ledger, bytes) M" where
  "ref_call f c commit m args = (case args of
      [AbiAddress g, AbiInt n] \<Rightarrow> if commit \<and> m = ''transfer'' then
          (\<lambda>L. (Ok [1], move (Erc20Token c) f g n L)) else throw ErrNotFound
    | [AbiAddress h] \<Rightarrow> getsM (\<lambda>L. [word_of_int (L (Erc20Token c) h)])
    | _ \<Rightarrow> throw ErrNotFound)"

definition ref_execute :: "MsgExecuteContract \<Rightarrow> (ledger, bytes) M" where
  "ref_execute m = (case (ref_parse (ec_Sender m), ref_parse (ec_Contract m), ec_Msg m) of
      (Ok f, Ok c, JObj [(_, JObj [(_, JStr amount), (_, JStr recipient)])]) \<Rightarrow>
        (case (ref_parse recipient, ref_int_parse amount) of
            (Ok g, Some n) \<Rightarrow> (\<lambda>L. (Ok [], move (Cw20Token c) f g n L))
          | _ \<Rightarrow> throw ErrNotFound)
    | _ \<Rightarrow> throw ErrNotFound)"

definition ref_query :: "AccAddress \<Rightarrow> json \<Rightarrow> (ledger, json option) M" where
  "ref_query c q = (case q of
      JObj [(_, JObj [(_, JStr s)])] \<Rightarrow> (case ref_parse s of
          Ok a \<Rightarrow> getsM (\<lambda>L. Some (JObj [(''balance'', JStr (ref_int_string (L (Cw20Token c) a)))]))
        | _ \<Rightarrow> throw ErrNotFound)
    | _ \<Rightarrow> throw ErrNotFound)"

definition ref_bank :: "ledger BankKeeper" where
  "ref_bank = \<lparr>bb_GetBalance = (\<lambda>a d. getsM (\<lambda>L. \<lparr>Denom = d, Amount = L (NativeToken d) a\<rparr>)),
     bb_GetSupply = (\<lambda>d. ret \<lparr>Denom = d, Amount = 0\<rparr>),
     bb_SendCoins = (\<lambda>f g cs. modifyM (fold (\<lambda>c. move (NativeToken (Denom c)) f g (Amount c)) cs)),
     bb_IsSendEnabledCoins = (\<lambda>_. ret ()), bb_LockedCoins = (\<lambda>_. ret []), bb_BlockedAddr = (\<lambda>a. a = [98]),
     bb_InputOutputCoins = (\<lambda>_ _. ret ()), bb_ValidateInputOutputs = (\<lambda>_ _. Ok ()),
     ba_GetModuleAccount = (\<lambda>_. ret [1]), ba_StringToBytes = ref_parse, ek_CallEVM = ref_call,
     wk_QuerySmart = ref_query, wm_ExecuteContract = ref_execute, bn_bech32 = ref_bech32,
     bn_coins = ref_coins, bn_evm = ref_evm, Int_String = ref_int_string, NewIntFromString = ref_int_parse,
     Coin_SubAmount = (\<lambda>c n. if n \<le> Amount c then Ok (c\<lparr>Amount := Amount c - n\<rparr>) else Panic ''negative'')\<rparr>"

section \<open>Denominations\<close>

lemma split_on_length_2:
  "length (split_on c d) = 2 \<longleftrightarrow> (\<exists>p a. d = p @ c # a \<and> c \<notin> set p \<and> c \<notin> set a)"
proof
  assume l: "length (split_on c d) = 2"
  then obtain p a where pa: "split_on c d = [p, a]" by (auto simp: numeral_2_eq_2 length_Suc_conv)
  then have "c # p @ c # a = c # d" using split_on_join [of c d] by simp
  moreover have "c \<notin> set p" "c \<notin> set a" using split_on_clean [of _ c d] pa by auto
  ultimately show "\<exists>p a. d = p @ c # a \<and> c \<notin> set p \<and> c \<notin> set a" by auto
next
  assume "\<exists>p a. d = p @ c # a \<and> c \<notin> set p \<and> c \<notin> set a"
  then show "length (split_on c d) = 2" by (auto simp: split_on_append split_on_absent)
qed

lemma parse_two: "c \<notin> set p \<Longrightarrow> c \<notin> set a \<Longrightarrow> split_on c (p @ c # a) = [p, a]"
  by (simp add: split_on_append split_on_absent)

text \<open>A prefix without separator is a prefix of the first part.\<close>

lemma has_prefix_first:
  assumes "c \<notin> set q"
  shows "has_prefix (p @ c # a) q \<longleftrightarrow> has_prefix p q"
  using assms
proof (induction p q rule: has_prefix.induct)
  case (2 y ys)
  then show ?case by auto
qed auto

lemma sep_free [simp]: "TYPE_SEPARATOR \<notin> set ERC20" "TYPE_SEPARATOR \<notin> set CW20"
  by (simp_all add: TYPE_SEPARATOR_def ERC20_def CW20_def)

lemma ParseDenom_parts:
  "TYPE_SEPARATOR \<notin> set p \<Longrightarrow> TYPE_SEPARATOR \<notin> set a \<Longrightarrow> ParseDenom (p @ TYPE_SEPARATOR # a) =
    (if has_prefix p ERC20 then (Erc20, a) else if has_prefix p CW20 then (Cw20, a)
     else (Cosmos, p @ TYPE_SEPARATOR # a))"
  by (simp add: ParseDenom_def Let_def parse_two has_prefix_first)

lemma ParseDenom_other:
  "length (split_on TYPE_SEPARATOR d) \<noteq> 2 \<Longrightarrow> ParseDenom d = (Cosmos, d)"
  by (simp add: ParseDenom_def Let_def)

lemma prefixes_differ: "has_prefix p CW20 \<Longrightarrow> \<not> has_prefix p ERC20"
  by (auto simp: has_prefix_iff ERC20_def CW20_def)

section \<open>Sending\<close>

lemma fold_coin_move:
  "fold (coin_move k f g) cs L t a = L t a +
     (if a = holder k t g then token_amount k t cs else 0) - (if a = holder k t f then token_amount k t cs else 0)"
  by (induction cs arbitrary: L) (auto simp: coin_move_def token_amount_def)

lemma move_as_coin_move:
  assumes "token_of k (Denom c) = Some t"
  shows "move t (holder k t f) (holder k t g) (Amount c) L = coin_move k f g c L"
  using assms by (auto simp: move_def coin_move_def fun_eq_iff)

lemma forM_ledger:
  assumes "\<And>c x y. c \<in> set cs \<Longrightarrow> h c x = (Ok (), y) \<Longrightarrow> L y = coin_move k f g c (L x)"
    and "forM cs h x = (Ok (), y)"
  shows "L y = fold (coin_move k f g) cs (L x)"
  using assms
proof (induction cs arbitrary: x)
  case (Cons c cs)
  then obtain z where z: "h c x = (Ok (), z)" "forM cs h z = (Ok (), y)" by auto
  have "L z = coin_move k f g c (L x)" using Cons.prems(1) [OF _ z(1)] by simp
  moreover have "L y = fold (coin_move k f g) cs (L z)"
    by (rule Cons.IH [OF _ z(2)]) (use Cons.prems(1) in auto)
  ultimately show ?case by simp
qed simp

lemma law_erc20:
  "ledger_laws k L \<Longrightarrow> ek_CallEVM k f c True ''transfer'' [AbiAddress g, AbiInt n] x = (Ok r, y) \<Longrightarrow>
    ABI_Unpack (bn_evm k) ''transfer'' r = Ok (AbiBool True # vs) \<Longrightarrow> L y = move (Erc20Token c) f g n (L x)"
  unfolding ledger_laws_def by (elim conjE) (simp only: simp_thms)

lemma law_cw20:
  "ledger_laws k L \<Longrightarrow> NewCoins (bn_coins k) [] = Ok fs \<Longrightarrow> wm_ExecuteContract k
     \<lparr>ec_Sender = AccAddress_String (bn_bech32 k) f, ec_Contract = AccAddress_String (bn_bech32 k) c,
      ec_Msg = transfer_json \<lparr>et_Amount = Int_String k n, et_Recipient = AccAddress_String (bn_bech32 k) g\<rparr>,
      ec_Funds = fs\<rparr> x = (Ok r, y) \<Longrightarrow> L y = move (Cw20Token c) f g n (L x)"
  unfolding ledger_laws_def by (elim conjE) (simp only: simp_thms)

lemma law_native:
  "ledger_laws k L \<Longrightarrow> bb_SendCoins k f g cs x = (Ok (), y) \<Longrightarrow>
    L y = fold (\<lambda>c. move (NativeToken (Denom c)) f g (Amount c)) cs (L x)"
  unfolding ledger_laws_def by (elim conjE) (simp only: simp_thms)

lemma erc20_send_one_ledger:
  assumes "ledger_laws k L" "erc20_send_one k f g c x = (Ok (), y)"
  shows "L y = coin_move k f g c (L x)"
proof -
  from assms(2) obtain a where a: "ParseDenom (Denom c) = (Erc20, a)"
      and run: "Erc20_ExecuteTransfer k (HexToAddress (bn_evm k) a) f g (Amount c) x = (Ok (), y)"
    by (auto simp: erc20_send_one_def split: prod.splits TokenType.splits)
  then obtain r vs where "ek_CallEVM k (BytesToAddress (bn_evm k) f) (HexToAddress (bn_evm k) a) True ''transfer''
      [AbiAddress (BytesToAddress (bn_evm k) g), AbiInt (Amount c)] x = (Ok r, y)"
      "ABI_Unpack (bn_evm k) ''transfer'' r = Ok (AbiBool True # vs)"
    by (auto simp: Erc20_ExecuteTransfer_def split: list.splits AbiValue.splits if_splits)
  from law_erc20 [OF assms(1) this] move_as_coin_move [of k c "Erc20Token (HexToAddress (bn_evm k) a)" f g "L x"] a
  show ?thesis by (simp add: token_of_def holder_def)
qed

lemma cw20_send_one_ledger:
  assumes "ledger_laws k L" "cw20_send_one k f g c x = (Ok (), y)"
  shows "L y = coin_move k f g c (L x)"
proof -
  from assms(2) obtain a ca r where a: "ParseDenom (Denom c) = (Cw20, a)" "AccAddressFromBech32 (bn_bech32 k) a = Ok ca"
      and run: "Cw20_ExecuteTransfer k f ca \<lparr>et_Amount = Int_String k (Amount c),
        et_Recipient = AccAddress_String (bn_bech32 k) g\<rparr> x = (Ok r, y)"
    by (auto simp: cw20_send_one_def thenM_eq_Ok split: prod.splits TokenType.splits)
  from run obtain fs where funds: "NewCoins (bn_coins k) [] = Ok fs" and "wm_ExecuteContract k
     \<lparr>ec_Sender = AccAddress_String (bn_bech32 k) f, ec_Contract = AccAddress_String (bn_bech32 k) ca,
      ec_Msg = transfer_json \<lparr>et_Amount = Int_String k (Amount c), et_Recipient = AccAddress_String (bn_bech32 k) g\<rparr>,
      ec_Funds = fs\<rparr> x = (Ok r, y)" by (auto simp: Cw20_ExecuteTransfer_def)
  from law_cw20 [OF assms(1) funds this(2)] move_as_coin_move [of k c "Cw20Token ca" f g "L x"] a
  show ?thesis by (simp add: token_of_def holder_def)
qed

lemma native_send_ledger:
  assumes "ledger_laws k L" "bb_SendCoins k f g cs x = (Ok (), y)"
    and "\<forall>c \<in> set cs. fst (ParseDenom (Denom c)) = Cosmos"
  shows "L y = fold (coin_move k f g) cs (L x)"
proof -
  have "move (NativeToken (Denom c)) f g (Amount c) M = coin_move k f g c M" if "c \<in> set cs" for c M
    using that assms(3) move_as_coin_move [of k c "NativeToken (Denom c)" f g M]
    by (cases "ParseDenom (Denom c)") (auto simp: token_of_def holder_def)
  then have "fold (\<lambda>c. move (NativeToken (Denom c)) f g (Amount c)) cs (L x) = fold (coin_move k f g) cs (L x)"
    by (intro fold_cong) auto
  with law_native [OF assms(1,2)] show ?thesis by simp
qed

lemma token_amount_split:
  "token_amount k t (coins_of_type Erc20 amt) + token_amount k t (coins_of_type Cw20 amt) +
    token_amount k t (coins_of_type Cosmos amt) = token_amount k t amt"
proof (induction amt)
  case (Cons c amt)
  then show ?case by (cases "fst (ParseDenom (Denom c))") (auto simp: token_amount_def coins_of_type_def)
qed (simp add: token_amount_def coins_of_type_def)

lemma SendCoins_ledger:
  assumes "ledger_laws k L" "SendCoins k f g amt x = (Ok (), y)"
  shows "L y t a = L x t a + (if a = holder k t g then token_amount k t amt else 0) -
    (if a = holder k t f then token_amount k t amt else 0)"
proof -
  from assms(2) obtain x1 x2 where e: "Erc20_SendCoins k f g (coins_of_type Erc20 amt) x = (Ok (), x1)"
      and w: "Cw20_SendCoins k f g (coins_of_type Cw20 amt) x1 = (Ok (), x2)"
      and n: "bb_SendCoins k f g (coins_of_type Cosmos amt) x2 = (Ok (), y)"
    by (auto simp: SendCoins_def Let_def thenM_eq_Ok)
  have "L x1 = fold (coin_move k f g) (coins_of_type Erc20 amt) (L x)"
    using e unfolding Erc20_SendCoins_def by (intro forM_ledger erc20_send_one_ledger [OF assms(1)])
  moreover have "L x2 = fold (coin_move k f g) (coins_of_type Cw20 amt) (L x1)"
    using w unfolding Cw20_SendCoins_def by (intro forM_ledger cw20_send_one_ledger [OF assms(1)])
  moreover have "L y = fold (coin_move k f g) (coins_of_type Cosmos amt) (L x2)"
    by (rule native_send_ledger [OF assms(1) n]) (auto simp: coins_of_type_def)
  ultimately show ?thesis using token_amount_split [of k t amt] by (simp add: fold_coin_move)
qed

section \<open>Reading balances\<close>

lemma balance_field_string [simp]: "balance_field (''balance'', JStr s) b = Ok s"
  by (simp add: balance_field_def key_is_def)

lemma Erc20_GetBalance_view:
  assumes "view_laws k L x"
  shows "Erc20_GetBalance k a h x =
    (NewErc20Coin (bn_coins k) h (L x (Erc20Token (HexToAddress (bn_evm k) h)) (BytesToAddress (bn_evm k) a)), x)"
proof -
  let ?c = "HexToAddress (bn_evm k) h"
  let ?g = "BytesToAddress (bn_evm k) a"
  from assms obtain ma where ma: "ba_GetModuleAccount k ''bank'' x = (Ok ma, x)" by (auto simp: view_laws_def)
  from assms obtain r where r: "ek_CallEVM k (BytesToAddress (bn_evm k) ma) ?c False ''balanceOf'' [AbiAddress ?g] x = (Ok r, x)"
      "ABI_Unpack (bn_evm k) ''balanceOf'' r = Ok [AbiInt (L x (Erc20Token ?c) ?g)]"
    unfolding view_laws_def by meson
  have "NewIntFromBigInt (bn_evm k) (L x (Erc20Token ?c) ?g) = Ok (L x (Erc20Token ?c) ?g)"
    using assms by (simp add: view_laws_def)
  with ma r have "QueryBalanceOf k ?c a x = (Ok (L x (Erc20Token ?c) ?g), x)"
    by (simp add: QueryBalanceOf_def bindM_Ok)
  then show ?thesis by (simp add: Erc20_GetBalance_def bindM_def attempt_Ok)
qed

lemma Cw20_GetBalance_view:
  assumes "view_laws k L x" "AccAddressFromBech32 (bn_bech32 k) (AccAddress_String (bn_bech32 k) a) = Ok a"
    and "AccAddressFromBech32 (bn_bech32 k) h = Ok c"
  shows "Cw20_GetBalance k a h x = (NewCw20Coin (bn_coins k) h (L x (Cw20Token c) a), x)"
proof -
  from assms(1,2) have "QueryBalance k c \<lparr>qb_Address = AccAddress_String (bn_bech32 k) a\<rparr> x =
      (Ok (Int_String k (L x (Cw20Token c) a)), x)"
    by (simp add: QueryBalance_def view_laws_def bindM_def)
  moreover have "MustAccAddressFromBech32 (bn_bech32 k) h = Ok c"
    by (simp only: MustAccAddress_eq_Ok assms(3))
  moreover have "NewIntFromString k (Int_String k (L x (Cw20Token c) a)) = Some (L x (Cw20Token c) a)"
    using assms(1) by (simp add: view_laws_def)
  ultimately show ?thesis
    by (simp del: MustAccAddress_eq_Ok add: Cw20_GetBalance_def bindM_def attempt_Ok)
qed

section \<open>The reference keeper meets the laws\<close>

lemma ref_int_roundtrip: "ref_int_parse (ref_int_string n) = Some n"
  by (cases "nat n") (auto simp: ref_int_parse_def ref_int_string_def)

lemma ref_parse_print_Ok: "ref_parse (ref_print a) = Ok b \<Longrightarrow> b = a"
  using ref_parse_print [of a] by (cases "a = [] \<or> 255 < length a") (auto simp: ref_parse_def ref_print_def)

lemma ref_execute_moves:
  assumes "ref_execute \<lparr>ec_Sender = ref_print f, ec_Contract = ref_print c,
      ec_Msg = transfer_json \<lparr>et_Amount = ref_int_string n, et_Recipient = ref_print g\<rparr>, ec_Funds = fs\<rparr> x = (Ok r, y)"
  shows "y = move (Cw20Token c) f g n x"
  using assms
  by (auto simp: ref_execute_def transfer_json_def ref_int_roundtrip split: outcome.splits
      dest!: ref_parse_print_Ok)

lemma ref_ledger_laws: "ledger_laws ref_bank (\<lambda>x. x)"
  unfolding ledger_laws_def
proof (intro conjI allI impI)
  fix f g c n x y r vs
  assume "ek_CallEVM ref_bank f c True ''transfer'' [AbiAddress g, AbiInt n] x = (Ok r, y)"
  then show "y = move (Erc20Token c) f g n x" by (simp add: ref_bank_def ref_call_def)
next
  fix f g c n fs x y r
  assume "wm_ExecuteContract ref_bank
      \<lparr>ec_Sender = AccAddress_String (bn_bech32 ref_bank) f, ec_Contract = AccAddress_String (bn_bech32 ref_bank) c,
       ec_Msg = transfer_json \<lparr>et_Amount = Int_String ref_bank n, et_Recipient = AccAddress_String (bn_bech32 ref_bank) g\<rparr>,
       ec_Funds = fs\<rparr> x = (Ok r, y)"
  then show "y = move (Cw20Token c) f g n x"
    by (intro ref_execute_moves [of f c n g fs x r]) (simp add: ref_bank_def ref_bech32_def)
next
  fix f g cs x y
  assume "bb_SendCoins ref_bank f g cs x = (Ok (), y)"
  then show "y = fold (\<lambda>c. move (NativeToken (Denom c)) f g (Amount c)) cs x" by (simp add: ref_bank_def)
qed

lemma ref_view_laws: "view_laws ref_bank (\<lambda>x. x) (\<lambda>_ _. 5)"
  by (auto simp: view_laws_def ref_bank_def ref_call_def ref_query_def ref_evm_def ref_bech32_def ref_int_roundtrip)

section \<open>Properties\<close>

text \<open>Denominations are routed by this rule exactly: a denomination is an ERC20 (CW20) token
  with contract \<open>a\<close> when it starts with \<open>xerc20\<close> (\<open>xcw20\<close>), contains one colon, and \<open>a\<close> is what
  follows it.  The form the constructors build parses back, and so do forms with extra text
  before the colon.\<close>

theorem parse_denom_exact:
  "(ParseDenom d = (Erc20, a) \<longleftrightarrow> (\<exists>s. d = ERC20 @ s @ TYPE_SEPARATOR # a \<and> TYPE_SEPARATOR \<notin> set s \<and> TYPE_SEPARATOR \<notin> set a)) \<and>
   (ParseDenom d = (Cw20, a) \<longleftrightarrow> (\<exists>s. d = CW20 @ s @ TYPE_SEPARATOR # a \<and> TYPE_SEPARATOR \<notin> set s \<and> TYPE_SEPARATOR \<notin> set a))"
proof (cases "length (split_on TYPE_SEPARATOR d) = 2")
  case True
  then obtain p b where d: "d = p @ TYPE_SEPARATOR # b" "TYPE_SEPARATOR \<notin> set p" "TYPE_SEPARATOR \<notin> set b"
    by (auto simp: split_on_length_2)
  have eq: "p @ TYPE_SEPARATOR # b = q @ s @ TYPE_SEPARATOR # a \<longleftrightarrow> p = q @ s \<and> b = a" for q s
    using append_Cons_eq_iff [of TYPE_SEPARATOR p b "q @ s" a] d(2,3) by simp
  show ?thesis
    using d prefixes_differ [of p] by (auto simp: ParseDenom_parts has_prefix_iff eq)
next
  case False
  moreover have "d \<noteq> q @ s @ TYPE_SEPARATOR # a"
    if "TYPE_SEPARATOR \<notin> set q" "TYPE_SEPARATOR \<notin> set s" "TYPE_SEPARATOR \<notin> set a" for q s
    using that False parse_two [of TYPE_SEPARATOR "q @ s" a] by auto
  ultimately show ?thesis using sep_free ParseDenom_other by (metis TokenType.distinct(1,3) prod.inject)
qed

text \<open>C9: Sending through the bank keeper is a transfer in one ledger: after a successful
  \<open>SendCoins\<close> of native coins, ERC20 and CW20 tokens mixed, every token's ledger has moved exactly
  the amounts of the coins that denote it, from the sender to the recipient, and nothing else
  has changed.\<close>

theorem send_moves_ledger:
  assumes "ledger_laws k L" "SendCoins k f g amt x = (Ok (), y)"
  shows "L y t a = L x t a + (if a = holder k t g then token_amount k t amt else 0) -
    (if a = holder k t f then token_amount k t amt else 0)"
  by (rule SendCoins_ledger [OF assms])

theorem send_moves_ledger_witness:
  "snd (SendCoins ref_bank [1] [2] [\<lparr>Denom = ''axpla'', Amount = 3\<rparr>, \<lparr>Denom = ''xcw20:c'', Amount = 4\<rparr>] (\<lambda>_ _. 10))
     (Cw20Token [99]) [2] = 14"
proof -
  let ?amt = "[\<lparr>Denom = ''axpla'', Amount = 3\<rparr>, \<lparr>Denom = ''xcw20:c'', Amount = 4\<rparr>] :: Coins"
  let ?y = "snd (SendCoins ref_bank [1] [2] ?amt (\<lambda>_ _. 10))"
  have run: "SendCoins ref_bank [1] [2] ?amt (\<lambda>_ _. 10) = (Ok (), ?y)" by (rule is_Ok_run) code_simp
  have "token_amount ref_bank (Cw20Token [99]) ?amt = 4" by code_simp
  with send_moves_ledger [OF ref_ledger_laws run, of "Cw20Token [99]" "[2]"] show ?thesis
    by (simp add: holder_def)
qed

text \<open>Reading a balance through the bank keeper returns the ledger's amount for the token the
  denomination denotes, without changing the state, whichever backend keeps it.  The answer
  carries the requested denomination when that has the canonical form.\<close>

theorem get_balance_reads_ledger:
  assumes "view_laws k L x" "token_of k d = Some t"
    and "AccAddressFromBech32 (bn_bech32 k) (AccAddress_String (bn_bech32 k) a) = Ok a"
    and "\<forall>n. 0 \<le> n \<longrightarrow> NewCoin (bn_coins k) (answer_denom d) n = Ok \<lparr>Denom = answer_denom d, Amount = n\<rparr>"
  shows "Bank_GetBalance k a d x = (Ok \<lparr>Denom = answer_denom d, Amount = L x t (holder k t a)\<rparr>, x)"
proof (cases "ParseDenom d")
  case (Pair ty h)
  have nn: "0 \<le> L x t b" for t b using assms(1) by (simp add: view_laws_def)
  show ?thesis
  proof (cases ty)
    case Cosmos
    with Pair assms(1,2) show ?thesis
      by (auto simp: Bank_GetBalance_def token_of_def answer_denom_def holder_def view_laws_def)
  next
    case Erc20
    with Pair assms(2,4) nn show ?thesis
      by (auto simp: Bank_GetBalance_def token_of_def answer_denom_def holder_def NewErc20Coin_def
          Erc20_GetBalance_view [OF assms(1)])
  next
    case Cw20
    then obtain c where "AccAddressFromBech32 (bn_bech32 k) h = Ok c" "t = Cw20Token c"
      using Pair assms(2) by (auto simp: token_of_def split: outcome.splits)
    with Pair Cw20 assms(4) nn show ?thesis
      by (auto simp: Bank_GetBalance_def answer_denom_def holder_def NewCw20Coin_def
          Cw20_GetBalance_view [OF assms(1,3)])
  qed
qed

theorem get_balance_reads_ledger_witness:
  "Bank_GetBalance ref_bank [2] ''xerc20foo:ab'' (\<lambda>_ _. 5) = (Ok \<lparr>Denom = ''xerc20:ab'', Amount = 5\<rparr>, (\<lambda>_ _. 5))"
proof -
  have t: "token_of ref_bank ''xerc20foo:ab'' = Some (Erc20Token (HexToAddress ref_evm ''ab''))" by code_simp
  have a: "AccAddressFromBech32 (bn_bech32 ref_bank) (AccAddress_String (bn_bech32 ref_bank) [2]) = Ok [2]" by code_simp
  have d: "answer_denom ''xerc20foo:ab'' = ''xerc20:ab''" by code_simp
  from get_balance_reads_ledger [OF ref_view_laws t a] show ?thesis
    by (simp add: d ref_bank_def ref_coins_def)
qed

end
