(* ===== verification/EthTypes.thy ===== *)
theory EthTypes
  imports Abi
begin

text \<open>
  The helper types of \<open>src/legacy/ethermint/types\<close> (bounded integers, chain identifiers,
  addresses, accounts) and the checks of the proposals in \<open>src/legacy/ethermint/x/erc20/types\<close>.
  The hexadecimal conversions and the hash of go-ethereum are parameters.  \<open>big.Int\<close> is an
  integer, a nil pointer \<open>None\<close>.
\<close>

section \<open>Parameters\<close>

record EthFns = EvmFns +
  Address_Hex :: "bytes \<Rightarrow> string"
  Hash_Hex :: "bytes \<Rightarrow> string"
  HexToHash :: "string \<Rightarrow> bytes"
  IsHexAddress :: "string \<Rightarrow> bool"
  Keccak256 :: "bytes \<Rightarrow> bytes"

section \<open>Integers of \<open>math/big\<close>\<close>

text \<open>\<open>BitLen\<close>: the length of the absolute value in bits.\<close>

fun nat_bits :: "nat \<Rightarrow> nat" where
  "nat_bits n = (if n = 0 then 0 else Suc (nat_bits (n div 2)))"

declare nat_bits.simps [simp del]

definition BitLen :: "int \<Rightarrow> nat" where
  "BitLen n = nat_bits (nat \<bar>n\<bar>)"

text \<open>\<open>SetBytes\<close> and \<open>Bytes\<close>: big-endian, of the absolute value, without leading zeros.\<close>

definition SetBytes :: "bytes \<Rightarrow> int" where
  "SetBytes bz = foldl (\<lambda>acc b. acc * 256 + uint b) 0 bz"

fun nat_bytes :: "nat \<Rightarrow> bytes" where
  "nat_bytes n = (if n = 0 then [] else nat_bytes (n div 256) @ [word_of_nat (n mod 256)])"

declare nat_bytes.simps [simp del]

definition Bytes :: "int \<Rightarrow> bytes" where
  "Bytes n = nat_bytes (nat \<bar>n\<bar>)"

section \<open>\<open>int.go\<close> and \<open>validation.go\<close>\<close>

definition maxBitLen :: nat where
  "maxBitLen = 256"

definition SafeInt64 :: "uint64 \<Rightarrow> int64 outcome" where
  "SafeInt64 value = (if value > 0x7FFFFFFFFFFFFFFF then Err ErrInvalidHeight else Ok value)"

definition IsValidInt256 :: "int option \<Rightarrow> bool" where
  "IsValidInt256 i = (case i of None \<Rightarrow> True | Some n \<Rightarrow> BitLen n \<le> maxBitLen)"

definition SafeNewIntFromBigInt :: "('z) EthFns_scheme \<Rightarrow> int \<Rightarrow> int outcome" where
  "SafeNewIntFromBigInt h i =
     (if \<not> IsValidInt256 (Some i) then Err (Error ''big int out of bound'') else NewIntFromBigInt h i)"

definition ValidateAddress :: "('z) EthFns_scheme \<Rightarrow> string \<Rightarrow> unit outcome" where
  "ValidateAddress h address = guardO (IsHexAddress h address) ErrInvalidAddress"

section \<open>\<open>chain_id.go\<close>\<close>

definition is_space :: "char \<Rightarrow> bool" where
  "is_space ch \<longleftrightarrow> (let n = of_char ch :: nat in n = 32 \<or> (9 \<le> n \<and> n \<le> 13))"

definition is_lower :: "char \<Rightarrow> bool" where
  "is_lower ch \<longleftrightarrow> (let n = of_char ch :: nat in 97 \<le> n \<and> n \<le> 122)"

definition is_digit :: "char \<Rightarrow> bool" where
  "is_digit ch \<longleftrightarrow> (let n = of_char ch :: nat in 48 \<le> n \<and> n \<le> 57)"

text \<open>\<open>strings.TrimSpace\<close>, for ASCII white space.\<close>

definition TrimSpace :: "string \<Rightarrow> string" where
  "TrimSpace s = rev (dropWhile is_space (rev (dropWhile is_space s)))"

text \<open>\<open>[1-9][0-9]*\<close>\<close>

definition is_number :: "string \<Rightarrow> bool" where
  "is_number d \<longleftrightarrow> d \<noteq> [] \<and> hd d \<noteq> CHR ''0'' \<and> list_all is_digit d"

text \<open>\<open>ethermintChainID.FindStringSubmatch\<close>: the three groups, when the whole string matches.\<close>

definition match_chain_id :: "string \<Rightarrow> (string \<times> string \<times> string) option" where
  "match_chain_id s = (let p = takeWhile is_lower s in
     case dropWhile is_lower s of
       [] \<Rightarrow> None
     | u # r \<Rightarrow> (let d = takeWhile is_digit r in
         case dropWhile is_digit r of
           [] \<Rightarrow> None
         | m # e \<Rightarrow> if p \<noteq> [] \<and> u = CHR ''_'' \<and> is_number d \<and> m = CHR ''-'' \<and> is_number e
                     then Some (p, d, e) else None))"

text \<open>\<open>SetString(s, 10)\<close> on a string of digits.\<close>

definition decimal :: "string \<Rightarrow> int" where
  "decimal d = foldl (\<lambda>acc ch. acc * 10 + (int (of_char ch) - 48)) 0 d"

definition ParseChainID :: "string \<Rightarrow> int outcome" where
  "ParseChainID chainID = (let s = TrimSpace chainID in
     if length s > 48 then Err ErrInvalidChainID
     else case match_chain_id s of
         None \<Rightarrow> Err ErrInvalidChainID
       | Some (p, d, e) \<Rightarrow> Ok (decimal d))"

section \<open>\<open>account.go\<close>\<close>

record EthAccount =
  ea_Address :: AccAddress
  ea_CodeHash :: string

datatype AccountType = AccountTypeEOA | AccountTypeContract

text \<open>\<open>common.BytesToHash\<close> of a 32-byte hash is that hash.\<close>

definition emptyCodeHash :: "('z) EthFns_scheme \<Rightarrow> bytes" where
  "emptyCodeHash h = Keccak256 h []"

definition ProtoAccount :: "('z) EthFns_scheme \<Rightarrow> EthAccount" where
  "ProtoAccount h = \<lparr>ea_Address = [], ea_CodeHash = Hash_Hex h (emptyCodeHash h)\<rparr>"

definition EthAddress :: "('z) EthFns_scheme \<Rightarrow> EthAccount \<Rightarrow> bytes" where
  "EthAddress h acc = BytesToAddress h (ea_Address acc)"

definition GetCodeHash :: "('z) EthFns_scheme \<Rightarrow> EthAccount \<Rightarrow> bytes" where
  "GetCodeHash h acc = HexToHash h (ea_CodeHash acc)"

definition SetCodeHash :: "('z) EthFns_scheme \<Rightarrow> bytes \<Rightarrow> EthAccount \<Rightarrow> EthAccount" where
  "SetCodeHash h codeHash acc = acc\<lparr>ea_CodeHash := Hash_Hex h codeHash\<rparr>"

definition EthAccount_Type :: "('z) EthFns_scheme \<Rightarrow> EthAccount \<Rightarrow> AccountType" where
  "EthAccount_Type h acc =
     (if emptyCodeHash h = HexToHash h (ea_CodeHash acc) then AccountTypeEOA else AccountTypeContract)"

section \<open>Proposals of the ERC20 module\<close>

text \<open>\<open>strings.Contains\<close>.\<close>

fun contains :: "string \<Rightarrow> string \<Rightarrow> bool" where
  "contains s t = (has_prefix s t \<or> (case s of [] \<Rightarrow> False | _ # r \<Rightarrow> contains r t))"

declare contains.simps [simp del]

text \<open>The checks of other packages: of the metadata and of title and description.\<close>

record 'm ProposalChecks =
  Metadata_Validate :: "'m \<Rightarrow> unit outcome"
  Metadata_Base :: "'m \<Rightarrow> string"
  ValidateAbstract :: "string \<Rightarrow> string \<Rightarrow> unit outcome"

definition RegisterCoinProposal_ValidateBasic ::
    "'m ProposalChecks \<Rightarrow> string \<Rightarrow> string \<Rightarrow> 'm list \<Rightarrow> unit outcome" where
  "RegisterCoinProposal_ValidateBasic q title description metadata =
     bindO (foldO (\<lambda>m _. bindO (Metadata_Validate q m) (\<lambda>_.
         guardO (\<not> contains (Metadata_Base q m) ''evm'') (Error ''cannot register the EVM denomination''))) metadata ())
       (\<lambda>_. ValidateAbstract q title description)"

definition RegisterERC20Proposal_ValidateBasic ::
    "'m ProposalChecks \<Rightarrow> ('z) EthFns_scheme \<Rightarrow> string \<Rightarrow> string \<Rightarrow> string list \<Rightarrow> unit outcome" where
  "RegisterERC20Proposal_ValidateBasic q h title description addresses =
     bindO (foldO (\<lambda>a _. ValidateAddress h a) addresses ()) (\<lambda>_. ValidateAbstract q title description)"

definition ToggleTokenConversionProposal_ValidateBasic ::
    "'m ProposalChecks \<Rightarrow> ('z) EthFns_scheme \<Rightarrow> CoinOps \<Rightarrow> string \<Rightarrow> string \<Rightarrow> string \<Rightarrow> unit outcome" where
  "ToggleTokenConversionProposal_ValidateBasic q h co title description token =
     bindO (case ValidateAddress h token of
         Err _ \<Rightarrow> ValidateDenom co token
       | r \<Rightarrow> r) (\<lambda>_. ValidateAbstract q title description)"

section \<open>Lemmas on integers\<close>

lemma nat_zero [simp]: "nat_bits 0 = 0" "nat_bytes 0 = []"
  by (simp_all add: nat_bits.simps nat_bytes.simps)

lemma nat_bits_le: "nat_bits n \<le> k \<longleftrightarrow> n < 2 ^ k"
proof (induction n arbitrary: k rule: nat_bits.induct)
  case (1 n)
  show ?case
  proof (cases k)
    case 0
    then show ?thesis by (simp add: nat_bits.simps [of n])
  next
    case (Suc m)
    then show ?thesis
      using 1 [of m] by (cases "n = 0") (auto simp: nat_bits.simps [of n] div_less_iff_less_mult)
  qed
qed

lemma BitLen_le: "BitLen n \<le> k \<longleftrightarrow> \<bar>n\<bar> < 2 ^ k"
proof -
  have "nat \<bar>n\<bar> < 2 ^ k \<longleftrightarrow> \<bar>n\<bar> < 2 ^ k" by (simp add: nat_less_iff)
  then show ?thesis by (simp add: BitLen_def nat_bits_le)
qed

lemma IsValidInt256_iff [simp]: "IsValidInt256 (Some n) \<longleftrightarrow> \<bar>n\<bar> < 2 ^ 256" "IsValidInt256 None"
  by (simp_all add: IsValidInt256_def maxBitLen_def BitLen_le del: power_numeral)

lemma SetBytes_snoc: "SetBytes (bz @ [b]) = SetBytes bz * 256 + uint b"
  by (simp add: SetBytes_def)

lemma SetBytes_nat_bytes: "SetBytes (nat_bytes n) = int n"
proof (induction n rule: nat_bytes.induct)
  case (1 n)
  show ?case
  proof (cases "n = 0")
    case True
    then show ?thesis by (simp add: SetBytes_def)
  next
    case False
    have "uint (word_of_nat (n mod 256) :: byte) = int (n mod 256)"
      by (simp add: uint_nat unat_of_nat)
    then show ?thesis
      using 1 [OF False] False
      by (simp add: nat_bytes.simps [of n] SetBytes_snoc zmod_int zdiv_int)
  qed
qed

lemma SetBytes_Bytes: "SetBytes (Bytes n) = \<bar>n\<bar>"
  by (simp add: Bytes_def SetBytes_nat_bytes)

lemma Bytes_eq_Nil: "Bytes n = [] \<longleftrightarrow> n = 0"
  by (simp add: Bytes_def nat_bytes.simps [of "nat \<bar>n\<bar>"])

section \<open>Lemmas on chain identifiers\<close>

lemma takeWhile_split: "list_all P xs \<Longrightarrow> \<not> P y \<Longrightarrow> takeWhile P (xs @ y # ys) = xs \<and> dropWhile P (xs @ y # ys) = y # ys"
  by (induction xs) auto

lemma marks [simp]: "\<not> is_lower CHR ''_''" "\<not> is_digit CHR ''-''"
  by (simp_all add: is_lower_def is_digit_def)

lemma match_chain_id_iff:
  "match_chain_id s = Some (p, d, e) \<longleftrightarrow>
     s = p @ CHR ''_'' # d @ CHR ''-'' # e \<and> p \<noteq> [] \<and> list_all is_lower p \<and> is_number d \<and> is_number e"
proof
  assume m: "match_chain_id s = Some (p, d, e)"
  let ?r = "tl (dropWhile is_lower s)"
  from m have "p = takeWhile is_lower s" "dropWhile is_lower s = CHR ''_'' # ?r" "d = takeWhile is_digit ?r"
      "dropWhile is_digit ?r = CHR ''-'' # e" "p \<noteq> []" "is_number d" "is_number e"
    by (auto simp: match_chain_id_def Let_def split: list.splits if_splits)
  moreover have "s = takeWhile is_lower s @ dropWhile is_lower s" "?r = takeWhile is_digit ?r @ dropWhile is_digit ?r"
    by simp_all
  ultimately show "s = p @ CHR ''_'' # d @ CHR ''-'' # e \<and> p \<noteq> [] \<and> list_all is_lower p \<and> is_number d \<and> is_number e"
    by (metis list_all_iff set_takeWhileD)
next
  assume s: "s = p @ CHR ''_'' # d @ CHR ''-'' # e \<and> p \<noteq> [] \<and> list_all is_lower p \<and> is_number d \<and> is_number e"
  then have "list_all is_digit d" by (simp add: is_number_def)
  from takeWhile_split [OF this, of "CHR ''-''" e] takeWhile_split [of is_lower p "CHR ''_''" "d @ CHR ''-'' # e"] s
  show "match_chain_id s = Some (p, d, e)" by (simp add: match_chain_id_def)
qed

lemma decimal_snoc: "decimal (d @ [ch]) = decimal d * 10 + (int (of_char ch) - 48)"
  by (simp add: decimal_def)

lemma decimal_nonneg: "list_all is_digit d \<Longrightarrow> 0 \<le> decimal d"
  by (induction d rule: rev_induct) (auto simp: decimal_snoc is_digit_def Let_def decimal_def)

lemma decimal_pos: "is_number d \<Longrightarrow> 1 \<le> decimal d"
proof (induction d rule: rev_induct)
  case (snoc ch d)
  show ?case
  proof (cases d)
    case Nil
    from snoc.prems Nil have c: "ch \<noteq> CHR ''0''" "48 \<le> (of_char ch :: nat)" by (auto simp: is_number_def is_digit_def Let_def)
    have "(of_char ch :: nat) \<noteq> 48"
    proof
      assume "(of_char ch :: nat) = 48"
      then have "(of_char ch :: nat) = of_char CHR ''0''" by simp
      with c(1) show False by (simp only: of_char_eq_iff)
    qed
    with c(2) Nil show ?thesis by (simp add: decimal_def)
  next
    case (Cons x xs)
    with snoc.prems have "is_number d" "48 \<le> (of_char ch :: nat)" by (auto simp: is_number_def is_digit_def Let_def)
    with snoc.IH show ?thesis by (simp add: decimal_snoc)
  qed
qed (simp add: is_number_def)

section \<open>Properties\<close>

text \<open>The chain identifier parser accepts exactly the identifiers \<open>name_N-E\<close> of at most 48
  characters (after trimming) with a lower-case name and two decimal numbers without leading
  zeros, and returns the number \<open>N\<close>, which is positive.\<close>

theorem parse_chain_id_exact:
  "ParseChainID s = Ok n \<longleftrightarrow> (\<exists>p d e. TrimSpace s = p @ CHR ''_'' # d @ CHR ''-'' # e \<and> length (TrimSpace s) \<le> 48 \<and>
     p \<noteq> [] \<and> list_all is_lower p \<and> is_number d \<and> is_number e \<and> n = decimal d \<and> 1 \<le> n)"
proof -
  have "ParseChainID s = Ok n \<longleftrightarrow> length (TrimSpace s) \<le> 48 \<and>
      (\<exists>p d e. match_chain_id (TrimSpace s) = Some (p, d, e) \<and> n = decimal d)"
    by (auto simp: ParseChainID_def Let_def split: option.splits prod.splits)
  then show ?thesis unfolding match_chain_id_iff using decimal_pos by blast
qed

end
