(* ===== verification/EvmTx.thy ===== *)
theory EvmTx
  imports EthTypes
begin

text \<open>
  The three kinds of Ethereum transactions of \<open>src/legacy/ethermint/x/evm/types\<close>: their
  construction from a go-ethereum transaction, validation, fees and costs, and the way back.
  The Go interface \<open>TxData\<close> is the locale \<open>txdata\<close>; the three types interpret it.  A nil
  pointer is \<open>None\<close>; using one in arithmetic is a panic.
\<close>

section \<open>Data\<close>

record AccessTuple =
  at_Address :: string
  at_StorageKeys :: "string list"

record EthAccessTuple =
  eat_Address :: bytes
  eat_StorageKeys :: "bytes list"

record LegacyTx =
  lt_Nonce :: uint64
  lt_GasPrice :: "int option"
  lt_GasLimit :: uint64
  lt_To :: string
  lt_Amount :: "int option"
  lt_Data :: bytes
  lt_V :: bytes
  lt_R :: bytes
  lt_S :: bytes

record AccessListTx =
  al_ChainID :: "int option"
  al_Nonce :: uint64
  al_GasPrice :: "int option"
  al_GasLimit :: uint64
  al_To :: string
  al_Amount :: "int option"
  al_Data :: bytes
  al_Accesses :: "AccessTuple list option"
  al_V :: bytes
  al_R :: bytes
  al_S :: bytes

record DynamicFeeTx =
  df_ChainID :: "int option"
  df_Nonce :: uint64
  df_GasTipCap :: "int option"
  df_GasFeeCap :: "int option"
  df_GasLimit :: uint64
  df_To :: string
  df_Amount :: "int option"
  df_Data :: bytes
  df_Accesses :: "AccessTuple list option"
  df_V :: bytes
  df_R :: bytes
  df_S :: bytes

datatype TxType = LegacyTxType | AccessListTxType | DynamicFeeTxType | OtherTxType

text \<open>What the accessors of a go-ethereum \<open>Transaction\<close> return.\<close>

record EthTransaction =
  tx_Type :: TxType
  tx_Nonce :: uint64
  tx_Data :: bytes
  tx_Gas :: uint64
  tx_To :: "bytes option"
  tx_Value :: "int option"
  tx_GasPrice :: "int option"
  tx_GasFeeCap :: "int option"
  tx_GasTipCap :: "int option"
  tx_AccessList :: "EthAccessTuple list option"
  tx_ChainId :: "int option"
  tx_V :: "int option"
  tx_R :: "int option"
  tx_S :: "int option"

text \<open>The go-ethereum structs \<open>LegacyTx\<close>, \<open>AccessListTx\<close> and \<open>DynamicFeeTx\<close>, as one record.\<close>

record EthTxData =
  ed_Type :: TxType
  ed_ChainID :: "int option"
  ed_Nonce :: uint64
  ed_GasPrice :: "int option"
  ed_GasTipCap :: "int option"
  ed_GasFeeCap :: "int option"
  ed_Gas :: uint64
  ed_To :: "bytes option"
  ed_Value :: "int option"
  ed_Data :: bytes
  ed_AccessList :: "EthAccessTuple list option"
  ed_V :: "int option"
  ed_R :: "int option"
  ed_S :: "int option"

section \<open>Access lists and signature values\<close>

definition NewAccessList :: "('z) EthFns_scheme \<Rightarrow> EthAccessTuple list option \<Rightarrow> AccessTuple list option" where
  "NewAccessList h ethAccessList = (case ethAccessList of
      None \<Rightarrow> None
    | Some ts \<Rightarrow> Some (map (\<lambda>t. \<lparr>at_Address = Address_Hex h (eat_Address t),
        at_StorageKeys = map (Hash_Hex h) (eat_StorageKeys t)\<rparr>) ts))"

text \<open>The slice starts as nil and stays nil when nothing is appended.\<close>

definition ToEthAccessList :: "('z) EthFns_scheme \<Rightarrow> AccessTuple list \<Rightarrow> EthAccessTuple list option" where
  "ToEthAccessList h al = (if al = [] then None
     else Some (map (\<lambda>t. \<lparr>eat_Address = HexToAddress h (at_Address t),
       eat_StorageKeys = map (HexToHash h) (at_StorageKeys t)\<rparr>) al))"

definition raw_value :: "bytes \<Rightarrow> int option" where
  "raw_value bz = (if length bz > 0 then Some (SetBytes bz) else None)"

definition rawSignatureValues :: "bytes \<Rightarrow> bytes \<Rightarrow> bytes \<Rightarrow> int option \<times> int option \<times> int option" where
  "rawSignatureValues vBz rBz sBz = (raw_value vBz, raw_value rBz, raw_value sBz)"

definition set_value :: "int option \<Rightarrow> bytes \<Rightarrow> bytes" where
  "set_value v old = (case v of None \<Rightarrow> old | Some n \<Rightarrow> Bytes n)"

definition DeriveChainID :: "int option \<Rightarrow> int option" where
  "DeriveChainID v = (case v of
      None \<Rightarrow> None
    | Some n \<Rightarrow>
        if n < 1 then None
        else if BitLen n \<le> 64 then
          (let u = word_of_int n :: uint64 in
           if u = 27 \<or> u = 28 then Some 0
           else if u < 35 then None
           else Some (uint ((u - 35) div 2)))
        else Some ((n - 35) div 2))"

definition fee :: "int option \<Rightarrow> uint64 \<Rightarrow> int outcome" where
  "fee gasPrice gas = (case gasPrice of
      None \<Rightarrow> Panic ''nil pointer dereference''
    | Some p \<Rightarrow> Ok (p * uint gas))"

definition cost :: "int \<Rightarrow> int option \<Rightarrow> int" where
  "cost f value = (case value of None \<Rightarrow> f | Some v \<Rightarrow> f + v)"

text \<open>\<open>EffectiveGasPrice\<close> of \<open>utils.go\<close>: the base fee may be nil.\<close>

definition EffectiveGasPrice :: "int option \<Rightarrow> int \<Rightarrow> int \<Rightarrow> int outcome" where
  "EffectiveGasPrice baseFee feeCap tipCap = (case baseFee of
      None \<Rightarrow> Panic ''nil pointer dereference''
    | Some b \<Rightarrow> (let calcVal = tipCap + b in Ok (if calcVal < feeCap then calcVal else feeCap)))"

definition get_to :: "('z) EthFns_scheme \<Rightarrow> string \<Rightarrow> bytes option" where
  "get_to h to = (if to = [] then None else Some (HexToAddress h to))"

definition set_to :: "('z) EthFns_scheme \<Rightarrow> bytes option \<Rightarrow> string" where
  "set_to h to = (case to of None \<Rightarrow> [] | Some a \<Rightarrow> Address_Hex h a)"

definition safe_opt :: "('z) EthFns_scheme \<Rightarrow> int option \<Rightarrow> int option outcome" where
  "safe_opt h v = (case v of
      None \<Rightarrow> Ok None
    | Some n \<Rightarrow> bindO (SafeNewIntFromBigInt h n) (\<lambda>m. Ok (Some m)))"

text \<open>Checks of the amount and the recipient, the same in the three \<open>Validate\<close> methods.\<close>

definition check_amount :: "int option \<Rightarrow> unit outcome" where
  "check_amount amount =
     bindO (guardO (case amount of None \<Rightarrow> True | Some a \<Rightarrow> \<not> a < 0) ErrInvalidAmount) (\<lambda>_.
     guardO (IsValidInt256 amount) ErrInvalidAmount)"

definition check_to :: "('z) EthFns_scheme \<Rightarrow> string \<Rightarrow> unit outcome" where
  "check_to h to = (if to \<noteq> [] then ValidateAddress h to else Ok ())"

section \<open>\<open>legacy_tx.go\<close>\<close>

definition LegacyTx_SetSignatureValues :: "int option \<Rightarrow> int option \<Rightarrow> int option \<Rightarrow> LegacyTx \<Rightarrow> LegacyTx" where
  "LegacyTx_SetSignatureValues v r s tx =
     tx\<lparr>lt_V := set_value v (lt_V tx), lt_R := set_value r (lt_R tx), lt_S := set_value s (lt_S tx)\<rparr>"

definition newLegacyTx :: "('z) EthFns_scheme \<Rightarrow> EthTransaction \<Rightarrow> LegacyTx outcome" where
  "newLegacyTx h tx =
     bindO (safe_opt h (tx_Value tx)) (\<lambda>amount.
     bindO (safe_opt h (tx_GasPrice tx)) (\<lambda>gasPrice.
     Ok (LegacyTx_SetSignatureValues (tx_V tx) (tx_R tx) (tx_S tx)
       \<lparr>lt_Nonce = tx_Nonce tx, lt_GasPrice = gasPrice, lt_GasLimit = tx_Gas tx, lt_To = set_to h (tx_To tx),
        lt_Amount = amount, lt_Data = tx_Data tx, lt_V = [], lt_R = [], lt_S = []\<rparr>)))"

definition LegacyTx_Copy :: "LegacyTx \<Rightarrow> LegacyTx" where
  "LegacyTx_Copy tx = \<lparr>lt_Nonce = lt_Nonce tx, lt_GasPrice = lt_GasPrice tx, lt_GasLimit = lt_GasLimit tx,
     lt_To = lt_To tx, lt_Amount = lt_Amount tx, lt_Data = lt_Data tx, lt_V = lt_V tx, lt_R = lt_R tx, lt_S = lt_S tx\<rparr>"

definition LegacyTx_GetRawSignatureValues :: "LegacyTx \<Rightarrow> int option \<times> int option \<times> int option" where
  "LegacyTx_GetRawSignatureValues tx = rawSignatureValues (lt_V tx) (lt_R tx) (lt_S tx)"

definition LegacyTx_GetChainID :: "LegacyTx \<Rightarrow> int option" where
  "LegacyTx_GetChainID tx = DeriveChainID (fst (LegacyTx_GetRawSignatureValues tx))"

definition LegacyTx_Fee :: "LegacyTx \<Rightarrow> int outcome" where
  "LegacyTx_Fee tx = fee (lt_GasPrice tx) (lt_GasLimit tx)"

definition LegacyTx_Cost :: "LegacyTx \<Rightarrow> int outcome" where
  "LegacyTx_Cost tx = bindO (LegacyTx_Fee tx) (\<lambda>f. Ok (cost f (lt_Amount tx)))"

definition LegacyTx_EffectiveFee :: "int option \<Rightarrow> LegacyTx \<Rightarrow> int outcome" where
  "LegacyTx_EffectiveFee baseFee tx = LegacyTx_Fee tx"

definition LegacyTx_EffectiveCost :: "int option \<Rightarrow> LegacyTx \<Rightarrow> int outcome" where
  "LegacyTx_EffectiveCost baseFee tx = LegacyTx_Cost tx"

definition LegacyTx_AsEthereumData :: "('z) EthFns_scheme \<Rightarrow> LegacyTx \<Rightarrow> EthTxData" where
  "LegacyTx_AsEthereumData h tx = (let (v, r, s) = LegacyTx_GetRawSignatureValues tx in
     \<lparr>ed_Type = LegacyTxType, ed_ChainID = None, ed_Nonce = lt_Nonce tx, ed_GasPrice = lt_GasPrice tx,
      ed_GasTipCap = None, ed_GasFeeCap = None, ed_Gas = lt_GasLimit tx, ed_To = get_to h (lt_To tx),
      ed_Value = lt_Amount tx, ed_Data = lt_Data tx, ed_AccessList = None, ed_V = v, ed_R = r, ed_S = s\<rparr>)"

definition LegacyTx_Validate :: "('z) EthFns_scheme \<Rightarrow> LegacyTx \<Rightarrow> unit outcome" where
  "LegacyTx_Validate h tx = (case lt_GasPrice tx of
      None \<Rightarrow> Err ErrInvalidGasPrice
    | Some gasPrice \<Rightarrow>
        bindO (guardO (\<not> gasPrice < 0) ErrInvalidGasPrice) (\<lambda>_.
        bindO (guardO (IsValidInt256 (Some gasPrice)) ErrInvalidGasPrice) (\<lambda>_.
        bindO (LegacyTx_Fee tx) (\<lambda>f.
        bindO (guardO (IsValidInt256 (Some f)) ErrInvalidGasFee) (\<lambda>_.
        bindO (check_amount (lt_Amount tx)) (\<lambda>_.
        check_to h (lt_To tx)))))))"

section \<open>\<open>access_list_tx.go\<close>\<close>

definition AccessListTx_SetSignatureValues ::
    "('z) EthFns_scheme \<Rightarrow> int option \<Rightarrow> int option \<Rightarrow> int option \<Rightarrow> int option \<Rightarrow> AccessListTx \<Rightarrow> AccessListTx outcome" where
  "AccessListTx_SetSignatureValues h chainID v r s tx =
     (let tx' = tx\<lparr>al_V := set_value v (al_V tx), al_R := set_value r (al_R tx), al_S := set_value s (al_S tx)\<rparr> in
      case chainID of
        None \<Rightarrow> Ok tx'
      | Some c \<Rightarrow> bindO (NewIntFromBigInt h c) (\<lambda>n. Ok (tx'\<lparr>al_ChainID := Some n\<rparr>)))"

definition newAccessListTx :: "('z) EthFns_scheme \<Rightarrow> EthTransaction \<Rightarrow> AccessListTx outcome" where
  "newAccessListTx h tx =
     bindO (safe_opt h (tx_Value tx)) (\<lambda>amount.
     bindO (safe_opt h (tx_GasPrice tx)) (\<lambda>gasPrice.
     AccessListTx_SetSignatureValues h (tx_ChainId tx) (tx_V tx) (tx_R tx) (tx_S tx)
       \<lparr>al_ChainID = None, al_Nonce = tx_Nonce tx, al_GasPrice = gasPrice, al_GasLimit = tx_Gas tx,
        al_To = set_to h (tx_To tx), al_Amount = amount, al_Data = tx_Data tx,
        al_Accesses = NewAccessList h (tx_AccessList tx), al_V = [], al_R = [], al_S = []\<rparr>))"

definition AccessListTx_Copy :: "AccessListTx \<Rightarrow> AccessListTx" where
  "AccessListTx_Copy tx = \<lparr>al_ChainID = al_ChainID tx, al_Nonce = al_Nonce tx, al_GasPrice = al_GasPrice tx,
     al_GasLimit = al_GasLimit tx, al_To = al_To tx, al_Amount = al_Amount tx, al_Data = al_Data tx,
     al_Accesses = al_Accesses tx, al_V = al_V tx, al_R = al_R tx, al_S = al_S tx\<rparr>"

definition AccessListTx_GetRawSignatureValues :: "AccessListTx \<Rightarrow> int option \<times> int option \<times> int option" where
  "AccessListTx_GetRawSignatureValues tx = rawSignatureValues (al_V tx) (al_R tx) (al_S tx)"

definition AccessListTx_GetAccessList :: "('z) EthFns_scheme \<Rightarrow> AccessListTx \<Rightarrow> EthAccessTuple list option" where
  "AccessListTx_GetAccessList h tx = (case al_Accesses tx of None \<Rightarrow> None | Some al \<Rightarrow> ToEthAccessList h al)"

definition AccessListTx_Fee :: "AccessListTx \<Rightarrow> int outcome" where
  "AccessListTx_Fee tx = fee (al_GasPrice tx) (al_GasLimit tx)"

definition AccessListTx_Cost :: "AccessListTx \<Rightarrow> int outcome" where
  "AccessListTx_Cost tx = bindO (AccessListTx_Fee tx) (\<lambda>f. Ok (cost f (al_Amount tx)))"

definition AccessListTx_EffectiveFee :: "int option \<Rightarrow> AccessListTx \<Rightarrow> int outcome" where
  "AccessListTx_EffectiveFee baseFee tx = AccessListTx_Fee tx"

definition AccessListTx_EffectiveCost :: "int option \<Rightarrow> AccessListTx \<Rightarrow> int outcome" where
  "AccessListTx_EffectiveCost baseFee tx = AccessListTx_Cost tx"

definition AccessListTx_AsEthereumData :: "('z) EthFns_scheme \<Rightarrow> AccessListTx \<Rightarrow> EthTxData" where
  "AccessListTx_AsEthereumData h tx = (let (v, r, s) = AccessListTx_GetRawSignatureValues tx in
     \<lparr>ed_Type = AccessListTxType, ed_ChainID = al_ChainID tx, ed_Nonce = al_Nonce tx, ed_GasPrice = al_GasPrice tx,
      ed_GasTipCap = None, ed_GasFeeCap = None, ed_Gas = al_GasLimit tx, ed_To = get_to h (al_To tx),
      ed_Value = al_Amount tx, ed_Data = al_Data tx, ed_AccessList = AccessListTx_GetAccessList h tx,
      ed_V = v, ed_R = r, ed_S = s\<rparr>)"

definition AccessListTx_Validate :: "('z) EthFns_scheme \<Rightarrow> AccessListTx \<Rightarrow> unit outcome" where
  "AccessListTx_Validate h tx = (case al_GasPrice tx of
      None \<Rightarrow> Err ErrInvalidGasPrice
    | Some gasPrice \<Rightarrow>
        bindO (guardO (IsValidInt256 (Some gasPrice)) ErrInvalidGasPrice) (\<lambda>_.
        bindO (guardO (\<not> gasPrice < 0) ErrInvalidGasPrice) (\<lambda>_.
        bindO (check_amount (al_Amount tx)) (\<lambda>_.
        bindO (AccessListTx_Fee tx) (\<lambda>f.
        bindO (guardO (IsValidInt256 (Some f)) ErrInvalidGasFee) (\<lambda>_.
        bindO (check_to h (al_To tx)) (\<lambda>_.
        guardO (al_ChainID tx \<noteq> None) ErrInvalidChainID)))))))"

section \<open>\<open>dynamic_fee_tx.go\<close>\<close>

definition DynamicFeeTx_SetSignatureValues ::
    "('z) EthFns_scheme \<Rightarrow> int option \<Rightarrow> int option \<Rightarrow> int option \<Rightarrow> int option \<Rightarrow> DynamicFeeTx \<Rightarrow> DynamicFeeTx outcome" where
  "DynamicFeeTx_SetSignatureValues h chainID v r s tx =
     (let tx' = tx\<lparr>df_V := set_value v (df_V tx), df_R := set_value r (df_R tx), df_S := set_value s (df_S tx)\<rparr> in
      case chainID of
        None \<Rightarrow> Ok tx'
      | Some c \<Rightarrow> bindO (NewIntFromBigInt h c) (\<lambda>n. Ok (tx'\<lparr>df_ChainID := Some n\<rparr>)))"

definition newDynamicFeeTx :: "('z) EthFns_scheme \<Rightarrow> EthTransaction \<Rightarrow> DynamicFeeTx outcome" where
  "newDynamicFeeTx h tx =
     bindO (safe_opt h (tx_Value tx)) (\<lambda>amount.
     bindO (safe_opt h (tx_GasFeeCap tx)) (\<lambda>gasFeeCap.
     bindO (safe_opt h (tx_GasTipCap tx)) (\<lambda>gasTipCap.
     DynamicFeeTx_SetSignatureValues h (tx_ChainId tx) (tx_V tx) (tx_R tx) (tx_S tx)
       \<lparr>df_ChainID = None, df_Nonce = tx_Nonce tx, df_GasTipCap = gasTipCap, df_GasFeeCap = gasFeeCap,
        df_GasLimit = tx_Gas tx, df_To = set_to h (tx_To tx), df_Amount = amount, df_Data = tx_Data tx,
        df_Accesses = NewAccessList h (tx_AccessList tx), df_V = [], df_R = [], df_S = []\<rparr>)))"

definition DynamicFeeTx_Copy :: "DynamicFeeTx \<Rightarrow> DynamicFeeTx" where
  "DynamicFeeTx_Copy tx = \<lparr>df_ChainID = df_ChainID tx, df_Nonce = df_Nonce tx, df_GasTipCap = df_GasTipCap tx,
     df_GasFeeCap = df_GasFeeCap tx, df_GasLimit = df_GasLimit tx, df_To = df_To tx, df_Amount = df_Amount tx,
     df_Data = df_Data tx, df_Accesses = df_Accesses tx, df_V = df_V tx, df_R = df_R tx, df_S = df_S tx\<rparr>"

definition DynamicFeeTx_GetRawSignatureValues :: "DynamicFeeTx \<Rightarrow> int option \<times> int option \<times> int option" where
  "DynamicFeeTx_GetRawSignatureValues tx = rawSignatureValues (df_V tx) (df_R tx) (df_S tx)"

definition DynamicFeeTx_GetAccessList :: "('z) EthFns_scheme \<Rightarrow> DynamicFeeTx \<Rightarrow> EthAccessTuple list option" where
  "DynamicFeeTx_GetAccessList h tx = (case df_Accesses tx of None \<Rightarrow> None | Some al \<Rightarrow> ToEthAccessList h al)"

definition DynamicFeeTx_Fee :: "DynamicFeeTx \<Rightarrow> int outcome" where
  "DynamicFeeTx_Fee tx = fee (df_GasFeeCap tx) (df_GasLimit tx)"

definition DynamicFeeTx_Cost :: "DynamicFeeTx \<Rightarrow> int outcome" where
  "DynamicFeeTx_Cost tx = bindO (DynamicFeeTx_Fee tx) (\<lambda>f. Ok (cost f (df_Amount tx)))"

definition DynamicFeeTx_EffectiveGasPrice :: "int option \<Rightarrow> DynamicFeeTx \<Rightarrow> int outcome" where
  "DynamicFeeTx_EffectiveGasPrice baseFee tx = (case (df_GasFeeCap tx, df_GasTipCap tx) of
      (Some feeCap, Some tipCap) \<Rightarrow> EffectiveGasPrice baseFee feeCap tipCap
    | _ \<Rightarrow> Panic ''nil pointer dereference'')"

definition DynamicFeeTx_EffectiveFee :: "int option \<Rightarrow> DynamicFeeTx \<Rightarrow> int outcome" where
  "DynamicFeeTx_EffectiveFee baseFee tx =
     bindO (DynamicFeeTx_EffectiveGasPrice baseFee tx) (\<lambda>p. fee (Some p) (df_GasLimit tx))"

definition DynamicFeeTx_EffectiveCost :: "int option \<Rightarrow> DynamicFeeTx \<Rightarrow> int outcome" where
  "DynamicFeeTx_EffectiveCost baseFee tx =
     bindO (DynamicFeeTx_EffectiveFee baseFee tx) (\<lambda>f. Ok (cost f (df_Amount tx)))"

definition DynamicFeeTx_AsEthereumData :: "('z) EthFns_scheme \<Rightarrow> DynamicFeeTx \<Rightarrow> EthTxData" where
  "DynamicFeeTx_AsEthereumData h tx = (let (v, r, s) = DynamicFeeTx_GetRawSignatureValues tx in
     \<lparr>ed_Type = DynamicFeeTxType, ed_ChainID = df_ChainID tx, ed_Nonce = df_Nonce tx, ed_GasPrice = None,
      ed_GasTipCap = df_GasTipCap tx, ed_GasFeeCap = df_GasFeeCap tx, ed_Gas = df_GasLimit tx,
      ed_To = get_to h (df_To tx), ed_Value = df_Amount tx, ed_Data = df_Data tx,
      ed_AccessList = DynamicFeeTx_GetAccessList h tx, ed_V = v, ed_R = r, ed_S = s\<rparr>)"

definition DynamicFeeTx_Validate :: "('z) EthFns_scheme \<Rightarrow> DynamicFeeTx \<Rightarrow> unit outcome" where
  "DynamicFeeTx_Validate h tx = (case (df_GasTipCap tx, df_GasFeeCap tx) of
      (None, _) \<Rightarrow> Err ErrInvalidGasCap
    | (Some _, None) \<Rightarrow> Err ErrInvalidGasCap
    | (Some tip, Some cap) \<Rightarrow>
        bindO (guardO (\<not> tip < 0) ErrInvalidGasCap) (\<lambda>_.
        bindO (guardO (\<not> cap < 0) ErrInvalidGasCap) (\<lambda>_.
        bindO (guardO (IsValidInt256 (Some tip)) ErrInvalidGasCap) (\<lambda>_.
        bindO (guardO (IsValidInt256 (Some cap)) ErrInvalidGasCap) (\<lambda>_.
        bindO (guardO (\<not> cap < tip) ErrInvalidGasCap) (\<lambda>_.
        bindO (DynamicFeeTx_Fee tx) (\<lambda>f.
        bindO (guardO (IsValidInt256 (Some f)) ErrInvalidGasFee) (\<lambda>_.
        bindO (check_amount (df_Amount tx)) (\<lambda>_.
        bindO (check_to h (df_To tx)) (\<lambda>_.
        guardO (df_ChainID tx \<noteq> None) ErrInvalidChainID))))))))))"

section \<open>\<open>tx_data.go\<close>, \<open>codec.go\<close>, \<open>msg.go\<close>\<close>

text \<open>The dynamic types behind the interface \<open>TxData\<close>, and the methods dispatched on them.\<close>

datatype TxData = TxLegacy LegacyTx | TxAccessList AccessListTx | TxDynamicFee DynamicFeeTx

definition NewTxDataFromTx :: "('z) EthFns_scheme \<Rightarrow> EthTransaction \<Rightarrow> TxData outcome" where
  "NewTxDataFromTx h tx = (case tx_Type tx of
      DynamicFeeTxType \<Rightarrow> bindO (newDynamicFeeTx h tx) (\<lambda>t. Ok (TxDynamicFee t))
    | AccessListTxType \<Rightarrow> bindO (newAccessListTx h tx) (\<lambda>t. Ok (TxAccessList t))
    | _ \<Rightarrow> bindO (newLegacyTx h tx) (\<lambda>t. Ok (TxLegacy t)))"

fun GetTxType :: "TxData \<Rightarrow> TxType" where
  "GetTxType (TxLegacy _) = LegacyTxType"
| "GetTxType (TxAccessList _) = AccessListTxType"
| "GetTxType (TxDynamicFee _) = DynamicFeeTxType"

fun Copy :: "TxData \<Rightarrow> TxData" where
  "Copy (TxLegacy t) = TxLegacy (LegacyTx_Copy t)"
| "Copy (TxAccessList t) = TxAccessList (AccessListTx_Copy t)"
| "Copy (TxDynamicFee t) = TxDynamicFee (DynamicFeeTx_Copy t)"

fun GetChainID :: "TxData \<Rightarrow> int option" where
  "GetChainID (TxLegacy t) = LegacyTx_GetChainID t"
| "GetChainID (TxAccessList t) = al_ChainID t"
| "GetChainID (TxDynamicFee t) = df_ChainID t"

fun GetGas :: "TxData \<Rightarrow> uint64" where
  "GetGas (TxLegacy t) = lt_GasLimit t"
| "GetGas (TxAccessList t) = al_GasLimit t"
| "GetGas (TxDynamicFee t) = df_GasLimit t"

fun GetGasPrice :: "TxData \<Rightarrow> int option" where
  "GetGasPrice (TxLegacy t) = lt_GasPrice t"
| "GetGasPrice (TxAccessList t) = al_GasPrice t"
| "GetGasPrice (TxDynamicFee t) = df_GasFeeCap t"

fun GetGasTipCap :: "TxData \<Rightarrow> int option" where
  "GetGasTipCap (TxLegacy t) = lt_GasPrice t"
| "GetGasTipCap (TxAccessList t) = al_GasPrice t"
| "GetGasTipCap (TxDynamicFee t) = df_GasTipCap t"

fun GetValue :: "TxData \<Rightarrow> int option" where
  "GetValue (TxLegacy t) = lt_Amount t"
| "GetValue (TxAccessList t) = al_Amount t"
| "GetValue (TxDynamicFee t) = df_Amount t"

fun TxData_Validate :: "('z) EthFns_scheme \<Rightarrow> TxData \<Rightarrow> unit outcome" where
  "TxData_Validate h (TxLegacy t) = LegacyTx_Validate h t"
| "TxData_Validate h (TxAccessList t) = AccessListTx_Validate h t"
| "TxData_Validate h (TxDynamicFee t) = DynamicFeeTx_Validate h t"

fun Fee :: "TxData \<Rightarrow> int outcome" where
  "Fee (TxLegacy t) = LegacyTx_Fee t"
| "Fee (TxAccessList t) = AccessListTx_Fee t"
| "Fee (TxDynamicFee t) = DynamicFeeTx_Fee t"

fun Cost :: "TxData \<Rightarrow> int outcome" where
  "Cost (TxLegacy t) = LegacyTx_Cost t"
| "Cost (TxAccessList t) = AccessListTx_Cost t"
| "Cost (TxDynamicFee t) = DynamicFeeTx_Cost t"

fun EffectiveFee :: "int option \<Rightarrow> TxData \<Rightarrow> int outcome" where
  "EffectiveFee b (TxLegacy t) = LegacyTx_EffectiveFee b t"
| "EffectiveFee b (TxAccessList t) = AccessListTx_EffectiveFee b t"
| "EffectiveFee b (TxDynamicFee t) = DynamicFeeTx_EffectiveFee b t"

fun EffectiveCost :: "int option \<Rightarrow> TxData \<Rightarrow> int outcome" where
  "EffectiveCost b (TxLegacy t) = LegacyTx_EffectiveCost b t"
| "EffectiveCost b (TxAccessList t) = AccessListTx_EffectiveCost b t"
| "EffectiveCost b (TxDynamicFee t) = DynamicFeeTx_EffectiveCost b t"

fun AsEthereumData :: "('z) EthFns_scheme \<Rightarrow> TxData \<Rightarrow> EthTxData" where
  "AsEthereumData h (TxLegacy t) = LegacyTx_AsEthereumData h t"
| "AsEthereumData h (TxAccessList t) = AccessListTx_AsEthereumData h t"
| "AsEthereumData h (TxDynamicFee t) = DynamicFeeTx_AsEthereumData h t"

text \<open>A protobuf \<open>Any\<close> as far as it is read here: nil, or with a cached Go value.\<close>

datatype AnyTx = AnyNil | AnyTxData TxData | AnyOtherValue

fun UnpackTxData :: "AnyTx \<Rightarrow> TxData outcome" where
  "UnpackTxData AnyNil = Err ErrUnpackAny"
| "UnpackTxData (AnyTxData t) = Ok t"
| "UnpackTxData AnyOtherValue = Err ErrUnpackAny"

text \<open>\<open>AsTransaction\<close>: nil when the data does not unpack.\<close>

definition AsTransaction :: "('z) EthFns_scheme \<Rightarrow> AnyTx \<Rightarrow> EthTxData option" where
  "AsTransaction h data = (case UnpackTxData data of Ok t \<Rightarrow> Some (AsEthereumData h t) | _ \<Rightarrow> None)"

section \<open>Specification\<close>

text \<open>
  What go-ethereum and the SDK document: printed addresses and hashes parse back, and integers of
  at most 256 bits convert exactly.
\<close>

definition eth_laws :: "('z) EthFns_scheme \<Rightarrow> bool" where
  "eth_laws h \<longleftrightarrow>
     (\<forall>a. length a = 20 \<longrightarrow> HexToAddress h (Address_Hex h a) = a \<and> Address_Hex h a \<noteq> []) \<and>
     (\<forall>x. length x = 32 \<longrightarrow> HexToHash h (Hash_Hex h x) = x) \<and>
     (\<forall>n. \<bar>n\<bar> < 2 ^ 256 \<longrightarrow> NewIntFromBigInt h n = Ok n)"

definition or_zero :: "int option \<Rightarrow> int" where
  "or_zero v = (case v of None \<Rightarrow> 0 | Some n \<Rightarrow> n)"

definition or_empty :: "'a list option \<Rightarrow> 'a list" where
  "or_empty v = (case v of None \<Rightarrow> [] | Some xs \<Rightarrow> xs)"

definition small :: "int option \<Rightarrow> bool" where
  "small v \<longleftrightarrow> (case v of None \<Rightarrow> True | Some n \<Rightarrow> 0 \<le> n \<and> n < 2 ^ 256)"

text \<open>
  The Go types of a transaction: 20-byte addresses, 32-byte storage keys, and numbers that fit in
  256 bits and are not negative.
\<close>

definition tx_wf :: "EthTransaction \<Rightarrow> bool" where
  "tx_wf tx \<longleftrightarrow> (\<forall>a. tx_To tx = Some a \<longrightarrow> length a = 20) \<and>
     (\<forall>t \<in> set (or_empty (tx_AccessList tx)). length (eat_Address t) = 20 \<and>
        (\<forall>x \<in> set (eat_StorageKeys t). length x = 32)) \<and>
     small (tx_Value tx) \<and> small (tx_GasPrice tx) \<and> small (tx_GasFeeCap tx) \<and> small (tx_GasTipCap tx) \<and>
     small (tx_ChainId tx) \<and> small (tx_V tx) \<and> small (tx_R tx) \<and> small (tx_S tx)"

text \<open>The fields of a transaction that its kind has, equal up to nil for zero or empty.\<close>

definition same_tx :: "EthTransaction \<Rightarrow> EthTxData \<Rightarrow> bool" where
  "same_tx tx e \<longleftrightarrow> ed_Nonce e = tx_Nonce tx \<and> ed_Gas e = tx_Gas tx \<and> ed_To e = tx_To tx \<and>
     ed_Value e = tx_Value tx \<and> ed_Data e = tx_Data tx \<and>
     or_zero (ed_V e) = or_zero (tx_V tx) \<and> or_zero (ed_R e) = or_zero (tx_R tx) \<and> or_zero (ed_S e) = or_zero (tx_S tx) \<and>
     (case tx_Type tx of
        DynamicFeeTxType \<Rightarrow> ed_Type e = DynamicFeeTxType \<and> ed_GasTipCap e = tx_GasTipCap tx \<and>
          ed_GasFeeCap e = tx_GasFeeCap tx \<and> ed_ChainID e = tx_ChainId tx \<and>
          or_empty (ed_AccessList e) = or_empty (tx_AccessList tx)
      | AccessListTxType \<Rightarrow> ed_Type e = AccessListTxType \<and> ed_GasPrice e = tx_GasPrice tx \<and>
          ed_ChainID e = tx_ChainId tx \<and> or_empty (ed_AccessList e) = or_empty (tx_AccessList tx)
      | _ \<Rightarrow> ed_Type e = LegacyTxType \<and> ed_GasPrice e = tx_GasPrice tx)"

section \<open>A reference environment\<close>

definition ref_eth :: EthFns where
  "ref_eth = EvmFns.extend (ref_evm\<lparr>HexToAddress := map (\<lambda>ch. word_of_nat (of_char ch))\<rparr>)
     (EthFns.fields (map (\<lambda>w. char_of (unat w))) (map (\<lambda>w. char_of (unat w)))
       (map (\<lambda>ch. word_of_nat (of_char ch))) (\<lambda>s. length s = 20) (\<lambda>bz. bz))"

definition ref_dynamic :: DynamicFeeTx where
  "ref_dynamic = \<lparr>df_ChainID = Some 37, df_Nonce = 1, df_GasTipCap = Some 2, df_GasFeeCap = Some 10, df_GasLimit = 21000,
     df_To = [], df_Amount = Some 5, df_Data = [], df_Accesses = None, df_V = [], df_R = [1], df_S = [1]\<rparr>"

definition ref_tx :: EthTransaction where
  "ref_tx = \<lparr>tx_Type = AccessListTxType, tx_Nonce = 3, tx_Data = [1, 2], tx_Gas = 21000, tx_To = Some (replicate 20 9),
     tx_Value = Some 5, tx_GasPrice = Some 7, tx_GasFeeCap = Some 7, tx_GasTipCap = Some 7,
     tx_AccessList = Some [\<lparr>eat_Address = replicate 20 8, eat_StorageKeys = [replicate 32 4]\<rparr>],
     tx_ChainId = Some 37, tx_V = Some 0, tx_R = Some 300, tx_S = Some 12\<rparr>"

section \<open>The interface\<close>

locale txdata =
  fixes validate :: "'t \<Rightarrow> unit outcome"
    and price :: "'t \<Rightarrow> int option"
    and gas :: "'t \<Rightarrow> uint64"
    and amount :: "'t \<Rightarrow> int option"
    and tfee :: "'t \<Rightarrow> int outcome"
    and tcost :: "'t \<Rightarrow> int outcome"
    and efee :: "int option \<Rightarrow> 't \<Rightarrow> int outcome"
    and ecost :: "int option \<Rightarrow> 't \<Rightarrow> int outcome"
  assumes valid_price: "validate t = Ok () \<Longrightarrow> \<exists>p. price t = Some p \<and> 0 \<le> p \<and> p * uint (gas t) < 2 ^ 256"
    and valid_amount: "validate t = Ok () \<Longrightarrow> small (amount t)"
    and fee_eq: "tfee t = fee (price t) (gas t)"
    and cost_eq: "tcost t = bindO (tfee t) (\<lambda>f. Ok (cost f (amount t)))"
    and effective_price: "validate t = Ok () \<Longrightarrow> price t = Some p \<Longrightarrow> 0 \<le> b \<Longrightarrow>
      \<exists>q. efee (Some b) t = Ok (q * uint (gas t)) \<and> 0 \<le> q \<and> q \<le> p"
    and effective_cost_eq: "ecost base t = bindO (efee base t) (\<lambda>f. Ok (cost f (amount t)))"
begin

lemma fees:
  assumes "validate t = Ok ()" "0 \<le> b"
  shows "\<exists>f c ef ec. tfee t = Ok f \<and> tcost t = Ok c \<and> efee (Some b) t = Ok ef \<and> ecost (Some b) t = Ok ec \<and>
    0 \<le> ef \<and> ef \<le> f \<and> f < 2 ^ 256 \<and> f \<le> c \<and> c < 2 ^ 257 \<and> c - f = ec - ef"
proof -
  obtain p where p: "price t = Some p" "0 \<le> p" "p * uint (gas t) < 2 ^ 256" using valid_price [OF assms(1)] by blast
  obtain q where q: "efee (Some b) t = Ok (q * uint (gas t))" "0 \<le> q" "q \<le> p"
    using effective_price [OF assms(1) p(1) assms(2)] by blast
  let ?f = "p * uint (gas t)" and ?e = "q * uint (gas t)"
  have e: "0 \<le> ?e" "?e \<le> ?f" using q by (simp_all add: mult_right_mono)
  obtain a where a: "\<And>f. cost f (amount t) = f + a" "0 \<le> a" "a < 2 ^ 256"
    using valid_amount [OF assms(1)] by (cases "amount t") (auto simp: cost_def small_def)
  have "tfee t = Ok ?f" "tcost t = Ok (?f + a)" "ecost (Some b) t = Ok (?e + a)"
    using p(1) q(1) a(1) by (simp_all add: fee_eq fee_def cost_eq effective_cost_eq)
  moreover have "?f + a < 2 ^ 257" using p(3) a(3) by simp
  ultimately show ?thesis using q(1) e p(3) a(2) by (intro exI [of _ ?f] exI [of _ "?f + a"] exI [of _ ?e] exI [of _ "?e + a"]) simp
qed

end

section \<open>The three types implement the interface\<close>

lemma check_amount_iff [simp]: "check_amount v = Ok () \<longleftrightarrow> small v"
  by (cases v) (auto simp: check_amount_def small_def)

lemma price_bound:
  fixes p :: int and g :: uint64
  shows "0 \<le> p \<Longrightarrow> \<bar>p * uint g\<bar> < 2 ^ 256 \<Longrightarrow> p * uint g < 2 ^ 256"
  by linarith

interpretation legacy: txdata "LegacyTx_Validate h" lt_GasPrice lt_GasLimit lt_Amount LegacyTx_Fee LegacyTx_Cost
  LegacyTx_EffectiveFee LegacyTx_EffectiveCost for h
  by unfold_locales
    (auto simp: LegacyTx_Validate_def LegacyTx_Fee_def LegacyTx_Cost_def LegacyTx_EffectiveFee_def
      LegacyTx_EffectiveCost_def fee_def intro: price_bound split: option.splits)

interpretation accesslist: txdata "AccessListTx_Validate h" al_GasPrice al_GasLimit al_Amount AccessListTx_Fee
  AccessListTx_Cost AccessListTx_EffectiveFee AccessListTx_EffectiveCost for h
  by unfold_locales
    (auto simp: AccessListTx_Validate_def AccessListTx_Fee_def AccessListTx_Cost_def AccessListTx_EffectiveFee_def
      AccessListTx_EffectiveCost_def fee_def intro: price_bound split: option.splits)

lemma effective_min:
  "0 \<le> tip \<Longrightarrow> tip \<le> cap \<Longrightarrow> 0 \<le> b \<Longrightarrow> \<exists>q. EffectiveGasPrice (Some b) cap tip = Ok q \<and> 0 \<le> q \<and> q \<le> cap"
  by (simp add: EffectiveGasPrice_def Let_def)

lemma DynamicFeeTx_valid:
  assumes "DynamicFeeTx_Validate h t = Ok ()"
  obtains tip cap where "df_GasTipCap t = Some tip" "df_GasFeeCap t = Some cap" "0 \<le> tip" "tip \<le> cap"
    "cap * uint (df_GasLimit t) < 2 ^ 256" "small (df_Amount t)"
  using assms
  by (auto simp: DynamicFeeTx_Validate_def DynamicFeeTx_Fee_def fee_def not_less split: option.splits intro: price_bound)

interpretation dynamicfee: txdata "DynamicFeeTx_Validate h" df_GasFeeCap df_GasLimit df_Amount DynamicFeeTx_Fee
  DynamicFeeTx_Cost DynamicFeeTx_EffectiveFee DynamicFeeTx_EffectiveCost for h
proof
  fix t p b
  assume v: "DynamicFeeTx_Validate h t = Ok ()" and p: "df_GasFeeCap t = Some p" and b: "0 \<le> (b :: int)"
  from DynamicFeeTx_valid [OF v] p obtain tip where tip: "df_GasTipCap t = Some tip" "0 \<le> tip" "tip \<le> p" by auto
  from effective_min [OF tip(2,3) b] p tip(1)
  show "\<exists>q. DynamicFeeTx_EffectiveFee (Some b) t = Ok (q * uint (df_GasLimit t)) \<and> 0 \<le> q \<and> q \<le> p"
    by (auto simp: DynamicFeeTx_EffectiveFee_def DynamicFeeTx_EffectiveGasPrice_def fee_def)
next
  fix t
  assume "DynamicFeeTx_Validate h t = Ok ()"
  then show "\<exists>p. df_GasFeeCap t = Some p \<and> 0 \<le> p \<and> p * uint (df_GasLimit t) < 2 ^ 256"
    by (rule DynamicFeeTx_valid) auto
next
  fix t
  assume "DynamicFeeTx_Validate h t = Ok ()"
  then show "small (df_Amount t)" by (rule DynamicFeeTx_valid)
qed (simp_all add: DynamicFeeTx_Fee_def DynamicFeeTx_Cost_def DynamicFeeTx_EffectiveCost_def)

section \<open>Round trip lemmas\<close>

lemma safe_opt_small: "eth_laws h \<Longrightarrow> small v \<Longrightarrow> safe_opt h v = Ok v"
  by (cases v) (auto simp: safe_opt_def SafeNewIntFromBigInt_def eth_laws_def small_def)

lemma to_roundtrip: "eth_laws h \<Longrightarrow> \<forall>a. to = Some a \<longrightarrow> length a = 20 \<Longrightarrow> get_to h (set_to h to) = to"
  by (cases to) (auto simp: get_to_def set_to_def eth_laws_def)

lemma raw_set_value: "small v \<Longrightarrow> or_zero (raw_value (set_value v [])) = or_zero v"
  by (cases v) (auto simp: raw_value_def set_value_def or_zero_def small_def SetBytes_Bytes Bytes_eq_Nil)

lemma access_roundtrip:
  assumes "eth_laws h" "\<forall>t \<in> set (or_empty ts). length (eat_Address t) = 20 \<and> (\<forall>x \<in> set (eat_StorageKeys t). length x = 32)"
  shows "or_empty (case NewAccessList h ts of None \<Rightarrow> None | Some al \<Rightarrow> ToEthAccessList h al) = or_empty ts"
proof (cases ts)
  case (Some us)
  have "map (HexToHash h) (map (Hash_Hex h) ks) = ks" if "\<forall>x \<in> set ks. length x = 32" for ks
    using that assms(1) by (induction ks) (auto simp: eth_laws_def)
  then have "\<lparr>eat_Address = HexToAddress h (Address_Hex h (eat_Address t)),
      eat_StorageKeys = map (HexToHash h) (map (Hash_Hex h) (eat_StorageKeys t))\<rparr> = t" if "t \<in> set us" for t
    using that assms Some by (auto simp: eth_laws_def or_empty_def)
  then show ?thesis using Some
    by (auto simp: NewAccessList_def ToEthAccessList_def or_empty_def comp_def intro!: map_idI)
qed (simp add: NewAccessList_def or_empty_def)

lemma ref_eth_laws: "eth_laws ref_eth"
proof -
  have "map (\<lambda>ch. word_of_nat (of_char ch)) (map (\<lambda>w. char_of (unat w)) a) = a" for a :: bytes
  proof -
    have "unat w < 256" for w :: byte using unsigned_less [of w] by simp
    then show ?thesis by (simp add: comp_def)
  qed
  then show ?thesis
    by (auto simp: eth_laws_def ref_eth_def EvmFns.defs EthFns.defs ref_evm_def)
qed

section \<open>Properties\<close>

text \<open>C10: A transaction of any kind that passes validation has well-defined, bounded charges: its
  fee is below \<open>2\<^sup>2\<^sup>5\<^sup>6\<close>, its cost below \<open>2\<^sup>2\<^sup>5\<^sup>7\<close>, and for every base fee the effective fee and cost
  exist, are not negative, and do not exceed the static ones.\<close>

theorem tx_charges_bounded:
  assumes "TxData_Validate h t = Ok ()" "0 \<le> b"
  shows "\<exists>f c ef ec. Fee t = Ok f \<and> Cost t = Ok c \<and> EffectiveFee (Some b) t = Ok ef \<and> EffectiveCost (Some b) t = Ok ec \<and>
    0 \<le> ef \<and> ef \<le> f \<and> f < 2 ^ 256 \<and> f \<le> c \<and> c < 2 ^ 257 \<and> c - f = ec - ef"
proof (cases t)
  case (TxLegacy u)
  with assms show ?thesis using legacy.fees [of h u b] by simp
next
  case (TxAccessList u)
  with assms show ?thesis using accesslist.fees [of h u b] by simp
next
  case (TxDynamicFee u)
  with assms show ?thesis using dynamicfee.fees [of h u b] by simp
qed

theorem tx_charges_bounded_witness:
  "\<exists>f ef. Fee (TxDynamicFee ref_dynamic) = Ok f \<and> EffectiveFee (Some 3) (TxDynamicFee ref_dynamic) = Ok ef \<and> ef \<le> f"
proof -
  have "TxData_Validate ref_eth (TxDynamicFee ref_dynamic) = Ok ()"
    by (simp add: ref_dynamic_def DynamicFeeTx_Validate_def DynamicFeeTx_Fee_def fee_def check_to_def small_def)
  from tx_charges_bounded [OF this, of 3] show ?thesis by auto
qed

text \<open>The chain identifier derived from a signature value is the EIP-155 one, on the fast
  64-bit path and on the general path alike: 27 and 28 are unprotected, \<open>2c + 35\<close> and \<open>2c + 36\<close> give
  \<open>c\<close>, and every other value below 35 gives none.\<close>

theorem derive_chain_id_exact:
  "DeriveChainID (Some v) = (if v = 27 \<or> v = 28 then Some 0 else if v < 35 then None else Some ((v - 35) div 2))"
proof (cases "1 \<le> v \<and> BitLen v \<le> 64")
  case True
  then have v: "1 \<le> v" "v < 2 ^ 64" using BitLen_le [of v 64] by (auto simp: abs_if split: if_splits)
  let ?u = "word_of_int v :: uint64"
  have u: "uint ?u = v" using v by (simp add: uint_word_of_int_eq take_bit_int_eq_self)
  have eqs: "?u = 27 \<longleftrightarrow> v = 27" "?u = 28 \<longleftrightarrow> v = 28" "?u < 35 \<longleftrightarrow> v < 35"
    using u by (simp_all add: word_uint_eq_iff word_less_def)
  have "uint ((?u - 35) div 2) = (v - 35) div 2" if "35 \<le> v"
  proof -
    have "(35 :: uint64) \<le> ?u" using that u by (simp add: word_le_def)
    then have "uint (?u - 35) = v - 35" using u by (simp add: uint_minus_simple_alt)
    then show ?thesis by (simp add: uint_div)
  qed
  with True v eqs show ?thesis by (auto simp: DeriveChainID_def Let_def)
next
  case False
  moreover have "\<not> BitLen v \<le> 64 \<Longrightarrow> 2 ^ 64 \<le> \<bar>v\<bar>" by (simp only: BitLen_le not_less)
  ultimately show ?thesis by (auto simp: DeriveChainID_def)
qed

text \<open>Converting an Ethereum transaction into its stored form always succeeds when its numbers
  fit in 256 bits, and converting it back gives the same transaction: every field its kind has is
  preserved, up to nil standing for zero or for an empty list.\<close>

lemma tx_roundtrip:
  assumes "eth_laws h" "tx_wf tx"
  shows "\<exists>t. NewTxDataFromTx h tx = Ok t \<and> same_tx tx (AsEthereumData h t)"
proof -
  have s: "safe_opt h (tx_Value tx) = Ok (tx_Value tx)" "safe_opt h (tx_GasPrice tx) = Ok (tx_GasPrice tx)"
      "safe_opt h (tx_GasFeeCap tx) = Ok (tx_GasFeeCap tx)" "safe_opt h (tx_GasTipCap tx) = Ok (tx_GasTipCap tx)"
    using assms by (auto simp: tx_wf_def intro!: safe_opt_small)
  have to: "get_to h (set_to h (tx_To tx)) = tx_To tx" using assms by (intro to_roundtrip) (auto simp: tx_wf_def)
  have al: "or_empty (case NewAccessList h (tx_AccessList tx) of None \<Rightarrow> None | Some al \<Rightarrow> ToEthAccessList h al) =
      or_empty (tx_AccessList tx)"
    using assms by (intro access_roundtrip) (auto simp: tx_wf_def)
  have sig: "or_zero (raw_value (set_value (tx_V tx) [])) = or_zero (tx_V tx)"
      "or_zero (raw_value (set_value (tx_R tx) [])) = or_zero (tx_R tx)"
      "or_zero (raw_value (set_value (tx_S tx) [])) = or_zero (tx_S tx)"
    using assms(2) by (auto simp: tx_wf_def intro!: raw_set_value)
  have chain: "\<forall>n. tx_ChainId tx = Some n \<longrightarrow> NewIntFromBigInt h n = Ok n"
    using assms by (auto simp: tx_wf_def small_def eth_laws_def)
  show ?thesis
  proof (cases "tx_Type tx")
    case DynamicFeeTxType
    then show ?thesis using s to al sig chain
      by (cases "tx_ChainId tx")
        (auto simp: NewTxDataFromTx_def newDynamicFeeTx_def DynamicFeeTx_SetSignatureValues_def same_tx_def
          DynamicFeeTx_AsEthereumData_def DynamicFeeTx_GetRawSignatureValues_def rawSignatureValues_def
          DynamicFeeTx_GetAccessList_def Let_def)
  next
    case AccessListTxType
    then show ?thesis using s to al sig chain
      by (cases "tx_ChainId tx")
        (auto simp: NewTxDataFromTx_def newAccessListTx_def AccessListTx_SetSignatureValues_def same_tx_def
          AccessListTx_AsEthereumData_def AccessListTx_GetRawSignatureValues_def rawSignatureValues_def
          AccessListTx_GetAccessList_def Let_def)
  qed (use s to sig in \<open>auto simp: NewTxDataFromTx_def newLegacyTx_def LegacyTx_SetSignatureValues_def same_tx_def
      LegacyTx_AsEthereumData_def LegacyTx_GetRawSignatureValues_def rawSignatureValues_def Let_def\<close>)
qed

end
