(* ===== verification/Encoding.thy ===== *)
theory Encoding
  imports EvmTx
begin

text \<open>
  Decoding of transactions written before the change of the Ethereum message format,
  \<open>src/app/encoding\<close>: a registry that unpacks the old payload of \<open>MsgEthereumTx\<close> into the new message
  (\<open>codec.go\<close>), and a decoder that retries with it and rewrites the messages (\<open>tx.go\<close>).

  The protobuf decoders of the generated messages, the new \<open>MsgEthereumTx\<close> of the EVM module (type
  \<open>'n\<close>), the inner registry and the SDK's decoder and transaction builder are parameters.
\<close>

section \<open>Values\<close>

definition msgEthereumTxTypeURL :: string where
  "msgEthereumTxTypeURL = ''cosmos.evm.vm.v1.MsgEthereumTx''"

definition legacyTxTypeURL :: string where
  "legacyTxTypeURL = ''cosmos.evm.vm.v1.LegacyTx''"

definition dynamicFeeTxTypeURL :: string where
  "dynamicFeeTxTypeURL = ''cosmos.evm.vm.v1.DynamicFeeTx''"

definition accessListTxTypeURL :: string where
  "accessListTxTypeURL = ''cosmos.evm.vm.v1.AccessListTx''"

text \<open>A protobuf \<open>Any\<close> with the Go value it caches.\<close>

datatype 'n cached = NoValue | CachedTxData TxData | CachedMsg 'n | CachedOther

record 'n AnyMsg =
  any_TypeUrl :: string
  any_Value :: bytes
  any_Cached :: "'n cached"

text \<open>The old message; its other fields are not read.\<close>

record 'n LegacyMsg =
  lm_Data :: "'n AnyMsg option"

text \<open>The pointer an \<open>Any\<close> is unpacked into: to the old \<open>TxData\<close> (nil or not), to \<open>sdk.Msg\<close>, or another.\<close>

datatype iface = PtrTxData bool | PtrMsg | PtrOther

text \<open>What is stored through the pointer.\<close>

datatype ('n, 'o) stored = StTxData TxData | StMsg 'n | StOther 'o

datatype Signer = LatestSignerForChainID int | HomesteadSigner

datatype 'p resolved = LegacyTxMsg | DynamicFeeTxMsg | AccessListTxMsg | LegacyEthereumTxMsg | ResolvedInner 'p

record ('n, 'z) ProtoFns =
  pf_eth :: "'z EthFns_scheme"
  pf_LegacyTx :: "bytes \<Rightarrow> LegacyTx outcome"
  pf_DynamicFeeTx :: "bytes \<Rightarrow> DynamicFeeTx outcome"
  pf_AccessListTx :: "bytes \<Rightarrow> AccessListTx outcome"
  pf_MsgEthereumTx :: "bytes \<Rightarrow> 'n LegacyMsg outcome"
  pf_AnyOfTxData :: "TxData \<Rightarrow> 'n AnyMsg outcome"
  pf_AnyOfMsg :: "'n \<Rightarrow> 'n AnyMsg outcome"
  pf_FromEthereumTx :: "EthTxData option \<Rightarrow> 'n"
  pf_FromSignedEthereumTx :: "EthTxData \<Rightarrow> Signer \<Rightarrow> 'n \<Rightarrow> 'n"
  pf_ChainId :: "EthTxData \<Rightarrow> int option"

record ('n, 'o, 'p) Registry =
  rg_Resolve :: "string \<Rightarrow> 'p resolved outcome"
  rg_UnpackAny :: "'n AnyMsg option \<Rightarrow> iface \<Rightarrow> (('n, 'o) stored \<times> 'n AnyMsg option) outcome"

section \<open>The registry\<close>

definition TrimSlash :: "string \<Rightarrow> string" where
  "TrimSlash url = (if has_prefix url ''/'' then tl url else url)"

definition isCosmosEthereumTxTypeURL :: "string \<Rightarrow> bool" where
  "isCosmosEthereumTxTypeURL typeURL = contains typeURL msgEthereumTxTypeURL"

definition legacySigner :: "int option \<Rightarrow> Signer" where
  "legacySigner chainID = (case chainID of
      Some c \<Rightarrow> if 0 < c then LatestSignerForChainID c else HomesteadSigner
    | None \<Rightarrow> HomesteadSigner)"

definition Compat_Resolve :: "('n, 'o, 'p) Registry \<Rightarrow> string \<Rightarrow> 'p resolved outcome" where
  "Compat_Resolve inner typeURL =
     (let normalized = TrimSlash typeURL in
      if normalized = legacyTxTypeURL then Ok LegacyTxMsg
      else if normalized = dynamicFeeTxTypeURL then Ok DynamicFeeTxMsg
      else if normalized = accessListTxTypeURL then Ok AccessListTxMsg
      else rg_Resolve inner typeURL)"

text \<open>The part of \<open>UnpackAny\<close> that unpacks one of the three transaction types; \<open>None\<close> for another URL.\<close>

definition unpack_txdata :: "('n, 'z) ProtoFns \<Rightarrow> string \<Rightarrow> bytes \<Rightarrow> TxData option outcome" where
  "unpack_txdata pf normalized v =
     (if normalized = legacyTxTypeURL then bindO (pf_LegacyTx pf v) (\<lambda>t. Ok (Some (TxLegacy t)))
      else if normalized = dynamicFeeTxTypeURL then bindO (pf_DynamicFeeTx pf v) (\<lambda>t. Ok (Some (TxDynamicFee t)))
      else if normalized = accessListTxTypeURL then bindO (pf_AccessListTx pf v) (\<lambda>t. Ok (Some (TxAccessList t)))
      else Ok None)"

text \<open>The old message as the evm types see it, and the new message made of its transaction.\<close>

definition any_tx :: "'n AnyMsg option \<Rightarrow> AnyTx" where
  "any_tx a = (case a of None \<Rightarrow> AnyNil
     | Some a \<Rightarrow> (case any_Cached a of CachedTxData t \<Rightarrow> AnyTxData t | _ \<Rightarrow> AnyOtherValue))"

definition convert_legacy :: "('n, 'z) ProtoFns \<Rightarrow> 'n LegacyMsg \<Rightarrow> 'n" where
  "convert_legacy pf legacyMsg =
     (let legacyTx = AsTransaction (pf_eth pf) (any_tx (lm_Data legacyMsg));
          newMsg = pf_FromEthereumTx pf legacyTx in
      case legacyTx of
        None \<Rightarrow> newMsg
      | Some t \<Rightarrow> pf_FromSignedEthereumTx pf t (legacySigner (pf_ChainId pf t)) newMsg)"

text \<open>\<open>UnpackInterfaces\<close> of the old message; the \<open>Any\<close> it holds is replaced in place.\<close>

definition UnpackInterfaces ::
    "('n AnyMsg option \<Rightarrow> iface \<Rightarrow> (('n, 'o) stored \<times> 'n AnyMsg option) outcome) \<Rightarrow> 'n LegacyMsg \<Rightarrow> 'n LegacyMsg outcome" where
  "UnpackInterfaces unpackAny msg = (case lm_Data msg of
      None \<Rightarrow> Ok msg
    | Some data \<Rightarrow> bindO (unpackAny (Some data) (PtrTxData True)) (\<lambda>(_, data'). Ok (msg\<lparr>lm_Data := data'\<rparr>)))"

text \<open>
  \<open>UnpackAny\<close> calls itself on the payload of the old message; \<open>n\<close> bounds the nesting.
\<close>

primrec unpack_at :: "('n, 'z) ProtoFns \<Rightarrow> ('n, 'o, 'p) Registry \<Rightarrow> nat \<Rightarrow> 'n AnyMsg option \<Rightarrow> iface \<Rightarrow>
    (('n, 'o) stored \<times> 'n AnyMsg option) outcome" where
  "unpack_at pf inner 0 a i = Panic ''stack overflow''"
| "unpack_at pf inner (Suc n) a i = (case a of
      None \<Rightarrow> rg_UnpackAny inner a i
    | Some any \<Rightarrow>
        let normalized = TrimSlash (any_TypeUrl any) in
        bindO (if i = PtrTxData True then unpack_txdata pf normalized (any_Value any) else Ok None) (\<lambda>concrete.
        case concrete of
          Some t \<Rightarrow> bindO (pf_AnyOfTxData pf t) (\<lambda>cached. Ok (StTxData t, Some cached))
        | None \<Rightarrow>
            if isCosmosEthereumTxTypeURL (any_TypeUrl any) then
              (case pf_MsgEthereumTx pf (any_Value any) of
                Ok legacyMsg \<Rightarrow>
                  if lm_Data legacyMsg = None then rg_UnpackAny inner a i
                  else bindO (UnpackInterfaces (unpack_at pf inner n) legacyMsg) (\<lambda>legacyMsg.
                    let newMsg = convert_legacy pf legacyMsg in
                    if i = PtrMsg then bindO (pf_AnyOfMsg pf newMsg) (\<lambda>cached. Ok (StMsg newMsg, Some cached))
                    else rg_UnpackAny inner a i)
              | Err _ \<Rightarrow> rg_UnpackAny inner a i
              | Panic p \<Rightarrow> Panic p)
            else rg_UnpackAny inner a i))"

definition nesting :: "'n AnyMsg option \<Rightarrow> nat" where
  "nesting a = (case a of None \<Rightarrow> 0 | Some any \<Rightarrow> length (any_Value any))"

definition Compat_UnpackAny :: "('n, 'z) ProtoFns \<Rightarrow> ('n, 'o, 'p) Registry \<Rightarrow> 'n AnyMsg option \<Rightarrow> iface \<Rightarrow>
    (('n, 'o) stored \<times> 'n AnyMsg option) outcome" where
  "Compat_UnpackAny pf inner a i = unpack_at pf inner (Suc (nesting a)) a i"

definition NewEthereumTxCompatRegistry :: "('n, 'z) ProtoFns \<Rightarrow> ('n, 'o, 'p) Registry \<Rightarrow> ('n, 'o, 'p) Registry" where
  "NewEthereumTxCompatRegistry pf inner = \<lparr>rg_Resolve = Compat_Resolve inner, rg_UnpackAny = Compat_UnpackAny pf inner\<rparr>"

definition LegacyTxDecode_Resolve :: "('n, 'o, 'p) Registry \<Rightarrow> string \<Rightarrow> 'p resolved outcome" where
  "LegacyTxDecode_Resolve wrapped typeURL =
     (if TrimSlash typeURL = msgEthereumTxTypeURL then Ok LegacyEthereumTxMsg else rg_Resolve wrapped typeURL)"

definition LegacyTxDecodeRegistry :: "('n, 'o, 'p) Registry \<Rightarrow> ('n, 'o, 'p) Registry" where
  "LegacyTxDecodeRegistry wrapped = wrapped\<lparr>rg_Resolve := LegacyTxDecode_Resolve wrapped\<rparr>"

section \<open>Errors of the decoder\<close>

text \<open>An error of the decoder is the chain of its messages, from the outermost to the innermost one wrapped.\<close>

definition isUnknownFieldProtoErr :: "string \<Rightarrow> bool" where
  "isUnknownFieldProtoErr s \<longleftrightarrow> contains s ''unknown field'' \<or> contains s ''errUnknownField'' \<or>
     contains s ''illegal tag'' \<or> contains s ''TagNum'' \<or> contains s ''parse error''"

primrec IsLegacyMsgEthereumTxDecodeErr :: "string list \<Rightarrow> bool" where
  "IsLegacyMsgEthereumTxDecodeErr [] = False"
| "IsLegacyMsgEthereumTxDecodeErr (s # chain) =
     (if contains s ''MsgEthereumTx'' \<and> contains s ''TagNum: 1'' \<and> isUnknownFieldProtoErr s then True
      else IsLegacyMsgEthereumTxDecodeErr chain)"

section \<open>The decoder\<close>

datatype ('n, 'o) txmsg = LegacyEthereumTx "'n LegacyMsg" | NewEthereumTx 'n | OtherMsg 'o

record FeeInfo =
  fi_Gas :: uint64
  fi_Fee :: Coins
  fi_Payer :: bytes
  fi_Granter :: bytes

text \<open>
  A decoded transaction: its messages, and what it offers through the optional interfaces the code
  asks for (\<open>None\<close> when it does not implement one).
\<close>

record ('n, 'o, 'sig, 'ext) DecodedTx =
  dt_Msgs :: "('n, 'o) txmsg list"
  dt_Fee :: "FeeInfo option"
  dt_Memo :: "string option"
  dt_TimeoutTimestamp :: "int option"
  dt_TimeoutHeight :: "uint64 option"
  dt_Unordered :: "bool option"
  dt_Signatures :: "'sig list option"
  dt_Extensions :: "('ext list \<times> 'ext list) option"

record ('b, 'n, 'o, 'sig, 'ext) TxBuilder =
  tb_New :: 'b
  tb_SetGasLimit :: "uint64 \<Rightarrow> 'b \<Rightarrow> 'b"
  tb_SetFeeAmount :: "Coins \<Rightarrow> 'b \<Rightarrow> 'b"
  tb_SetFeePayer :: "bytes \<Rightarrow> 'b \<Rightarrow> 'b"
  tb_SetFeeGranter :: "bytes \<Rightarrow> 'b \<Rightarrow> 'b"
  tb_SetMemo :: "string \<Rightarrow> 'b \<Rightarrow> 'b"
  tb_SetTimeoutTimestamp :: "int \<Rightarrow> 'b \<Rightarrow> 'b"
  tb_SetTimeoutHeight :: "uint64 \<Rightarrow> 'b \<Rightarrow> 'b"
  tb_SetUnordered :: "bool \<Rightarrow> 'b \<Rightarrow> 'b"
  tb_SetMsgs :: "('n, 'o) txmsg list \<Rightarrow> 'b \<Rightarrow> 'b outcome"
  tb_SetSignatures :: "'sig list \<Rightarrow> 'b \<Rightarrow> 'b outcome"
  tb_HasExtensions :: bool
  tb_SetExtensionOptions :: "'ext list \<Rightarrow> 'b \<Rightarrow> 'b"
  tb_SetNonCriticalExtensionOptions :: "'ext list \<Rightarrow> 'b \<Rightarrow> 'b"
  tb_GetTx :: "'b \<Rightarrow> ('n, 'o, 'sig, 'ext) DecodedTx"
  tb_GetSignaturesV2 :: "('n, 'o, 'sig, 'ext) DecodedTx \<Rightarrow> 'sig list outcome"

definition isLegacy :: "('n, 'o) txmsg \<Rightarrow> bool" where
  "isLegacy m = (case m of LegacyEthereumTx _ \<Rightarrow> True | _ \<Rightarrow> False)"

definition normalize_msg :: "('n, 'z) ProtoFns \<Rightarrow> ('n, 'o) txmsg \<Rightarrow> ('n, 'o) txmsg" where
  "normalize_msg pf m = (case m of LegacyEthereumTx l \<Rightarrow> NewEthereumTx (convert_legacy pf l) | _ \<Rightarrow> m)"

definition when_some :: "'a option \<Rightarrow> ('a \<Rightarrow> 'b \<Rightarrow> 'b) \<Rightarrow> 'b \<Rightarrow> 'b" where
  "when_some x f b = (case x of None \<Rightarrow> b | Some a \<Rightarrow> f a b)"

definition copy_fee :: "('b, 'n, 'o, 'sig, 'ext) TxBuilder \<Rightarrow> FeeInfo \<Rightarrow> 'b \<Rightarrow> 'b" where
  "copy_fee tb f b = tb_SetFeeGranter tb (fi_Granter f) (tb_SetFeePayer tb (fi_Payer f)
     (tb_SetFeeAmount tb (fi_Fee f) (tb_SetGasLimit tb (fi_Gas f) b)))"

definition copy_fields :: "('b, 'n, 'o, 'sig, 'ext) TxBuilder \<Rightarrow> ('n, 'o, 'sig, 'ext) DecodedTx \<Rightarrow> 'b \<Rightarrow> 'b" where
  "copy_fields tb tx b =
     when_some (dt_Unordered tx) (tb_SetUnordered tb)
     (when_some (dt_TimeoutHeight tx) (tb_SetTimeoutHeight tb)
     (when_some (dt_TimeoutTimestamp tx) (tb_SetTimeoutTimestamp tb)
     (when_some (dt_Memo tx) (tb_SetMemo tb)
     (when_some (dt_Fee tx) (copy_fee tb) b))))"

definition copy_signatures :: "('b, 'n, 'o, 'sig, 'ext) TxBuilder \<Rightarrow> ('n, 'o, 'sig, 'ext) DecodedTx \<Rightarrow> 'b \<Rightarrow> 'b outcome" where
  "copy_signatures tb tx b = (case dt_Signatures tx of
      None \<Rightarrow> Ok b
    | Some _ \<Rightarrow> bindO (tb_GetSignaturesV2 tb tx) (\<lambda>sigs. if sigs \<noteq> [] then tb_SetSignatures tb sigs b else Ok b))"

definition copy_extensions :: "('b, 'n, 'o, 'sig, 'ext) TxBuilder \<Rightarrow> ('n, 'o, 'sig, 'ext) DecodedTx \<Rightarrow> 'b \<Rightarrow> 'b" where
  "copy_extensions tb tx b = (case dt_Extensions tx of
      None \<Rightarrow> b
    | Some (opts, nonCritical) \<Rightarrow>
        if tb_HasExtensions tb then tb_SetNonCriticalExtensionOptions tb nonCritical (tb_SetExtensionOptions tb opts b)
        else b)"

definition normalizeLegacyEthereumMsgs ::
    "('n, 'z) ProtoFns \<Rightarrow> ('b, 'n, 'o, 'sig, 'ext) TxBuilder \<Rightarrow> ('n, 'o, 'sig, 'ext) DecodedTx \<Rightarrow>
     ('n, 'o, 'sig, 'ext) DecodedTx outcome" where
  "normalizeLegacyEthereumMsgs pf tb tx =
     (let newMsgs = map (normalize_msg pf) (dt_Msgs tx) in
      if \<not> list_ex isLegacy (dt_Msgs tx) then Ok tx
      else bindO (tb_SetMsgs tb newMsgs (copy_fields tb tx (tb_New tb))) (\<lambda>b.
           bindO (copy_signatures tb tx b) (\<lambda>b.
           Ok (tb_GetTx tb (copy_extensions tb tx b)))))"

text \<open>
  The wrapper's decoder.  \<open>defaultDecoder\<close> is that of the inner configuration, \<open>decoderFor\<close> makes one for
  a registry; \<open>codec\<close> is \<open>None\<close> when the wrapper has no codec.
\<close>

definition TxDecoder ::
    "('n, 'z) ProtoFns \<Rightarrow> ('b, 'n, 'o, 'sig, 'ext) TxBuilder \<Rightarrow> (bytes \<Rightarrow> string list + ('n, 'o, 'sig, 'ext) DecodedTx) \<Rightarrow>
     (('n, 'u, 'p) Registry \<Rightarrow> bytes \<Rightarrow> string list + ('n, 'o, 'sig, 'ext) DecodedTx) \<Rightarrow> ('n, 'u, 'p) Registry option \<Rightarrow>
     bytes \<Rightarrow> (string list + ('n, 'o, 'sig, 'ext) DecodedTx) outcome" where
  "TxDecoder pf tb defaultDecoder decoderFor codec txBytes =
     (let first = defaultDecoder txBytes;
          second = (case (first, codec) of
              (Inl err, Some inner) \<Rightarrow>
                if IsLegacyMsgEthereumTxDecodeErr err then
                  (case decoderFor (LegacyTxDecodeRegistry (NewEthereumTxCompatRegistry pf inner)) txBytes of
                     Inr fallbackTx \<Rightarrow> Inr fallbackTx
                   | Inl _ \<Rightarrow> first)
                else first
            | _ \<Rightarrow> first) in
      case second of
        Inl err \<Rightarrow> Ok (Inl err)
      | Inr tx \<Rightarrow> bindO (normalizeLegacyEthereumMsgs pf tb tx) (\<lambda>tx. Ok (Inr tx)))"

section \<open>Specification\<close>

text \<open>The URL of a transaction type, and its stored form before the change of format.\<close>

fun url_of :: "TxData \<Rightarrow> string" where
  "url_of (TxLegacy _) = legacyTxTypeURL"
| "url_of (TxAccessList _) = accessListTxTypeURL"
| "url_of (TxDynamicFee _) = dynamicFeeTxTypeURL"

definition old_any :: "string \<Rightarrow> bytes \<Rightarrow> 'n AnyMsg" where
  "old_any url v = \<lparr>any_TypeUrl = url, any_Value = v, any_Cached = NoValue\<rparr>"

text \<open>
  Protobuf: \<open>v\<close> unmarshals to the transaction \<open>t\<close> and \<open>vm\<close> to the old message that holds \<open>v\<close>; a message is
  longer than the one it contains; \<open>NewAnyWithValue\<close> caches the value it packs.
\<close>

definition stored_as :: "('n, 'z) ProtoFns \<Rightarrow> TxData \<Rightarrow> bytes \<Rightarrow> bytes \<Rightarrow> bool" where
  "stored_as pf t v vm \<longleftrightarrow>
     (case t of
        TxLegacy l \<Rightarrow> pf_LegacyTx pf v = Ok l
      | TxAccessList l \<Rightarrow> pf_AccessListTx pf v = Ok l
      | TxDynamicFee l \<Rightarrow> pf_DynamicFeeTx pf v = Ok l) \<and>
     pf_MsgEthereumTx pf vm = Ok \<lparr>lm_Data = Some (old_any (url_of t) v)\<rparr> \<and> length v < length vm"

definition any_laws :: "('n, 'z) ProtoFns \<Rightarrow> bool" where
  "any_laws pf \<longleftrightarrow> (\<forall>t. \<exists>a. pf_AnyOfTxData pf t = Ok a \<and> any_Cached a = CachedTxData t) \<and> (\<forall>m. is_Ok (pf_AnyOfMsg pf m))"

text \<open>The payload of an old message is shorter than the message.\<close>

definition nesting_law :: "('n, 'z) ProtoFns \<Rightarrow> bool" where
  "nesting_law pf \<longleftrightarrow> (\<forall>v l d. pf_MsgEthereumTx pf v = Ok l \<longrightarrow> lm_Data l = Some d \<longrightarrow> length (any_Value d) < length v)"

text \<open>
  The builder: every setter changes the field its getter reads.  \<open>full_tx\<close>: the transaction offers all
  interfaces and has a fee payer, as the SDK's transactions do.
\<close>

definition upd_fee :: "(FeeInfo \<Rightarrow> FeeInfo) \<Rightarrow> ('n, 'o, 'sig, 'ext) DecodedTx \<Rightarrow> ('n, 'o, 'sig, 'ext) DecodedTx" where
  "upd_fee f tx = tx\<lparr>dt_Fee := map_option f (dt_Fee tx)\<rparr>"

definition upd_ext :: "('ext list \<times> 'ext list \<Rightarrow> 'ext list \<times> 'ext list) \<Rightarrow> ('n, 'o, 'sig, 'ext) DecodedTx \<Rightarrow>
    ('n, 'o, 'sig, 'ext) DecodedTx" where
  "upd_ext f tx = tx\<lparr>dt_Extensions := map_option f (dt_Extensions tx)\<rparr>"

definition full_tx :: "('n, 'o, 'sig, 'ext) DecodedTx \<Rightarrow> bool" where
  "full_tx tx \<longleftrightarrow> (case dt_Fee tx of None \<Rightarrow> False | Some f \<Rightarrow> fi_Payer f \<noteq> []) \<and> dt_Memo tx \<noteq> None \<and>
     dt_TimeoutTimestamp tx \<noteq> None \<and> dt_TimeoutHeight tx \<noteq> None \<and> dt_Unordered tx \<noteq> None \<and>
     dt_Signatures tx \<noteq> None \<and> dt_Extensions tx \<noteq> None"

definition builder_laws :: "('b, 'n, 'o, 'sig, 'ext) TxBuilder \<Rightarrow> bool" where
  "builder_laws tb \<longleftrightarrow>
     (let get = tb_GetTx tb in
      dt_Fee (get (tb_New tb)) \<noteq> None \<and> dt_Signatures (get (tb_New tb)) = Some [] \<and>
      dt_Extensions (get (tb_New tb)) \<noteq> None \<and> tb_HasExtensions tb \<and>
      (\<forall>g b. get (tb_SetGasLimit tb g b) = upd_fee (\<lambda>f. f\<lparr>fi_Gas := g\<rparr>) (get b)) \<and>
      (\<forall>a b. get (tb_SetFeeAmount tb a b) = upd_fee (\<lambda>f. f\<lparr>fi_Fee := a\<rparr>) (get b)) \<and>
      (\<forall>p b. p \<noteq> [] \<longrightarrow> get (tb_SetFeePayer tb p b) = upd_fee (\<lambda>f. f\<lparr>fi_Payer := p\<rparr>) (get b)) \<and>
      (\<forall>p b. get (tb_SetFeeGranter tb p b) = upd_fee (\<lambda>f. f\<lparr>fi_Granter := p\<rparr>) (get b)) \<and>
      (\<forall>x b. get (tb_SetMemo tb x b) = (get b)\<lparr>dt_Memo := Some x\<rparr>) \<and>
      (\<forall>x b. get (tb_SetTimeoutTimestamp tb x b) = (get b)\<lparr>dt_TimeoutTimestamp := Some x\<rparr>) \<and>
      (\<forall>x b. get (tb_SetTimeoutHeight tb x b) = (get b)\<lparr>dt_TimeoutHeight := Some x\<rparr>) \<and>
      (\<forall>x b. get (tb_SetUnordered tb x b) = (get b)\<lparr>dt_Unordered := Some x\<rparr>) \<and>
      (\<forall>x b. get (tb_SetExtensionOptions tb x b) = upd_ext (\<lambda>(_, n). (x, n)) (get b)) \<and>
      (\<forall>x b. get (tb_SetNonCriticalExtensionOptions tb x b) = upd_ext (\<lambda>(c, _). (c, x)) (get b)) \<and>
      (\<forall>ms b b'. tb_SetMsgs tb ms b = Ok b' \<longrightarrow> get b' = (get b)\<lparr>dt_Msgs := ms\<rparr>) \<and>
      (\<forall>xs b b'. tb_SetSignatures tb xs b = Ok b' \<longrightarrow> get b' = (get b)\<lparr>dt_Signatures := Some xs\<rparr>) \<and>
      (\<forall>tx xs. tb_GetSignaturesV2 tb tx = Ok xs \<longrightarrow> dt_Signatures tx = Some xs))"

section \<open>Reference environment\<close>

definition ref_pf :: "TxData \<Rightarrow> (EthTxData option, unit) ProtoFns" where
  "ref_pf t = \<lparr>pf_eth = ref_eth,
     pf_LegacyTx = (\<lambda>v. case t of TxLegacy l \<Rightarrow> Ok l | _ \<Rightarrow> Err ErrUnpackAny),
     pf_DynamicFeeTx = (\<lambda>v. case t of TxDynamicFee l \<Rightarrow> Ok l | _ \<Rightarrow> Err ErrUnpackAny),
     pf_AccessListTx = (\<lambda>v. case t of TxAccessList l \<Rightarrow> Ok l | _ \<Rightarrow> Err ErrUnpackAny),
     pf_MsgEthereumTx = (\<lambda>v. case v of [] \<Rightarrow> Err ErrUnpackAny | _ # v \<Rightarrow> Ok \<lparr>lm_Data = Some (old_any (url_of t) v)\<rparr>),
     pf_AnyOfTxData = (\<lambda>t. Ok \<lparr>any_TypeUrl = url_of t, any_Value = [], any_Cached = CachedTxData t\<rparr>),
     pf_AnyOfMsg = (\<lambda>m. Ok \<lparr>any_TypeUrl = msgEthereumTxTypeURL, any_Value = [], any_Cached = CachedMsg m\<rparr>),
     pf_FromEthereumTx = (\<lambda>e. e), pf_FromSignedEthereumTx = (\<lambda>e _ _. Some e), pf_ChainId = ed_ChainID\<rparr>"

definition ref_inner :: "(EthTxData option, unit, unit) Registry" where
  "ref_inner = \<lparr>rg_Resolve = (\<lambda>_. Err ErrNotFound), rg_UnpackAny = (\<lambda>_ _. Err ErrUnpackAny)\<rparr>"

definition ref_blank_tx :: "(EthTxData option, nat, nat, nat) DecodedTx" where
  "ref_blank_tx = \<lparr>dt_Msgs = [], dt_Fee = Some \<lparr>fi_Gas = 0, fi_Fee = [], fi_Payer = [], fi_Granter = []\<rparr>, dt_Memo = Some [],
     dt_TimeoutTimestamp = Some 0, dt_TimeoutHeight = Some 0, dt_Unordered = Some False, dt_Signatures = Some [],
     dt_Extensions = Some ([], [])\<rparr>"

definition ref_builder :: "((EthTxData option, nat, nat, nat) DecodedTx, EthTxData option, nat, nat, nat) TxBuilder" where
  "ref_builder = \<lparr>tb_New = ref_blank_tx,
     tb_SetGasLimit = (\<lambda>g. upd_fee (\<lambda>f. f\<lparr>fi_Gas := g\<rparr>)), tb_SetFeeAmount = (\<lambda>a. upd_fee (\<lambda>f. f\<lparr>fi_Fee := a\<rparr>)),
     tb_SetFeePayer = (\<lambda>p. upd_fee (\<lambda>f. f\<lparr>fi_Payer := p\<rparr>)), tb_SetFeeGranter = (\<lambda>p. upd_fee (\<lambda>f. f\<lparr>fi_Granter := p\<rparr>)),
     tb_SetMemo = (\<lambda>x b. b\<lparr>dt_Memo := Some x\<rparr>), tb_SetTimeoutTimestamp = (\<lambda>x b. b\<lparr>dt_TimeoutTimestamp := Some x\<rparr>),
     tb_SetTimeoutHeight = (\<lambda>x b. b\<lparr>dt_TimeoutHeight := Some x\<rparr>), tb_SetUnordered = (\<lambda>x b. b\<lparr>dt_Unordered := Some x\<rparr>),
     tb_SetMsgs = (\<lambda>ms b. Ok (b\<lparr>dt_Msgs := ms\<rparr>)), tb_SetSignatures = (\<lambda>xs b. Ok (b\<lparr>dt_Signatures := Some xs\<rparr>)),
     tb_HasExtensions = True, tb_SetExtensionOptions = (\<lambda>x. upd_ext (\<lambda>(_, n). (x, n))),
     tb_SetNonCriticalExtensionOptions = (\<lambda>x. upd_ext (\<lambda>(c, _). (c, x))), tb_GetTx = (\<lambda>b. b),
     tb_GetSignaturesV2 = (\<lambda>tx. case dt_Signatures tx of None \<Rightarrow> Err ErrNotFound | Some xs \<Rightarrow> Ok xs)\<rparr>"

definition ref_old_tx :: "(EthTxData option, nat, nat, nat) DecodedTx" where
  "ref_old_tx = ref_blank_tx\<lparr>dt_Msgs := [OtherMsg 7, LegacyEthereumTx \<lparr>lm_Data = None\<rparr>],
     dt_Fee := Some \<lparr>fi_Gas = 21000, fi_Fee = [], fi_Payer = [1], fi_Granter = []\<rparr>, dt_Memo := Some ''m'',
     dt_Signatures := Some [4]\<rparr>"

section \<open>Lemmas\<close>

lemma has_prefix_refl [simp]: "has_prefix xs xs"
  using has_prefix_append [of xs "[]"] by simp

lemma contains_refl [simp]: "contains s s"
  by (subst contains.simps) simp

lemma contains_Cons: "contains s t \<Longrightarrow> contains (c # s) t"
  by (subst contains.simps) simp

lemma normalize_msg_not_legacy [simp]: "\<not> isLegacy (normalize_msg pf m)"
  by (simp add: normalize_msg_def isLegacy_def split: txmsg.splits)

lemma normalize_msg_other: "\<not> isLegacy m \<Longrightarrow> normalize_msg pf m = m"
  by (simp add: normalize_msg_def isLegacy_def split: txmsg.splits)

text \<open>Depth: with a bound larger than the payload the result no longer depends on it.\<close>

lemma UnpackInterfaces_cong:
  assumes "\<And>d i. lm_Data l = Some d \<Longrightarrow> f (Some d) i = g (Some d) i"
  shows "UnpackInterfaces f l = UnpackInterfaces g l"
  using assms by (cases "lm_Data l") (simp_all add: UnpackInterfaces_def)

lemma unpack_at_depth:
  assumes "nesting_law pf" "nesting a < n" "nesting a < m"
  shows "unpack_at pf inner n a i = unpack_at pf inner m a i"
  using assms(2,3)
proof (induction n arbitrary: m a i)
  case (Suc n)
  from Suc.prems(2) obtain k where m: "m = Suc k" by (cases m) auto
  show ?case
  proof (cases a)
    case (Some any)
    have eq: "UnpackInterfaces (unpack_at pf inner n) l = UnpackInterfaces (unpack_at pf inner k) l"
      if "pf_MsgEthereumTx pf (any_Value any) = Ok l" for l
    proof (rule UnpackInterfaces_cong)
      fix d i assume "lm_Data l = Some d"
      with that assms(1) have "length (any_Value d) < length (any_Value any)" by (auto simp: nesting_law_def)
      with Suc.prems show "unpack_at pf inner n (Some d) i = unpack_at pf inner k (Some d) i"
        by (intro Suc.IH) (auto simp: nesting_def Some m)
    qed
    show ?thesis by (cases "pf_MsgEthereumTx pf (any_Value any)") (simp_all add: m Some Let_def eq)
  qed (simp add: m)
qed simp

text \<open>Where the builder puts what is copied.\<close>

lemma builder_get:
  assumes "builder_laws tb"
  shows "tb_GetTx tb (tb_SetGasLimit tb g b) = upd_fee (\<lambda>f. f\<lparr>fi_Gas := g\<rparr>) (tb_GetTx tb b)"
    "tb_GetTx tb (tb_SetFeeAmount tb cs b) = upd_fee (\<lambda>f. f\<lparr>fi_Fee := cs\<rparr>) (tb_GetTx tb b)"
    "p \<noteq> [] \<Longrightarrow> tb_GetTx tb (tb_SetFeePayer tb p b) = upd_fee (\<lambda>f. f\<lparr>fi_Payer := p\<rparr>) (tb_GetTx tb b)"
    "tb_GetTx tb (tb_SetFeeGranter tb q b) = upd_fee (\<lambda>f. f\<lparr>fi_Granter := q\<rparr>) (tb_GetTx tb b)"
    "tb_GetTx tb (tb_SetMemo tb s b) = (tb_GetTx tb b)\<lparr>dt_Memo := Some s\<rparr>"
    "tb_GetTx tb (tb_SetTimeoutTimestamp tb ts b) = (tb_GetTx tb b)\<lparr>dt_TimeoutTimestamp := Some ts\<rparr>"
    "tb_GetTx tb (tb_SetTimeoutHeight tb ht b) = (tb_GetTx tb b)\<lparr>dt_TimeoutHeight := Some ht\<rparr>"
    "tb_GetTx tb (tb_SetUnordered tb u b) = (tb_GetTx tb b)\<lparr>dt_Unordered := Some u\<rparr>"
    "tb_GetTx tb (tb_SetExtensionOptions tb es b) = upd_ext (\<lambda>(_, n). (es, n)) (tb_GetTx tb b)"
    "tb_GetTx tb (tb_SetNonCriticalExtensionOptions tb ns b) = upd_ext (\<lambda>(c, _). (c, ns)) (tb_GetTx tb b)"
    "tb_HasExtensions tb"
  using assms by (simp_all add: builder_laws_def Let_def)

lemma copy_fields_get:
  assumes "builder_laws tb" "full_tx tx" "dt_Fee (tb_GetTx tb b) \<noteq> None"
  shows "tb_GetTx tb (copy_fields tb tx b) = (tb_GetTx tb b)\<lparr>dt_Fee := dt_Fee tx, dt_Memo := dt_Memo tx,
    dt_TimeoutTimestamp := dt_TimeoutTimestamp tx, dt_TimeoutHeight := dt_TimeoutHeight tx, dt_Unordered := dt_Unordered tx\<rparr>"
proof -
  from assms(2) obtain f where f: "dt_Fee tx = Some f" "fi_Payer f \<noteq> []" by (auto simp: full_tx_def split: option.splits)
  from assms(3) obtain f' where f': "dt_Fee (tb_GetTx tb b) = Some f'" by auto
  have fee: "tb_GetTx tb (copy_fee tb f b) = (tb_GetTx tb b)\<lparr>dt_Fee := Some f\<rparr>"
    using f(2) by (simp add: copy_fee_def builder_get [OF assms(1)] upd_fee_def f')
  from assms(2) show ?thesis
    by (auto simp: full_tx_def copy_fields_def when_some_def builder_get [OF assms(1)] f(1) fee)
qed

lemma copy_signatures_get:
  assumes "builder_laws tb" "copy_signatures tb tx b = Ok b'" "dt_Signatures tx \<noteq> None"
    and "dt_Signatures (tb_GetTx tb b) = Some []"
  shows "tb_GetTx tb b' = (tb_GetTx tb b)\<lparr>dt_Signatures := dt_Signatures tx\<rparr>"
proof -
  from assms(2,3) obtain sigs where get: "tb_GetSignaturesV2 tb tx = Ok sigs"
      and set: "(if sigs \<noteq> [] then tb_SetSignatures tb sigs b else Ok b) = Ok b'"
    by (auto simp: copy_signatures_def bindO_eq_Ok)
  from get assms(1) have sigs: "dt_Signatures tx = Some sigs" by (simp add: builder_laws_def Let_def)
  show ?thesis
  proof (cases sigs)
    case Nil
    with set sigs assms(4) show ?thesis by simp
  next
    case (Cons x xs)
    with set have "tb_SetSignatures tb sigs b = Ok b'" by simp
    with assms(1) sigs show ?thesis by (simp add: builder_laws_def Let_def)
  qed
qed

lemma copy_extensions_get:
  assumes "builder_laws tb" "dt_Extensions tx \<noteq> None" "dt_Extensions (tb_GetTx tb b) \<noteq> None"
  shows "tb_GetTx tb (copy_extensions tb tx b) = (tb_GetTx tb b)\<lparr>dt_Extensions := dt_Extensions tx\<rparr>"
  using assms(2,3) by (auto simp: copy_extensions_def builder_get [OF assms(1)] upd_ext_def)

lemma normalize_exact:
  assumes "builder_laws tb" "full_tx tx" "normalizeLegacyEthereumMsgs pf tb tx = Ok tx'"
  shows "tx' = tx\<lparr>dt_Msgs := map (normalize_msg pf) (dt_Msgs tx)\<rparr>"
proof (cases "list_ex isLegacy (dt_Msgs tx)")
  case False
  then have "map (normalize_msg pf) (dt_Msgs tx) = dt_Msgs tx"
    by (intro map_idI normalize_msg_other) (auto simp: list_ex_iff)
  with False assms(3) show ?thesis by (simp add: normalizeLegacyEthereumMsgs_def)
next
  case True
  let ?new = "tb_New tb" and ?ms = "map (normalize_msg pf) (dt_Msgs tx)"
  have new: "dt_Fee (tb_GetTx tb ?new) \<noteq> None" "dt_Signatures (tb_GetTx tb ?new) = Some []" "dt_Extensions (tb_GetTx tb ?new) \<noteq> None"
    using assms(1) by (simp_all add: builder_laws_def Let_def)
  note copied = copy_fields_get [OF assms(1,2) new(1)]
  from True assms(3) obtain b b' where msgs: "tb_SetMsgs tb ?ms (copy_fields tb tx ?new) = Ok b"
      and sigs: "copy_signatures tb tx b = Ok b'" and tx': "tx' = tb_GetTx tb (copy_extensions tb tx b')"
    by (auto simp: normalizeLegacyEthereumMsgs_def bindO_eq_Ok)
  from msgs assms(1) have b: "tb_GetTx tb b = (tb_GetTx tb (copy_fields tb tx ?new))\<lparr>dt_Msgs := ?ms\<rparr>"
    by (simp add: builder_laws_def Let_def)
  have full: "dt_Signatures tx \<noteq> None" "dt_Extensions tx \<noteq> None" using assms(2) by (simp_all add: full_tx_def)
  have b': "tb_GetTx tb b' = (tb_GetTx tb b)\<lparr>dt_Signatures := dt_Signatures tx\<rparr>"
    using new(2) by (intro copy_signatures_get [OF assms(1) sigs full(1)]) (simp add: b copied)
  have "tx' = (tb_GetTx tb b')\<lparr>dt_Extensions := dt_Extensions tx\<rparr>"
    unfolding tx' using new(3) by (intro copy_extensions_get [OF assms(1) full(2)]) (simp add: b' b copied)
  then show ?thesis by (intro DecodedTx.equality) (simp_all add: b' b copied)
qed

text \<open>Unpacking the payload of an old message.\<close>

lemma unpack_txdata_old: "stored_as pf t v vm \<Longrightarrow> unpack_txdata pf (TrimSlash (url_of t)) v = Ok (Some t)"
  by (cases t) (simp_all add: stored_as_def unpack_txdata_def TrimSlash_def legacyTxTypeURL_def accessListTxTypeURL_def
      dynamicFeeTxTypeURL_def)

lemma unpack_old:
  assumes "stored_as pf t v vm" "pf_AnyOfTxData pf t = Ok c"
  shows "unpack_at pf inner (Suc n) (Some (old_any (url_of t) v)) (PtrTxData True) = Ok (StTxData t, Some c)"
  using unpack_txdata_old [OF assms(1)] assms(2) by (simp add: old_any_def Let_def)

lemma ref_builder_laws: "builder_laws ref_builder"
  by (auto simp: builder_laws_def ref_builder_def ref_blank_tx_def split: option.splits)

section \<open>Properties\<close>

text \<open>C12: A transaction stored in the old format is read as the same transaction.  Whatever Ethereum
  transaction with numbers of at most 256 bits was packed into the old message, unpacking that
  message yields a new message made of a transaction with every field of the original, signed
  for the chain it names (or without a chain, when it names none), and does so without running
  out of nesting.
\<close>

theorem old_format_read_back:
  assumes "eth_laws (pf_eth pf)" "tx_wf tx" "NewTxDataFromTx (pf_eth pf) tx = Ok t" "stored_as pf t v vm" "any_laws pf"
    and "TrimSlash url = msgEthereumTxTypeURL"
  shows "\<exists>e c. same_tx tx e \<and> Compat_UnpackAny pf inner (Some (old_any url vm)) PtrMsg =
      Ok (StMsg (pf_FromSignedEthereumTx pf e (legacySigner (pf_ChainId pf e)) (pf_FromEthereumTx pf (Some e))), Some c)"
proof -
  let ?e = "AsEthereumData (pf_eth pf) t" and ?d = "old_any (url_of t) v"
  let ?m = "pf_FromSignedEthereumTx pf ?e (legacySigner (pf_ChainId pf ?e)) (pf_FromEthereumTx pf (Some ?e))"
  have same: "same_tx tx ?e" using tx_roundtrip [OF assms(1,2)] assms(3) by auto
  from assms(5) obtain c where c: "pf_AnyOfTxData pf t = Ok c" "any_Cached c = CachedTxData t"
    unfolding any_laws_def by blast
  from assms(5) obtain c' where c': "pf_AnyOfMsg pf ?m = Ok c'" unfolding any_laws_def is_Ok_iff by blast
  from assms(4) obtain n where n: "length vm = Suc n" by (cases "length vm") (auto simp: stored_as_def)
  have msg: "pf_MsgEthereumTx pf vm = Ok \<lparr>lm_Data = Some ?d\<rparr>" using assms(4) by (simp add: stored_as_def)
  have url: "isCosmosEthereumTxTypeURL url"
    using assms(6) by (cases url) (auto simp: TrimSlash_def isCosmosEthereumTxTypeURL_def contains_Cons split: if_splits)
  have conv: "convert_legacy pf \<lparr>lm_Data = Some c\<rparr> = ?m"
    by (simp add: convert_legacy_def AsTransaction_def any_tx_def c(2) Let_def)
  have ui: "UnpackInterfaces (unpack_at pf inner (Suc n)) \<lparr>lm_Data = Some ?d\<rparr> = Ok \<lparr>lm_Data = Some c\<rparr>"
    by (simp only: UnpackInterfaces_def LegacyMsg.select_convs option.case unpack_old [OF assms(4) c(1)]) simp
  have "Compat_UnpackAny pf inner (Some (old_any url vm)) PtrMsg = Ok (StMsg ?m, Some c')"
    using url ui by (simp add: Compat_UnpackAny_def nesting_def old_any_def [of url] n msg conv c' del: unpack_at.simps(2))
      (simp add: unpack_at.simps(2) [of pf inner "Suc n"] msg conv c' del: unpack_at.simps)
  with same show ?thesis by blast
qed

theorem old_format_read_back_witness:
  "\<exists>t e c. NewTxDataFromTx ref_eth ref_tx = Ok t \<and> same_tx ref_tx e \<and>
     Compat_UnpackAny (ref_pf t) ref_inner (Some (old_any (''/'' @ msgEthereumTxTypeURL) [0])) PtrMsg = Ok (StMsg (Some e), Some c)"
proof -
  have wf: "tx_wf ref_tx" by (simp add: tx_wf_def ref_tx_def small_def or_empty_def)
  from tx_roundtrip [OF ref_eth_laws wf] obtain t where t: "NewTxDataFromTx ref_eth ref_tx = Ok t" by blast
  have eth: "pf_eth (ref_pf t) = ref_eth" and signed: "pf_FromSignedEthereumTx (ref_pf t) e s m = Some e" for e s m
    by (simp_all add: ref_pf_def)
  have st: "stored_as (ref_pf t) t [] [0]" by (simp add: stored_as_def ref_pf_def split: TxData.splits)
  have any: "any_laws (ref_pf t)" by (simp add: any_laws_def ref_pf_def)
  have "TrimSlash (''/'' @ msgEthereumTxTypeURL) = msgEthereumTxTypeURL" by (simp add: TrimSlash_def)
  from old_format_read_back [of "ref_pf t", unfolded eth, OF ref_eth_laws wf t st any this, of ref_inner] t
  show ?thesis unfolding signed by blast
qed

text \<open>C13: The decoder returns what one of the two decoders read, with the old Ethereum messages
  replaced and nothing else changed.  Fee, gas, payer, granter, memo, timeouts, the unordered flag,
  signatures and extension options are those of the decoded transaction, and no old message is
  left.  The second decoder is used only when the first fails with the error of an old message.
\<close>

theorem decoder_changes_messages_only:
  assumes "builder_laws tb" "TxDecoder pf tb defaultDecoder decoderFor codec txBytes = Ok (Inr tx')"
    and "\<And>tx. defaultDecoder txBytes = Inr tx \<Longrightarrow> full_tx tx"
    and "\<And>r tx. decoderFor r txBytes = Inr tx \<Longrightarrow> full_tx tx"
  shows "\<exists>tx. (defaultDecoder txBytes = Inr tx \<or> (\<exists>err inner. defaultDecoder txBytes = Inl err \<and>
      IsLegacyMsgEthereumTxDecodeErr err \<and> codec = Some inner \<and>
      decoderFor (LegacyTxDecodeRegistry (NewEthereumTxCompatRegistry pf inner)) txBytes = Inr tx)) \<and>
    tx' = tx\<lparr>dt_Msgs := map (normalize_msg pf) (dt_Msgs tx)\<rparr> \<and> \<not> list_ex isLegacy (dt_Msgs tx')"
proof -
  let ?from = "\<lambda>tx. defaultDecoder txBytes = Inr tx \<or> (\<exists>err inner. defaultDecoder txBytes = Inl err \<and>
      IsLegacyMsgEthereumTxDecodeErr err \<and> codec = Some inner \<and>
      decoderFor (LegacyTxDecodeRegistry (NewEthereumTxCompatRegistry pf inner)) txBytes = Inr tx)"
  from assms(2) obtain tx where tx: "?from tx" and norm: "normalizeLegacyEthereumMsgs pf tb tx = Ok tx'"
    by (auto simp: TxDecoder_def Let_def split: sum.splits option.splits if_splits)
  have "tx' = tx\<lparr>dt_Msgs := map (normalize_msg pf) (dt_Msgs tx)\<rparr>"
    using tx assms(3,4) by (intro normalize_exact [OF assms(1) _ norm]) blast
  with tx show ?thesis by (auto simp: list_ex_iff)
qed

theorem decoder_changes_messages_only_witness:
  "\<exists>tx. TxDecoder (ref_pf (TxDynamicFee ref_dynamic)) ref_builder (\<lambda>_. Inl [''tx parse error'', ''MsgEthereumTx: TagNum: 1''])
     (\<lambda>_ _. Inr ref_old_tx) (Some ref_inner) [1] = Ok (Inr tx) \<and>
     dt_Msgs tx = [OtherMsg 7, NewEthereumTx None] \<and> dt_Memo tx = Some ''m'' \<and> dt_Signatures tx = Some [4]"
proof -
  let ?dec = "TxDecoder (ref_pf (TxDynamicFee ref_dynamic)) ref_builder (\<lambda>_. Inl [''tx parse error'', ''MsgEthereumTx: TagNum: 1''])
     (\<lambda>_ _. Inr ref_old_tx) (Some ref_inner) [1]"
  have "(case ?dec of Ok (Inr tx) \<Rightarrow> True | _ \<Rightarrow> False)" by code_simp
  then obtain tx where tx: "?dec = Ok (Inr tx)" by (auto split: outcome.splits sum.splits)
  have full: "full_tx ref_old_tx" by (simp add: full_tx_def ref_old_tx_def ref_blank_tx_def)
  have "tx = ref_old_tx\<lparr>dt_Msgs := map (normalize_msg (ref_pf (TxDynamicFee ref_dynamic))) (dt_Msgs ref_old_tx)\<rparr>"
    using decoder_changes_messages_only [OF ref_builder_laws tx] full by auto
  moreover have "normalize_msg (ref_pf (TxDynamicFee ref_dynamic)) (LegacyEthereumTx \<lparr>lm_Data = None\<rparr>) =
      (NewEthereumTx None :: (EthTxData option, nat) txmsg)"
    by (simp add: normalize_msg_def convert_legacy_def any_tx_def AsTransaction_def ref_pf_def)
  ultimately show ?thesis using tx
    by (simp add: ref_old_tx_def ref_blank_tx_def normalize_msg_other isLegacy_def)
qed

end
