(* ===== verification/Precompile.thy ===== *)
theory Precompile
  imports Abi
begin

text \<open>
  What the stateful precompiles of \<open>src/precompile\<close> share: the environment they are called in,
  the gas query, and the logs they write.  The ABI decoding of the call (\<open>cmn.SetupABI\<close>), the
  packing of results and events, and the EVM's state database are parameters.
\<close>

section \<open>The environment\<close>

record EthLog =
  log_Address :: bytes
  log_Topics :: "bytes list"
  log_Data :: bytes
  log_BlockNumber :: uint64

text \<open>
  \<open>pe_SetupABI input readOnly isTransaction\<close> returns the method's name and its decoded
  arguments.  \<open>pe_PackEvent\<close> packs the arguments of an event that are not indexed.
\<close>

record 'x PrecompileEnv =
  pe_evm :: EvmFns
  pe_coins :: CoinOps
  pe_bech32 :: Bech32
  pe_SetupABI :: "bytes \<Rightarrow> bool \<Rightarrow> (string \<Rightarrow> bool) \<Rightarrow> (string \<times> AbiValue list) outcome"
  pe_MethodById :: "bytes \<Rightarrow> string outcome"
  pe_BaseRequiredGas :: "bytes \<Rightarrow> bool \<Rightarrow> uint64"
  pe_EventID :: "string \<Rightarrow> bytes"
  pe_MakeTopic :: "AbiValue \<Rightarrow> bytes outcome"
  pe_PackEvent :: "string \<Rightarrow> AbiValue list \<Rightarrow> bytes outcome"
  pe_AddLog :: "EthLog \<Rightarrow> ('x, unit) M"
  pe_BlockHeight :: "'x \<Rightarrow> int64"

section \<open>Gas\<close>

definition required_gas :: "(string \<Rightarrow> bool) \<Rightarrow> 'x PrecompileEnv \<Rightarrow> bytes \<Rightarrow> uint64 outcome" where
  "required_gas isTransaction e input =
     (if length input < 4 then Ok 0
      else case pe_MethodById e (take 4 input) of
          Ok m \<Rightarrow> Ok (pe_BaseRequiredGas e input (isTransaction m))
        | Err _ \<Rightarrow> Ok 0
        | Panic p \<Rightarrow> Panic p)"

section \<open>Logs\<close>

text \<open>
  Every event is emitted the same way: its identifier and the indexed arguments become the
  topics, the others are packed, and the log is added at the current height.
\<close>

definition emit_event :: "'x PrecompileEnv \<Rightarrow> bytes \<Rightarrow> string \<Rightarrow> AbiValue list \<Rightarrow> AbiValue list \<Rightarrow> ('x, unit) M" where
  "emit_event e address name indexed args =
     bindM (liftO (mapO (pe_MakeTopic e) indexed)) (\<lambda>topics.
     bindM (liftO (pe_PackEvent e name args)) (\<lambda>packedData.
     bindM (getsM (pe_BlockHeight e)) (\<lambda>height.
     pe_AddLog e \<lparr>log_Address = address, log_Topics = pe_EventID e name # topics, log_Data = packedData,
       log_BlockNumber = height\<rparr>)))"

section \<open>A reference environment\<close>

definition ref_env :: "(string \<times> AbiValue list) \<Rightarrow> 'x PrecompileEnv" where
  "ref_env call = \<lparr>pe_evm = ref_evm, pe_coins = ref_coins, pe_bech32 = ref_bech32,
     pe_SetupABI = (\<lambda>input readOnly isTx. if readOnly \<and> isTx (fst call) then Err (Error ''write protection'') else Ok call),
     pe_MethodById = (\<lambda>_. Ok (fst call)), pe_BaseRequiredGas = (\<lambda>_ b. if b then 2000 else 1000),
     pe_EventID = (\<lambda>_. [1]), pe_MakeTopic = (\<lambda>_. Ok [2]), pe_PackEvent = (\<lambda>_ _. Ok [3]), pe_AddLog = (\<lambda>_. ret ()),
     pe_BlockHeight = (\<lambda>_. 7)\<rparr>"

section \<open>Lemmas\<close>

lemma ref_env_simps [simp]:
  "pe_evm (ref_env call) = ref_evm" "pe_coins (ref_env call) = ref_coins" "pe_bech32 (ref_env call) = ref_bech32"
  by (simp_all add: ref_env_def)

text \<open>Predicates of the state that logs do not touch survive an event.\<close>

lemma emit_event_run:
  assumes "emit_event e address name indexed args x = (Ok u, y)"
  shows "\<exists>l. pe_AddLog e l x = (Ok u, y)"
  using assms by (auto simp: emit_event_def)

end
