(* ===== verification/PrecompileBank.thy ===== *)
theory PrecompileBank
  imports Precompile Bank
begin

text \<open>
  The bank precompile, \<open>src/precompile/bank\<close>: balance, supply and transfer calls from EVM
  contracts.  It reaches the bank through the interface of \<open>expected_keepers.go\<close>, here the
  record \<open>PBankKeeper\<close>; the contract it relies on is the locale \<open>ledger_bank\<close>, interpreted on
  the bank keeper.
\<close>

section \<open>Interface\<close>

record 'x PBankKeeper =
  pb_GetBalance :: "AccAddress \<Rightarrow> string \<Rightarrow> ('x, Coin) M"
  pb_GetSupply :: "string \<Rightarrow> ('x, Coin) M"
  pb_SendCoins :: "AccAddress \<Rightarrow> AccAddress \<Rightarrow> Coins \<Rightarrow> ('x, unit) M"
  pb_TotalSupply :: "AbiValue \<Rightarrow> ('x, Coins \<times> AbiValue) M"

definition pbank_of :: "'x BankKeeper \<Rightarrow> (AbiValue \<Rightarrow> ('x, Coins \<times> AbiValue) M) \<Rightarrow> 'x PBankKeeper" where
  "pbank_of k totalSupply = \<lparr>pb_GetBalance = Bank_GetBalance k, pb_GetSupply = Bank_GetSupply k,
     pb_SendCoins = SendCoins k, pb_TotalSupply = totalSupply\<rparr>"

section \<open>The precompile\<close>

definition bank_precompile_address :: bytes where
  "bank_precompile_address = 0x10 # replicate 18 0 @ [0x01]"

definition bank_IsTransaction :: "string \<Rightarrow> bool" where
  "bank_IsTransaction m \<longleftrightarrow> m = ''send''"

definition bank_RequiredGas :: "'x PrecompileEnv \<Rightarrow> bytes \<Rightarrow> uint64 outcome" where
  "bank_RequiredGas e input = required_gas bank_IsTransaction e input"

definition EmitSendEvent :: "'x PrecompileEnv \<Rightarrow> bytes \<Rightarrow> bytes \<Rightarrow> Coins \<Rightarrow> ('x, unit) M" where
  "EmitSendEvent e src dst amount =
     emit_event e bank_precompile_address ''Send'' [AbiAddress src, AbiAddress dst] [abi_coins amount]"

definition pbank_balance :: "'x PrecompileEnv \<Rightarrow> 'x PBankKeeper \<Rightarrow> AbiValue list \<Rightarrow> ('x, bytes) M" where
  "pbank_balance e bk args =
     bindM (liftO (bindO (arg args 0) GetAccAddress)) (\<lambda>address.
     bindM (liftO (bindO (arg args 1) GetString)) (\<lambda>denom.
     bindM (pb_GetBalance bk address denom) (\<lambda>coin.
     liftO (ABI_Pack (pe_evm e) ''balance'' [AbiInt (Amount coin)]))))"

definition pbank_supplyOf :: "'x PrecompileEnv \<Rightarrow> 'x PBankKeeper \<Rightarrow> AbiValue list \<Rightarrow> ('x, bytes) M" where
  "pbank_supplyOf e bk args =
     bindM (liftO (bindO (arg args 0) GetString)) (\<lambda>denom.
     bindM (pb_GetSupply bk denom) (\<lambda>coin.
     liftO (ABI_Pack (pe_evm e) ''supplyOf'' [AbiInt (Amount coin)])))"

definition pbank_send :: "'x PrecompileEnv \<Rightarrow> 'x PBankKeeper \<Rightarrow> bytes \<Rightarrow> AbiValue list \<Rightarrow> ('x, bytes) M" where
  "pbank_send e bk sender args =
     bindM (liftO (bindO (arg args 0) GetAccAddress)) (\<lambda>fromAddress.
     thenM (liftO (ValidateSigner fromAddress sender)) (
     bindM (liftO (bindO (arg args 1) GetAccAddress)) (\<lambda>toAddress.
     bindM (liftO (bindO (arg args 2) (GetCoins (pe_evm e) (pe_coins e)))) (\<lambda>coins.
     thenM (pb_SendCoins bk fromAddress toAddress coins) (
     thenM (EmitSendEvent e (BytesToAddress (pe_evm e) fromAddress) (BytesToAddress (pe_evm e) toAddress) coins) (
     liftO (ABI_Pack (pe_evm e) ''send'' [AbiBool True])))))))"

text \<open>\<open>method.Inputs.Copy\<close> of the one argument is the identity here: the page request is passed on.\<close>

definition pbank_totalSupply :: "'x PrecompileEnv \<Rightarrow> 'x PBankKeeper \<Rightarrow> AbiValue list \<Rightarrow> ('x, bytes) M" where
  "pbank_totalSupply e bk args =
     thenM (guardM (length args = 1) (Error ''invalid number of arguments'')) (
     bindM (pb_TotalSupply bk (hd args)) (\<lambda>res.
     liftO (ABI_Pack (pe_evm e) ''totalSupply'' [abi_coins (fst res), snd res])))"

definition bank_Execute :: "'x PrecompileEnv \<Rightarrow> 'x PBankKeeper \<Rightarrow> bytes \<Rightarrow> bytes \<Rightarrow> bool \<Rightarrow> ('x, bytes) M" where
  "bank_Execute e bk caller input readOnly =
     bindM (liftO (pe_SetupABI e input readOnly bank_IsTransaction)) (\<lambda>(method, args).
     if method = ''balance'' then pbank_balance e bk args
     else if method = ''send'' then pbank_send e bk caller args
     else if method = ''supplyOf'' then pbank_supplyOf e bk args
     else if method = ''totalSupply'' then pbank_totalSupply e bk args
     else throw (Error ''method not found''))"

section \<open>The contract with the bank\<close>

text \<open>
  \<open>holds\<close> collects what is assumed of the backends; under it a successful transfer moves the
  coins' amounts in the ledger \<open>L\<close> and changes nothing else.
\<close>

locale ledger_bank =
  fixes send :: "AccAddress \<Rightarrow> AccAddress \<Rightarrow> Coins \<Rightarrow> ('x, unit) M"
    and L :: "'x \<Rightarrow> 't \<Rightarrow> bytes \<Rightarrow> int"
    and owner :: "'t \<Rightarrow> AccAddress \<Rightarrow> bytes"
    and total :: "'t \<Rightarrow> Coins \<Rightarrow> int"
    and holds :: bool
  assumes send_effect: "holds \<Longrightarrow> send f g cs x = (Ok (), y) \<Longrightarrow>
      L y t a = L x t a + (if a = owner t g then total t cs else 0) - (if a = owner t f then total t cs else 0)"
    and total_nonneg: "\<forall>c \<in> set cs. 0 \<le> Amount c \<Longrightarrow> 0 \<le> total t cs"
begin

text \<open>Only the sender can lose.\<close>

lemma only_sender_loses:
  "holds \<Longrightarrow> send f g cs x = (Ok (), y) \<Longrightarrow> \<forall>c \<in> set cs. 0 \<le> Amount c \<Longrightarrow> a \<noteq> owner t f \<Longrightarrow> L x t a \<le> L y t a"
  using send_effect [of f g cs x y t a] total_nonneg [of cs t] by simp

end

lemma token_amount_nonneg: "\<forall>c \<in> set cs. 0 \<le> Amount c \<Longrightarrow> 0 \<le> token_amount k t cs"
  unfolding token_amount_def by (rule sum_list_nonneg) auto

interpretation bank_ledger: ledger_bank "SendCoins k" L "holder k" "token_amount k" "ledger_laws k L" for k L
  by unfold_locales (auto simp: SendCoins_ledger token_amount_nonneg)

section \<open>Lemmas\<close>

lemma pbank_send_run:
  assumes "pbank_send e bk sender args x = (Ok r, y)"
  obtains dst cs x1 l where "args ! 0 = AbiAddress sender" "args ! 1 = AbiAddress dst"
    "GetCoins (pe_evm e) (pe_coins e) (args ! 2) = Ok cs" "pb_SendCoins bk sender dst cs x = (Ok (), x1)"
    "pe_AddLog e l x1 = (Ok (), y)"
proof -
  from assms obtain src dst cs x1 where a: "args ! 0 = AbiAddress src" "src = sender" "args ! 1 = AbiAddress dst"
      "GetCoins (pe_evm e) (pe_coins e) (args ! 2) = Ok cs" "pb_SendCoins bk src dst cs x = (Ok (), x1)"
      and ev: "EmitSendEvent e (BytesToAddress (pe_evm e) src) (BytesToAddress (pe_evm e) dst) cs x1 = (Ok (), y)"
    by (auto simp: pbank_send_def thenM_eq_Ok arg_def GetAccAddress_def ValidateSigner_def
        split: AbiValue.splits if_splits)
  from ev obtain l where "pe_AddLog e l x1 = (Ok (), y)" by (auto simp: EmitSendEvent_def dest: emit_event_run)
  with a show thesis using that by auto
qed

section \<open>Properties\<close>

text \<open>C18: A contract can spend only its own funds through the precompile's \<open>send\<close>: when
  the call succeeds, no holder other than the caller has lost anything of any token, native,
  ERC20 or CW20, whatever sender, recipient and coins the call named.\<close>

theorem precompile_spends_callers_funds:
  assumes "ledger_laws k L" "bank_Execute e (pbank_of k ts) caller input readOnly x = (Ok r, y)"
    and "pe_SetupABI e input readOnly bank_IsTransaction = Ok (''send'', args)"
    and "\<forall>v cs. GetCoins (pe_evm e) (pe_coins e) v = Ok cs \<longrightarrow> (\<forall>c \<in> set cs. 0 \<le> Amount c)"
    and "\<forall>l x z u. pe_AddLog e l x = (u, z) \<longrightarrow> L z = L x" "a \<noteq> holder k t caller"
  shows "L x t a \<le> L y t a"
proof -
  from assms(2,3) have "pbank_send e (pbank_of k ts) caller args x = (Ok r, y)"
    by (simp add: bank_Execute_def)
  then obtain dst cs x1 l where run: "GetCoins (pe_evm e) (pe_coins e) (args ! 2) = Ok cs"
      "SendCoins k caller dst cs x = (Ok (), x1)" "pe_AddLog e l x1 = (Ok (), y)"
    by (rule pbank_send_run) (auto simp: pbank_of_def)
  have "L x t a \<le> L x1 t a"
    using assms(4,6) run(1) by (intro bank_ledger.only_sender_loses [OF assms(1) run(2)]) auto
  moreover have "L y = L x1" using assms(5) run(3) by blast
  ultimately show ?thesis by simp
qed

theorem precompile_spends_callers_funds_witness:
  "\<exists>y r. bank_Execute (ref_env (''send'', [AbiAddress [1], AbiAddress [2], abi_coins [\<lparr>Denom = ''axpla'', Amount = 3\<rparr>]]))
     (pbank_of ref_bank (\<lambda>_. throw ErrNotFound)) [1] [] False (\<lambda>_ _. 10) = (Ok r, y) \<and>
     10 \<le> y (NativeToken ''axpla'') [5]"
proof -
  let ?args = "[AbiAddress [1], AbiAddress [2], abi_coins [\<lparr>Denom = ''axpla'', Amount = 3\<rparr>]]"
  let ?e = "ref_env (''send'', ?args)"
  let ?p = "bank_Execute ?e (pbank_of ref_bank (\<lambda>_. throw ErrNotFound)) [1] [] False (\<lambda>_ _. 10)"
  have "is_Ok (fst ?p)" by code_simp
  then obtain r where run: "?p = (Ok r, snd ?p)" by (metis is_Ok_iff prod.collapse)
  have coins: "\<forall>v cs. GetCoins (pe_evm ?e) (pe_coins ?e) v = Ok cs \<longrightarrow> (\<forall>c \<in> set cs. 0 \<le> Amount c)"
    by (auto simp: GetCoins_def ref_env_def ref_coins_def Let_def list_all_iff ref_coin_ok_def
        split: option.splits if_splits)
  have "10 \<le> snd ?p (NativeToken ''axpla'') [5]"
    by (rule precompile_spends_callers_funds [OF ref_ledger_laws run _ coins, where args = ?args])
      (auto simp: ref_env_def holder_def)
  with run show ?thesis by metis
qed

end
