(* ===== verification/PrecompileAuth.thy ===== *)
theory PrecompileAuth
  imports Precompile Auth
begin

text \<open>
  The auth precompile, \<open>src/precompile/auth\<close>: address and account queries for EVM contracts.
  The account keeper it is given (\<open>expected_keepers.go\<close>) is the record \<open>PAccountKeeper\<close>; the
  contract it relies on is the locale \<open>account_view\<close>, interpreted on the account keeper.
\<close>

section \<open>Interface\<close>

record 's PAccountKeeper =
  pa_GetAccount :: "AccAddress \<Rightarrow> ('s, Account option) M"
  pa_HasAccount :: "AccAddress \<Rightarrow> ('s, bool) M"
  pa_GetModuleAccount :: "string \<Rightarrow> ('s, Account option) M"

text \<open>The keeper of the application; \<open>GetModuleAccount\<close> is inherited from the SDK's keeper.\<close>

definition pauth_of :: "'x AccountKeeper \<Rightarrow> (string \<Rightarrow> ('x Ctx, Account option) M) \<Rightarrow> 'x Ctx PAccountKeeper" where
  "pauth_of k modAccount = \<lparr>pa_GetAccount = GetAccount k, pa_HasAccount = HasAccount k,
     pa_GetModuleAccount = modAccount\<rparr>"

section \<open>The precompile\<close>

definition Bech32MainPrefix :: string where
  "Bech32MainPrefix = ''xpla''"

definition auth_IsTransaction :: "string \<Rightarrow> bool" where
  "auth_IsTransaction m \<longleftrightarrow> False"

definition auth_RequiredGas :: "'s PrecompileEnv \<Rightarrow> bytes \<Rightarrow> uint64 outcome" where
  "auth_RequiredGas e input = required_gas auth_IsTransaction e input"

text \<open>A method call on the \<open>nil\<close> interface is a nil dereference.\<close>

definition nonnil :: "'a option \<Rightarrow> 'a outcome" where
  "nonnil r = (case r of None \<Rightarrow> Panic ''nil pointer dereference'' | Some a \<Rightarrow> Ok a)"

definition pauth_account :: "'s PrecompileEnv \<Rightarrow> 's PAccountKeeper \<Rightarrow> AbiValue list \<Rightarrow> ('s, bytes) M" where
  "pauth_account e ak args =
     bindM (liftO (bindO (arg args 0) GetAccAddress)) (\<lambda>address.
     bindM (pa_HasAccount ak address) (\<lambda>has.
     bindM (if has then
              bindM (pa_GetAccount ak address) (\<lambda>account.
              bindM (liftO (nonnil account)) (\<lambda>a. ret (AccAddress_String (pe_bech32 e) (acc_Address a))))
            else ret []) (\<lambda>strAddress.
     liftO (ABI_Pack (pe_evm e) ''account'' [AbiString strAddress]))))"

definition pauth_moduleAccountByName :: "'s PrecompileEnv \<Rightarrow> 's PAccountKeeper \<Rightarrow> AbiValue list \<Rightarrow> ('s, bytes) M" where
  "pauth_moduleAccountByName e ak args =
     bindM (liftO (bindO (arg args 0) GetString)) (\<lambda>moduleName.
     bindM (pa_GetModuleAccount ak moduleName) (\<lambda>account. case account of
         None \<Rightarrow> liftO (ABI_Pack (pe_evm e) ''moduleAccountByName'' [AbiString []])
       | Some a \<Rightarrow> liftO (ABI_Pack (pe_evm e) ''moduleAccountByName''
           [AbiString (AccAddress_String (pe_bech32 e) (acc_Address a))])))"

definition pauth_bech32Prefix :: "'s PrecompileEnv \<Rightarrow> ('s, bytes) M" where
  "pauth_bech32Prefix e = liftO (ABI_Pack (pe_evm e) ''bech32Prefix'' [AbiString Bech32MainPrefix])"

definition pauth_addressBytesToString :: "'s PrecompileEnv \<Rightarrow> AbiValue list \<Rightarrow> ('s, bytes) M" where
  "pauth_addressBytesToString e args =
     bindM (liftO (bindO (arg args 0) GetAccAddress)) (\<lambda>address.
     liftO (ABI_Pack (pe_evm e) ''addressBytesToString'' [AbiString (AccAddress_String (pe_bech32 e) address)]))"

definition pauth_addressStringToBytes :: "'s PrecompileEnv \<Rightarrow> AbiValue list \<Rightarrow> ('s, bytes) M" where
  "pauth_addressStringToBytes e args =
     bindM (liftO (bindO (arg args 0) GetString)) (\<lambda>stringAddress.
     bindM (liftO (AccAddressFromBech32 (pe_bech32 e) stringAddress)) (\<lambda>byteAddress.
     liftO (ABI_Pack (pe_evm e) ''addressStringToBytes'' [AbiAddress (BytesToAddress (pe_evm e) byteAddress)])))"

definition auth_Execute :: "'s PrecompileEnv \<Rightarrow> 's PAccountKeeper \<Rightarrow> bytes \<Rightarrow> bool \<Rightarrow> ('s, bytes) M" where
  "auth_Execute e ak input readOnly =
     bindM (liftO (pe_SetupABI e input readOnly auth_IsTransaction)) (\<lambda>(method, args).
     if method = ''account'' then pauth_account e ak args
     else if method = ''moduleAccountByName'' then pauth_moduleAccountByName e ak args
     else if method = ''bech32Prefix'' then pauth_bech32Prefix e
     else if method = ''addressBytesToString'' then pauth_addressBytesToString e args
     else if method = ''addressStringToBytes'' then pauth_addressStringToBytes e args
     else throw (Error ''method not found''))"

section \<open>The contract with the account keeper\<close>

text \<open>
  Printing a non-empty address of at most 255 bytes and parsing it back is the identity, and
  \<open>common.BytesToAddress\<close> keeps the last 20 bytes.
\<close>

definition address_laws :: "Bech32 \<Rightarrow> EvmFns \<Rightarrow> bool" where
  "address_laws b ev \<longleftrightarrow>
     (\<forall>a. a \<noteq> [] \<longrightarrow> length a \<le> 255 \<longrightarrow> AccAddressFromBech32 b (AccAddress_String b a) = Ok a) \<and>
     (\<forall>a. 20 \<le> length a \<longrightarrow> BytesToAddress ev a = last20 a)"

text \<open>Accounts are stored under their own address.\<close>

definition keyed :: "(AccAddress \<Rightarrow> Account option) \<Rightarrow> bool" where
  "keyed m \<longleftrightarrow> (\<forall>a acc. m a = Some acc \<longrightarrow> acc_Address acc = a)"

text \<open>
  Reads return \<open>acct\<close> and change nothing; the account read under a 20-byte address ends, in a
  good state, with those 20 bytes.  \<open>holds\<close> collects what is assumed of the SDK's keeper.
\<close>

locale account_view =
  fixes get :: "AccAddress \<Rightarrow> ('s, Account option) M"
    and has :: "AccAddress \<Rightarrow> ('s, bool) M"
    and acct :: "'s \<Rightarrow> AccAddress \<Rightarrow> Account option"
    and good :: "'s \<Rightarrow> bool"
    and holds :: bool
  assumes get_run: "holds \<Longrightarrow> get a s = (Ok (acct s a), s)"
    and has_run: "holds \<Longrightarrow> has a s = (Ok (acct s a \<noteq> None), s)"
    and suffix: "good s \<Longrightarrow> length a = 20 \<Longrightarrow> acct s a = Some acc \<Longrightarrow>
      20 \<le> length (acc_Address acc) \<and> last20 (acc_Address acc) = a"
begin

lemma account_run:
  "holds \<Longrightarrow> pauth_account e \<lparr>pa_GetAccount = get, pa_HasAccount = has, pa_GetModuleAccount = g\<rparr> [AbiAddress a] s =
     (ABI_Pack (pe_evm e) ''account''
       [AbiString (case acct s a of None \<Rightarrow> [] | Some acc \<Rightarrow> AccAddress_String (pe_bech32 e) (acc_Address acc))], s)"
  by (cases "acct s a")
    (auto simp: pauth_account_def arg_def GetAccAddress_def liftO_def ret_def bindM_def get_run has_run nonnil_def)

lemma string_back:
  assumes "address_laws (pe_bech32 e) (pe_evm e)" "good s" "length a = 20" "acct s a = Some acc"
    "length (acc_Address acc) \<le> 255"
  shows "pauth_addressStringToBytes e [AbiString (AccAddress_String (pe_bech32 e) (acc_Address acc))] s =
     (ABI_Pack (pe_evm e) ''addressStringToBytes'' [AbiAddress a], s)"
proof -
  note sfx = suffix [OF assms(2,3,4)]
  then have "acc_Address acc \<noteq> []" by auto
  with assms(1,5) sfx have "AccAddressFromBech32 (pe_bech32 e) (AccAddress_String (pe_bech32 e) (acc_Address acc)) = Ok (acc_Address acc)"
      "BytesToAddress (pe_evm e) (acc_Address acc) = a"
    by (auto simp: address_laws_def)
  then show ?thesis
    by (simp add: pauth_addressStringToBytes_def arg_def GetString_def liftO_def bindM_def)
qed

end

interpretation accview: account_view "GetAccount k" "HasAccount k" "\<lambda>c a. accts (ext c) (resolve c a)"
    "\<lambda>c. slice_inv c \<and> keyed (accts (ext c))" "account_laws k accts" for k accts
proof unfold_locales
  fix a c acc
  assume a: "slice_inv c \<and> keyed (accts (ext c))" "length a = 20" "accts (ext c) (resolve c a) = Some acc"
  then have k: "acc_Address acc = resolve c a" by (auto simp: keyed_def)
  show "20 \<le> length (acc_Address acc) \<and> last20 (acc_Address acc) = a"
  proof (cases "slice_lookup c a")
    case None
    with k a(2) show ?thesis by (simp add: resolve_def last20_def)
  next
    case (Some v)
    with a(1) have "20 < length v \<and> a = last20 v" by (auto simp: slice_inv_def)
    with Some k show ?thesis by (simp add: resolve_def)
  qed
qed (simp_all add: GetAccount_run HasAccount_run)

section \<open>Lemmas\<close>

lemma ref_address_laws: "address_laws ref_bech32 ref_evm"
  by (auto simp: address_laws_def ref_bech32_def ref_parse_print ref_evm_def ref_addr20_def last20_def)

section \<open>Properties\<close>

text \<open>A contract that knows an account only by its 20-byte EVM form asks the precompile for
  the account's address string and turns the string back into an EVM address: in every
  reachable state of the account keeper it gets the 20 bytes it started from, also when the
  account has a longer address.  Unknown accounts give the empty string; neither call changes
  the state.\<close>

theorem auth_precompile_roundtrip:
  assumes "auth_reach k c" "account_laws k accts" "keyed (accts (ext c))" "address_laws (pe_bech32 e) (pe_evm e)"
    and "length a = 20" "length (resolve c a) \<le> 255"
  shows "\<exists>str. pauth_account e (pauth_of k g) [AbiAddress a] c = (ABI_Pack (pe_evm e) ''account'' [AbiString str], c) \<and>
    (case accts (ext c) (resolve c a) of
        None \<Rightarrow> str = []
      | Some acc \<Rightarrow> str = AccAddress_String (pe_bech32 e) (acc_Address acc) \<and>
          pauth_addressStringToBytes e [AbiString str] c =
            (ABI_Pack (pe_evm e) ''addressStringToBytes'' [AbiAddress a], c))"
proof (cases "accts (ext c) (resolve c a)")
  case None
  then show ?thesis by (simp add: pauth_of_def accview.account_run [OF assms(2)])
next
  case (Some acc)
  with assms(3,6) have "length (acc_Address acc) \<le> 255" by (simp add: keyed_def)
  then have "pauth_addressStringToBytes e [AbiString (AccAddress_String (pe_bech32 e) (acc_Address acc))] c =
      (ABI_Pack (pe_evm e) ''addressStringToBytes'' [AbiAddress a], c)"
    using accview.string_back [OF assms(4) _ assms(5), where accts = accts] auth_reach_inv [OF assms(1)] assms(3) Some
    by simp
  with Some show ?thesis by (simp add: pauth_of_def accview.account_run [OF assms(2)])
qed

theorem auth_precompile_roundtrip_witness:
  "let acc = ref_account (replicate 12 7 @ replicate 20 1); c = snd (SetAccount ref_ak acc (ref_ctx [])) in
    pauth_account (ref_env (''account'', [])) (pauth_of ref_ak (\<lambda>_. ret None)) [AbiAddress (replicate 20 1)] c =
      (ABI_Pack ref_evm ''account'' [AbiString (ref_print (acc_Address acc))], c) \<and>
    pauth_addressStringToBytes (ref_env (''account'', [])) [AbiString (ref_print (acc_Address acc))] c =
      (ABI_Pack ref_evm ''addressStringToBytes'' [AbiAddress (replicate 20 1)], c)"
proof -
  let ?acc = "ref_account (replicate 12 7 @ replicate 20 1)"
  let ?c = "snd (SetAccount ref_ak ?acc (ref_ctx []))"
  let ?e = "ref_env (''account'', []) :: (bytes, Account) kv Ctx PrecompileEnv"
  have reach: "auth_reach ref_ak ?c" by (intro ar_set ar_init) (simp add: ref_ctx_def)
  have c: "resolve ?c (replicate 20 1) = acc_Address ?acc" "ext ?c = [(acc_Address ?acc, ?acc)]" by code_simp+
  have get: "kv_get (ext ?c) = [acc_Address ?acc \<mapsto> ?acc]" by (auto simp: c kv_get_def fun_eq_iff)
  then have "keyed (kv_get (ext ?c))" by (auto simp: keyed_def split: if_splits)
  from auth_precompile_roundtrip [OF reach ref_account_laws this, where e = ?e and a = "replicate 20 1" and g = "\<lambda>_. ret None"]
  obtain str where "pauth_account ?e (pauth_of ref_ak (\<lambda>_. ret None)) [AbiAddress (replicate 20 1)] ?c =
      (ABI_Pack ref_evm ''account'' [AbiString str], ?c)" "str = AccAddress_String ref_bech32 (acc_Address ?acc)"
      "pauth_addressStringToBytes ?e [AbiString str] ?c = (ABI_Pack ref_evm ''addressStringToBytes'' [AbiAddress (replicate 20 1)], ?c)"
    using ref_address_laws unfolding c by (auto simp: ref_account_def kv_get_def)
  then show ?thesis by (simp add: Let_def ref_bech32_def)
qed

end
