(* ===== verification/PrecompileWasm.thy ===== *)
theory PrecompileWasm
  imports PrecompileAuth
begin

text \<open>
  The wasm precompile, \<open>src/precompile/wasm\<close>: EVM contracts instantiate, call and migrate
  CosmWasm contracts.  The wasm message server and keeper are parameters
  (\<open>expected_keepers.go\<close>); the theorems compare the precompile on a server with the precompile
  on the same server behind a guard that refuses messages.
\<close>

section \<open>Messages and interfaces\<close>

record MsgInstantiateContract =
  mi_Sender :: string
  mi_Admin :: string
  mi_CodeID :: uint64
  mi_Label :: string
  mi_Msg :: bytes
  mi_Funds :: Coins

record MsgInstantiateContract2 = MsgInstantiateContract +
  mi_Salt :: bytes
  mi_FixMsg :: bool

record MsgExecuteContract =
  mx_Sender :: string
  mx_Contract :: string
  mx_Msg :: bytes
  mx_Funds :: Coins

record MsgMigrateContract =
  mm_Sender :: string
  mm_Contract :: string
  mm_CodeID :: uint64
  mm_Msg :: bytes

text \<open>The two instantiations answer with the contract's address and data, the others with data.\<close>

record 's WasmMsgServer =
  ws_InstantiateContract :: "MsgInstantiateContract \<Rightarrow> ('s, string \<times> bytes) M"
  ws_InstantiateContract2 :: "MsgInstantiateContract2 \<Rightarrow> ('s, string \<times> bytes) M"
  ws_ExecuteContract :: "MsgExecuteContract \<Rightarrow> ('s, bytes) M"
  ws_MigrateContract :: "MsgMigrateContract \<Rightarrow> ('s, bytes) M"

record 's PWasmKeepers =
  pw_GetAccount :: "AccAddress \<Rightarrow> ('s, Account option) M"
  pw_QuerySmart :: "AccAddress \<Rightarrow> bytes \<Rightarrow> ('s, bytes) M"

section \<open>Events\<close>

definition wasm_precompile_address :: bytes where
  "wasm_precompile_address = 0x10 # replicate 18 0 @ [0x04]"

definition EmitInstantiateContractEvent ::
  "'s PrecompileEnv \<Rightarrow> bytes \<Rightarrow> bytes \<Rightarrow> bytes \<Rightarrow> int \<Rightarrow> string \<Rightarrow> bytes \<Rightarrow> Coins \<Rightarrow> bytes \<Rightarrow> ('s, unit) M" where
  "EmitInstantiateContractEvent e sender admin contractAddress codeId label msg funds data =
     emit_event e wasm_precompile_address ''InstantiateContract''
       [AbiAddress sender, AbiAddress contractAddress, AbiInt codeId]
       [AbiAddress admin, AbiString label, AbiBytes msg, abi_coins funds, AbiBytes data]"

definition EmitExecuteContractEvent ::
  "'s PrecompileEnv \<Rightarrow> bytes \<Rightarrow> bytes \<Rightarrow> bytes \<Rightarrow> Coins \<Rightarrow> bytes \<Rightarrow> ('s, unit) M" where
  "EmitExecuteContractEvent e sender contractAddress msg funds data =
     emit_event e wasm_precompile_address ''ExecuteContract''
       [AbiAddress sender, AbiAddress contractAddress] [AbiBytes msg, abi_coins funds, AbiBytes data]"

definition EmitMigrateContractEvent ::
  "'s PrecompileEnv \<Rightarrow> bytes \<Rightarrow> bytes \<Rightarrow> int \<Rightarrow> bytes \<Rightarrow> bytes \<Rightarrow> ('s, unit) M" where
  "EmitMigrateContractEvent e sender contractAddress codeId msg data =
     emit_event e wasm_precompile_address ''MigrateContract''
       [AbiAddress sender, AbiAddress contractAddress, AbiInt codeId] [AbiBytes msg, AbiBytes data]"

section \<open>The precompile\<close>

text \<open>The first two steps of every call that sends a message.\<close>

definition signer_arg :: "bytes \<Rightarrow> AbiValue list \<Rightarrow> AccAddress outcome" where
  "signer_arg sender args =
     bindO (arg args 0) (\<lambda>v. bindO (GetAccAddress v) (\<lambda>fromAddress.
     bindO (ValidateSigner fromAddress sender) (\<lambda>_. Ok fromAddress)))"

text \<open>What both instantiations do with the server's answer.\<close>

definition instantiate_result ::
  "'s PrecompileEnv \<Rightarrow> string \<Rightarrow> bytes \<Rightarrow> AccAddress \<Rightarrow> int \<Rightarrow> string \<Rightarrow> bytes \<Rightarrow> Coins \<Rightarrow> string \<times> bytes \<Rightarrow>
    ('s, bytes) M" where
  "instantiate_result e method sender admin codeId label msg coins res =
     bindM (liftO (AccAddressFromBech32 (pe_bech32 e) (fst res))) (\<lambda>cosmosContractAddress.
     let contractAddress = BytesToAddress (pe_evm e) cosmosContractAddress in
     thenM (EmitInstantiateContractEvent e sender (BytesToAddress (pe_evm e) admin) contractAddress codeId label
         msg coins (snd res))
       (liftO (ABI_Pack (pe_evm e) method [AbiAddress contractAddress, AbiBytes (snd res)])))"

definition instantiateContract ::
  "'s PrecompileEnv \<Rightarrow> 's WasmMsgServer \<Rightarrow> bytes \<Rightarrow> AbiValue list \<Rightarrow> ('s, bytes) M" where
  "instantiateContract e wms sender args =
     bindM (liftO (signer_arg sender args)) (\<lambda>fromAddress.
     bindM (liftO (bindO (arg args 1) GetAccAddress)) (\<lambda>admin.
     bindM (liftO (bindO (arg args 2) (GetBigInt (pe_evm e)))) (\<lambda>codeId.
     bindM (liftO (bindO (arg args 3) GetString)) (\<lambda>label.
     bindM (liftO (bindO (arg args 4) GetByteArray)) (\<lambda>msg.
     bindM (liftO (bindO (arg args 5) (GetCoins (pe_evm e) (pe_coins e)))) (\<lambda>coins.
     bindM (liftO (Int_Uint64 (pe_evm e) codeId)) (\<lambda>code.
     bindM (ws_InstantiateContract wms
         \<lparr>mi_Sender = AccAddress_String (pe_bech32 e) fromAddress, mi_Admin = AccAddress_String (pe_bech32 e) admin,
           mi_CodeID = code, mi_Label = label, mi_Msg = msg, mi_Funds = coins\<rparr>)
       (instantiate_result e ''instantiateContract'' sender admin codeId label msg coins))))))))"

definition instantiateContract2 ::
  "'s PrecompileEnv \<Rightarrow> 's WasmMsgServer \<Rightarrow> bytes \<Rightarrow> AbiValue list \<Rightarrow> ('s, bytes) M" where
  "instantiateContract2 e wms sender args =
     bindM (liftO (signer_arg sender args)) (\<lambda>fromAddress.
     bindM (liftO (bindO (arg args 1) GetAccAddress)) (\<lambda>admin.
     bindM (liftO (bindO (arg args 2) (GetBigInt (pe_evm e)))) (\<lambda>codeId.
     bindM (liftO (bindO (arg args 3) GetString)) (\<lambda>label.
     bindM (liftO (bindO (arg args 4) GetByteArray)) (\<lambda>msg.
     bindM (liftO (bindO (arg args 5) (GetCoins (pe_evm e) (pe_coins e)))) (\<lambda>coins.
     bindM (liftO (bindO (arg args 6) GetByteArray)) (\<lambda>salt.
     bindM (liftO (bindO (arg args 7) GetBool)) (\<lambda>fixMsg.
     bindM (liftO (Int_Uint64 (pe_evm e) codeId)) (\<lambda>code.
     bindM (ws_InstantiateContract2 wms
         \<lparr>mi_Sender = AccAddress_String (pe_bech32 e) fromAddress, mi_Admin = AccAddress_String (pe_bech32 e) admin,
           mi_CodeID = code, mi_Label = label, mi_Msg = msg, mi_Funds = coins, mi_Salt = salt, mi_FixMsg = fixMsg\<rparr>)
       (instantiate_result e ''instantiateContract2'' sender admin codeId label msg coins))))))))))"

definition executeContract ::
  "'s PrecompileEnv \<Rightarrow> 's PWasmKeepers \<Rightarrow> 's WasmMsgServer \<Rightarrow> bytes \<Rightarrow> AbiValue list \<Rightarrow> ('s, bytes) M" where
  "executeContract e k wms sender args =
     bindM (liftO (signer_arg sender args)) (\<lambda>fromAddress.
     bindM (liftO (bindO (arg args 1) GetAccAddress)) (\<lambda>contractAddress.
     bindM (pw_GetAccount k contractAddress) (\<lambda>contractAccount.
     bindM (liftO (bindO (arg args 2) GetByteArray)) (\<lambda>msg.
     bindM (liftO (bindO (arg args 3) (GetCoins (pe_evm e) (pe_coins e)))) (\<lambda>coins.
     bindM (liftO (nonnil contractAccount)) (\<lambda>acc.
     bindM (ws_ExecuteContract wms
         \<lparr>mx_Sender = AccAddress_String (pe_bech32 e) fromAddress,
           mx_Contract = AccAddress_String (pe_bech32 e) (acc_Address acc), mx_Msg = msg, mx_Funds = coins\<rparr>) (\<lambda>data.
     thenM (EmitExecuteContractEvent e sender (BytesToAddress (pe_evm e) contractAddress) msg coins data)
       (liftO (ABI_Pack (pe_evm e) ''executeContract'' [AbiBytes data])))))))))"

definition migrateContract ::
  "'s PrecompileEnv \<Rightarrow> 's PWasmKeepers \<Rightarrow> 's WasmMsgServer \<Rightarrow> bytes \<Rightarrow> AbiValue list \<Rightarrow> ('s, bytes) M" where
  "migrateContract e k wms sender args =
     bindM (liftO (signer_arg sender args)) (\<lambda>fromAddress.
     bindM (liftO (bindO (arg args 1) GetAccAddress)) (\<lambda>contractAddress.
     bindM (pw_GetAccount k contractAddress) (\<lambda>contractAccount.
     bindM (liftO (bindO (arg args 2) (GetBigInt (pe_evm e)))) (\<lambda>codeId.
     bindM (liftO (bindO (arg args 3) GetByteArray)) (\<lambda>msg.
     bindM (liftO (nonnil contractAccount)) (\<lambda>acc.
     bindM (liftO (Int_Uint64 (pe_evm e) codeId)) (\<lambda>code.
     bindM (ws_MigrateContract wms
         \<lparr>mm_Sender = AccAddress_String (pe_bech32 e) fromAddress,
           mm_Contract = AccAddress_String (pe_bech32 e) (acc_Address acc), mm_CodeID = code, mm_Msg = msg\<rparr>) (\<lambda>data.
     thenM (EmitMigrateContractEvent e sender (BytesToAddress (pe_evm e) contractAddress) codeId msg data)
       (liftO (ABI_Pack (pe_evm e) ''migrateContract'' [AbiBytes data]))))))))))"

definition smartContractState ::
  "'s PrecompileEnv \<Rightarrow> 's PWasmKeepers \<Rightarrow> AbiValue list \<Rightarrow> ('s, bytes) M" where
  "smartContractState e k args =
     bindM (liftO (bindO (arg args 0) GetAccAddress)) (\<lambda>contractAddress.
     bindM (pw_GetAccount k contractAddress) (\<lambda>contractAccount.
     bindM (liftO (bindO (arg args 1) GetByteArray)) (\<lambda>queryData.
     bindM (liftO (nonnil contractAccount)) (\<lambda>acc.
     bindM (pw_QuerySmart k (acc_Address acc) queryData) (\<lambda>res.
     liftO (ABI_Pack (pe_evm e) ''smartContractState'' [AbiBytes res]))))))"

definition wasm_IsTransaction :: "string \<Rightarrow> bool" where
  "wasm_IsTransaction m \<longleftrightarrow>
     m \<in> {''instantiateContract'', ''instantiateContract2'', ''executeContract'', ''migrateContract''}"

definition wasm_RequiredGas :: "'s PrecompileEnv \<Rightarrow> bytes \<Rightarrow> uint64 outcome" where
  "wasm_RequiredGas e input = required_gas wasm_IsTransaction e input"

text \<open>
  \<open>gas\<close> is \<open>contract.Gas\<close> and \<open>instanceCost\<close> the wasm module's constant \<open>DefaultInstanceCost\<close>.
\<close>

definition wasm_Execute ::
  "'s PrecompileEnv \<Rightarrow> 's PWasmKeepers \<Rightarrow> 's WasmMsgServer \<Rightarrow> uint64 \<Rightarrow> uint64 \<Rightarrow> bytes \<Rightarrow> bool \<Rightarrow> bytes \<Rightarrow>
    ('s, bytes) M" where
  "wasm_Execute e k wms instanceCost gas input readOnly caller =
     thenM (guardM (\<not> gas < instanceCost) (Error ''insufficient gas'')) (
     bindM (liftO (pe_SetupABI e input readOnly wasm_IsTransaction)) (\<lambda>(method, args).
     if method = ''instantiateContract'' then instantiateContract e wms caller args
     else if method = ''instantiateContract2'' then instantiateContract2 e wms caller args
     else if method = ''executeContract'' then executeContract e k wms caller args
     else if method = ''migrateContract'' then migrateContract e k wms caller args
     else if method = ''smartContractState'' then smartContractState e k args
     else throw (Error ''method not found'')))"

text \<open>
  The two entry points: the precompile acts for the calling contract, the delegatecall
  precompile for the account that signed the transaction.
\<close>

definition wasm_Run ::
  "'s PrecompileEnv \<Rightarrow> 's PWasmKeepers \<Rightarrow> 's WasmMsgServer \<Rightarrow> uint64 \<Rightarrow> uint64 \<Rightarrow> bytes \<Rightarrow> bool \<Rightarrow> bytes \<Rightarrow> bytes \<Rightarrow>
    ('s, bytes) M" where
  "wasm_Run e k wms instanceCost gas input readOnly caller origin =
     wasm_Execute e k wms instanceCost gas input readOnly caller"

definition wasm_RunDelegate ::
  "'s PrecompileEnv \<Rightarrow> 's PWasmKeepers \<Rightarrow> 's WasmMsgServer \<Rightarrow> uint64 \<Rightarrow> uint64 \<Rightarrow> bytes \<Rightarrow> bool \<Rightarrow> bytes \<Rightarrow> bytes \<Rightarrow>
    ('s, bytes) M" where
  "wasm_RunDelegate e k wms instanceCost gas input readOnly caller origin =
     wasm_Execute e k wms instanceCost gas input readOnly origin"

section \<open>Specification\<close>

text \<open>\<open>only_from P wms\<close> passes on the messages whose sender satisfies \<open>P\<close> and refuses the others.\<close>

definition only_from :: "(string \<Rightarrow> bool) \<Rightarrow> 's WasmMsgServer \<Rightarrow> 's WasmMsgServer" where
  "only_from P wms = \<lparr>
     ws_InstantiateContract = (\<lambda>m. if P (mi_Sender m) then ws_InstantiateContract wms m else throw ErrUnauthorized),
     ws_InstantiateContract2 = (\<lambda>m. if P (mi_Sender m) then ws_InstantiateContract2 wms m else throw ErrUnauthorized),
     ws_ExecuteContract = (\<lambda>m. if P (mx_Sender m) then ws_ExecuteContract wms m else throw ErrUnauthorized),
     ws_MigrateContract = (\<lambda>m. if P (mm_Sender m) then ws_MigrateContract wms m else throw ErrUnauthorized)\<rparr>"

text \<open>\<open>cmn.SetupABI\<close> refuses a transaction method in a read-only call.\<close>

definition setup_laws :: "'s PrecompileEnv \<Rightarrow> bool" where
  "setup_laws e \<longleftrightarrow> (\<forall>input isTx m args. pe_SetupABI e input True isTx = Ok (m, args) \<longrightarrow> \<not> isTx m)"

section \<open>A reference server\<close>

text \<open>A server that records the senders of the messages it executes.\<close>

definition ref_wasm :: "string list WasmMsgServer" where
  "ref_wasm = \<lparr>
     ws_InstantiateContract = (\<lambda>m. thenM (modifyM (Cons (mi_Sender m))) (ret (''contract'', [1]))),
     ws_InstantiateContract2 = (\<lambda>m. thenM (modifyM (Cons (mi_Sender m))) (ret (''contract'', [1]))),
     ws_ExecuteContract = (\<lambda>m. thenM (modifyM (Cons (mx_Sender m))) (ret [2])),
     ws_MigrateContract = (\<lambda>m. thenM (modifyM (Cons (mm_Sender m))) (ret [3]))\<rparr>"

definition ref_pwasm :: "'s PWasmKeepers" where
  "ref_pwasm = \<lparr>pw_GetAccount = (\<lambda>a. ret (if a = [9] then Some (ref_account (replicate 32 7)) else None)),
     pw_QuerySmart = (\<lambda>a q. ret q)\<rparr>"

section \<open>Lemmas\<close>

lemma signer_arg_Ok [simp]: "signer_arg sender args = Ok a \<longleftrightarrow> arg args 0 = Ok (AbiAddress sender) \<and> a = sender"
proof (cases "arg args 0")
  case (Ok v)
  then show ?thesis by (cases v) (auto simp: signer_arg_def GetAccAddress_def ValidateSigner_def)
qed (simp_all add: signer_arg_def)

lemma bindM_liftO_cong: "(\<And>a. r = Ok a \<Longrightarrow> f a = g a) \<Longrightarrow> bindM (liftO r) f = bindM (liftO r) g"
  by (cases r) (auto simp: fun_eq_iff bindM_def liftO_def)

lemma bindM_cong_fun: "(\<And>a. f a = g a) \<Longrightarrow> bindM m f = bindM m g"
  by presburger

text \<open>A method called by \<open>sender\<close> cannot tell a server from its guarded version.\<close>

lemma methods_guarded:
  assumes "P (AccAddress_String (pe_bech32 e) sender)"
  shows "instantiateContract e (only_from P wms) sender args = instantiateContract e wms sender args"
    and "instantiateContract2 e (only_from P wms) sender args = instantiateContract2 e wms sender args"
    and "executeContract e k (only_from P wms) sender args = executeContract e k wms sender args"
    and "migrateContract e k (only_from P wms) sender args = migrateContract e k wms sender args"
  unfolding instantiateContract_def instantiateContract2_def executeContract_def migrateContract_def only_from_def
  using assms by (rule_tac [!] bindM_liftO_cong) (auto intro!: bindM_cong_fun)

text \<open>Nor can the whole precompile, whoever it acts for; in a static call it sends no message at all.\<close>

lemma wasm_Execute_guarded:
  assumes "setup_laws e"
  shows "wasm_Execute e k (only_from (\<lambda>s. \<not> readOnly \<and> s = AccAddress_String (pe_bech32 e) caller) wms)
      instanceCost gas input readOnly caller = wasm_Execute e k wms instanceCost gas input readOnly caller"
proof (cases readOnly)
  case True
  have "\<not> wasm_IsTransaction m" if "pe_SetupABI e input True wasm_IsTransaction = Ok (m, args)" for m args
    using assms that unfolding setup_laws_def by blast
  with True show ?thesis
    by (auto simp: wasm_Execute_def thenM_def wasm_IsTransaction_def intro!: bindM_cong_fun bindM_liftO_cong)
next
  case False
  then show ?thesis
    by (auto simp: wasm_Execute_def methods_guarded thenM_def intro!: bindM_cong_fun bindM_liftO_cong)
qed

section \<open>Properties\<close>

text \<open>C17: Through the precompile a contract acts only in its own name, and not at all in a
  read-only call: every call gives the same result and the same state when the wasm message
  server refuses all messages whose sender is not the caller, and in a static call all
  messages.  Through the delegatecall precompile the same holds of the account that signed the
  transaction, whichever contract makes the call.\<close>

theorem wasm_acts_as_caller:
  assumes "setup_laws e"
  shows "wasm_Run e k wms instanceCost gas input readOnly caller origin =
      wasm_Run e k (only_from (\<lambda>s. \<not> readOnly \<and> s = AccAddress_String (pe_bech32 e) caller) wms)
        instanceCost gas input readOnly caller origin \<and>
    wasm_RunDelegate e k wms instanceCost gas input readOnly caller origin =
      wasm_RunDelegate e k (only_from (\<lambda>s. \<not> readOnly \<and> s = AccAddress_String (pe_bech32 e) origin) wms)
        instanceCost gas input readOnly caller origin"
  by (simp add: wasm_Run_def wasm_RunDelegate_def wasm_Execute_guarded [OF assms])

theorem wasm_acts_as_caller_witness:
  "let e = ref_env (''executeContract'', [AbiAddress [1], AbiAddress [9], AbiBytes [], abi_coins []]) in
    wasm_Run e ref_pwasm (only_from (\<lambda>s. \<not> False \<and> s = ref_print [1]) ref_wasm) 60000 90000 [] False [1] [2] [] =
      (Ok [2], [ref_print [1]])"
proof -
  let ?e = "ref_env (''executeContract'', [AbiAddress [1], AbiAddress [9], AbiBytes [], abi_coins []])"
  have laws: "setup_laws ?e" by (auto simp: setup_laws_def ref_env_def split: if_splits)
  have "wasm_Run ?e ref_pwasm ref_wasm 60000 90000 [] False [1] [2] [] = (Ok [2], [ref_print [1]])" by code_simp
  then show ?thesis
    using wasm_acts_as_caller [OF laws, of ref_pwasm ref_wasm 60000 90000 "[]" False "[1]" "[2]"]
    by (simp add: Let_def ref_bech32_def)
qed

end
