(* ===== verification/App.thy ===== *)
theory App
  imports PrecompileWasm
begin

text \<open>
  The wiring of the application, \<open>src/app\<close> and \<open>src/precompile/precompiles.go\<close>: which modules
  exist and in which order their block hooks run, the module accounts and the addresses that may
  not receive funds, the precompile registry, the parameter subspaces and store keys, the upgrade
  handlers and the EVM mempool.  The keepers themselves are built in \<open>Keepers\<close>.

  A module name constant of another package, such as \<open>minttypes.ModuleName\<close>, is a constructor of
  \<open>ModuleId\<close>; an address made from a name is a parameter.
\<close>

section \<open>Modules\<close>

datatype ModuleId =
    M_auth | M_authz | M_bank | M_burn | M_capability | M_consensus | M_crisis | M_distr | M_evidence | M_evm
  | M_feegrant | M_feemarket | M_genutil | M_gov | M_ibc | M_ibctm | M_ica | M_icacontroller | M_icahost
  | M_mint | M_params | M_pfmrouter | M_ratelimit | M_reward | M_slashing | M_staking | M_transfer | M_upgrade
  | M_volunteer | M_wasm

text \<open>
  The keepers of the struct \<open>AppKeepers\<close>; six of its fields are pointers.  An argument \<open>app.X\<close> of a
  constructor is \<open>Field X\<close>, \<open>&app.X\<close> is \<open>Ref X\<close>, \<open>app.GetSubspace(m)\<close> is \<open>Space m\<close>.  Codecs, loggers,
  routers and options of the node are not listed.
\<close>

datatype KeeperId =
    K_Params | K_ConsensusParams | K_Account | K_Authz | K_FeeGrant | K_Staking | K_Mint | K_Distr | K_Slashing
  | K_Volunteer | K_Upgrade | K_IBC | K_Gov | K_Evidence | K_ICAHost | K_Ratelimit | K_ICAController | K_PFMRouter
  | K_Transfer | K_Wasm | K_FeeMarket | K_Evm | K_Bank | K_Reward | K_Burn

definition is_pointer :: "KeeperId \<Rightarrow> bool" where
  "is_pointer k = (case k of K_Staking \<Rightarrow> True | K_Gov \<Rightarrow> True | K_Upgrade \<Rightarrow> True | K_IBC \<Rightarrow> True
     | K_PFMRouter \<Rightarrow> True | K_Evm \<Rightarrow> True | _ \<Rightarrow> False)"

datatype arg =
    Field KeeperId | Ref KeeperId | Space ModuleId | Nil_arg | GovAddress | ChannelKeeper | ClientKeeper
  | Queries "string list"

definition appModules :: "(ModuleId \<times> arg list) list" where
  "appModules =
     [(M_genutil, [Field K_Account, Field K_Staking]),
      (M_auth, [Field K_Account, Space M_auth]),
      (M_bank, [Field K_Bank, Field K_Account, Space M_bank]),
      (M_gov, [Field K_Gov, Field K_Account, Field K_Bank, Space M_gov]),
      (M_mint, [Field K_Mint, Field K_Account, Nil_arg, Space M_mint]),
      (M_slashing, [Field K_Slashing, Field K_Account, Field K_Bank, Field K_Staking, Space M_slashing]),
      (M_distr, [Field K_Distr, Field K_Account, Field K_Bank, Field K_Staking, Space M_distr]),
      (M_staking, [Field K_Staking, Field K_Account, Field K_Bank, Space M_staking]),
      (M_upgrade, [Field K_Upgrade]),
      (M_evidence, [Field K_Evidence]),
      (M_feegrant, [Field K_Account, Field K_Bank, Field K_FeeGrant]),
      (M_authz, [Field K_Authz, Field K_Account, Field K_Bank]),
      (M_ibc, [Field K_IBC]),
      (M_ibctm, []),
      (M_params, [Field K_Params]),
      (M_consensus, [Field K_ConsensusParams]),
      (M_wasm, [Ref K_Wasm, Field K_Staking, Field K_Account, Field K_Bank, Space M_wasm]),
      (M_transfer, [Field K_Transfer]),
      (M_ica, [Ref K_ICAController, Ref K_ICAHost]),
      (M_pfmrouter, [Field K_PFMRouter, Space M_pfmrouter]),
      (M_ratelimit, [Field K_Ratelimit]),
      (M_evm, [Field K_Evm, Field K_Account, Field K_Bank]),
      (M_feemarket, [Field K_FeeMarket]),
      (M_reward, [Field K_Reward, Field K_Bank, Field K_Staking, Field K_Distr, Space M_reward]),
      (M_volunteer, [Field K_Volunteer]),
      (M_burn, [Field K_Burn])]"

definition simulationModules :: "(ModuleId \<times> arg list) list" where
  "simulationModules =
     [(M_auth, [Field K_Account, Space M_auth]),
      (M_bank, [Field K_Bank, Field K_Account, Space M_bank]),
      (M_feegrant, [Field K_Account, Field K_Bank, Field K_FeeGrant]),
      (M_gov, [Field K_Gov, Field K_Account, Field K_Bank, Space M_gov]),
      (M_mint, [Field K_Mint, Field K_Account, Nil_arg, Space M_mint]),
      (M_staking, [Field K_Staking, Field K_Account, Field K_Bank, Space M_staking]),
      (M_distr, [Field K_Distr, Field K_Account, Field K_Bank, Field K_Staking, Space M_distr]),
      (M_slashing, [Field K_Slashing, Field K_Account, Field K_Bank, Field K_Staking, Space M_slashing]),
      (M_evidence, [Field K_Evidence]),
      (M_authz, [Field K_Authz, Field K_Account, Field K_Bank]),
      (M_wasm, [Ref K_Wasm, Field K_Staking, Field K_Account, Field K_Bank, Space M_wasm]),
      (M_ibc, [Field K_IBC]),
      (M_transfer, [Field K_Transfer]),
      (M_ica, [Ref K_ICAController, Ref K_ICAHost])]"

definition orderPreBlockers :: "ModuleId list" where
  "orderPreBlockers = [M_upgrade, M_auth, M_evm]"

definition orderBeginBlockers :: "ModuleId list" where
  "orderBeginBlockers = [M_mint, M_distr, M_slashing, M_evidence, M_staking, M_auth, M_bank, M_gov, M_crisis, M_ibc,
     M_transfer, M_ica, M_pfmrouter, M_ratelimit, M_genutil, M_authz, M_feegrant, M_params, M_consensus, M_wasm,
     M_feemarket, M_evm, M_reward, M_volunteer, M_burn]"

definition orderEndBlockers :: "ModuleId list" where
  "orderEndBlockers = [M_crisis, M_gov, M_staking, M_ibc, M_transfer, M_ica, M_pfmrouter, M_ratelimit, M_auth, M_bank,
     M_distr, M_slashing, M_mint, M_genutil, M_evidence, M_authz, M_feegrant, M_params, M_upgrade, M_consensus, M_wasm,
     M_evm, M_feemarket, M_reward, M_volunteer, M_burn]"

definition orderInitBlockers :: "ModuleId list" where
  "orderInitBlockers = [M_auth, M_bank, M_distr, M_gov, M_staking, M_slashing, M_mint, M_crisis, M_evm, M_feemarket,
     M_genutil, M_transfer, M_ibc, M_ica, M_evidence, M_authz, M_feegrant, M_pfmrouter, M_ratelimit, M_params, M_upgrade,
     M_consensus, M_wasm, M_reward, M_volunteer, M_burn]"

section \<open>Module accounts\<close>

datatype AccountName = ModuleAccount ModuleId | FeeCollectorName | BondedPoolName | NotBondedPoolName

datatype Permission = Minter | Burner | StakingPerm

definition maccPerms :: "(AccountName \<times> Permission list) list" where
  "maccPerms = [(FeeCollectorName, []), (ModuleAccount M_distr, []), (ModuleAccount M_ica, []),
     (ModuleAccount M_mint, [Minter]), (BondedPoolName, [Burner, StakingPerm]), (NotBondedPoolName, [Burner, StakingPerm]),
     (ModuleAccount M_gov, [Burner]), (ModuleAccount M_transfer, [Minter, Burner]), (ModuleAccount M_wasm, [Burner]),
     (ModuleAccount M_evm, [Minter, Burner]), (ModuleAccount M_feemarket, []), (ModuleAccount M_reward, []),
     (ModuleAccount M_burn, [Burner]), (ModuleAccount M_bank, [])]"

text \<open>\<open>NewModuleAddress(name).String()\<close>, and the precompiles of the EVM packages.\<close>

record AddressEnv =
  ae_ModuleAddress :: "AccountName \<Rightarrow> string"
  ae_AvailableStaticPrecompiles :: "string list"
  ae_PrecompiledAddressesPrague :: "bytes list"
  ae_Hex :: "bytes \<Rightarrow> string"
  ae_Bech32StringFromHexAddress :: "string \<Rightarrow> string"

type_synonym macc_range = "(AccountName \<times> Permission list) list \<Rightarrow> (AccountName \<times> Permission list) list"

definition ModuleAccountAddrs :: "macc_range \<Rightarrow> AddressEnv \<Rightarrow> (string \<times> bool) list" where
  "ModuleAccountAddrs rng ae = fold (\<lambda>acc. gomap_set (ae_ModuleAddress ae (fst acc)) True) (rng maccPerms) []"

text \<open>The addresses of the repository's own precompiles.\<close>

definition pbank_Address :: bytes where
  "pbank_Address = 0x10 # replicate 18 0 @ [0x01]"

definition pwasm_Address :: bytes where
  "pwasm_Address = 0x10 # replicate 18 0 @ [0x04]"

definition pauth_Address :: bytes where
  "pauth_Address = 0x10 # replicate 18 0 @ [0x05]"

definition pwasm_DelegatecallAddress :: bytes where
  "pwasm_DelegatecallAddress = 0x10 # replicate 18 0 @ [0x44]"

definition PrecompiledAddressesXpla :: "bytes list" where
  "PrecompiledAddressesXpla = [pbank_Address, pwasm_Address, pauth_Address]"

text \<open>The map is changed in place; the value returned is that map.\<close>

definition BlockedModuleAccountAddrs :: "AddressEnv \<Rightarrow> (string \<times> bool) list \<Rightarrow> (string \<times> bool) list" where
  "BlockedModuleAccountAddrs ae modAccAddrs =
     (let allowed = gomap_delete (ae_ModuleAddress ae (ModuleAccount M_gov)) modAccAddrs;
          blockedPrecompilesHex = ae_AvailableStaticPrecompiles ae @
            map (ae_Hex ae) (ae_PrecompiledAddressesPrague ae) @ map (ae_Hex ae) PrecompiledAddressesXpla in
      fold (\<lambda>precompile. gomap_set (ae_Bech32StringFromHexAddress ae precompile) True) blockedPrecompilesHex allowed)"

section \<open>Precompiles\<close>

datatype Precompile =
    P_prague bytes | P_bech32 | P_p256 | P_staking | P_distribution | P_ics20 | P_gov | P_slashing
  | P_bank | P_wasm | P_auth | P_wasmDelegate

text \<open>The contracts of the EVM packages: the clone of the Prague set and the other addresses.\<close>

record RegistryEnv =
  px_Prague :: "(bytes \<times> Precompile) list"
  px_NewBech32 :: "unit outcome"
  px_Address :: "Precompile \<Rightarrow> bytes"

definition NewAvailableStaticPrecompiles :: "RegistryEnv \<Rightarrow> (bytes \<times> Precompile) list outcome" where
  "NewAvailableStaticPrecompiles px = (case px_NewBech32 px of
      Err _ \<Rightarrow> Panic ''failed to instantiate bech32 precompile''
    | Panic p \<Rightarrow> Panic p
    | Ok _ \<Rightarrow> Ok (fold (\<lambda>(a, p). gomap_set a p)
        [(px_Address px P_bech32, P_bech32), (px_Address px P_p256, P_p256),
         (px_Address px P_staking, P_staking), (px_Address px P_distribution, P_distribution),
         (px_Address px P_ics20, P_ics20), (px_Address px P_gov, P_gov), (px_Address px P_slashing, P_slashing),
         (pbank_Address, P_bank), (pwasm_Address, P_wasm), (pauth_Address, P_auth),
         (pwasm_DelegatecallAddress, P_wasmDelegate)] (px_Prague px)))"

text \<open>\<open>wasmDelegatePrecompile\<close> is the wasm precompile with its \<open>Run\<close> replaced.\<close>

definition wasmDelegatePrecompile_Run ::
  "'s PrecompileEnv \<Rightarrow> 's PWasmKeepers \<Rightarrow> 's WasmMsgServer \<Rightarrow> uint64 \<Rightarrow> uint64 \<Rightarrow> bytes \<Rightarrow> bool \<Rightarrow> bytes \<Rightarrow> bytes \<Rightarrow>
    ('s, bytes) M" where
  "wasmDelegatePrecompile_Run e k wms instanceCost gas input readOnly caller origin =
     wasm_RunDelegate e k wms instanceCost gas input readOnly caller origin"

section \<open>Store keys and parameter subspaces\<close>

text \<open>The keys are named after the modules; \<open>NewKVStoreKeys\<close> panics on a duplicate.\<close>

definition kv_store_keys :: "ModuleId list" where
  "kv_store_keys = [M_auth, M_bank, M_staking, M_mint, M_distr, M_slashing, M_gov, M_params, M_ibc, M_upgrade, M_evidence,
     M_transfer, M_icahost, M_icacontroller, M_capability, M_feegrant, M_authz, M_pfmrouter, M_ratelimit, M_consensus,
     M_wasm, M_evm, M_feemarket, M_burn, M_reward, M_volunteer]"

definition transient_store_keys :: "ModuleId list" where
  "transient_store_keys = [M_params, M_evm, M_feemarket]"

definition memory_store_keys :: "ModuleId list" where
  "memory_store_keys = [M_capability]"

definition new_keys :: "ModuleId list \<Rightarrow> ModuleId list outcome" where
  "new_keys names = (if distinct names then Ok names else Panic ''duplicate key name'')"

definition GenerateKeys :: "(ModuleId list \<times> ModuleId list \<times> ModuleId list) outcome" where
  "GenerateKeys =
     bindO (new_keys kv_store_keys) (\<lambda>keys.
     bindO (new_keys transient_store_keys) (\<lambda>tkeys.
     bindO (new_keys memory_store_keys) (\<lambda>memKeys. Ok (keys, tkeys, memKeys))))"

text \<open>\<open>paramsKeeper.Subspace\<close> panics when the subspace is occupied.\<close>

definition param_subspaces :: "ModuleId list" where
  "param_subspaces = [M_auth, M_staking, M_bank, M_mint, M_distr, M_slashing, M_gov, M_ibc, M_transfer, M_icacontroller,
     M_icahost, M_pfmrouter, M_ratelimit, M_wasm, M_feemarket, M_evm, M_reward, M_volunteer]"

definition initParamsKeeper :: "ModuleId list outcome" where
  "initParamsKeeper = foldO (\<lambda>m spaces.
     if m \<in> set spaces then Panic ''subspace already occupied'' else Ok (spaces @ [m])) param_subspaces []"

definition GetSubspace :: "ModuleId list \<Rightarrow> ModuleId \<Rightarrow> ModuleId outcome" where
  "GetSubspace spaces moduleName =
     (if moduleName \<in> set spaces then Ok moduleName else Panic ''couldn't load subspace for module'')"

section \<open>Upgrades\<close>

record StoreUpgrades =
  su_Added :: "string list"
  su_Renamed :: "(string \<times> string) list"
  su_Deleted :: "string list"

record ('s, 'v) Upgrade =
  UpgradeName :: string
  CreateUpgradeHandler :: "'v \<Rightarrow> ('s, 'v) M"
  UpgradeStores :: StoreUpgrades

text \<open>\<open>v1_11\<close>: the standard module migrations and no change of stores.\<close>

definition v1_11_CreateUpgradeHandler :: "('v \<Rightarrow> ('s, 'v) M) \<Rightarrow> 'v \<Rightarrow> ('s, 'v) M" where
  "v1_11_CreateUpgradeHandler RunMigrations fromVM = RunMigrations fromVM"

definition v1_11_Upgrade :: "('v \<Rightarrow> ('s, 'v) M) \<Rightarrow> ('s, 'v) Upgrade" where
  "v1_11_Upgrade RunMigrations = \<lparr>UpgradeName = ''v1_11'', CreateUpgradeHandler = v1_11_CreateUpgradeHandler RunMigrations,
     UpgradeStores = \<lparr>su_Added = [], su_Renamed = [], su_Deleted = []\<rparr>\<rparr>"

definition Upgrades :: "('v \<Rightarrow> ('s, 'v) M) \<Rightarrow> ('s, 'v) Upgrade list" where
  "Upgrades RunMigrations = [v1_11_Upgrade RunMigrations]"

text \<open>The handlers of the upgrade keeper, by plan name.\<close>

definition setUpgradeHandlers :: "('v \<Rightarrow> ('s, 'v) M) \<Rightarrow> (string \<times> ('v \<Rightarrow> ('s, 'v) M)) list" where
  "setUpgradeHandlers RunMigrations =
     fold (\<lambda>u. gomap_set (UpgradeName u) (CreateUpgradeHandler u)) (Upgrades RunMigrations) []"

record UpgradeInfo =
  ui_Name :: string
  ui_Height :: int

text \<open>The store loader, if one is set: the upgrade height with the store upgrades.\<close>

definition setUpgradeStoreLoaders ::
    "UpgradeInfo outcome \<Rightarrow> (int \<Rightarrow> bool) \<Rightarrow> ('s, 'v) Upgrade list \<Rightarrow> (int \<times> StoreUpgrades) option \<Rightarrow>
     (int \<times> StoreUpgrades) option outcome" where
  "setUpgradeStoreLoaders ReadUpgradeInfoFromDisk IsSkipHeight upgrades loader = (case ReadUpgradeInfoFromDisk of
      Err _ \<Rightarrow> Panic ''failed to read upgrade info from disk''
    | Panic p \<Rightarrow> Panic p
    | Ok info \<Rightarrow>
        if IsSkipHeight (ui_Height info) then Ok loader
        else Ok (fold (\<lambda>u l. if ui_Name info = UpgradeName u then Some (ui_Height info, UpgradeStores u) else l)
               upgrades loader))"

section \<open>Genesis, fees and the mempool\<close>

record ('s, 'g, 'v, 'r) ModuleManager =
  mm_UnmarshalGenesis :: "bytes \<Rightarrow> 'g outcome"
  mm_GetVersionMap :: 'v
  mm_SetModuleVersionMap :: "'v \<Rightarrow> ('s, unit) M"
  mm_InitGenesis :: "'g \<Rightarrow> ('s, 'r) M"

definition InitChainer :: "('s, 'g, 'v, 'r) ModuleManager \<Rightarrow> bytes \<Rightarrow> ('s, 'r) M" where
  "InitChainer mm appStateBytes =
     bindM (must (liftO (mm_UnmarshalGenesis mm appStateBytes))) (\<lambda>genesisState.
     thenM (must (mm_SetModuleVersionMap mm (mm_GetVersionMap mm))) (
     must (mm_InitGenesis mm genesisState)))"

text \<open>A transaction with a fee, or another one.\<close>

datatype SdkTx = FeeTx Coins | OtherTx

definition noOpTxFeeChecker :: "SdkTx \<Rightarrow> (Coins \<times> int64) outcome" where
  "noOpTxFeeChecker tx = (case tx of FeeTx fee \<Rightarrow> Ok (fee, 0) | OtherTx \<Rightarrow> Err ErrTxDecode)"

definition DefaultEvmMaxGasWanted :: uint64 where
  "DefaultEvmMaxGasWanted = 500000"

definition evmMaxGasWanted :: "uint64 \<Rightarrow> uint64" where
  "evmMaxGasWanted configured = (if configured = 0 then DefaultEvmMaxGasWanted else configured)"

text \<open>What the EVM mempool configuration installs in the application; \<open>None\<close> leaves the defaults.\<close>

record MempoolConfig =
  mc_BlockGasLimit :: uint64
  mc_MinTip :: "int option"

record MempoolOptions =
  mo_ChainConfigSet :: bool
  mo_CosmosPoolMaxTx :: int
  mo_BlockGasLimit :: uint64
  mo_MinTip :: "int option"

definition createMempoolConfig :: "MempoolOptions \<Rightarrow> MempoolConfig outcome" where
  "createMempoolConfig appOpts = Ok \<lparr>mc_BlockGasLimit = mo_BlockGasLimit appOpts, mc_MinTip = mo_MinTip appOpts\<rparr>"

definition configureEVMMempool :: "MempoolOptions \<Rightarrow> (MempoolConfig \<times> int) option outcome" where
  "configureEVMMempool appOpts =
     (if \<not> mo_ChainConfigSet appOpts then Ok None
      else if mo_CosmosPoolMaxTx appOpts < 0 then Ok None
      else bindO (createMempoolConfig appOpts) (\<lambda>config. Ok (Some (config, mo_CosmosPoolMaxTx appOpts))))"


section \<open>Specification\<close>

fun precedes :: "'a \<Rightarrow> 'a \<Rightarrow> 'a list \<Rightarrow> bool" where
  "precedes x y [] \<longleftrightarrow> False"
| "precedes x y (z # zs) \<longleftrightarrow> (if z = x then y \<in> set zs else precedes x y zs)"

text \<open>The addresses of the module accounts, and of the precompiles that are blocked.\<close>

definition module_addresses :: "AddressEnv \<Rightarrow> string set" where
  "module_addresses ae = (\<lambda>acc. ae_ModuleAddress ae (fst acc)) ` set maccPerms"

definition evm_addresses :: "AddressEnv \<Rightarrow> string set" where
  "evm_addresses ae = ae_Bech32StringFromHexAddress ae `
     (set (ae_AvailableStaticPrecompiles ae) \<union> ae_Hex ae ` set (ae_PrecompiledAddressesPrague ae))"

definition account_string :: "AddressEnv \<Rightarrow> bytes \<Rightarrow> string" where
  "account_string ae a = ae_Bech32StringFromHexAddress ae (ae_Hex ae a)"

section \<open>Reference addresses\<close>

fun ref_account_name :: "AccountName \<Rightarrow> string" where
  "ref_account_name (ModuleAccount M_gov) = ''gov''"
| "ref_account_name (ModuleAccount M_mint) = ''mint''"
| "ref_account_name (ModuleAccount _) = ''module''"
| "ref_account_name FeeCollectorName = ''fee_collector''"
| "ref_account_name BondedPoolName = ''bonded''"
| "ref_account_name NotBondedPoolName = ''not_bonded''"

definition ref_addresses :: AddressEnv where
  "ref_addresses = \<lparr>ae_ModuleAddress = ref_account_name, ae_AvailableStaticPrecompiles = [''0x0800''],
     ae_PrecompiledAddressesPrague = [replicate 19 0 @ [1]], ae_Hex = ref_print, ae_Bech32StringFromHexAddress = (\<lambda>s. ''x'' @ s)\<rparr>"

definition ref_registry :: RegistryEnv where
  "ref_registry = \<lparr>px_Prague = [(replicate 19 0 @ [1], P_prague (replicate 19 0 @ [1]))], px_NewBech32 = Ok (),
     px_Address = (\<lambda>p. replicate 18 0 @ [8, case p of P_staking \<Rightarrow> 0 | P_distribution \<Rightarrow> 1 | _ \<Rightarrow> 2])\<rparr>"

section \<open>Lemmas\<close>

lemma fold_set_true:
  "map_of (fold (\<lambda>x. gomap_set (f x) True) xs m) s = (if s \<in> f ` set xs then Some True else map_of m s)"
  by (induction xs arbitrary: m) (auto simp: gomap_set_get)

lemma fold_set_pairs:
  "distinct (map fst es) \<Longrightarrow> map_of (fold (\<lambda>(a, p). gomap_set a p) es m) k =
     (case map_of es k of None \<Rightarrow> map_of m k | Some p \<Rightarrow> Some p)"
proof (induction es arbitrary: m)
  case (Cons e es)
  have "map_of es (fst e) = None" using Cons.prems by (simp add: map_of_eq_None_iff)
  with Cons.IH Cons.prems show ?case by (cases e) (auto simp: gomap_set_get split: option.splits)
qed simp

lemma fold_set_append:
  "fold (\<lambda>(a, p). gomap_set a p) (es @ fs) m = fold (\<lambda>(a, p). gomap_set a p) fs (fold (\<lambda>(a, p). gomap_set a p) es m)"
  by simp

lemma fold_set_dom: "dom (map_of m) \<subseteq> dom (map_of (fold (\<lambda>(a, p). gomap_set a p) es m))"
proof (induction es arbitrary: m)
  case (Cons e es)
  have "dom (map_of m) \<subseteq> dom (map_of (gomap_set (fst e) (snd e) m))" by (auto simp: gomap_set_get dom_def)
  also have "\<dots> \<subseteq> dom (map_of (fold (\<lambda>(a, p). gomap_set a p) es (gomap_set (fst e) (snd e) m)))" by (rule Cons.IH)
  finally show ?case by (simp add: split_def)
qed simp

lemma blocked_lookup:
  assumes "go_range rng"
  shows "map_of (BlockedModuleAccountAddrs ae (ModuleAccountAddrs rng ae)) s = Some True \<longleftrightarrow>
    s \<in> evm_addresses ae \<or> s \<in> account_string ae ` set PrecompiledAddressesXpla \<or>
    (s \<in> module_addresses ae \<and> s \<noteq> ae_ModuleAddress ae (ModuleAccount M_gov))"
proof -
  have m: "map_of (ModuleAccountAddrs rng ae) s = (if s \<in> module_addresses ae then Some True else None)"
    by (simp add: ModuleAccountAddrs_def fold_set_true go_range_set [OF assms] module_addresses_def)
  show ?thesis
    by (auto simp: BlockedModuleAccountAddrs_def Let_def fold_set_true gomap_delete_get m evm_addresses_def
        account_string_def image_Un image_image split: if_splits)
qed

lemma xpla_entries_distinct:
  "distinct (map fst [(pbank_Address, P_bank), (pwasm_Address, P_wasm), (pauth_Address, P_auth),
     (pwasm_DelegatecallAddress, P_wasmDelegate)])"
  by (simp add: pbank_Address_def pwasm_Address_def pauth_Address_def pwasm_DelegatecallAddress_def)

lemma registry_lookup:
  assumes "NewAvailableStaticPrecompiles px = Ok reg"
  shows "map_of reg pbank_Address = Some P_bank" "map_of reg pwasm_Address = Some P_wasm"
    "map_of reg pauth_Address = Some P_auth" "map_of reg pwasm_DelegatecallAddress = Some P_wasmDelegate"
    "dom (map_of (px_Prague px)) \<subseteq> dom (map_of reg)"
proof -
  let ?ext = "[(px_Address px P_bech32, P_bech32), (px_Address px P_p256, P_p256),
         (px_Address px P_staking, P_staking), (px_Address px P_distribution, P_distribution),
         (px_Address px P_ics20, P_ics20), (px_Address px P_gov, P_gov), (px_Address px P_slashing, P_slashing)]"
  let ?own = "[(pbank_Address, P_bank), (pwasm_Address, P_wasm), (pauth_Address, P_auth),
         (pwasm_DelegatecallAddress, P_wasmDelegate)]"
  have reg: "reg = fold (\<lambda>(a, p). gomap_set a p) ?own (fold (\<lambda>(a, p). gomap_set a p) ?ext (px_Prague px))"
    using assms by (auto simp: NewAvailableStaticPrecompiles_def split: outcome.splits)
  have look: "map_of reg k = (case map_of ?own k of
      None \<Rightarrow> map_of (fold (\<lambda>(a, p). gomap_set a p) ?ext (px_Prague px)) k | Some p \<Rightarrow> Some p)" for k
    unfolding reg by (rule fold_set_pairs [OF xpla_entries_distinct])
  note d = xpla_entries_distinct
  show "map_of reg pbank_Address = Some P_bank" unfolding look by simp
  show "map_of reg pwasm_Address = Some P_wasm" unfolding look using d by auto
  show "map_of reg pauth_Address = Some P_auth" unfolding look using d by auto
  show "map_of reg pwasm_DelegatecallAddress = Some P_wasmDelegate" unfolding look using d by auto
  show "dom (map_of (px_Prague px)) \<subseteq> dom (map_of reg)"
    unfolding reg fold_set_append [symmetric] by (rule fold_set_dom)
qed


section \<open>Properties\<close>

text \<open>C24: The accounts that may not receive funds are exactly the module accounts other than the
  governance account, the precompiles of the EVM packages and the repository's bank, wasm and
  auth precompiles, in whatever order the permission map is visited.
\<close>

theorem blocked_addresses_exact:
  assumes "go_range rng"
  shows "{s. map_of (BlockedModuleAccountAddrs ae (ModuleAccountAddrs rng ae)) s = Some True} =
    (module_addresses ae - {ae_ModuleAddress ae (ModuleAccount M_gov)}) \<union> evm_addresses ae \<union>
    {account_string ae pbank_Address, account_string ae pwasm_Address, account_string ae pauth_Address}"
  using blocked_lookup [OF assms] by (auto simp: PrecompiledAddressesXpla_def)

theorem blocked_addresses_exact_witness:
  "{s. map_of (BlockedModuleAccountAddrs ref_addresses (ModuleAccountAddrs rev ref_addresses)) s = Some True} =
    (module_addresses ref_addresses - {''gov''}) \<union> evm_addresses ref_addresses \<union>
    {account_string ref_addresses pbank_Address, account_string ref_addresses pwasm_Address,
     account_string ref_addresses pauth_Address}"
  using blocked_addresses_exact [OF go_range_rev, of ref_addresses] by (simp add: ref_addresses_def)

text \<open>C38: The precompile for wasm delegate calls is registered at an address of its own that is not
  blocked: unlike the other precompiles of the repository, its account can be sent coins.
\<close>

theorem delegatecall_address_open:
  assumes "NewAvailableStaticPrecompiles px = Ok reg" "go_range rng" "inj (account_string ae)"
    and "account_string ae pwasm_DelegatecallAddress \<notin> module_addresses ae \<union> evm_addresses ae"
  shows "map_of reg pwasm_DelegatecallAddress = Some P_wasmDelegate \<and>
    map_of (BlockedModuleAccountAddrs ae (ModuleAccountAddrs rng ae)) (account_string ae pwasm_DelegatecallAddress) \<noteq> Some True"
proof -
  have "pwasm_DelegatecallAddress \<notin> set PrecompiledAddressesXpla"
    using xpla_entries_distinct by (auto simp: PrecompiledAddressesXpla_def)
  with assms(3) have "account_string ae pwasm_DelegatecallAddress \<notin> account_string ae ` set PrecompiledAddressesXpla"
    by (auto dest: injD)
  with registry_lookup(4) [OF assms(1)] blocked_lookup [OF assms(2)] assms(4) show ?thesis by simp
qed

theorem delegatecall_address_open_witness:
  "map_of (BlockedModuleAccountAddrs ref_addresses (ModuleAccountAddrs rev ref_addresses))
     (account_string ref_addresses pwasm_DelegatecallAddress) \<noteq> Some True"
proof -
  obtain reg where reg: "NewAvailableStaticPrecompiles ref_registry = Ok reg"
    by (simp add: NewAvailableStaticPrecompiles_def ref_registry_def)
  have "v = w" if "char_of (unat v) = (char_of (unat w) :: char)" for v w :: byte
  proof -
    from that have "of_char (char_of (unat v) :: char) = (of_char (char_of (unat w) :: char) :: nat)" by simp
    moreover have "unat v < 256" "unat w < 256" using unsigned_less [of v] unsigned_less [of w] by simp_all
    ultimately show ?thesis by (simp add: word_unat_eq_iff)
  qed
  then have "inj (\<lambda>w :: byte. char_of (unat w) :: char)" by (rule injI)
  then have inj: "inj (account_string ref_addresses)"
    by (intro injI) (simp add: account_string_def ref_addresses_def ref_print_def inj_map_eq_map)
  have out: "account_string ref_addresses pwasm_DelegatecallAddress \<notin> module_addresses ref_addresses \<union> evm_addresses ref_addresses"
    by code_simp
  from delegatecall_address_open [OF reg go_range_rev inj out] show ?thesis ..
qed

text \<open>The orders of the module hooks meet the requirements the code states for them.  No module
  is listed twice; the simulation runs the application's modules; every application module but the light client takes part in the genesis
  order, and every one but the light client and the upgrade module, which runs first of all in
  its own phase, in the begin-block order; at the start of a block distribution runs before
  slashing, at its end governance before staking, and at genesis the accounts, the staking
  module, the EVM and the fee market come before the genesis transactions.
\<close>

theorem module_orders:
  "distinct (map fst appModules) \<and> distinct orderBeginBlockers \<and> distinct orderEndBlockers \<and> distinct orderInitBlockers \<and>
   set simulationModules \<subseteq> set appModules \<and>
   set orderInitBlockers = (fst ` set appModules - {M_ibctm}) \<union> {M_crisis} \<and>
   set orderEndBlockers = set orderInitBlockers \<and>
   set orderBeginBlockers = set orderInitBlockers - {M_upgrade} \<and> hd orderPreBlockers = M_upgrade \<and>
   precedes M_distr M_slashing orderBeginBlockers \<and> precedes M_gov M_staking orderEndBlockers \<and>
   precedes M_auth M_genutil orderInitBlockers \<and> precedes M_staking M_genutil orderInitBlockers \<and>
   precedes M_evm M_genutil orderInitBlockers \<and> precedes M_feemarket M_genutil orderInitBlockers"
  by code_simp

end
