(* ===== verification/Keepers.thy ===== *)
theory Keepers
  imports App
begin

text \<open>
  Construction of the keepers, \<open>src/app/keepers/keepers.go\<close>.  \<open>NewAppKeeper\<close> fills the local struct
  \<open>appKeepers\<close> field by field, and hands the fields built so far to the next constructor: a struct
  by value, which later changes do not reach, a pointer, or the address of a field that is still
  empty and is filled later.  The model keeps exactly that: which copy, pointer or address every
  object holds.
\<close>

section \<open>Objects\<close>

text \<open>The objects of the IBC stacks.\<close>

datatype Layer = Core | RateLimit | PFM | Callbacks | Transfer | ICAHost | ICAController | WasmHandler

text \<open>
  A constructor holds the \<open>n\<close>-th value a field has had, \<open>n = 0\<close> being its zero value; the object behind
  a pointer field, or nil; the address of a field; or an object built from others.
\<close>

datatype obj =
    Copied KeeperId nat | Pointer KeeperId | NilPointer KeeperId | Address KeeperId | Subspace ModuleId | Absent
  | Authority AccountName | CoreObj | AcceptList "string list" | Built Layer "obj list"

datatype StoreKind = KVStore | TransientStore

text \<open>
  A keeper has the stores it opens (\<open>None\<close> for a key that is not in the map), the arguments of its
  constructor, the wrapper through which it sends packets, and hooks set later.
\<close>

record Keeper =
  kp_stores :: "(StoreKind \<times> ModuleId option) list"
  kp_args :: "obj list"
  kp_wrapper :: "obj option"
  kp_hooks :: "obj list"

text \<open>The fields of the struct with the values they have had, the latest first.\<close>

record AppKeepers =
  ak_keys :: "ModuleId list"
  ak_tkeys :: "ModuleId list"
  ak_memKeys :: "ModuleId list"
  ak_spaces :: "ModuleId list"
  ak_permAddrs :: "AccountName list"
  ak_fields :: "(KeeperId \<times> Keeper list) list"
  ak_router :: "(ModuleId \<times> obj) list"
  ak_precompileArgs :: "obj list"
  ak_precompiles :: "(bytes \<times> Precompile) list"

text \<open>
  Calls that can fail: state streaming, the wasm section of the configuration file, the schema of
  the burn keeper's collections, and the constructors of other packages, which panic when the account
  keeper they are given does not know the module accounts they need.
\<close>

record KeepersEnv =
  ke_NewKeeper :: "KeeperId \<Rightarrow> AccountName list \<Rightarrow> unit outcome"
  ke_BurnSchema :: "unit outcome"
  ke_RegisterStreamingServices :: "unit outcome"
  ke_ReadNodeConfig :: "unit outcome"
  ke_registry :: RegistryEnv

section \<open>Evaluation of arguments\<close>

definition versions :: "AppKeepers \<Rightarrow> KeeperId \<Rightarrow> Keeper list" where
  "versions a k = (case map_of (ak_fields a) k of None \<Rightarrow> [] | Some kps \<Rightarrow> kps)"

definition channel_keeper :: "(AppKeepers, obj) M" where
  "channel_keeper = bindM (getsM (\<lambda>a. versions a K_IBC)) (\<lambda>vs.
     case vs of [] \<Rightarrow> panic ''nil pointer dereference'' | _ \<Rightarrow> ret CoreObj)"

definition eval_arg :: "arg \<Rightarrow> (AppKeepers, obj) M" where
  "eval_arg x = (case x of
      Field k \<Rightarrow> getsM (\<lambda>a.
        if \<not> is_pointer k then Copied k (length (versions a k))
        else case versions a k of [] \<Rightarrow> NilPointer k | _ \<Rightarrow> Pointer k)
    | Ref k \<Rightarrow> ret (Address k)
    | Space m \<Rightarrow> bindM (getsM ak_spaces) (\<lambda>spaces. bindM (liftO (GetSubspace spaces m)) (\<lambda>_. ret (Subspace m)))
    | Nil_arg \<Rightarrow> ret Absent
    | GovAddress \<Rightarrow> ret (Authority (ModuleAccount M_gov))
    | Queries qs \<Rightarrow> ret (AcceptList qs)
    | ChannelKeeper \<Rightarrow> channel_keeper
    | ClientKeeper \<Rightarrow> channel_keeper)"

primrec eval_args :: "arg list \<Rightarrow> (AppKeepers, obj list) M" where
  "eval_args [] = ret []"
| "eval_args (x # xs) = bindM (eval_arg x) (\<lambda>v. bindM (eval_args xs) (\<lambda>vs. ret (v # vs)))"

definition put_field :: "KeeperId \<Rightarrow> Keeper \<Rightarrow> (AppKeepers, unit) M" where
  "put_field k kp = modifyM (\<lambda>a. a\<lparr>ak_fields := gomap_set k (kp # versions a k) (ak_fields a)\<rparr>)"

definition lookup_key :: "ModuleId list \<Rightarrow> ModuleId \<Rightarrow> ModuleId option" where
  "lookup_key keys m = (if m \<in> set keys then Some m else None)"

text \<open>
  \<open>NewKeeper\<close> of the repository's burn and reward modules checks that the module account is set,
  and the burn keeper builds its schema; the volunteer keeper only fills its struct.  The other
  constructors end in packages of the SDK, the EVM, IBC or wasm.
\<close>

definition account_set :: "ModuleId \<Rightarrow> string \<Rightarrow> (AppKeepers, unit) M" where
  "account_set m name = bindM (getsM ak_permAddrs) (\<lambda>accs.
     if ModuleAccount m \<in> set accs then ret () else panic (name @ '' module account has not been set''))"

definition Burn_NewKeeper :: "KeepersEnv \<Rightarrow> (AppKeepers, unit) M" where
  "Burn_NewKeeper e = thenM (account_set M_burn ''burn'') (must (liftO (ke_BurnSchema e)))"

definition Reward_NewKeeper :: "(AppKeepers, unit) M" where
  "Reward_NewKeeper = account_set M_reward ''reward''"

definition NewKeeper :: "KeepersEnv \<Rightarrow> KeeperId \<Rightarrow> (AppKeepers, unit) M" where
  "NewKeeper e k = (case k of
      K_Burn \<Rightarrow> Burn_NewKeeper e
    | K_Reward \<Rightarrow> Reward_NewKeeper
    | K_Volunteer \<Rightarrow> ret ()
    | _ \<Rightarrow> bindM (getsM ak_permAddrs) (\<lambda>accs. liftO (ke_NewKeeper e k accs)))"

text \<open>
  \<open>appKeepers.K = NewKeeper(...)\<close> with persistent and transient stores, arguments and, for the keepers that
  send packets, an \<open>ICS4Wrapper\<close>.
\<close>

definition build :: "KeepersEnv \<Rightarrow> KeeperId \<Rightarrow> ModuleId list \<Rightarrow> ModuleId list \<Rightarrow> arg list \<Rightarrow> arg option \<Rightarrow> (AppKeepers, unit) M" where
  "build e k stores tstores args wrapper =
     bindM (getsM (\<lambda>a. map (\<lambda>m. (KVStore, lookup_key (ak_keys a) m)) stores @
       map (\<lambda>m. (TransientStore, lookup_key (ak_tkeys a) m)) tstores)) (\<lambda>st.
     bindM (eval_args args) (\<lambda>vs.
     bindM (case wrapper of None \<Rightarrow> ret None | Some w \<Rightarrow> bindM (eval_arg w) (\<lambda>v. ret (Some v))) (\<lambda>wv.
     thenM (NewKeeper e k) (
     put_field k \<lparr>kp_stores = st, kp_args = vs, kp_wrapper = wv, kp_hooks = []\<rparr>))))"

definition deref :: "KeeperId \<Rightarrow> (AppKeepers, Keeper) M" where
  "deref k = bindM (getsM (\<lambda>a. versions a k)) (\<lambda>vs. case vs of [] \<Rightarrow> panic ''nil pointer dereference'' | kp # _ \<Rightarrow> ret kp)"

text \<open>\<open>SetHooks\<close> of a keeper behind a pointer.\<close>

definition SetHooks :: "KeeperId \<Rightarrow> arg list \<Rightarrow> (AppKeepers, unit) M" where
  "SetHooks k args = bindM (eval_args args) (\<lambda>vs. bindM (deref k) (\<lambda>kp. put_field k (kp\<lparr>kp_hooks := vs\<rparr>)))"

text \<open>The transfer keeper, the first argument of the forwarder, was nil; this fills the place.\<close>

definition SetTransferKeeper :: "(AppKeepers, unit) M" where
  "SetTransferKeeper = bindM (eval_arg (Field K_Transfer)) (\<lambda>v. bindM (deref K_PFMRouter) (\<lambda>kp.
     put_field K_PFMRouter (kp\<lparr>kp_args := v # tl (kp_args kp)\<rparr>)))"

text \<open>\<open>appKeepers.K.WithICS4Wrapper(w)\<close> changes the field in place; it is called on built fields only.\<close>

definition WithICS4Wrapper :: "KeeperId \<Rightarrow> obj \<Rightarrow> (AppKeepers, unit) M" where
  "WithICS4Wrapper k w = bindM (deref k) (\<lambda>kp. put_field k (kp\<lparr>kp_wrapper := Some w\<rparr>))"

definition new_object :: "Layer \<Rightarrow> obj list \<Rightarrow> arg list \<Rightarrow> (AppKeepers, obj) M" where
  "new_object l objs args = bindM (eval_args args) (\<lambda>vs. ret (Built l (objs @ vs)))"

section \<open>NewAppKeeper\<close>

text \<open>\<open>perms\<close> is the argument \<open>maccPerms\<close>; the account keeper keeps its names.\<close>

definition basic_keepers :: "KeepersEnv \<Rightarrow> (AccountName \<times> Permission list) list \<Rightarrow> (AppKeepers, unit) M" where
  "basic_keepers e perms =
     thenM (build e K_ConsensusParams [M_consensus] [] [GovAddress] None) (
     thenM (build e K_Account [M_auth] [] [GovAddress] None) (
     thenM (modifyM (\<lambda>a. a\<lparr>ak_permAddrs := map fst perms\<rparr>)) (
     thenM (build e K_Authz [M_authz] [] [Field K_Account] None) (
     thenM (build e K_FeeGrant [M_feegrant] [] [Field K_Account] None) (
     thenM (build e K_Staking [M_staking] [] [Field K_Account, Ref K_Bank, GovAddress, Ref K_Volunteer] None) (
     thenM (build e K_Mint [M_mint] [] [Field K_Staking, Field K_Account, Ref K_Bank, GovAddress] None) (
     thenM (build e K_Distr [M_distr] [] [Field K_Account, Ref K_Bank, Field K_Staking, GovAddress] None) (
     thenM (build e K_Slashing [M_slashing] [] [Field K_Staking, GovAddress] None) (
     thenM (build e K_Volunteer [M_volunteer] [] [Field K_Staking, Field K_Distr, GovAddress] None) (
     thenM (SetHooks K_Staking [Field K_Distr, Field K_Slashing]) (
     build e K_Upgrade [M_upgrade] [] [GovAddress] None)))))))))))"

definition ibc_keepers :: "KeepersEnv \<Rightarrow> (AppKeepers, unit) M" where
  "ibc_keepers e =
     thenM (build e K_IBC [M_ibc] [] [Space M_ibc, Field K_Upgrade, GovAddress] None) (
     thenM (build e K_Gov [M_gov] [] [Field K_Account, Ref K_Bank, Field K_Staking, Field K_Distr, GovAddress] None) (
     thenM (build e K_Evidence [M_evidence] [] [Field K_Staking, Field K_Slashing] None) (
     thenM (build e K_ICAHost [M_icahost] [] [Space M_icahost, ChannelKeeper, Field K_Account, GovAddress] (Some ChannelKeeper)) (
     thenM (build e K_Ratelimit [M_ratelimit] [] [Space M_ratelimit, GovAddress, Ref K_Bank, ChannelKeeper, ClientKeeper]
       (Some ChannelKeeper)) (
     thenM (build e K_ICAController [M_icacontroller] [] [Space M_icacontroller, ChannelKeeper, GovAddress] (Some ChannelKeeper)) (
     thenM (build e K_PFMRouter [M_pfmrouter] [] [Nil_arg, ChannelKeeper, Ref K_Bank, GovAddress] (Some (Field K_Ratelimit))) (
     thenM (build e K_Transfer [M_transfer] [] [Space M_transfer, ChannelKeeper, Field K_Account, Ref K_Bank, GovAddress]
       (Some ChannelKeeper)) (
     SetTransferKeeper))))))))"

definition accepted :: "string list" where
  "accepted =
     [''/ibc.core.client.v1.Query/ClientState'', ''/ibc.core.client.v1.Query/ConsensusState'',
      ''/ibc.core.connection.v1.Query/Connection'', ''/cosmos.gov.v1beta1.Query/Vote'',
      ''/cosmos.distribution.v1beta1.Query/DelegationRewards'', ''/cosmos.staking.v1beta1.Query/Delegation'',
      ''/cosmos.staking.v1beta1.Query/Redelegations'', ''/cosmos.staking.v1beta1.Query/UnbondingDelegation'',
      ''/cosmos.staking.v1beta1.Query/Validator'', ''/cosmos.staking.v1beta1.Query/Params'',
      ''/cosmos.staking.v1beta1.Query/Pool'']"

definition wasm_keeper :: "KeepersEnv \<Rightarrow> (AppKeepers, unit) M" where
  "wasm_keeper e =
     build e K_Wasm [M_wasm] [] [Field K_Account, Ref K_Bank, Field K_Staking, Field K_Distr, ChannelKeeper,
       Field K_Transfer, GovAddress, Queries accepted] (Some ChannelKeeper)"

text \<open>The stacks, from the bottom up, and the router.  The first argument of a middleware is the application below.\<close>

definition transfer_stack :: "obj \<Rightarrow> (AppKeepers, obj) M" where
  "transfer_stack wasmStackIBCHandler =
     bindM (new_object Transfer [] [Field K_Transfer]) (\<lambda>app.
     bindM (eval_arg (Field K_PFMRouter)) (\<lambda>pfm.
     bindM (ret (Built Callbacks [app, pfm, wasmStackIBCHandler])) (\<lambda>cbStack.
     bindM (new_object PFM [cbStack] [Field K_PFMRouter]) (\<lambda>pfmStack.
     bindM (eval_arg (Field K_Ratelimit)) (\<lambda>limiter.
     bindM (ret (Built RateLimit [pfmStack, limiter])) (\<lambda>stack.
     thenM (WithICS4Wrapper K_Transfer cbStack) (ret stack)))))))"

definition ica_controller_stack :: "obj \<Rightarrow> (AppKeepers, obj) M" where
  "ica_controller_stack wasmStackIBCHandler =
     bindM (new_object ICAController [] [Field K_ICAController]) (\<lambda>app.
     bindM (eval_arg ChannelKeeper) (\<lambda>channel.
     bindM (ret (Built Callbacks [app, channel, wasmStackIBCHandler])) (\<lambda>stack.
     thenM (WithICS4Wrapper K_ICAController stack) (ret stack))))"

definition ibc_router :: "(AppKeepers, unit) M" where
  "ibc_router =
     bindM (new_object WasmHandler [] [Field K_Wasm, ChannelKeeper, ChannelKeeper]) (\<lambda>wasmStackIBCHandler.
     bindM (transfer_stack wasmStackIBCHandler) (\<lambda>transferStack.
     bindM (new_object ICAHost [] [Field K_ICAHost]) (\<lambda>icaHostStack.
     bindM (ica_controller_stack wasmStackIBCHandler) (\<lambda>icaControllerStack.
     bindM (new_object WasmHandler [] [Field K_Wasm, ChannelKeeper, ChannelKeeper]) (\<lambda>wasmStack.
     thenM (deref K_IBC) (
     modifyM (\<lambda>a. a\<lparr>ak_router := [(M_icahost, icaHostStack), (M_icacontroller, icaControllerStack),
       (M_transfer, transferStack), (M_wasm, wasmStack)]\<rparr>)))))))"

definition evm_keepers :: "KeepersEnv \<Rightarrow> (AppKeepers, unit) M" where
  "evm_keepers e =
     thenM (build e K_FeeMarket [M_feemarket] [M_feemarket] [GovAddress] None) (
     thenM (build e K_Evm [M_evm] [M_evm] [GovAddress, Field K_Account, Ref K_Bank, Field K_Staking, Field K_FeeMarket,
       Ref K_ConsensusParams, Nil_arg] None) (
     thenM (build e K_Bank [M_bank] [] [Field K_Account, GovAddress, Field K_Evm, Field K_Wasm, Ref K_Wasm] None) (
     thenM (build e K_Reward [M_reward] [] [Field K_Account, Field K_Bank, Field K_Staking, Field K_Distr, Field K_Mint,
       GovAddress] None) (
     thenM (build e K_Burn [M_burn] [] [Field K_Account, Field K_Bank, GovAddress] None) (
     SetHooks K_Gov [Field K_Burn, Field K_Bank, Field K_Gov])))))"

text \<open>The staking and governance keepers are dereferenced and copied.\<close>

definition copy_behind :: "KeeperId \<Rightarrow> (AppKeepers, obj) M" where
  "copy_behind k = bindM (deref k) (\<lambda>_. getsM (\<lambda>a. Copied k (length (versions a k))))"

definition register_precompiles :: "RegistryEnv \<Rightarrow> (AppKeepers, unit) M" where
  "register_precompiles px =
     bindM (copy_behind K_Staking) (\<lambda>staking.
     bindM (eval_args [Field K_Distr, Field K_Transfer, ChannelKeeper, Field K_Evm]) (\<lambda>vs.
     bindM (copy_behind K_Gov) (\<lambda>gov.
     bindM (eval_args [Field K_Slashing, Field K_Account, Field K_Bank, Ref K_Wasm, Field K_Wasm, Field K_Account]) (\<lambda>ws.
     bindM (liftO (NewAvailableStaticPrecompiles px)) (\<lambda>reg.
     thenM (deref K_Evm) (
     modifyM (\<lambda>a. a\<lparr>ak_precompileArgs := staking # vs @ gov # ws, ak_precompiles := reg\<rparr>)))))))"

definition start_keepers :: "KeepersEnv \<Rightarrow> (AppKeepers, unit) M" where
  "start_keepers e =
     bindM (liftO GenerateKeys) (\<lambda>(keys, tkeys, memKeys).
     thenM (modifyM (\<lambda>a. a\<lparr>ak_keys := keys, ak_tkeys := tkeys, ak_memKeys := memKeys\<rparr>)) (
     bindM (attempt (liftO (ke_RegisterStreamingServices e))) (\<lambda>err.
     thenM (case err of Inl _ \<Rightarrow> panic ''exit status 1'' | Inr _ \<Rightarrow> ret ()) (
     bindM (liftO initParamsKeeper) (\<lambda>spaces.
     thenM (modifyM (\<lambda>a. a\<lparr>ak_spaces := spaces\<rparr>)) (
     build e K_Params [M_params] [M_params] [] None))))))"

definition NewAppKeeper :: "KeepersEnv \<Rightarrow> (AccountName \<times> Permission list) list \<Rightarrow> (AppKeepers, unit) M" where
  "NewAppKeeper e perms =
     thenM (start_keepers e) (
     thenM (basic_keepers e perms) (
     thenM (ibc_keepers e) (
     thenM (must (liftO (ke_ReadNodeConfig e))) (
     thenM (wasm_keeper e) (
     thenM ibc_router (
     thenM (evm_keepers e) (
     register_precompiles (ke_registry e))))))))"

definition empty_keepers :: AppKeepers where
  "empty_keepers = \<lparr>ak_keys = [], ak_tkeys = [], ak_memKeys = [], ak_spaces = [], ak_permAddrs = [], ak_fields = [], ak_router = [],
     ak_precompileArgs = [], ak_precompiles = []\<rparr>"

text \<open>The modules of \<open>appModules\<close> with what they are given.\<close>

definition build_modules :: "(ModuleId \<times> arg list) list \<Rightarrow> (AppKeepers, (ModuleId \<times> obj list) list) M" where
  "build_modules ms = foldM (\<lambda>(m, args) acc. bindM (eval_args args) (\<lambda>vs. ret (acc @ [(m, vs)]))) ms []"

section \<open>Specification\<close>

text \<open>What a keeper was given, inside middleware objects too.\<close>

fun parts :: "obj \<Rightarrow> obj list" where
  "parts (Built l xs) = concat (map parts xs)"
| "parts x = [x]"

definition given :: "Keeper \<Rightarrow> obj list" where
  "given kp = concat (map parts (kp_args kp @ (case kp_wrapper kp of None \<Rightarrow> [] | Some x \<Rightarrow> [x]) @ kp_hooks kp))"

text \<open>Not empty when it was copied, not nil, and an address only of a field filled in the end.\<close>

definition settled :: "AppKeepers \<Rightarrow> obj \<Rightarrow> bool" where
  "settled a x = (case x of Copied k n \<Rightarrow> 0 < n | NilPointer k \<Rightarrow> False | Address k \<Rightarrow> versions a k \<noteq> [] | _ \<Rightarrow> True)"

text \<open>A copy is stale when the field was changed after it was made.\<close>

definition stale_copies :: "AppKeepers \<Rightarrow> obj list \<Rightarrow> KeeperId list" where
  "stale_copies a xs = List.map_filter (\<lambda>x. case x of
      Copied k n \<Rightarrow> if n < length (versions a k) then Some k else None
    | _ \<Rightarrow> None) xs"

definition stale_in :: "AppKeepers \<Rightarrow> (KeeperId \<times> KeeperId) list" where
  "stale_in a = concat (map (\<lambda>(k, kps). case kps of [] \<Rightarrow> [] | kp # _ \<Rightarrow> map (Pair k) (stale_copies a (given kp))) (ak_fields a))"

text \<open>The stores of the keepers.\<close>

definition opened_stores :: "AppKeepers \<Rightarrow> (StoreKind \<times> ModuleId option) list" where
  "opened_stores a = concat (map (\<lambda>(k, kps). case kps of [] \<Rightarrow> [] | kp # _ \<Rightarrow> kp_stores kp) (ak_fields a))"

text \<open>A store a keeper opens is among the mounted ones of its kind.\<close>

definition store_in :: "ModuleId list \<Rightarrow> ModuleId list \<Rightarrow> StoreKind \<times> ModuleId option \<Rightarrow> bool" where
  "store_in keys tkeys p = (case p of
      (_, None) \<Rightarrow> False
    | (kind, Some m) \<Rightarrow> m \<in> set (case kind of KVStore \<Rightarrow> keys | TransientStore \<Rightarrow> tkeys))"

text \<open>
  The module accounts the other packages' constructors ask for, and what is relied on: with these,
  and only these needed, they do not panic, and the schema of the burn keeper can be built.
\<close>

definition accounts_needed :: "KeeperId \<Rightarrow> AccountName list" where
  "accounts_needed k = (case k of
      K_Staking \<Rightarrow> [BondedPoolName, NotBondedPoolName]
    | K_Mint \<Rightarrow> [ModuleAccount M_mint]
    | K_Distr \<Rightarrow> [ModuleAccount M_distr]
    | K_Gov \<Rightarrow> [ModuleAccount M_gov]
    | K_ICAHost \<Rightarrow> [ModuleAccount M_ica]
    | K_Transfer \<Rightarrow> [ModuleAccount M_transfer]
    | K_Evm \<Rightarrow> [ModuleAccount M_evm]
    | _ \<Rightarrow> [])"

definition constructor_laws :: "KeepersEnv \<Rightarrow> bool" where
  "constructor_laws e \<longleftrightarrow> ke_BurnSchema e = Ok () \<and>
     (\<forall>k accs. set (accounts_needed k) \<subseteq> set accs \<longrightarrow> ke_NewKeeper e k accs = Ok ())"

text \<open>The keepers that were left with a nil argument.\<close>

definition with_nil :: "AppKeepers \<Rightarrow> KeeperId list" where
  "with_nil a = List.map_filter (\<lambda>(k, kps). case kps of
      [] \<Rightarrow> None
    | kp # _ \<Rightarrow> if list_ex (\<lambda>x. case x of Absent \<Rightarrow> True | _ \<Rightarrow> False) (kp_args kp) then Some k else None) (ak_fields a)"

text \<open>The layers a packet passes on its way in, and on its way out from an object that sends it.\<close>

fun recv_layers :: "obj \<Rightarrow> Layer list" where
  "recv_layers (Built l (x # xs)) = (if l \<in> {RateLimit, PFM, Callbacks} then l # recv_layers x else [l])"
| "recv_layers _ = []"

definition layer_of :: "KeeperId \<Rightarrow> Layer" where
  "layer_of k = (case k of K_Ratelimit \<Rightarrow> RateLimit | K_PFMRouter \<Rightarrow> PFM | K_Transfer \<Rightarrow> Transfer | K_ICAHost \<Rightarrow> ICAHost
     | K_ICAController \<Rightarrow> ICAController | K_Wasm \<Rightarrow> WasmHandler | _ \<Rightarrow> Core)"

definition behind :: "AppKeepers \<Rightarrow> obj \<Rightarrow> (KeeperId \<times> Keeper) option" where
  "behind a x = (case x of
      Copied k n \<Rightarrow> if 0 < n \<and> n \<le> length (versions a k) then Some (k, rev (versions a k) ! (n - 1)) else None
    | Pointer k \<Rightarrow> (case versions a k of [] \<Rightarrow> None | kp # _ \<Rightarrow> Some (k, kp))
    | _ \<Rightarrow> None)"

primrec send_layers :: "nat \<Rightarrow> AppKeepers \<Rightarrow> obj \<Rightarrow> Layer list" where
  "send_layers 0 a x = []"
| "send_layers (Suc n) a x = (case x of
      CoreObj \<Rightarrow> [Core]
    | Built l xs \<Rightarrow> l # (case xs of app # w # _ \<Rightarrow> send_layers n a w | _ \<Rightarrow> [])
    | _ \<Rightarrow> (case behind a x of
        None \<Rightarrow> []
      | Some (k, kp) \<Rightarrow> layer_of k # (case kp_wrapper kp of None \<Rightarrow> [] | Some w \<Rightarrow> send_layers n a w)))"

section \<open>Reference environment\<close>

definition ref_NewKeeper :: "KeeperId \<Rightarrow> AccountName list \<Rightarrow> unit outcome" where
  "ref_NewKeeper k accs = (if list_all (\<lambda>x. x \<in> set accs) (accounts_needed k) then Ok () else Panic ''module account has not been set'')"

definition ref_keepers_env :: KeepersEnv where
  "ref_keepers_env = \<lparr>ke_NewKeeper = ref_NewKeeper, ke_BurnSchema = Ok (), ke_RegisterStreamingServices = Ok (), ke_ReadNodeConfig = Ok (), ke_registry = ref_registry\<rparr>"

section \<open>Lemmas\<close>

text \<open>
  Running the construction: each rule executes one statement on a given state, so that \<open>simp\<close> goes
  through \<open>NewAppKeeper\<close> in order.
\<close>

lemma bindM_weak: "m = m' \<Longrightarrow> s = s' \<Longrightarrow> bindM m f s = bindM m' f s'"
  by simp

lemma thenM_weak: "m = m' \<Longrightarrow> s = s' \<Longrightarrow> thenM m k s = thenM m' k s'"
  by simp

lemma keys_generated: "GenerateKeys = Ok (kv_store_keys, transient_store_keys, memory_store_keys)"
  by code_simp

lemma subspaces_registered: "initParamsKeeper = Ok param_subspaces"
  by code_simp

lemma subspaces_found:
  "GetSubspace param_subspaces M_ibc = Ok M_ibc" "GetSubspace param_subspaces M_icahost = Ok M_icahost"
  "GetSubspace param_subspaces M_ratelimit = Ok M_ratelimit" "GetSubspace param_subspaces M_transfer = Ok M_transfer"
  "GetSubspace param_subspaces M_icacontroller = Ok M_icacontroller"
  by code_simp+

lemma eval_arg_run:
  "eval_arg (Field k) a = (Ok (if \<not> is_pointer k then Copied k (length (versions a k))
     else case versions a k of [] \<Rightarrow> NilPointer k | _ \<Rightarrow> Pointer k), a)"
  "eval_arg (Ref k) a = (Ok (Address k), a)"
  "eval_arg GovAddress a = (Ok (Authority (ModuleAccount M_gov)), a)"
  "eval_arg Nil_arg a = (Ok Absent, a)"
  "eval_arg (Queries qs) a = (Ok (AcceptList qs), a)"
  "GetSubspace (ak_spaces a) m = Ok m \<Longrightarrow> eval_arg (Space m) a = (Ok (Subspace m), a)"
  "versions a K_IBC = v # vs \<Longrightarrow> eval_arg ChannelKeeper a = (Ok CoreObj, a)"
  "versions a K_IBC = v # vs \<Longrightarrow> eval_arg ClientKeeper a = (Ok CoreObj, a)"
  by (simp_all add: eval_arg_def getsM_def ret_def bindM_def liftO_def channel_keeper_def)

lemma eval_args_run:
  "eval_args [] a = (Ok [], a)"
  "eval_arg x a = (Ok v, b) \<Longrightarrow> eval_args xs b = (Ok vs, c) \<Longrightarrow> eval_args (x # xs) a = (Ok (v # vs), c)"
  by (simp_all add: ret_def bindM_Ok)

lemma put_field_run: "put_field k kp a = (Ok (), a\<lparr>ak_fields := gomap_set k (kp # versions a k) (ak_fields a)\<rparr>)"
  by (simp add: put_field_def modifyM_def)

lemma NewKeeper_run:
  "constructor_laws e \<Longrightarrow> k \<in> {K_Params, K_ConsensusParams, K_Account} \<Longrightarrow> NewKeeper e k a = (Ok (), a)"
  "constructor_laws e \<Longrightarrow> ak_permAddrs a = map fst maccPerms \<Longrightarrow> NewKeeper e k a = (Ok (), a)"
proof -
  assume laws: "constructor_laws e"
  show "NewKeeper e k a = (Ok (), a)" if "k \<in> {K_Params, K_ConsensusParams, K_Account}"
    using that laws by (auto simp: NewKeeper_def bindM_def getsM_def liftO_def constructor_laws_def accounts_needed_def)
  have needed: "\<forall>x \<in> set (accounts_needed k). x \<in> set (map fst maccPerms)" by (cases k) (simp_all add: accounts_needed_def maccPerms_def)
  have own: "ModuleAccount M_burn \<in> set (map fst maccPerms)" "ModuleAccount M_reward \<in> set (map fst maccPerms)" by code_simp+
  show "NewKeeper e k a = (Ok (), a)" if accs: "ak_permAddrs a = map fst maccPerms"
  proof -
    have "ke_NewKeeper e k (map fst maccPerms) = Ok ()"
      using laws needed unfolding constructor_laws_def by blast
    moreover have "ke_BurnSchema e = Ok ()" using laws by (simp add: constructor_laws_def)
    ultimately show ?thesis using own unfolding NewKeeper_def Burn_NewKeeper_def Reward_NewKeeper_def account_set_def
      by (cases k; simp only: bindM_def thenM_def getsM_def liftO_def ret_def must_def attempt_def accs KeeperId.case
          if_True prod.case outcome.case sum.case Let_def)
  qed
qed

lemma build_run:
  "eval_args args a = (Ok vs, b) \<Longrightarrow> NewKeeper e k b = (Ok (), b) \<Longrightarrow> build e k stores tstores args None a =
     put_field k \<lparr>kp_stores = map (\<lambda>m. (KVStore, lookup_key (ak_keys a) m)) stores @
       map (\<lambda>m. (TransientStore, lookup_key (ak_tkeys a) m)) tstores,
       kp_args = vs, kp_wrapper = None, kp_hooks = []\<rparr> b"
  "eval_args args a = (Ok vs, b) \<Longrightarrow> eval_arg w b = (Ok wv, c) \<Longrightarrow> NewKeeper e k c = (Ok (), c) \<Longrightarrow>
     build e k stores tstores args (Some w) a =
     put_field k \<lparr>kp_stores = map (\<lambda>m. (KVStore, lookup_key (ak_keys a) m)) stores @
       map (\<lambda>m. (TransientStore, lookup_key (ak_tkeys a) m)) tstores,
       kp_args = vs, kp_wrapper = Some wv, kp_hooks = []\<rparr> c"
  by (simp_all add: build_def bindM_def thenM_def getsM_def ret_def)

lemma deref_run: "versions a k = kp # kps \<Longrightarrow> deref k a = (Ok kp, a)"
  by (simp add: deref_def bindM_def getsM_def ret_def)

lemma setters_run:
  "eval_args args a = (Ok vs, b) \<Longrightarrow> deref k b = (Ok kp, c) \<Longrightarrow> SetHooks k args a = put_field k (kp\<lparr>kp_hooks := vs\<rparr>) c"
  "eval_arg (Field K_Transfer) a = (Ok v, b) \<Longrightarrow> deref K_PFMRouter b = (Ok kp, c) \<Longrightarrow>
     SetTransferKeeper a = put_field K_PFMRouter (kp\<lparr>kp_args := v # tl (kp_args kp)\<rparr>) c"
  "deref k a = (Ok kp, b) \<Longrightarrow> WithICS4Wrapper k w a = put_field k (kp\<lparr>kp_wrapper := Some w\<rparr>) b"
  "eval_args args a = (Ok vs, b) \<Longrightarrow> new_object l objs args a = (Ok (Built l (objs @ vs)), b)"
  "deref k a = (Ok kp, b) \<Longrightarrow> copy_behind k a = (Ok (Copied k (length (versions b k))), b)"
  by (simp_all add: SetHooks_def SetTransferKeeper_def WithICS4Wrapper_def new_object_def copy_behind_def bindM_def
      getsM_def ret_def)

lemmas statement_run = bindM_Ok thenM_Ok keys_generated subspaces_registered subspaces_found eval_arg_run eval_args_run
  put_field_run build_run deref_run setters_run is_pointer_def versions_def ret_def modifyM_def liftO_def

lemma NewAppKeeper_run:
  assumes "ke_RegisterStreamingServices e = Ok ()" "ke_ReadNodeConfig e = Ok ()" "px_NewBech32 (ke_registry e) = Ok ()"
    and "constructor_laws e"
  shows "case NewAppKeeper e maccPerms empty_keepers of (r, a) \<Rightarrow> r = Ok () \<and>
    length (ak_fields a) = 25 \<and> distinct (map fst (ak_fields a)) \<and>
    None \<notin> snd ` set (opened_stores a) \<and> distinct (opened_stores a) \<and>
    list_all (settled a) (concat (map given (concat (map snd (ak_fields a))))) \<and>
    list_all (settled a) (concat (map parts (map snd (ak_router a) @ ak_precompileArgs a))) \<and> with_nil a = [K_Evm] \<and>
    (case fst (build_modules appModules a) of Ok ms \<Rightarrow> list_all (settled a) (concat (map snd ms)) | _ \<Rightarrow> False) \<and>
    is_Ok (fst (build_modules simulationModules a)) \<and> versions a K_IBC \<noteq> [] \<and>
    list_all (store_in (ak_keys a) (ak_tkeys a)) (opened_stores a) \<and>
    ak_keys a = kv_store_keys \<and> ak_tkeys a = transient_store_keys \<and> ak_memKeys a = memory_store_keys \<and>
    (case map_of (ak_router a) M_transfer of None \<Rightarrow> False
      | Some stack \<Rightarrow> recv_layers stack = [RateLimit, PFM, Callbacks, Transfer]) \<and>
    fst (eval_arg (Field K_Transfer) a) = Ok (Copied K_Transfer 2) \<and>
    send_layers 5 a (Copied K_Transfer 2) = [Transfer, Callbacks, PFM, RateLimit, Core] \<and>
    (case behind a (Pointer K_PFMRouter) of None \<Rightarrow> False
      | Some (k, pfm) \<Rightarrow> k = K_PFMRouter \<and> send_layers 5 a (hd (kp_args pfm)) = [Transfer, Core]) \<and>
    stale_in a = [(K_ICAController, K_ICAController), (K_PFMRouter, K_Transfer), (K_Transfer, K_Transfer), (K_Wasm, K_Transfer)] \<and>
    stale_copies a (ak_precompileArgs a) = []"
proof -
  from assms(3) obtain reg where reg: "NewAvailableStaticPrecompiles (ke_registry e) = Ok reg"
    by (simp add: NewAvailableStaticPrecompiles_def)
  show ?thesis
    unfolding NewAppKeeper_def start_keepers_def basic_keepers_def ibc_keepers_def wasm_keeper_def ibc_router_def
      transfer_stack_def ica_controller_stack_def evm_keepers_def register_precompiles_def
    by (simp add: statement_run empty_keepers_def attempt_def must_def assms NewKeeper_run [OF assms(4)] reg del: eval_args.simps
        cong: bindM_weak thenM_weak) code_simp
qed

lemma ref_constructor_laws: "constructor_laws ref_keepers_env"
  by (auto simp: constructor_laws_def ref_keepers_env_def ref_NewKeeper_def list_all_iff)

section \<open>Properties\<close>



text \<open>C16: Packets leave by the path the comments describe only if they are sent by the application's
  own transfer keeper: transfer, callbacks, forwarder, rate limiter, core, the reverse of the way
  in.  The constructors of other packages are taken to panic only for a missing module
  account.  The transfer keeper given to the forwarder is a copy made before the wrapper was set; what
  it sends goes straight to the core, past the rate limiter.  Copies of the transfer and the
  interchain account controller keepers made for the stacks and the wasm keeper are the only
  other stale ones, and none is among the arguments of the precompiles.
\<close>

theorem forwarder_bypasses_rate_limit:
  assumes "ke_RegisterStreamingServices e = Ok ()" "ke_ReadNodeConfig e = Ok ()" "px_NewBech32 (ke_registry e) = Ok ()"
    and "constructor_laws e"
  shows "\<exists>a stack pfm t. NewAppKeeper e maccPerms empty_keepers = (Ok (), a) \<and> map_of (ak_router a) M_transfer = Some stack \<and>
    Core # recv_layers stack = [Core, RateLimit, PFM, Callbacks, Transfer] \<and>
    fst (eval_arg (Field K_Transfer) a) = Ok t \<and> send_layers 5 a t = [Transfer, Callbacks, PFM, RateLimit, Core] \<and>
    behind a (Pointer K_PFMRouter) = Some (K_PFMRouter, pfm) \<and> send_layers 5 a (hd (kp_args pfm)) = [Transfer, Core] \<and>
    stale_in a = [(K_ICAController, K_ICAController), (K_PFMRouter, K_Transfer), (K_Transfer, K_Transfer), (K_Wasm, K_Transfer)] \<and>
    stale_copies a (ak_precompileArgs a) = []"
  using NewAppKeeper_run [OF assms] by (cases "NewAppKeeper e maccPerms empty_keepers") (auto split: option.splits)

theorem forwarder_bypasses_rate_limit_witness:
  "\<exists>a pfm. NewAppKeeper ref_keepers_env maccPerms empty_keepers = (Ok (), a) \<and>
     behind a (Pointer K_PFMRouter) = Some (K_PFMRouter, pfm) \<and> send_layers 5 a (hd (kp_args pfm)) = [Transfer, Core]"
  using forwarder_bypasses_rate_limit [of ref_keepers_env] ref_constructor_laws by (auto simp: ref_keepers_env_def ref_registry_def)

end
