(* ===== verification/Node.thy ===== *)
theory Node
  imports Keepers Ante
begin

text \<open>
  Construction of the application, \<open>NewXplaApp\<close> of \<open>src/app/app.go\<close>: the keepers, the module manager
  with the orders of its hooks, the mounted stores, the transaction handler, upgrades and mempool.
  The state is what the base application and the manager have been told so far.  Calls into the
  SDK that can fail are parameters.
\<close>

section \<open>The application under construction\<close>

datatype Phase = PreBlock | BeginBlock | EndBlock | InitGenesisPhase

record ('x, 'v) Node =
  nd_blocked :: "(string \<times> bool) list"
  nd_keepers :: AppKeepers
  nd_lightClient :: bool
  nd_modules :: "(ModuleId \<times> obj list) list"
  nd_simulation :: "(ModuleId \<times> obj list) list"
  nd_order :: "(Phase \<times> ModuleId list) list"
  nd_mounted :: "ModuleId list \<times> ModuleId list \<times> ModuleId list"
  nd_handler :: "'x AnteHandler option"
  nd_maxTxGasWanted :: uint64
  nd_upgrades :: "(string \<times> ('v \<Rightarrow> ('x, 'v) M)) list"
  nd_loader :: "(int \<times> StoreUpgrades) option"
  nd_mempool :: "(MempoolConfig \<times> int \<times> 'x AnteHandler option) option"
  nd_version :: "int option"

record ('x, 'v) NodeEnv =
  ne_InterfaceRegistry :: "unit outcome"
  ne_Streaming :: "unit outcome"
  ne_NodeConfig :: "uint64 option outcome"
  ne_NewKeeper :: "KeeperId \<Rightarrow> AccountName list \<Rightarrow> unit outcome"
  ne_BurnSchema :: "unit outcome"
  ne_EVMMaxTxGasWanted :: uint64
  ne_registry :: RegistryEnv
  ne_addresses :: AddressEnv
  ne_range :: macc_range
  ne_AddRoute :: "unit outcome"
  ne_NewTxConfig :: "unit outcome"
  ne_SetOrder :: "Phase \<Rightarrow> ModuleId list \<Rightarrow> ModuleId list \<Rightarrow> unit outcome"
  ne_RegisterServices :: "unit outcome"
  ne_ReflectionService :: "unit outcome"
  ne_Snapshots :: "unit outcome option"
  ne_RunMigrations :: "'v \<Rightarrow> ('x, 'v) M"
  ne_UpgradeInfo :: "UpgradeInfo outcome"
  ne_IsSkipHeight :: "(int \<times> bool) list \<Rightarrow> int \<Rightarrow> bool"
  ne_mempool :: MempoolOptions
  ne_MergedRegistry :: "unit outcome"
  ne_LoadLatestVersion :: "int outcome"
  ne_LoadVersion :: "int \<Rightarrow> unit outcome"
  ne_InitializePinnedCodes :: "unit outcome"
  ne_BypassMinFeeMsgTypes :: "string list"
  ne_ante :: "'x ExtAnte"
  ne_fee :: "'x FeeEnv"
  ne_bech32 :: Bech32
  ne_volunteer :: "ValAddress \<Rightarrow> ('x Ctx, VolunteerValidator) M"

definition external :: "'a outcome \<Rightarrow> ('s, 'a) M" where
  "external r = must (liftO r)"

section \<open>NewXplaApp\<close>

definition keepers_env :: "('x, 'v) NodeEnv \<Rightarrow> KeepersEnv" where
  "keepers_env e = \<lparr>ke_NewKeeper = ne_NewKeeper e, ke_BurnSchema = ne_BurnSchema e, ke_RegisterStreamingServices = ne_Streaming e,
     ke_ReadNodeConfig = bindO (ne_NodeConfig e) (\<lambda>_. Ok ()), ke_registry = ne_registry e\<rparr>"

definition build_keepers :: "('x, 'v) NodeEnv \<Rightarrow> (('x, 'v) Node, unit) M" where
  "build_keepers e =
     thenM (modifyM (\<lambda>nd. nd\<lparr>nd_blocked :=
       BlockedModuleAccountAddrs (ne_addresses e) (ModuleAccountAddrs (ne_range e) (ne_addresses e))\<rparr>)) (
     zoomM nd_keepers (\<lambda>a nd. nd\<lparr>nd_keepers := a\<rparr>) (NewAppKeeper (keepers_env e) maccPerms))"

text \<open>The IBC keeper is reached through a pointer; its client keeper then gets the light client.\<close>

definition add_light_client :: "('x, 'v) NodeEnv \<Rightarrow> (('x, 'v) Node, unit) M" where
  "add_light_client e =
     bindM (getsM nd_keepers) (\<lambda>a.
     thenM (if versions a K_IBC = [] then panic ''nil pointer dereference'' else ret ()) (
     thenM (external (ne_AddRoute e)) (
     modifyM (\<lambda>nd. nd\<lparr>nd_lightClient := True\<rparr>))))"

definition build_manager :: "('x, 'v) NodeEnv \<Rightarrow> (('x, 'v) Node, unit) M" where
  "build_manager e =
     bindM (zoomM nd_keepers (\<lambda>a nd. nd\<lparr>nd_keepers := a\<rparr>) (build_modules appModules)) (\<lambda>ms.
     thenM (modifyM (\<lambda>nd. nd\<lparr>nd_modules := ms\<rparr>)) (
     external (ne_NewTxConfig e)))"

definition set_order :: "('x, 'v) NodeEnv \<Rightarrow> Phase \<Rightarrow> ModuleId list \<Rightarrow> (('x, 'v) Node, unit) M" where
  "set_order e ph names =
     bindM (getsM nd_modules) (\<lambda>ms.
     thenM (external (ne_SetOrder e ph (map fst ms) names)) (
     modifyM (\<lambda>nd. nd\<lparr>nd_order := gomap_set ph names (nd_order nd)\<rparr>)))"

definition set_orders :: "('x, 'v) NodeEnv \<Rightarrow> (('x, 'v) Node, unit) M" where
  "set_orders e =
     thenM (set_order e PreBlock orderPreBlockers) (
     thenM (set_order e BeginBlock orderBeginBlockers) (
     thenM (set_order e EndBlock orderEndBlockers) (
     set_order e InitGenesisPhase orderInitBlockers)))"

definition register_services :: "('x, 'v) NodeEnv \<Rightarrow> (('x, 'v) Node, unit) M" where
  "register_services e =
     thenM (external (ne_RegisterServices e)) (
     thenM (external (ne_ReflectionService e)) (
     bindM (zoomM nd_keepers (\<lambda>a nd. nd\<lparr>nd_keepers := a\<rparr>) (build_modules simulationModules)) (\<lambda>ms.
     modifyM (\<lambda>nd. nd\<lparr>nd_simulation := ms\<rparr>))))"

definition mount_stores :: "(('x, 'v) Node, unit) M" where
  "mount_stores = modifyM (\<lambda>nd. nd\<lparr>nd_mounted :=
     (ak_keys (nd_keepers nd), ak_tkeys (nd_keepers nd), ak_memKeys (nd_keepers nd))\<rparr>)"

text \<open>
  The options of the handler.  An interface that holds a keeper is not nil; the IBC keeper is a
  pointer.
\<close>

definition handler_options :: "('x, 'v) NodeEnv \<Rightarrow> AppKeepers \<Rightarrow> uint64 option \<Rightarrow> 'x HandlerOptions" where
  "handler_options e a simulationGasLimit =
     \<lparr>has_AccountKeeper = True, has_BankKeeper = True, has_SignModeHandler = True, has_IBCKeeper = (versions a K_IBC \<noteq> []),
      has_EvmKeeper = True, has_FeegrantKeeper = True, has_FeeMarketKeeper = True,
      opt_VolunteerKeeper = Some (ne_volunteer e), has_Codec = True,
      opt_SigGasConsumer = Some (SigVerificationGasConsumer (xa_ConsumeGas (ne_ante e))), has_TxFeeChecker = True,
      opt_BypassMinFeeMsgTypes = ne_BypassMinFeeMsgTypes e, opt_WasmConfig = Some simulationGasLimit\<rparr>"

definition install_handlers :: "('x, 'v) NodeEnv \<Rightarrow> (('x, 'v) Node, unit) M" where
  "install_handlers e =
     bindM (external (ne_NodeConfig e)) (\<lambda>wasmConfig.
     bindM (getsM nd_keepers) (\<lambda>a.
     bindM (external (NewAnteHandler (ne_ante e) (ne_fee e) (ne_bech32 e) (handler_options e a wasmConfig))) (\<lambda>anteHandler.
     modifyM (\<lambda>nd. nd\<lparr>nd_handler := Some anteHandler, nd_maxTxGasWanted := evmMaxGasWanted (ne_EVMMaxTxGasWanted e)\<rparr>))))"

definition register_snapshots :: "('x, 'v) NodeEnv \<Rightarrow> (('x, 'v) Node, unit) M" where
  "register_snapshots e = (case ne_Snapshots e of None \<Rightarrow> ret () | Some r \<Rightarrow> external r)"

definition install_upgrades :: "('x, 'v) NodeEnv \<Rightarrow> (int \<times> bool) list \<Rightarrow> (('x, 'v) Node, unit) M" where
  "install_upgrades e skipUpgradeHeights =
     thenM (modifyM (\<lambda>nd. nd\<lparr>nd_upgrades := setUpgradeHandlers (ne_RunMigrations e)\<rparr>)) (
     bindM (getsM nd_loader) (\<lambda>loader.
     bindM (liftO (setUpgradeStoreLoaders (ne_UpgradeInfo e) (ne_IsSkipHeight e skipUpgradeHeights)
       (Upgrades (ne_RunMigrations e)) loader)) (\<lambda>loader'.
     modifyM (\<lambda>nd. nd\<lparr>nd_loader := loader'\<rparr>))))"

text \<open>The mempool keeps the handler that is installed when it is configured.\<close>

definition install_mempool :: "('x, 'v) NodeEnv \<Rightarrow> (('x, 'v) Node, unit) M" where
  "install_mempool e =
     bindM (external (configureEVMMempool (ne_mempool e))) (\<lambda>pool.
     modifyM (\<lambda>nd. nd\<lparr>nd_mempool := map_option (\<lambda>(cfg, maxTx). (cfg, maxTx, nd_handler nd)) pool\<rparr>))"

text \<open>The base application remembers the version of the store it has loaded, \<open>None\<close> before.\<close>

definition load_latest :: "('x, 'v) NodeEnv \<Rightarrow> (('x, 'v) Node, unit) M" where
  "load_latest e =
     bindM (external (ne_LoadLatestVersion e)) (\<lambda>v.
     thenM (modifyM (\<lambda>nd. nd\<lparr>nd_version := Some v\<rparr>)) (
     external (ne_InitializePinnedCodes e)))"

definition LoadHeight :: "('x, 'v) NodeEnv \<Rightarrow> int \<Rightarrow> (('x, 'v) Node, unit) M" where
  "LoadHeight e height =
     thenM (liftO (ne_LoadVersion e height)) (modifyM (\<lambda>nd. nd\<lparr>nd_version := Some height\<rparr>))"

definition NewXplaApp :: "('x, 'v) NodeEnv \<Rightarrow> bool \<Rightarrow> (int \<times> bool) list \<Rightarrow> (('x, 'v) Node, unit) M" where
  "NewXplaApp e loadLatest skipUpgradeHeights =
     thenM (external (ne_InterfaceRegistry e)) (
     thenM (build_keepers e) (
     thenM (add_light_client e) (
     thenM (build_manager e) (
     thenM (set_orders e) (
     thenM (register_services e) (
     thenM mount_stores (
     thenM (install_handlers e) (
     thenM (register_snapshots e) (
     thenM (install_upgrades e skipUpgradeHeights) (
     thenM (install_mempool e) (
     thenM (external (ne_MergedRegistry e)) (
     if loadLatest then load_latest e else ret ()))))))))))))"

definition blank_node :: "('x, 'v) Node" where
  "blank_node = \<lparr>nd_blocked = [], nd_keepers = empty_keepers, nd_lightClient = False, nd_modules = [], nd_simulation = [], nd_order = [],
     nd_mounted = ([], [], []), nd_handler = None, nd_maxTxGasWanted = 0, nd_upgrades = [], nd_loader = None, nd_mempool = None,
     nd_version = None\<rparr>"

section \<open>Specification\<close>

text \<open>
  The calls into the SDK succeed, and the constructors of its keepers panic only for a missing
  module account.
\<close>

definition externals_ok :: "('x, 'v) NodeEnv \<Rightarrow> bool" where
  "externals_ok e \<longleftrightarrow> ne_InterfaceRegistry e = Ok () \<and> ne_Streaming e = Ok () \<and> is_Ok (ne_NodeConfig e) \<and>
     px_NewBech32 (ne_registry e) = Ok () \<and> ne_AddRoute e = Ok () \<and> ne_NewTxConfig e = Ok () \<and> ne_RegisterServices e = Ok () \<and>
     ne_ReflectionService e = Ok () \<and> ne_Snapshots e \<in> {None, Some (Ok ())} \<and> is_Ok (ne_UpgradeInfo e) \<and>
     ne_MergedRegistry e = Ok () \<and> is_Ok (ne_LoadLatestVersion e) \<and> ne_InitializePinnedCodes e = Ok () \<and>
     constructor_laws (keepers_env e)"

text \<open>
  The manager refuses an order only if it forgets a module that has the hook.  Begin-block hooks
  exist in every module but the light client and the upgrade module, and pre-block hooks in the
  three modules listed; the light client has no end-block hook and no genesis.
\<close>

definition order_laws :: "('x, 'v) NodeEnv \<Rightarrow> (Phase \<Rightarrow> ModuleId set) \<Rightarrow> bool" where
  "order_laws e hooked \<longleftrightarrow>
     (\<forall>ph mods names. (\<forall>m \<in> set mods. m \<in> hooked ph \<longrightarrow> m \<in> set names) \<longrightarrow> ne_SetOrder e ph mods names = Ok ()) \<and>
     hooked PreBlock \<subseteq> {M_upgrade, M_auth, M_evm} \<and> M_ibctm \<notin> hooked BeginBlock \<and> M_upgrade \<notin> hooked BeginBlock \<and>
     M_ibctm \<notin> hooked EndBlock \<and> M_ibctm \<notin> hooked InitGenesisPhase"

text \<open>The order the manager ends up with.\<close>

definition app_order :: "(Phase \<times> ModuleId list) list" where
  "app_order = [(PreBlock, orderPreBlockers), (BeginBlock, orderBeginBlockers), (EndBlock, orderEndBlockers),
     (InitGenesisPhase, orderInitBlockers)]"

section \<open>Reference environment\<close>

definition ref_node_env :: "(ValAddress \<Rightarrow> (unit Ctx, VolunteerValidator) M) \<Rightarrow> (unit, unit) NodeEnv" where
  "ref_node_env get = \<lparr>ne_InterfaceRegistry = Ok (), ne_Streaming = Ok (), ne_NodeConfig = Ok None, ne_NewKeeper = ref_NewKeeper,
     ne_BurnSchema = Ok (), ne_EVMMaxTxGasWanted = 0, ne_registry = ref_registry,
     ne_addresses = ref_addresses, ne_range = rev, ne_AddRoute = Ok (), ne_NewTxConfig = Ok (), ne_SetOrder = (\<lambda>_ _ _. Ok ()),
     ne_RegisterServices = Ok (), ne_ReflectionService = Ok (), ne_Snapshots = None, ne_RunMigrations = ret,
     ne_UpgradeInfo = Ok \<lparr>ui_Name = ''v1_11'', ui_Height = 7\<rparr>, ne_IsSkipHeight = (\<lambda>_ _. False),
     ne_mempool = \<lparr>mo_ChainConfigSet = True, mo_CosmosPoolMaxTx = 5, mo_BlockGasLimit = 0, mo_MinTip = None\<rparr>,
     ne_MergedRegistry = Ok (), ne_LoadLatestVersion = Ok 7,
     ne_LoadVersion = (\<lambda>h. guardO (h \<in> {1..7}) (Error ''version does not exist'')), ne_InitializePinnedCodes = Ok (), ne_BypassMinFeeMsgTypes = [],
     ne_ante = ref_xa, ne_fee = ref_fe 0, ne_bech32 = ref_bech32, ne_volunteer = get\<rparr>"

section \<open>Lemmas\<close>

lemma external_Ok [simp]: "external (Ok a) s = (Ok a, s)"
  by (simp add: external_def must_def liftO_def)

lemma eval_arg_pure: "eval_arg x a = (Ok v, b) \<Longrightarrow> b = a"
  by (cases x) (auto simp: eval_arg_def channel_keeper_def bindM_def getsM_def ret_def liftO_def panic_def
      split: if_splits list.splits prod.splits outcome.splits)

lemma eval_args_pure: "eval_args xs a = (Ok vs, b) \<Longrightarrow> b = a"
  by (induction xs arbitrary: a b vs) (auto simp: ret_def dest!: eval_arg_pure)

lemma build_modules_pure:
  assumes "build_modules ms a = (Ok vs, b)"
  shows "b = a" "map fst vs = map fst ms"
proof -
  have "foldM (\<lambda>(m, args) acc. bindM (eval_args args) (\<lambda>vs. ret (acc @ [(m, vs)]))) ms acc a = (Ok vs, b) \<Longrightarrow>
      b = a \<and> map fst vs = map fst acc @ map fst ms" for acc
    by (induction ms arbitrary: acc a) (fastforce simp: ret_def dest!: eval_args_pure)+
  from this [of "[]"] assms show "b = a" "map fst vs = map fst ms" by (auto simp: build_modules_def)
qed

lemma keepers_env_sel [simp]:
  "ke_RegisterStreamingServices (keepers_env e) = ne_Streaming e" "ke_registry (keepers_env e) = ne_registry e"
  "ne_NodeConfig e = Ok l \<Longrightarrow> ke_ReadNodeConfig (keepers_env e) = Ok ()"
  by (simp_all add: keepers_env_def)

lemma set_order_run:
  assumes "order_laws e hooked" "map fst (nd_modules nd) = map fst appModules" "fst ` set appModules \<inter> hooked ph \<subseteq> set names"
  shows "set_order e ph names nd = (Ok (), nd\<lparr>nd_order := gomap_set ph names (nd_order nd)\<rparr>)"
proof -
  have "ne_SetOrder e ph (map fst (nd_modules nd)) names = Ok ()"
    using assms unfolding order_laws_def assms(2) by (metis (no_types, lifting) IntI list.set_map subsetD)
  then show ?thesis by (simp add: set_order_def bindM_def thenM_def getsM_def modifyM_def)
qed

lemma orders_cover:
  assumes "order_laws e hooked"
  shows "fst ` set appModules \<inter> hooked PreBlock \<subseteq> set orderPreBlockers"
    "fst ` set appModules \<inter> hooked BeginBlock \<subseteq> set orderBeginBlockers"
    "fst ` set appModules \<inter> hooked EndBlock \<subseteq> set orderEndBlockers"
    "fst ` set appModules \<inter> hooked InitGenesisPhase \<subseteq> set orderInitBlockers"
proof -
  have cover: "\<forall>m \<in> set (map fst appModules). m = M_ibctm \<or> m \<in> set orderEndBlockers"
      "\<forall>m \<in> set (map fst appModules). m = M_ibctm \<or> m \<in> set orderInitBlockers"
      "\<forall>m \<in> set (map fst appModules). m = M_ibctm \<or> m = M_upgrade \<or> m \<in> set orderBeginBlockers" by code_simp+
  have hooks: "hooked PreBlock \<subseteq> {M_upgrade, M_auth, M_evm}" "M_ibctm \<notin> hooked BeginBlock" "M_upgrade \<notin> hooked BeginBlock"
      "M_ibctm \<notin> hooked EndBlock" "M_ibctm \<notin> hooked InitGenesisPhase"
    using assms by (simp_all add: order_laws_def)
  have mem: "m \<in> set (map fst appModules)" if "m \<in> fst ` set appModules" for m using that by (simp only: set_map)
  show "fst ` set appModules \<inter> hooked PreBlock \<subseteq> set orderPreBlockers" using hooks(1) by (auto simp: orderPreBlockers_def)
  show "fst ` set appModules \<inter> hooked BeginBlock \<subseteq> set orderBeginBlockers"
    using cover(3) hooks(2,3) mem by (metis IntD1 IntD2 subsetI)
  show "fst ` set appModules \<inter> hooked EndBlock \<subseteq> set orderEndBlockers"
    using cover(1) hooks(4) mem by (metis IntD1 IntD2 subsetI)
  show "fst ` set appModules \<inter> hooked InitGenesisPhase \<subseteq> set orderInitBlockers"
    using cover(2) hooks(5) mem by (metis IntD1 IntD2 subsetI)
qed

lemma set_orders_run:
  assumes "order_laws e hooked" "map fst (nd_modules nd) = map fst appModules" "nd_order nd = []"
  shows "set_orders e nd = (Ok (), nd\<lparr>nd_order := app_order\<rparr>)"
proof -
  note run = set_order_run [OF assms(1) _ orders_cover(1) [OF assms(1)]] set_order_run [OF assms(1) _ orders_cover(2) [OF assms(1)]]
    set_order_run [OF assms(1) _ orders_cover(3) [OF assms(1)]] set_order_run [OF assms(1) _ orders_cover(4) [OF assms(1)]]
  show ?thesis by (simp add: set_orders_def thenM_Ok run assms(2,3) app_order_def)
qed

lemma NewXplaApp_run:
  assumes "externals_ok e" "order_laws e hooked"
  obtains nd l a v where "NewXplaApp e loadLatest skip blank_node = (Ok (), nd)" "NewAppKeeper (keepers_env e) maccPerms empty_keepers = (Ok (), a)"
    "nd_keepers nd = a" "nd_handler nd = Some (ante_handle (ne_ante e) (ne_fee e) (ne_bech32 e) (handler_options e a l))"
    "nd_mounted nd = (ak_keys a, ak_tkeys a, ak_memKeys a)" "nd_order nd = app_order"
    "nd_blocked nd = BlockedModuleAccountAddrs (ne_addresses e) (ModuleAccountAddrs (ne_range e) (ne_addresses e))"
    "nd_upgrades nd = setUpgradeHandlers (ne_RunMigrations e)" "\<forall>p \<in> set (opened_stores a). store_in (ak_keys a) (ak_tkeys a) p"
    "(ak_keys a, ak_tkeys a, ak_memKeys a) = (kv_store_keys, transient_store_keys, memory_store_keys)"
    "nd_version nd = (if loadLatest then Some v else None)" "ne_LoadLatestVersion e = Ok v"
    "\<forall>cfg maxTx h. nd_mempool nd = Some (cfg, maxTx, h) \<longrightarrow> h = nd_handler nd"
proof -
  from assms(1) obtain l info v where l: "ne_NodeConfig e = Ok l" and info: "ne_UpgradeInfo e = Ok info"
      and v: "ne_LoadLatestVersion e = Ok v"
    by (auto simp: externals_ok_def is_Ok_iff)
  have ok: "ne_InterfaceRegistry e = Ok ()" "ne_Streaming e = Ok ()" "px_NewBech32 (ne_registry e) = Ok ()"
      "ne_AddRoute e = Ok ()" "ne_NewTxConfig e = Ok ()" "ne_RegisterServices e = Ok ()" "ne_ReflectionService e = Ok ()"
      "ne_MergedRegistry e = Ok ()" "ne_InitializePinnedCodes e = Ok ()" "constructor_laws (keepers_env e)"
    using assms(1) by (simp_all add: externals_ok_def)
  have snap: "register_snapshots e s = (Ok (), s)" for s
    using assms(1) by (auto simp: externals_ok_def register_snapshots_def ret_def)
  obtain a where a: "NewAppKeeper (keepers_env e) maccPerms empty_keepers = (Ok (), a)" "versions a K_IBC \<noteq> []"
      and opened: "\<forall>p \<in> set (opened_stores a). store_in (ak_keys a) (ak_tkeys a) p"
      and keys: "ak_keys a = kv_store_keys" "ak_tkeys a = transient_store_keys" "ak_memKeys a = memory_store_keys"
      and mods: "is_Ok (fst (build_modules appModules a))" "is_Ok (fst (build_modules simulationModules a))"
    using NewAppKeeper_run [of "keepers_env e"] ok l
    by (cases "NewAppKeeper (keepers_env e) maccPerms empty_keepers") (auto simp: list_all_iff split: outcome.splits)
  from mods(1) obtain ms where ms: "build_modules appModules a = (Ok ms, a)" "map fst ms = map fst appModules"
    by (cases "build_modules appModules a") (auto simp: is_Ok_iff dest: build_modules_pure)
  from mods(2) obtain sims where sims: "build_modules simulationModules a = (Ok sims, a)"
    by (cases "build_modules simulationModules a") (auto simp: is_Ok_iff dest: build_modules_pure)
  have handler: "NewAnteHandler (ne_ante e) (ne_fee e) (ne_bech32 e) (handler_options e a l) =
      Ok (ante_handle (ne_ante e) (ne_fee e) (ne_bech32 e) (handler_options e a l))"
    by (simp add: NewAnteHandler_def handler_options_def a(2))
  have "is_Ok (configureEVMMempool (ne_mempool e))" by (simp add: configureEVMMempool_def createMempoolConfig_def)
  then obtain pool where pool: "configureEVMMempool (ne_mempool e) = Ok pool" by (auto simp: is_Ok_iff)
  have "is_Ok (setUpgradeStoreLoaders (Ok info) (ne_IsSkipHeight e skip) (Upgrades (ne_RunMigrations e)) None)"
    by (simp add: setUpgradeStoreLoaders_def)
  then obtain loader where loader: "setUpgradeStoreLoaders (Ok info) (ne_IsSkipHeight e skip) (Upgrades (ne_RunMigrations e)) None = Ok loader"
    by (auto simp: is_Ok_iff)
  obtain nd where "NewXplaApp e loadLatest skip blank_node = (Ok (), nd)"
    and "nd = \<lparr>nd_blocked = BlockedModuleAccountAddrs (ne_addresses e) (ModuleAccountAddrs (ne_range e) (ne_addresses e)),
      nd_keepers = a, nd_lightClient = True, nd_modules = ms, nd_simulation = sims, nd_order = app_order,
      nd_mounted = (ak_keys a, ak_tkeys a, ak_memKeys a),
      nd_handler = Some (ante_handle (ne_ante e) (ne_fee e) (ne_bech32 e) (handler_options e a l)),
      nd_maxTxGasWanted = evmMaxGasWanted (ne_EVMMaxTxGasWanted e), nd_upgrades = setUpgradeHandlers (ne_RunMigrations e), nd_loader = loader,
      nd_mempool = map_option (\<lambda>(cfg, maxTx). (cfg, maxTx, Some (ante_handle (ne_ante e) (ne_fee e) (ne_bech32 e) (handler_options e a l)))) pool,
      nd_version = (if loadLatest then Some v else None)\<rparr>"
    by (simp add: NewXplaApp_def build_keepers_def add_light_client_def build_manager_def register_services_def mount_stores_def install_handlers_def
        install_upgrades_def install_mempool_def load_latest_def blank_node_def zoomM_def bindM_Ok thenM_Ok ok a ms sims l v
        handler pool info loader snap set_orders_run [OF assms(2)] ret_def modifyM_def getsM_def liftO_def)
  with a opened keys v show thesis by (intro that [of nd a l v]) auto
qed

lemma ref_externals_ok: "externals_ok (ref_node_env get)"
  by (auto simp: externals_ok_def ref_node_env_def ref_registry_def constructor_laws_def keepers_env_def ref_NewKeeper_def list_all_iff)

section \<open>Properties\<close>

text \<open>C14: The application starts, and what it starts with is wired right.  When the calls into the SDK
  succeed (with constructors that panic only for a missing module account), building the application
  does not panic, whatever heights are skipped; exactly the persistent, transient and memory stores
  of the lists are mounted, each in its kind, and every store a keeper opens is among those of its
  kind; the handler of transactions, in the mempool too, never panics, and it
  accepts a transaction that is not an Ethereum one only if every delegation, redelegation and
  undelegation in it that names a volunteer validator comes from that validator.
\<close>

theorem app_starts_guarded:
  assumes "externals_ok e" "order_laws e hooked" "ne_volunteer e = GetVolunteerValidator k"
    and "chain_laws (ne_ante e)" "checks_only (xa_RejectMessages (ne_ante e))" "checks_only (xa_AuthzLimiter (ne_ante e))"
    and "\<And>c. xa_FeeMarketParams (ne_ante e) c = (Ok (), c)"
    and "val_codec_laws (ne_bech32 e)" "acc_codec_laws (ne_bech32 e)" "length_prefix_laws (vk_LengthPrefix k)"
  shows "\<exists>nd h. NewXplaApp e loadLatest skip blank_node = (Ok (), nd) \<and> nd_handler nd = Some h \<and>
    nd_mounted nd = (kv_store_keys, transient_store_keys, memory_store_keys) \<and>
    (\<forall>p \<in> set (opened_stores (nd_keepers nd)). store_in (fst (nd_mounted nd)) (fst (snd (nd_mounted nd))) p) \<and>
    (\<forall>cfg maxTx h'. nd_mempool nd = Some (cfg, maxTx, h') \<longrightarrow> h' = Some h) \<and>
    (\<forall>tx sim c. \<not> is_Panic (fst (h tx sim c)) \<and>
      (\<not> is_eth_tx tx \<longrightarrow> \<not> (gas_limit c = 0 \<and> sim) \<longrightarrow> is_Ok (fst (h tx sim c)) \<longrightarrow>
        (\<forall>m \<in> set (tx_Msgs tx). \<forall>p \<in> set (staking_pairs m). pair_allowed (ne_bech32 e) (is_volunteer k c) p)))"
proof -
  obtain nd l a where nd: "NewXplaApp e loadLatest skip blank_node = (Ok (), nd)" "nd_keepers nd = a"
      "nd_handler nd = Some (ante_handle (ne_ante e) (ne_fee e) (ne_bech32 e) (handler_options e a l))"
      "nd_mounted nd = (ak_keys a, ak_tkeys a, ak_memKeys a)" "\<forall>p \<in> set (opened_stores a). store_in (ak_keys a) (ak_tkeys a) p"
      "(ak_keys a, ak_tkeys a, ak_memKeys a) = (kv_store_keys, transient_store_keys, memory_store_keys)"
      "\<forall>cfg maxTx h. nd_mempool nd = Some (cfg, maxTx, h) \<longrightarrow> h = nd_handler nd"
    using NewXplaApp_run [OF assms(1,2)] by metis
  have "opt_VolunteerKeeper (handler_options e a l) = Some (GetVolunteerValidator k)" by (simp add: handler_options_def assms(3))
  note guards = ante_handle_guards [OF this assms(4-7) _ _ assms(8-10)]
  let ?h = "ante_handle (ne_ante e) (ne_fee e) (ne_bech32 e) (handler_options e a l)"
  have "\<not> is_Panic (fst (?h tx sim c)) \<and> (\<not> is_eth_tx tx \<longrightarrow> \<not> (gas_limit c = 0 \<and> sim) \<longrightarrow> is_Ok (fst (?h tx sim c)) \<longrightarrow>
      (\<forall>m \<in> set (tx_Msgs tx). \<forall>p \<in> set (staking_pairs m). pair_allowed (ne_bech32 e) (is_volunteer k c) p))" for tx sim c
    using ante_handle_no_panic guards by blast
  moreover have "\<forall>p \<in> set (opened_stores (nd_keepers nd)). store_in (fst (nd_mounted nd)) (fst (snd (nd_mounted nd))) p"
    using nd(2,4,5) by simp
  ultimately show ?thesis using nd(1,3,4,6,7) by (intro exI [of _ nd] exI [of _ ?h]) simp
qed

theorem app_starts_guarded_witness:
  "let k = ref_vk_of ref_no_staking ref_no_dist; e = ref_node_env (GetVolunteerValidator k) in
    \<exists>nd h. NewXplaApp e True [] blank_node = (Ok (), nd) \<and> nd_handler nd = Some h \<and>
      nd_mounted nd = (kv_store_keys, transient_store_keys, memory_store_keys) \<and> (\<forall>tx sim c. \<not> is_Panic (fst (h tx sim c)))"
proof -
  let ?k = "ref_vk_of ref_no_staking ref_no_dist"
  let ?e = "ref_node_env (GetVolunteerValidator ?k)"
  have lp: "length_prefix_laws (vk_LengthPrefix ?k)"
    by (auto simp: length_prefix_laws_def ref_vk_of_def ref_length_prefix_def split: if_splits)
  have ok: "externals_ok ?e" by (rule ref_externals_ok)
  have ord: "order_laws ?e (\<lambda>_. {})" by (simp add: order_laws_def ref_node_env_def)
  have vol: "ne_volunteer ?e = GetVolunteerValidator ?k" by (simp add: ref_node_env_def)
  have xa: "chain_laws (ne_ante ?e)" "checks_only (xa_RejectMessages (ne_ante ?e))" "checks_only (xa_AuthzLimiter (ne_ante ?e))"
      "xa_FeeMarketParams (ne_ante ?e) c = (Ok (), c)" for c
    by (simp_all add: chain_laws_def checks_only_def ref_node_env_def ref_xa_def ref_pass_def)
  have "val_codec_laws (ne_bech32 ?e)" "acc_codec_laws (ne_bech32 ?e)" by (simp_all add: ref_node_env_def ref_val_laws ref_acc_laws)
  from app_starts_guarded [OF ok ord vol xa this lp, of True "[]"] show ?thesis by (auto simp: Let_def)
qed

end
