(* ===== verification/Staking.thy ===== *)
theory Staking
  imports Volunteer
begin

text \<open>
  The staking module's end-of-block validator selection, \<open>src/x/staking\<close>: the copy of the
  SDK's \<open>ApplyAndReturnValidatorSetUpdates\<close> in which volunteer validators enter the set
  beside the top \<open>MaxValidators\<close>, the state transitions it performs, the listing of the
  last validator set, the historical entries and the block hooks.

  The SDK staking keeper embedded in the Go struct, the bank keeper and the address codecs
  are the record \<open>StakingKeeper\<close>; \<open>stk_volunteers\<close> is the volunteer keeper's
  \<open>GetVolunteerValidators\<close>.  An iterator is the list of entries it visits, read when it is
  opened: the loop rewrites only the index entry it stands on, under an unchanged key.
\<close>

section \<open>Data and interfaces\<close>

record ValidatorUpdate =
  vu_PubKey :: "PubKey option"
  vu_Power :: int64

record DVPair =
  dv_Delegator :: string
  dv_Validator :: string

record DVVTriplet =
  dvv_Delegator :: string
  dvv_ValidatorSrc :: string
  dvv_ValidatorDst :: string

record HistoricalInfo =
  hi_Height :: int
  hi_Valset :: "Validator list"

record ('x) StakingKeeper =
  stk_MaxValidators :: "('x, uint32) M"
  stk_PowerReduction :: int
  stk_LastValidatorsIterator :: "('x, (ValAddress \<times> bytes) list) M"
  stk_ValidatorsPowerStoreIterator :: "('x, ValAddress list) M"
  stk_GetValidator :: "ValAddress \<Rightarrow> ('x, Validator) M"
  stk_SetValidator :: "Validator \<Rightarrow> ('x, unit) M"
  stk_DeleteValidatorByPowerIndex :: "Validator \<Rightarrow> ('x, unit) M"
  stk_SetValidatorByPowerIndex :: "Validator \<Rightarrow> ('x, unit) M"
  stk_DeleteValidatorQueue :: "Validator \<Rightarrow> ('x, unit) M"
  stk_AfterValidatorBonded :: "bytes \<Rightarrow> ValAddress \<Rightarrow> ('x, unit) M"
  stk_BeginUnbondingValidator :: "Validator \<Rightarrow> ('x, Validator) M"
  stk_SetLastValidatorPower :: "ValAddress \<Rightarrow> int64 \<Rightarrow> ('x, unit) M"
  stk_DeleteLastValidatorPower :: "ValAddress \<Rightarrow> ('x, unit) M"
  stk_SetLastTotalPower :: "int \<Rightarrow> ('x, unit) M"
  stk_SetValidatorUpdates :: "ValidatorUpdate list \<Rightarrow> ('x, unit) M"
  stk_UnbondAllMatureValidators :: "('x, unit) M"
  stk_DequeueAllMatureUBDQueue :: "int \<Rightarrow> ('x, DVPair list) M"
  stk_CompleteUnbonding :: "AccAddress \<Rightarrow> ValAddress \<Rightarrow> ('x, Coins) M"
  stk_DequeueAllMatureRedelegationQueue :: "int \<Rightarrow> ('x, DVVTriplet list) M"
  stk_CompleteRedelegation :: "AccAddress \<Rightarrow> ValAddress \<Rightarrow> ValAddress \<Rightarrow> ('x, Coins) M"
  stk_HistoricalEntries :: "('x, uint32) M"
  stk_GetHistoricalInfo :: "int \<Rightarrow> ('x, HistoricalInfo) M"
  stk_DeleteHistoricalInfo :: "int \<Rightarrow> ('x, unit) M"
  stk_SetHistoricalInfo :: "int \<Rightarrow> HistoricalInfo \<Rightarrow> ('x, unit) M"
  stk_NewHistoricalInfo :: "int \<Rightarrow> Validator list \<Rightarrow> int \<Rightarrow> HistoricalInfo"
  stk_BondDenom :: "('x, string) M"
  stk_SendCoinsFromModuleToModule :: "string \<Rightarrow> string \<Rightarrow> Coins \<Rightarrow> ('x, unit) M"
  stk_ValBytesToString :: "ValAddress \<Rightarrow> string outcome"
  stk_ValStringToBytes :: "string \<Rightarrow> ValAddress outcome"
  stk_AccStringToBytes :: "string \<Rightarrow> AccAddress outcome"
  stk_ValAddressFromBech32 :: "string \<Rightarrow> ValAddress outcome"
  stk_GetConsAddr :: "Validator \<Rightarrow> bytes outcome"
  stk_UpdateStatus :: "Validator \<Rightarrow> BondStatus \<Rightarrow> Validator"
  stk_PotentialConsensusPower :: "Validator \<Rightarrow> int \<Rightarrow> int64"
  stk_ConsensusPower :: "Validator \<Rightarrow> int \<Rightarrow> int64"
  stk_ABCIValidatorUpdate :: "Validator \<Rightarrow> int \<Rightarrow> ValidatorUpdate"
  stk_ABCIValidatorUpdateZero :: "Validator \<Rightarrow> ValidatorUpdate"
  stk_MarshalInt64 :: "int64 \<Rightarrow> bytes"
  stk_coins :: CoinOps
  stk_volunteers :: "('x Ctx, (string \<times> VolunteerValidator) list) M"

section \<open>Validators\<close>

definition mustGetValidator :: "'x StakingKeeper \<Rightarrow> ValAddress \<Rightarrow> ('x Ctx, Validator) M" where
  "mustGetValidator k a =
     bindM (attempt (extM (stk_GetValidator k a))) (\<lambda>r. case r of
       Inl _ \<Rightarrow> panic ''validator record not found for address''
     | Inr v \<Rightarrow> ret v)"

text \<open>
  The loop of \<open>GetLastValidators\<close>, filling a slice of length \<open>maxV\<close> from index \<open>i\<close>; the
  slice is trimmed to the filled part at the end.
\<close>

primrec last_validators_loop ::
    "'x StakingKeeper \<Rightarrow> nat \<Rightarrow> (ValAddress \<times> bytes) list \<Rightarrow> nat \<Rightarrow> ('x Ctx, Validator list) M" where
  "last_validators_loop k maxV [] i = ret []"
| "last_validators_loop k maxV (e # es) i =
     (if maxV \<le> i then panic ''more validators than maxValidators found''
      else bindM (extM (stk_GetValidator k (fst e))) (\<lambda>v.
           bindM (last_validators_loop k maxV es (Suc i)) (\<lambda>vs. ret (v # vs))))"

definition GetLastValidators :: "'x StakingKeeper \<Rightarrow> ('x Ctx, Validator list) M" where
  "GetLastValidators k =
     bindM (extM (stk_MaxValidators k)) (\<lambda>maxValidators.
     bindM (stk_volunteers k) (\<lambda>vols.
     let m = maxValidators + word_of_nat (length vols) in
     bindM (extM (stk_LastValidatorsIterator k)) (\<lambda>es.
       last_validators_loop k (unat m) es 0)))"

section \<open>State transitions\<close>

definition bondValidator :: "'x StakingKeeper \<Rightarrow> Validator \<Rightarrow> ('x Ctx, Validator) M" where
  "bondValidator k v0 =
     thenM (extM (stk_DeleteValidatorByPowerIndex k v0)) (
     let v = stk_UpdateStatus k v0 Bonded in
     thenM (extM (stk_SetValidator k v)) (
     thenM (extM (stk_SetValidatorByPowerIndex k v)) (
     thenM (extM (stk_DeleteValidatorQueue k v)) (
     bindM (liftO (stk_GetConsAddr k v)) (\<lambda>consAddr.
     bindM (liftO (stk_ValStringToBytes k (OperatorAddress v))) (\<lambda>str.
     thenM (extM (stk_AfterValidatorBonded k consAddr str)) (ret v)))))))"

definition bondedToUnbonding :: "'x StakingKeeper \<Rightarrow> Validator \<Rightarrow> ('x Ctx, Validator) M" where
  "bondedToUnbonding k v =
     (if Status v \<noteq> Bonded then panic ''bad state transition bondedToUnbonding''
      else extM (stk_BeginUnbondingValidator k v))"

definition unbondingToBonded :: "'x StakingKeeper \<Rightarrow> Validator \<Rightarrow> ('x Ctx, Validator) M" where
  "unbondingToBonded k v =
     (if Status v \<noteq> Unbonding then panic ''bad state transition unbondingToBonded''
      else bondValidator k v)"

definition unbondedToBonded :: "'x StakingKeeper \<Rightarrow> Validator \<Rightarrow> ('x Ctx, Validator) M" where
  "unbondedToBonded k v =
     (if Status v \<noteq> Unbonded then panic ''bad state transition unbondedToBonded''
      else bondValidator k v)"

definition notBondedTokensToBonded :: "'x StakingKeeper \<Rightarrow> int \<Rightarrow> ('x Ctx, unit) M" where
  "notBondedTokensToBonded k tokens =
     bindM (extM (stk_BondDenom k)) (\<lambda>bondDenom.
     bindM (liftO (NewCoin (stk_coins k) bondDenom tokens)) (\<lambda>coin.
     bindM (liftO (NewCoins (stk_coins k) [coin])) (\<lambda>coins.
       extM (stk_SendCoinsFromModuleToModule k ''not_bonded_tokens_pool'' ''bonded_tokens_pool'' coins))))"

definition bondedTokensToNotBonded :: "'x StakingKeeper \<Rightarrow> int \<Rightarrow> ('x Ctx, unit) M" where
  "bondedTokensToNotBonded k tokens =
     bindM (extM (stk_BondDenom k)) (\<lambda>bondDenom.
     bindM (liftO (NewCoin (stk_coins k) bondDenom tokens)) (\<lambda>coin.
     bindM (liftO (NewCoins (stk_coins k) [coin])) (\<lambda>coins.
       extM (stk_SendCoinsFromModuleToModule k ''bonded_tokens_pool'' ''not_bonded_tokens_pool'' coins))))"

section \<open>Selecting the validator set\<close>

text \<open>The Go map of the last validator set, keyed by the printed operator address.\<close>

definition getLastValidatorsByAddr :: "'x StakingKeeper \<Rightarrow> ('x Ctx, (string \<times> bytes) list) M" where
  "getLastValidatorsByAddr k =
     bindM (extM (stk_LastValidatorsIterator k)) (\<lambda>es.
       liftO (foldO (\<lambda>e last. bindO (stk_ValBytesToString k (fst e)) (\<lambda>s.
                Ok (gomap_set s (snd e) last))) es []))"

text \<open>
  \<open>sortNoLongerBonded\<close>: the addresses of the remaining keys, visited in the map's
  iteration order \<open>rng\<close>, then sorted bytewise (\<open>sort.SliceStable\<close> with \<open>bytes.Compare\<close>).
\<close>

definition sortNoLongerBonded ::
    "((string \<times> bytes) list \<Rightarrow> (string \<times> bytes) list) \<Rightarrow> (string \<Rightarrow> ValAddress outcome) \<Rightarrow>
     (string \<times> bytes) list \<Rightarrow> ValAddress list outcome" where
  "sortNoLongerBonded rng StringToBytes lastM =
     bindO (mapO (\<lambda>e. StringToBytes (fst e)) (rng lastM)) (\<lambda>as. Ok (sort as))"

text \<open>Dropping the jailed volunteers from the map; a deletion while ranging is allowed in Go.\<close>

definition drop_jailed_one ::
    "'x StakingKeeper \<Rightarrow> string \<times> VolunteerValidator \<Rightarrow> (string \<times> VolunteerValidator) list \<Rightarrow>
     ('x Ctx, (string \<times> VolunteerValidator) list) M" where
  "drop_jailed_one k e m =
     bindM (liftO (stk_ValAddressFromBech32 k (fst e))) (\<lambda>a.
     bindM (mustGetValidator k a) (\<lambda>v.
       ret (if Jailed v then gomap_delete (fst e) m else m)))"

definition drop_jailed ::
    "'x StakingKeeper \<Rightarrow> (string \<times> VolunteerValidator) list \<Rightarrow> (string \<times> VolunteerValidator) list \<Rightarrow>
     ('x Ctx, (string \<times> VolunteerValidator) list) M" where
  "drop_jailed k order vols = foldM (drop_jailed_one k) order vols"

text \<open>The local variables of the selection loop.\<close>

record Selection =
  sel_count :: nat
  sel_vols :: "(string \<times> VolunteerValidator) list"
  sel_last :: "(string \<times> bytes) list"
  sel_updates :: "ValidatorUpdate list"
  sel_total :: int
  sel_toBonded :: int

text \<open>The status switch: the validator after it, and the tokens that move to the bonded pool.\<close>

definition bond_switch :: "'x StakingKeeper \<Rightarrow> Validator \<Rightarrow> ('x Ctx, Validator \<times> int) M" where
  "bond_switch k v = (case Status v of
      Unbonded \<Rightarrow> bindM (unbondedToBonded k v) (\<lambda>w. ret (w, Tokens w))
    | Unbonding \<Rightarrow> bindM (unbondingToBonded k v) (\<lambda>w. ret (w, Tokens w))
    | Bonded \<Rightarrow> ret (v, 0)
    | Unspecified \<Rightarrow> panic ''unexpected validator status'')"

text \<open>
  The rest of the body: compare with the last power, record the update, and drop the
  validator from the map of the last set.
\<close>

definition record_power ::
    "'x StakingKeeper \<Rightarrow> ValAddress \<Rightarrow> Validator \<Rightarrow> int \<Rightarrow> Selection \<Rightarrow> ('x Ctx, Selection) M" where
  "record_power k a v moved st =
     bindM (liftO (stk_ValBytesToString k a)) (\<lambda>valAddrStr.
     let newPower = stk_ConsensusPower k v (stk_PowerReduction k);
         newPowerBytes = stk_MarshalInt64 k newPower;
         changed = (map_of (sel_last st) valAddrStr \<noteq> Some newPowerBytes);
         st' = st\<lparr>sel_count := Suc (sel_count st),
                  sel_last := gomap_delete valAddrStr (sel_last st),
                  sel_updates := sel_updates st @
                    (if changed then [stk_ABCIValidatorUpdate k v (stk_PowerReduction k)] else []),
                  sel_total := sel_total st + sint newPower,
                  sel_toBonded := sel_toBonded st + moved\<rparr> in
     if changed then thenM (extM (stk_SetLastValidatorPower k a newPower)) (ret st') else ret st')"

text \<open>One iteration; the flag says whether the loop goes on (\<open>False\<close> is \<open>break\<close>).\<close>

definition select_body ::
    "'x StakingKeeper \<Rightarrow> nat \<Rightarrow> ValAddress \<Rightarrow> Selection \<Rightarrow> ('x Ctx, bool \<times> Selection) M" where
  "select_body k maxV a st =
     bindM (mustGetValidator k a) (\<lambda>v.
     let exist = (OperatorAddress v \<in> fst ` set (sel_vols st));
         st1 = (if exist then st\<lparr>sel_vols := gomap_delete (OperatorAddress v) (sel_vols st)\<rparr> else st) in
     if \<not> exist \<and> maxV \<le> sel_count st1 then ret (True, st1)
     else if Jailed v then panic ''should never retrieve a jailed validator from the power store''
     else if stk_PotentialConsensusPower k v (stk_PowerReduction k) = 0 then ret (False, st1)
     else bindM (bond_switch k v) (\<lambda>(w, moved).
          bindM (record_power k a w moved st1) (\<lambda>st2. ret (True, st2))))"

text \<open>
  The loop \<open>for count := 0; iterator.Valid() && count < max || len(volunteers) != 0\<close>.
  Reading the value of an exhausted iterator panics, as its documentation says.
\<close>

primrec select_loop ::
    "'x StakingKeeper \<Rightarrow> nat \<Rightarrow> ValAddress list \<Rightarrow> Selection \<Rightarrow> ('x Ctx, Selection) M" where
  "select_loop k maxV [] st =
     (if sel_vols st = [] then ret st else panic ''iterator is invalid'')"
| "select_loop k maxV (a # it) st =
     (if sel_count st < maxV \<or> sel_vols st \<noteq> [] then
        bindM (select_body k maxV a st) (\<lambda>(more, st').
          if more then select_loop k maxV it st' else ret st')
      else ret st)"

text \<open>The second loop: the validators that fell out of the set, with the tokens they hold.\<close>

definition unbond_one ::
    "'x StakingKeeper \<Rightarrow> ValAddress \<Rightarrow> int \<times> ValidatorUpdate list \<Rightarrow>
     ('x Ctx, int \<times> ValidatorUpdate list) M" where
  "unbond_one k a acc =
     bindM (mustGetValidator k a) (\<lambda>v.
     bindM (bondedToUnbonding k v) (\<lambda>w.
     bindM (liftO (stk_ValStringToBytes k (OperatorAddress w))) (\<lambda>str.
     thenM (extM (stk_DeleteLastValidatorPower k str))
       (ret (fst acc + Tokens w, snd acc @ [stk_ABCIValidatorUpdateZero k w])))))"

definition pool_switch :: "'x StakingKeeper \<Rightarrow> int \<Rightarrow> int \<Rightarrow> ('x Ctx, unit) M" where
  "pool_switch k toBonded toNotBonded =
     (if toBonded > toNotBonded then notBondedTokensToBonded k (toBonded - toNotBonded)
      else if toBonded < toNotBonded then bondedTokensToNotBonded k (toNotBonded - toBonded)
      else ret ())"

definition start_selection ::
    "(string \<times> VolunteerValidator) list \<Rightarrow> (string \<times> bytes) list \<Rightarrow> Selection" where
  "start_selection vols lastM = \<lparr>sel_count = 0, sel_vols = vols, sel_last = lastM, sel_updates = [],
     sel_total = 0, sel_toBonded = 0\<rparr>"

definition ApplyAndReturnValidatorSetUpdates ::
    "((string \<times> VolunteerValidator) list \<Rightarrow> (string \<times> VolunteerValidator) list) \<Rightarrow>
     ((string \<times> bytes) list \<Rightarrow> (string \<times> bytes) list) \<Rightarrow>
     'x StakingKeeper \<Rightarrow> ('x Ctx, ValidatorUpdate list) M" where
  "ApplyAndReturnValidatorSetUpdates rngV rngL k =
     bindM (extM (stk_MaxValidators k)) (\<lambda>maxValidators.
     bindM (getLastValidatorsByAddr k) (\<lambda>last.
     bindM (extM (stk_ValidatorsPowerStoreIterator k)) (\<lambda>it.
     bindM (stk_volunteers k) (\<lambda>vols0.
     bindM (drop_jailed k (rngV vols0) vols0) (\<lambda>vols.
     bindM (select_loop k (unat maxValidators) it (start_selection vols last)) (\<lambda>st.
     bindM (liftO (sortNoLongerBonded rngL (stk_ValStringToBytes k) (sel_last st))) (\<lambda>noLongerBonded.
     bindM (foldM (unbond_one k) noLongerBonded (0, sel_updates st)) (\<lambda>(toNotBonded, updates).
     thenM (pool_switch k (sel_toBonded st) toNotBonded) (
     thenM (if updates \<noteq> [] then extM (stk_SetLastTotalPower k (sel_total st)) else ret ()) (
     thenM (extM (stk_SetValidatorUpdates k updates)) (ret updates)))))))))))"

section \<open>Block hooks\<close>

definition complete_unbonding :: "'x StakingKeeper \<Rightarrow> DVPair \<Rightarrow> ('x Ctx, unit) M" where
  "complete_unbonding k p =
     bindM (liftO (stk_ValStringToBytes k (dv_Validator p))) (\<lambda>addr.
     bindM (liftO (stk_AccStringToBytes k (dv_Delegator p))) (\<lambda>del.
     bindM (attempt (extM (stk_CompleteUnbonding k del addr))) (\<lambda>r. case r of
       Inl _ \<Rightarrow> ret ()
     | Inr balances \<Rightarrow> EmitEvent \<lparr>ev_Type = ''complete_unbonding'',
         ev_Attributes = [(''amount'', Coins_String (stk_coins k) balances),
           (''validator'', dv_Validator p), (''delegator'', dv_Delegator p)]\<rparr>)))"

definition complete_redelegation :: "'x StakingKeeper \<Rightarrow> DVVTriplet \<Rightarrow> ('x Ctx, unit) M" where
  "complete_redelegation k t =
     bindM (liftO (stk_ValStringToBytes k (dvv_ValidatorSrc t))) (\<lambda>src.
     bindM (liftO (stk_ValStringToBytes k (dvv_ValidatorDst t))) (\<lambda>dst.
     bindM (liftO (stk_AccStringToBytes k (dvv_Delegator t))) (\<lambda>del.
     bindM (attempt (extM (stk_CompleteRedelegation k del src dst))) (\<lambda>r. case r of
       Inl _ \<Rightarrow> ret ()
     | Inr balances \<Rightarrow> EmitEvent \<lparr>ev_Type = ''complete_redelegation'',
         ev_Attributes = [(''amount'', Coins_String (stk_coins k) balances),
           (''delegator'', dvv_Delegator t), (''source_validator'', dvv_ValidatorSrc t),
           (''destination_validator'', dvv_ValidatorDst t)]\<rparr>))))"

definition BlockValidatorUpdates ::
    "((string \<times> VolunteerValidator) list \<Rightarrow> (string \<times> VolunteerValidator) list) \<Rightarrow>
     ((string \<times> bytes) list \<Rightarrow> (string \<times> bytes) list) \<Rightarrow>
     'x StakingKeeper \<Rightarrow> ('x Ctx, ValidatorUpdate list) M" where
  "BlockValidatorUpdates rngV rngL k =
     bindM (ApplyAndReturnValidatorSetUpdates rngV rngL k) (\<lambda>validatorUpdates.
     thenM (extM (stk_UnbondAllMatureValidators k)) (
     bindM (getsM block_time) (\<lambda>time.
     bindM (extM (stk_DequeueAllMatureUBDQueue k time)) (\<lambda>matureUnbonds.
     thenM (forM matureUnbonds (complete_unbonding k)) (
     bindM (extM (stk_DequeueAllMatureRedelegationQueue k time)) (\<lambda>matureRedelegations.
     thenM (forM matureRedelegations (complete_redelegation k)) (ret validatorUpdates)))))))"

text \<open>
  The pruning loop of \<open>TrackHistoricalInfo\<close>, from height \<open>i\<close> down to 0; the first missing
  entry ends it.
\<close>

function (sequential) prune_history :: "'x StakingKeeper \<Rightarrow> int \<Rightarrow> ('x Ctx, unit) M" where
  "prune_history k i =
     (if i < 0 then ret ()
      else bindM (attempt (extM (stk_GetHistoricalInfo k i))) (\<lambda>r. case r of
          Inl e \<Rightarrow> (if e = ErrNoHistoricalInfo then ret () else throw e)
        | Inr _ \<Rightarrow> bindM (extM (stk_DeleteHistoricalInfo k i)) (\<lambda>_. prune_history k (i - 1))))"
  by pat_completeness auto
termination
  by (relation "measure (\<lambda>(k, i). nat (i + 1))") auto

definition TrackHistoricalInfo :: "'x StakingKeeper \<Rightarrow> ('x Ctx, unit) M" where
  "TrackHistoricalInfo k =
     bindM (extM (stk_HistoricalEntries k)) (\<lambda>entryNum.
     bindM (getsM block_height) (\<lambda>h.
     thenM (prune_history k (h - uint entryNum)) (
     if entryNum = 0 then ret ()
     else bindM (GetLastValidators k) (\<lambda>lastVals.
          extM (stk_SetHistoricalInfo k h (stk_NewHistoricalInfo k h lastVals (stk_PowerReduction k)))))))"

definition Staking_BeginBlocker :: "'x StakingKeeper \<Rightarrow> ('x Ctx, unit) M" where
  "Staking_BeginBlocker k = TrackHistoricalInfo k"

definition Staking_EndBlocker ::
    "((string \<times> VolunteerValidator) list \<Rightarrow> (string \<times> VolunteerValidator) list) \<Rightarrow>
     ((string \<times> bytes) list \<Rightarrow> (string \<times> bytes) list) \<Rightarrow>
     'x StakingKeeper \<Rightarrow> ('x Ctx, ValidatorUpdate list) M" where
  "Staking_EndBlocker rngV rngL k = BlockValidatorUpdates rngV rngL k"

section \<open>Specification\<close>

text \<open>
  What the SDK staking state holds, seen through its documented contents: the last
  validator powers, the validator records, the bonded pool's balance in the bond
  denomination.
\<close>

record 'x StakingView =
  view_last :: "'x \<Rightarrow> ValAddress \<Rightarrow> bytes option"
  view_vals :: "'x \<Rightarrow> ValAddress \<Rightarrow> Validator option"
  view_pool :: "'x \<Rightarrow> int"
  view_denom :: string

definition same_view :: "'x StakingView \<Rightarrow> 'x \<Rightarrow> 'x \<Rightarrow> bool" where
  "same_view V x y \<longleftrightarrow>
     view_last V y = view_last V x \<and> view_vals V y = view_vals V x \<and> view_pool V y = view_pool V x"

definition reads_only :: "('x, 'a) M \<Rightarrow> bool" where
  "reads_only m \<longleftrightarrow> (\<forall>x. snd (m x) = x)"

definition frames :: "'x StakingView \<Rightarrow> ('x, 'a) M \<Rightarrow> bool" where
  "frames V m \<longleftrightarrow> (\<forall>x. same_view V x (snd (m x)))"

text \<open>The documented behaviour of the SDK functions the selection calls, on that view.\<close>

definition codec_laws :: "'x StakingKeeper \<Rightarrow> 'x StakingView \<Rightarrow> bool" where
  "codec_laws k V \<longleftrightarrow>
     (\<forall>a s. stk_ValBytesToString k a = Ok s \<longrightarrow> stk_ValStringToBytes k s = Ok a) \<and>
     (\<forall>x a v. view_vals V x a = Some v \<longrightarrow> stk_ValStringToBytes k (OperatorAddress v) = Ok a) \<and>
     (\<forall>v s. stk_UpdateStatus k v s = v\<lparr>Status := s\<rparr>)"

definition read_laws :: "'x StakingKeeper \<Rightarrow> 'x StakingView \<Rightarrow> bool" where
  "read_laws k V \<longleftrightarrow>
     reads_only (stk_MaxValidators k) \<and> reads_only (stk_ValidatorsPowerStoreIterator k) \<and>
     reads_only (stk_LastValidatorsIterator k) \<and> (\<forall>a. reads_only (stk_GetValidator k a)) \<and>
     reads_only (stk_BondDenom k) \<and>
     (\<forall>x es. fst (stk_LastValidatorsIterator k x) = Ok es \<longrightarrow>
        distinct (map fst es) \<and> map_of es = view_last V x) \<and>
     (\<forall>x a v. fst (stk_GetValidator k a x) = Ok v \<longrightarrow> view_vals V x a = Some v) \<and>
     (\<forall>x d. fst (stk_BondDenom k x) = Ok d \<longrightarrow> d = view_denom V)"

definition write_laws :: "'x StakingKeeper \<Rightarrow> 'x StakingView \<Rightarrow> bool" where
  "write_laws k V \<longleftrightarrow>
     (\<forall>v. frames V (stk_DeleteValidatorByPowerIndex k v)) \<and>
     (\<forall>v. frames V (stk_SetValidatorByPowerIndex k v)) \<and>
     (\<forall>v. frames V (stk_DeleteValidatorQueue k v)) \<and>
     (\<forall>ca a. frames V (stk_AfterValidatorBonded k ca a)) \<and>
     (\<forall>n. frames V (stk_SetLastTotalPower k n)) \<and>
     (\<forall>us. frames V (stk_SetValidatorUpdates k us)) \<and>
     (\<forall>v a x y. stk_SetValidator k v x = (Ok (), y) \<longrightarrow>
        stk_ValStringToBytes k (OperatorAddress v) = Ok a \<longrightarrow>
        view_vals V y = (view_vals V x)(a \<mapsto> v) \<and> view_last V y = view_last V x \<and>
        view_pool V y = view_pool V x) \<and>
     (\<forall>v w a x y. stk_BeginUnbondingValidator k v x = (Ok w, y) \<longrightarrow>
        stk_ValStringToBytes k (OperatorAddress v) = Ok a \<longrightarrow>
        OperatorAddress w = OperatorAddress v \<and> Tokens w = Tokens v \<and> Status w = Unbonding \<and>
        view_vals V y = (view_vals V x)(a \<mapsto> w) \<and> view_last V y = view_last V x \<and>
        view_pool V y = view_pool V x) \<and>
     (\<forall>a p x y. stk_SetLastValidatorPower k a p x = (Ok (), y) \<longrightarrow>
        view_last V y = (view_last V x)(a \<mapsto> stk_MarshalInt64 k p) \<and> view_vals V y = view_vals V x \<and>
        view_pool V y = view_pool V x) \<and>
     (\<forall>a x y. stk_DeleteLastValidatorPower k a x = (Ok (), y) \<longrightarrow>
        view_last V y = (view_last V x)(a := None) \<and> view_vals V y = view_vals V x \<and>
        view_pool V y = view_pool V x)"

definition pool_laws :: "'x StakingKeeper \<Rightarrow> 'x StakingView \<Rightarrow> bool" where
  "pool_laws k V \<longleftrightarrow>
     (\<forall>d n c cs. NewCoin (stk_coins k) d n = Ok c \<longrightarrow> NewCoins (stk_coins k) [c] = Ok cs \<longrightarrow>
        amount_of cs d = n) \<and>
     (\<forall>cs x y. stk_SendCoinsFromModuleToModule k ''not_bonded_tokens_pool'' ''bonded_tokens_pool'' cs x = (Ok (), y) \<longrightarrow>
        view_pool V y = view_pool V x + amount_of cs (view_denom V) \<and>
        view_last V y = view_last V x \<and> view_vals V y = view_vals V x) \<and>
     (\<forall>cs x y. stk_SendCoinsFromModuleToModule k ''bonded_tokens_pool'' ''not_bonded_tokens_pool'' cs x = (Ok (), y) \<longrightarrow>
        view_pool V y = view_pool V x - amount_of cs (view_denom V) \<and>
        view_last V y = view_last V x \<and> view_vals V y = view_vals V x)"

definition staking_laws :: "'x StakingKeeper \<Rightarrow> 'x StakingView \<Rightarrow> bool" where
  "staking_laws k V \<longleftrightarrow> codec_laws k V \<and> read_laws k V \<and> write_laws k V \<and> pool_laws k V"

text \<open>
  The selection rule: walk the power index from the top; take a validator while fewer than
  \<open>M\<close> are taken, or when it is one of the volunteers \<open>S\<close> still to be placed; stop at the
  first one without power that would be taken, or when nobody is left to place.
\<close>

fun chosen :: "(Validator \<Rightarrow> bool) \<Rightarrow> nat \<Rightarrow> (ValAddress \<Rightarrow> Validator) \<Rightarrow> ValAddress list \<Rightarrow> nat \<Rightarrow>
    string set \<Rightarrow> ValAddress list" where
  "chosen zero M W [] n S = []"
| "chosen zero M W (a # it) n S =
     (if n < M \<or> S \<noteq> {} then
        (if OperatorAddress (W a) \<notin> S \<and> M \<le> n then chosen zero M W it n S
         else if zero (W a) then []
         else a # chosen zero M W it (Suc n) (S - {OperatorAddress (W a)}))
      else [])"

definition no_power :: "'x StakingKeeper \<Rightarrow> Validator \<Rightarrow> bool" where
  "no_power k v \<longleftrightarrow> stk_PotentialConsensusPower k v (stk_PowerReduction k) = 0"

definition bonded_version :: "Validator \<Rightarrow> Validator" where
  "bonded_version v = v\<lparr>Status := Bonded\<rparr>"

definition power_bytes :: "'x StakingKeeper \<Rightarrow> Validator \<Rightarrow> bytes" where
  "power_bytes k v = stk_MarshalInt64 k (stk_ConsensusPower k (bonded_version v) (stk_PowerReduction k))"

text \<open>
  The SDK's bookkeeping invariant at the end of a block: the last validator set is the set
  of bonded validators, and the bonded pool holds exactly their tokens.
\<close>

definition bonded_set :: "'x StakingView \<Rightarrow> 'x \<Rightarrow> ValAddress set" where
  "bonded_set V x = {a. \<exists>v. view_vals V x a = Some v \<and> Status v = Bonded}"

definition bonded_ok :: "'x StakingView \<Rightarrow> 'x \<Rightarrow> bool" where
  "bonded_ok V x \<longleftrightarrow>
     finite (bonded_set V x) \<and> bonded_set V x = dom (view_last V x) \<and>
     view_pool V x = (\<Sum>a\<in>bonded_set V x. Tokens (the (view_vals V x a)))"

text \<open>Whether the validator behind a volunteer's printed address is jailed.\<close>

definition jailed_at :: "'x StakingKeeper \<Rightarrow> 'x StakingView \<Rightarrow> 'x \<Rightarrow> string \<Rightarrow> bool" where
  "jailed_at k V x s = (case stk_ValAddressFromBech32 k s of
      Ok a \<Rightarrow> (case view_vals V x a of Some v \<Rightarrow> Jailed v | None \<Rightarrow> False)
    | _ \<Rightarrow> False)"

definition active_volunteers ::
    "'x StakingKeeper \<Rightarrow> 'x StakingView \<Rightarrow> 'x \<Rightarrow> (string \<times> VolunteerValidator) list \<Rightarrow> string set" where
  "active_volunteers k V x vols = {s \<in> fst ` set vols. \<not> jailed_at k V x s}"

text \<open>
  The map of the last set mirrors the store: the entries still in it are those of the
  store, printed.
\<close>

definition last_mirror :: "'x StakingKeeper \<Rightarrow> 'x StakingView \<Rightarrow> (string \<times> bytes) list \<Rightarrow> 'x \<Rightarrow> bool" where
  "last_mirror k V m x \<longleftrightarrow>
     (\<forall>e \<in> set m. \<exists>a. stk_ValBytesToString k a = Ok (fst e) \<and> view_last V x a = Some (snd e))"

text \<open>The documented behaviour of the historical entries, \<open>hist\<close> by height.\<close>

definition history_laws :: "'x StakingKeeper \<Rightarrow> ('x \<Rightarrow> int \<Rightarrow> HistoricalInfo option) \<Rightarrow> bool" where
  "history_laws k hist \<longleftrightarrow>
     (\<forall>i x. stk_GetHistoricalInfo k i x =
        (case hist x i of None \<Rightarrow> (Err ErrNoHistoricalInfo, x) | Some h \<Rightarrow> (Ok h, x))) \<and>
     (\<forall>i x. \<exists>y. stk_DeleteHistoricalInfo k i x = (Ok (), y) \<and> hist y = (hist x)(i := None)) \<and>
     (\<forall>i h x y. stk_SetHistoricalInfo k i h x = (Ok (), y) \<longrightarrow> hist y = (hist x)(i \<mapsto> h))"

section \<open>A reference keeper\<close>

text \<open>
  A small staking state: validator records, last powers, the bonded pool, the power index
  and the historical entries.  It has one bonded validator \<open>a\<close>, one unbonded volunteer
  \<open>v\<close> and room for one regular validator.
\<close>

record RefStaking =
  rs_vals :: "(bytes \<times> Validator) list"
  rs_last :: "(bytes \<times> bytes) list"
  rs_pool :: int
  rs_index :: "bytes list"
  rs_max :: uint32
  rs_history :: "(int \<times> HistoricalInfo) list"

definition rs_lookup :: "'m RefStaking_scheme \<Rightarrow> bytes \<Rightarrow> Validator option" where
  "rs_lookup x a = (case map_of (rs_vals x) a of
      None \<Rightarrow> None
    | Some v \<Rightarrow> if ref_parse (OperatorAddress v) = Ok a then Some v else None)"

definition rs_entries :: "'m RefStaking_scheme \<Rightarrow> (bytes \<times> bytes) list" where
  "rs_entries x = map (\<lambda>a. (a, the (map_of (rs_last x) a))) (remdups (map fst (rs_last x)))"

definition rs_set :: "Validator \<Rightarrow> ('m RefStaking_scheme, unit) M" where
  "rs_set v = bindM (liftO (ref_parse (OperatorAddress v))) (\<lambda>a.
     modifyM (\<lambda>x. x\<lparr>rs_vals := (a, v) # rs_vals x\<rparr>))"

definition rs_send :: "string \<Rightarrow> string \<Rightarrow> Coins \<Rightarrow> ('m RefStaking_scheme, unit) M" where
  "rs_send from to cs = modifyM (\<lambda>x. x\<lparr>rs_pool := rs_pool x +
     (if to = ''bonded_tokens_pool'' then amount_of cs ''axpla'' else - amount_of cs ''axpla'')\<rparr>)"

definition rs_consensus_power :: "Validator \<Rightarrow> int \<Rightarrow> int64" where
  "rs_consensus_power v r = (if Status v = Bonded then word_of_int (Tokens v div r) else 0)"

definition ref_stk :: "'m RefStaking_scheme StakingKeeper" where
  "ref_stk = \<lparr>stk_MaxValidators = getsM rs_max, stk_PowerReduction = 1,
     stk_LastValidatorsIterator = getsM rs_entries,
     stk_ValidatorsPowerStoreIterator = getsM rs_index,
     stk_GetValidator = (\<lambda>a. bindM (getsM (\<lambda>x. rs_lookup x a)) (\<lambda>r. case r of
        None \<Rightarrow> throw (ErrExternal ''validator does not exist'') | Some v \<Rightarrow> ret v)),
     stk_SetValidator = rs_set,
     stk_DeleteValidatorByPowerIndex = (\<lambda>_. ret ()), stk_SetValidatorByPowerIndex = (\<lambda>_. ret ()),
     stk_DeleteValidatorQueue = (\<lambda>_. ret ()), stk_AfterValidatorBonded = (\<lambda>_ _. ret ()),
     stk_BeginUnbondingValidator = (\<lambda>v. thenM (rs_set (v\<lparr>Status := Unbonding\<rparr>)) (ret (v\<lparr>Status := Unbonding\<rparr>))),
     stk_SetLastValidatorPower = (\<lambda>a p. modifyM (\<lambda>x. x\<lparr>rs_last := (a, [ucast p]) # rs_last x\<rparr>)),
     stk_DeleteLastValidatorPower = (\<lambda>a. modifyM (\<lambda>x. x\<lparr>rs_last := filter (\<lambda>e. fst e \<noteq> a) (rs_last x)\<rparr>)),
     stk_SetLastTotalPower = (\<lambda>_. ret ()), stk_SetValidatorUpdates = (\<lambda>_. ret ()),
     stk_UnbondAllMatureValidators = ret (), stk_DequeueAllMatureUBDQueue = (\<lambda>_. ret []),
     stk_CompleteUnbonding = (\<lambda>_ _. ret []), stk_DequeueAllMatureRedelegationQueue = (\<lambda>_. ret []),
     stk_CompleteRedelegation = (\<lambda>_ _ _. ret []), stk_HistoricalEntries = ret 1,
     stk_GetHistoricalInfo = (\<lambda>i. bindM (getsM (\<lambda>x. map_of (rs_history x) i)) (\<lambda>r. case r of
        None \<Rightarrow> throw ErrNoHistoricalInfo | Some h \<Rightarrow> ret h)),
     stk_DeleteHistoricalInfo = (\<lambda>i. modifyM (\<lambda>x. x\<lparr>rs_history := filter (\<lambda>e. fst e \<noteq> i) (rs_history x)\<rparr>)),
     stk_SetHistoricalInfo = (\<lambda>i h. modifyM (\<lambda>x. x\<lparr>rs_history := (i, h) # rs_history x\<rparr>)),
     stk_NewHistoricalInfo = (\<lambda>h vs _. \<lparr>hi_Height = h, hi_Valset = vs\<rparr>),
     stk_BondDenom = ret ''axpla'', stk_SendCoinsFromModuleToModule = rs_send,
     stk_ValBytesToString = (\<lambda>a. if a = [] \<or> 255 < length a then Err (ErrExternal ''invalid address'')
        else Ok (ref_print a)),
     stk_ValStringToBytes = ref_parse, stk_AccStringToBytes = ref_parse,
     stk_ValAddressFromBech32 = ref_parse, stk_GetConsAddr = (\<lambda>_. Ok [1]),
     stk_UpdateStatus = (\<lambda>v s. v\<lparr>Status := s\<rparr>),
     stk_PotentialConsensusPower = (\<lambda>v r. word_of_int (Tokens v div r)),
     stk_ConsensusPower = rs_consensus_power,
     stk_ABCIValidatorUpdate = (\<lambda>v r. \<lparr>vu_PubKey = ConsensusPubkey v, vu_Power = word_of_int (Tokens v div r)\<rparr>),
     stk_ABCIValidatorUpdateZero = (\<lambda>v. \<lparr>vu_PubKey = ConsensusPubkey v, vu_Power = 0\<rparr>),
     stk_MarshalInt64 = (\<lambda>p. [ucast p]), stk_coins = ref_coins,
     stk_volunteers = GetVolunteerValidators (ref_vk_of ref_no_staking ref_no_dist)\<rparr>"

definition ref_view :: "'m RefStaking_scheme StakingView" where
  "ref_view = \<lparr>view_last = (\<lambda>x. map_of (rs_last x)), view_vals = rs_lookup, view_pool = rs_pool,
     view_denom = ''axpla''\<rparr>"

definition ref_val :: "string \<Rightarrow> BondStatus \<Rightarrow> int \<Rightarrow> Validator" where
  "ref_val op s n = \<lparr>OperatorAddress = op, ConsensusPubkey = None, Jailed = False, Status = s, Tokens = n,
     DelegatorShares = n * 10 ^ 18, ValDescription = empty_Description,
     ValCommission = \<lparr>CommissionRatesOf = \<lparr>Rate = 0, MaxRate = 0, MaxChangeRate = 0\<rparr>, UpdateTime = 0\<rparr>,
     MinSelfDelegation = 1, UnbondingHeight = 0\<rparr>"

definition ref_staking_state :: RefStaking where
  "ref_staking_state = \<lparr>rs_vals = [([97], ref_val ''a'' Bonded 9), ([118], ref_val ''v'' Unbonded 5)],
     rs_last = [([97], [9])], rs_pool = 9, rs_index = [[97], [118]], rs_max = 1,
     rs_history = [(0, \<lparr>hi_Height = 0, hi_Valset = []\<rparr>)]\<rparr>"

definition ref_stk_ctx :: "RefStaking Ctx" where
  "ref_stk_ctx = (ref_ctx ref_staking_state)\<lparr>volunteer_kv := [([0x11, 1, 118], ref_volunteer)]\<rparr>"

section \<open>The selection rule\<close>

lemma chosen_sublist: "set (chosen zero M W it n S) \<subseteq> set it"
  by (induction it arbitrary: n S) (auto split: if_splits)

lemma chosen_distinct: "distinct it \<Longrightarrow> distinct (chosen zero M W it n S)"
  by (induction it arbitrary: n S) (use chosen_sublist in \<open>fastforce split: if_splits\<close>)+

lemma chosen_cong:
  "\<forall>a \<in> set it. W a = W' a \<Longrightarrow> chosen zero M W it n S = chosen zero M W' it n S"
  by (induction it arbitrary: n S) auto

lemma chosen_length:
  "finite S \<Longrightarrow> length (chosen zero M W it n S) \<le> (M - n) + card S"
proof (induction it arbitrary: n S)
  case Nil
  then show ?case by simp
next
  case (Cons a it)
  let ?s = "OperatorAddress (W a)"
  show ?case
  proof (cases "?s \<in> S")
    case True
    have "length (chosen zero M W it (Suc n) (S - {?s})) \<le> (M - Suc n) + card (S - {?s})"
      using Cons by simp
    moreover have "Suc (card (S - {?s})) = card S"
      using True Cons.prems by (rule card.remove [symmetric, rotated])
    ultimately show ?thesis using Cons True by auto
  next
    case False
    then have "S - {?s} = S" by blast
    with False Cons.IH [of S n] Cons.IH [of S "Suc n"] Cons.prems show ?thesis by auto
  qed
qed

lemma chosen_volunteer:
  assumes "a \<in> set it" "OperatorAddress (W a) \<in> S" "\<not> zero (W a)"
    and "sorted_wrt (\<lambda>a b. zero (W a) \<longrightarrow> zero (W b)) it"
    and "inj_on (\<lambda>a. OperatorAddress (W a)) (set it)"
  shows "a \<in> set (chosen zero M W it n S)"
  using assms
proof (induction it arbitrary: n S)
  case Nil
  then show ?case by simp
next
  case (Cons b it)
  show ?case
  proof (cases "a = b")
    case True
    with Cons.prems show ?thesis by auto
  next
    case False
    with Cons.prems have a: "a \<in> set it" by simp
    with Cons.prems(3,4) have "\<not> zero (W b)" by auto
    moreover have "OperatorAddress (W a) \<noteq> OperatorAddress (W b)"
      using Cons.prems(1,5) False by (auto simp: inj_on_def)
    moreover have "inj_on (\<lambda>a. OperatorAddress (W a)) (set it)"
      using Cons.prems(5) by (auto simp: inj_on_def)
    moreover have "sorted_wrt (\<lambda>a b. zero (W a) \<longrightarrow> zero (W b)) it"
      using Cons.prems(4) by simp
    ultimately show ?thesis
      using Cons.IH [OF a] Cons.prems(2,3) by auto
  qed
qed

lemma chosen_top:
  assumes "\<forall>a \<in> set (take (M - n) it). \<not> zero (W a)"
  shows "set (take (M - n) it) \<subseteq> set (chosen zero M W it n S)"
  using assms
proof (induction it arbitrary: n S)
  case Nil
  then show ?case by simp
next
  case (Cons b it)
  show ?case
  proof (cases "n < M")
    case True
    then have M: "M - n = Suc (M - Suc n)" by simp
    with Cons.prems have "\<not> zero (W b)" "\<forall>a \<in> set (take (M - Suc n) it). \<not> zero (W a)" by auto
    with Cons.IH [of "Suc n"] True show ?thesis unfolding M by auto
  qed simp
qed

section \<open>Single steps on the view\<close>

lemma ext_upd_upd: "d = c\<lparr>ext := x\<rparr> \<Longrightarrow> e = d\<lparr>ext := y\<rparr> \<Longrightarrow> e = c\<lparr>ext := y\<rparr>"
  by simp

lemma reads_onlyD: "reads_only m \<Longrightarrow> m x = (r, y) \<Longrightarrow> y = x"
  by (metis reads_only_def snd_conv)

lemma framesD: "frames V m \<Longrightarrow> m x = (r, y) \<Longrightarrow> same_view V x y"
  by (metis frames_def snd_conv)

lemma same_view_trans: "same_view V x y \<Longrightarrow> same_view V y z \<Longrightarrow> same_view V x z"
  by (simp add: same_view_def)

lemma extM_reads_only: "reads_only m \<Longrightarrow> extM m c = (r, d) \<Longrightarrow> d = c \<and> fst (m (ext c)) = r"
  by (metis extM_eq ext_self fst_conv reads_onlyD)

lemma mustGetValidator_Ok:
  assumes "staking_laws k V" "mustGetValidator k a c = (Ok v, d)"
  shows "d = c \<and> view_vals V (ext c) a = Some v"
proof -
  from assms(2) have get: "extM (stk_GetValidator k a) c = (Ok v, d)"
    by (auto simp: mustGetValidator_def bindM_def attempt_def split: prod.splits outcome.splits)
  have "reads_only (stk_GetValidator k a)" using assms(1) by (simp add: staking_laws_def read_laws_def)
  from extM_reads_only [OF this get] assms(1) show ?thesis
    by (auto simp: staking_laws_def read_laws_def)
qed

lemma law_frames:
  assumes "staking_laws k V"
  shows "frames V (stk_DeleteValidatorByPowerIndex k v)" "frames V (stk_SetValidatorByPowerIndex k v)"
    "frames V (stk_DeleteValidatorQueue k v)" "frames V (stk_AfterValidatorBonded k ca a)"
    "frames V (stk_SetLastTotalPower k n)" "frames V (stk_SetValidatorUpdates k us)"
  using assms by (simp_all add: staking_laws_def write_laws_def)

lemma law_SetValidator:
  assumes "staking_laws k V" "stk_SetValidator k v x = (Ok (), y)"
    and "stk_ValStringToBytes k (OperatorAddress v) = Ok a"
  shows "view_vals V y = (view_vals V x)(a \<mapsto> v) \<and> view_last V y = view_last V x \<and>
    view_pool V y = view_pool V x"
  using assms unfolding staking_laws_def write_laws_def by blast

lemma law_BeginUnbonding:
  assumes "staking_laws k V" "stk_BeginUnbondingValidator k v x = (Ok w, y)"
    and "stk_ValStringToBytes k (OperatorAddress v) = Ok a"
  shows "OperatorAddress w = OperatorAddress v \<and> Tokens w = Tokens v \<and> Status w = Unbonding \<and>
    view_vals V y = (view_vals V x)(a \<mapsto> w) \<and> view_last V y = view_last V x \<and>
    view_pool V y = view_pool V x"
  using assms unfolding staking_laws_def write_laws_def by blast

lemma law_SetLast:
  assumes "staking_laws k V" "stk_SetLastValidatorPower k a p x = (Ok (), y)"
  shows "view_last V y = (view_last V x)(a \<mapsto> stk_MarshalInt64 k p) \<and> view_vals V y = view_vals V x \<and>
    view_pool V y = view_pool V x"
  using assms unfolding staking_laws_def write_laws_def by blast

lemma law_DeleteLast:
  assumes "staking_laws k V" "stk_DeleteLastValidatorPower k a x = (Ok (), y)"
  shows "view_last V y = (view_last V x)(a := None) \<and> view_vals V y = view_vals V x \<and>
    view_pool V y = view_pool V x"
  using assms unfolding staking_laws_def write_laws_def by blast

lemma bondValidator_view:
  assumes laws: "staking_laws k V" and run: "bondValidator k v c = (Ok w, d)"
    and val: "view_vals V (ext c) a = Some v"
  shows "w = bonded_version v \<and> d = c\<lparr>ext := ext d\<rparr> \<and>
    view_vals V (ext d) = (view_vals V (ext c))(a \<mapsto> w) \<and> view_last V (ext d) = view_last V (ext c) \<and>
    view_pool V (ext d) = view_pool V (ext c)"
proof -
  have us: "stk_UpdateStatus k v Bonded = bonded_version v"
    using laws by (simp add: staking_laws_def codec_laws_def bonded_version_def)
  have str: "stk_ValStringToBytes k (OperatorAddress (bonded_version v)) = Ok a"
    using laws val by (auto simp: staking_laws_def codec_laws_def bonded_version_def)
  from run obtain x1 x2 x3 x4 x5 ca where
    1: "stk_DeleteValidatorByPowerIndex k v (ext c) = (Ok (), x1)" and
    2: "stk_SetValidator k (bonded_version v) x1 = (Ok (), x2)" and
    3: "stk_SetValidatorByPowerIndex k (bonded_version v) x2 = (Ok (), x3)" and
    4: "stk_DeleteValidatorQueue k (bonded_version v) x3 = (Ok (), x4)" and
    5: "stk_AfterValidatorBonded k ca a x4 = (Ok (), x5)" and
    w: "w = bonded_version v" and d: "d = c\<lparr>ext := x5\<rparr>"
    by (simp add: bondValidator_def Let_def us str run_ext bindM_eq_Ok) blast
  note s = framesD [OF law_frames(1) [OF laws] 1] framesD [OF law_frames(2) [OF laws] 3]
    framesD [OF law_frames(3) [OF laws] 4] framesD [OF law_frames(4) [OF laws] 5]
  from s law_SetValidator [OF laws 2 str] w d show ?thesis by (simp add: same_view_def)
qed

lemma bond_switch_view:
  assumes laws: "staking_laws k V" and run: "bond_switch k v c = (Ok (w, moved), d)"
    and val: "view_vals V (ext c) a = Some v"
  shows "w = bonded_version v \<and> d = c\<lparr>ext := ext d\<rparr> \<and>
    moved = (if Status v = Bonded then 0 else Tokens v) \<and>
    view_vals V (ext d) = (view_vals V (ext c))(a \<mapsto> w) \<and> view_last V (ext d) = view_last V (ext c) \<and>
    view_pool V (ext d) = view_pool V (ext c)"
proof (cases "Status v")
  case Unspecified
  with run show ?thesis by (simp add: bond_switch_def)
next
  case Unbonded
  with run have "bondValidator k v c = (Ok w, d)" "moved = Tokens w"
    by (auto simp: bond_switch_def unbondedToBonded_def)
  with bondValidator_view [OF laws _ val] Unbonded show ?thesis by (simp add: bonded_version_def)
next
  case Unbonding
  with run have "bondValidator k v c = (Ok w, d)" "moved = Tokens w"
    by (auto simp: bond_switch_def unbondingToBonded_def)
  with bondValidator_view [OF laws _ val] Unbonding show ?thesis by (simp add: bonded_version_def)
next
  case Bonded
  then have "bonded_version v = v" by (cases v) (simp add: bonded_version_def)
  with Bonded run val show ?thesis by (auto simp: bond_switch_def)
qed

lemma str_inj:
  assumes "staking_laws k V" "stk_ValBytesToString k a = Ok s" "stk_ValBytesToString k b = Ok s"
  shows "a = b"
  using assms unfolding staking_laws_def codec_laws_def by (metis outcome.inject(1))

lemma record_power_view:
  assumes laws: "staking_laws k V" and run: "record_power k a (bonded_version v) moved st c = (Ok st', d)"
    and mirror: "last_mirror k V (sel_last st) (ext c)"
  shows "d = c\<lparr>ext := ext d\<rparr> \<and> sel_count st' = Suc (sel_count st) \<and> sel_vols st' = sel_vols st \<and>
    (\<exists>s. stk_ValBytesToString k a = Ok s \<and> sel_last st' = gomap_delete s (sel_last st)) \<and>
    sel_toBonded st' = sel_toBonded st + moved \<and>
    view_last V (ext d) = (view_last V (ext c))(a \<mapsto> power_bytes k v) \<and>
    view_vals V (ext d) = view_vals V (ext c) \<and> view_pool V (ext d) = view_pool V (ext c)"
proof -
  from run obtain s where s: "stk_ValBytesToString k a = Ok s"
    by (cases "stk_ValBytesToString k a") (auto simp: record_power_def)
  let ?p = "stk_ConsensusPower k (bonded_version v) (stk_PowerReduction k)"
  show ?thesis
  proof (cases "map_of (sel_last st) s = Some (power_bytes k v)")
    case True
    then have "(s, power_bytes k v) \<in> set (sel_last st)" by (rule map_of_SomeD)
    then obtain b where "stk_ValBytesToString k b = Ok s" "view_last V (ext c) b = Some (power_bytes k v)"
      using mirror by (fastforce simp: last_mirror_def)
    then have "view_last V (ext c) a = Some (power_bytes k v)" using str_inj [OF laws s] by blast
    with True run s show ?thesis
      by (auto simp: record_power_def Let_def power_bytes_def fun_upd_idem)
  next
    case False
    with run s obtain x where "stk_SetLastValidatorPower k a ?p (ext c) = (Ok (), x)" "d = c\<lparr>ext := x\<rparr>"
      by (auto simp: record_power_def Let_def power_bytes_def run_ext)
    moreover from this(1) have "view_last V x = (view_last V (ext c))(a \<mapsto> power_bytes k v) \<and>
        view_vals V x = view_vals V (ext c) \<and> view_pool V x = view_pool V (ext c)"
      using law_SetLast [OF laws] unfolding power_bytes_def by blast
    ultimately show ?thesis using False run s
      by (auto simp: record_power_def Let_def power_bytes_def run_ext)
  qed
qed

section \<open>The selection loop refines the selection rule\<close>

lemma mustGetValidator_bind:
  assumes "staking_laws k V" "bindM (mustGetValidator k a) f c = (Ok r, d)" "view_vals V (ext c) a = Some v"
  shows "f v c = (Ok r, d)"
  using assms(2,3) mustGetValidator_Ok [OF assms(1)] by (fastforce simp: bindM_eq_Ok)

lemma gomap_delete_keys [simp]: "fst ` set (gomap_delete s m) = fst ` set m - {s}"
  by (auto simp: gomap_delete_def)

lemma select_body_cases:
  assumes laws: "staking_laws k V" and run: "select_body k M a st c = (Ok (goes, st'), d)"
    and val: "view_vals V (ext c) a = Some v" and mirror: "last_mirror k V (sel_last st) (ext c)"
  obtains (skip) "OperatorAddress v \<notin> fst ` set (sel_vols st)" "M \<le> sel_count st" "goes" "st' = st" "d = c"
  | (stop) "\<not> (OperatorAddress v \<notin> fst ` set (sel_vols st) \<and> M \<le> sel_count st)" "no_power k v"
      "\<not> goes" "sel_last st' = sel_last st" "sel_toBonded st' = sel_toBonded st" "d = c"
  | (take) s where "\<not> (OperatorAddress v \<notin> fst ` set (sel_vols st) \<and> M \<le> sel_count st)"
      "\<not> no_power k v" "goes" "d = c\<lparr>ext := ext d\<rparr>" "sel_count st' = Suc (sel_count st)"
      "fst ` set (sel_vols st') = fst ` set (sel_vols st) - {OperatorAddress v}"
      "stk_ValBytesToString k a = Ok s" "sel_last st' = gomap_delete s (sel_last st)"
      "sel_toBonded st' = sel_toBonded st + (if Status v = Bonded then 0 else Tokens v)"
      "view_last V (ext d) = (view_last V (ext c))(a \<mapsto> power_bytes k v)"
      "view_vals V (ext d) = (view_vals V (ext c))(a \<mapsto> bonded_version v)"
      "view_pool V (ext d) = view_pool V (ext c)"
proof -
  let ?old = "OperatorAddress v \<notin> fst ` set (sel_vols st) \<and> M \<le> sel_count st"
  let ?st1 = "if OperatorAddress v \<in> fst ` set (sel_vols st)
    then st\<lparr>sel_vols := gomap_delete (OperatorAddress v) (sel_vols st)\<rparr> else st"
  have count: "sel_count ?st1 = sel_count st" by simp
  from mustGetValidator_bind [OF laws run [unfolded select_body_def Let_def] val] have body: "(if ?old then ret (True, ?st1)
     else if Jailed v then panic ''should never retrieve a jailed validator from the power store''
     else if no_power k v then ret (False, ?st1)
     else bindM (bond_switch k v) (\<lambda>(w, moved).
          bindM (record_power k a w moved ?st1) (\<lambda>st2. ret (True, st2)))) c = (Ok (goes, st'), d)"
    by (simp only: count no_power_def)
  consider "?old" | "\<not> ?old" "no_power k v" | "\<not> ?old" "\<not> no_power k v" by blast
  then show thesis
  proof cases
    case 1
    with body show thesis by (intro skip) auto
  next
    case 2
    with body show thesis by (intro stop) (auto split: if_splits)
  next
    case 3
    with body obtain w moved c1 where sw: "bond_switch k v c = (Ok (w, moved), c1)"
        and rp: "record_power k a w moved ?st1 c1 = (Ok st', d)" and goes
      by (auto split: if_splits)
    note b = bond_switch_view [OF laws sw val]
    have m: "last_mirror k V (sel_last ?st1) (ext c1)" using mirror b by (simp add: last_mirror_def)
    from rp b have rp': "record_power k a (bonded_version v) moved ?st1 c1 = (Ok st', d)" by simp
    note r = record_power_view [OF laws rp' m]
    have "d = c\<lparr>ext := ext d\<rparr>" using b r by (metis ext_upd_upd)
    moreover obtain s where "stk_ValBytesToString k a = Ok s" "sel_last st' = gomap_delete s (sel_last ?st1)"
      using r by blast
    moreover have "sel_last ?st1 = sel_last st" "sel_toBonded ?st1 = sel_toBonded st"
        "fst ` set (sel_vols ?st1) = fst ` set (sel_vols st) - {OperatorAddress v}"
      by simp_all
    ultimately show thesis using 3 b r \<open>goes\<close> count by (intro take [of s]) simp_all
  qed
qed

lemma last_mirror_take:
  assumes "staking_laws k V" "last_mirror k V m x" "stk_ValBytesToString k a = Ok s"
    and "view_last V y = (view_last V x)(a \<mapsto> b)"
  shows "last_mirror k V (gomap_delete s m) y"
  unfolding last_mirror_def
proof
  fix e assume "e \<in> set (gomap_delete s m)"
  then have e: "e \<in> set m" "fst e \<noteq> s" by (auto simp: gomap_delete_def)
  with assms(2) obtain a' where a': "stk_ValBytesToString k a' = Ok (fst e)" "view_last V x a' = Some (snd e)"
    by (auto simp: last_mirror_def)
  with e assms(3) have "a' \<noteq> a" by auto
  with a' assms(4) show "\<exists>a. stk_ValBytesToString k a = Ok (fst e) \<and> view_last V y a = Some (snd e)"
    by (intro exI [of _ a']) simp
qed

lemma select_loop_refines:
  fixes W :: "ValAddress \<Rightarrow> Validator"
  assumes laws: "staking_laws k V" and "select_loop k M it st c = (Ok st', d)" "distinct it"
    and "\<forall>a \<in> set it. \<forall>v. view_vals V (ext c) a = Some v \<longrightarrow> W a = v"
    and "last_mirror k V (sel_last st) (ext c)"
  defines "ch \<equiv> chosen (no_power k) M W it (sel_count st) (fst ` set (sel_vols st))"
  shows "d = c\<lparr>ext := ext d\<rparr> \<and>
    (\<forall>a \<in> set ch. view_vals V (ext c) a = Some (W a)) \<and>
    view_last V (ext d) = (\<lambda>a. if a \<in> set ch then Some (power_bytes k (W a)) else view_last V (ext c) a) \<and>
    view_vals V (ext d) = (\<lambda>a. if a \<in> set ch then Some (bonded_version (W a)) else view_vals V (ext c) a) \<and>
    view_pool V (ext d) = view_pool V (ext c) \<and>
    sel_toBonded st' = sel_toBonded st + (\<Sum>a\<in>set ch. if Status (W a) = Bonded then 0 else Tokens (W a)) \<and>
    set (sel_last st') = {e \<in> set (sel_last st). \<forall>a \<in> set ch. stk_ValBytesToString k a \<noteq> Ok (fst e)} \<and>
    (distinct (map fst (sel_last st)) \<longrightarrow> distinct (map fst (sel_last st')))"
  using assms(2-5) unfolding ch_def
proof (induction it arbitrary: st c)
  case Nil
  then show ?case by (auto split: if_splits)
next
  case (Cons a it)
  show ?case
  proof (cases "sel_count st < M \<or> sel_vols st \<noteq> []")
    case False
    with Cons.prems show ?thesis by auto
  next
    case True
    with Cons.prems(1) obtain goes st1 c1 where body: "select_body k M a st c = (Ok (goes, st1), c1)"
        and rest: "(if goes then select_loop k M it st1 else ret st1) c1 = (Ok st', d)"
      by auto
    from body obtain v where v: "view_vals V (ext c) a = Some v"
      using mustGetValidator_Ok [OF laws] unfolding select_body_def by blast
    with Cons.prems(3) have W: "W a = v" by simp
    from True have go: "sel_count st < M \<or> fst ` set (sel_vols st) \<noteq> {}" by auto
    from laws body v Cons.prems(4) show ?thesis
    proof (cases rule: select_body_cases)
      case skip
      with rest Cons.IH [of st c] Cons.prems go show ?thesis by (simp add: W)
    next
      case stop
      with rest go show ?thesis by (auto simp: W)
    next
      case (take s)
      let ?ch = "chosen (no_power k) M W it (sel_count st1) (fst ` set (sel_vols st1))"
      have a: "a \<notin> set it" using Cons.prems(2) by simp
      then have a': "a \<notin> set ?ch" using chosen_sublist by fastforce
      have all: "chosen (no_power k) M W (a # it) (sel_count st) (fst ` set (sel_vols st)) = a # ?ch"
        using go take by (auto simp: W)
      have IH: "d = c1\<lparr>ext := ext d\<rparr> \<and>
        (\<forall>a \<in> set ?ch. view_vals V (ext c1) a = Some (W a)) \<and>
        view_last V (ext d) = (\<lambda>a. if a \<in> set ?ch then Some (power_bytes k (W a)) else view_last V (ext c1) a) \<and>
        view_vals V (ext d) = (\<lambda>a. if a \<in> set ?ch then Some (bonded_version (W a)) else view_vals V (ext c1) a) \<and>
        view_pool V (ext d) = view_pool V (ext c1) \<and>
        sel_toBonded st' = sel_toBonded st1 + (\<Sum>a\<in>set ?ch. if Status (W a) = Bonded then 0 else Tokens (W a)) \<and>
        set (sel_last st') = {e \<in> set (sel_last st1). \<forall>a \<in> set ?ch. stk_ValBytesToString k a \<noteq> Ok (fst e)} \<and>
        (distinct (map fst (sel_last st1)) \<longrightarrow> distinct (map fst (sel_last st')))"
      proof (rule Cons.IH)
        show "select_loop k M it st1 c1 = (Ok st', d)" using rest take(3) by simp
        show "distinct it" using Cons.prems(2) by simp
        show "\<forall>a \<in> set it. \<forall>v. view_vals V (ext c1) a = Some v \<longrightarrow> W a = v"
          using Cons.prems(3) a take(11) by auto
        show "last_mirror k V (sel_last st1) (ext c1)"
          unfolding take(8) by (rule last_mirror_take [OF laws Cons.prems(4) take(7,10)])
      qed
      have "d = c\<lparr>ext := ext d\<rparr>" using IH take(4) ext_upd_upd by metis
      moreover have "\<forall>b \<in> set (a # ?ch). view_vals V (ext c) b = Some (W b)"
        using IH a' take(11) v W by (auto split: if_splits)
      moreover have "set (sel_last st') =
          {e \<in> set (sel_last st). \<forall>b \<in> set (a # ?ch). stk_ValBytesToString k b \<noteq> Ok (fst e)}"
        using IH take(7,8) by (auto simp: gomap_delete_def)
      ultimately show ?thesis unfolding all
        using IH take(8-12) a' W by (auto simp: fun_eq_iff gomap_delete_distinct)
    qed
  qed
qed

section \<open>The other parts of the update\<close>

lemma getLast_fold:
  assumes inj: "\<And>a b s. BS a = Ok s \<Longrightarrow> BS b = Ok s \<Longrightarrow> a = b"
    and "foldO (\<lambda>e m. bindO (BS (fst e)) (\<lambda>s. Ok (gomap_set s (snd e) m))) es acc = Ok m"
    and "distinct (map fst es)" "distinct (map fst acc)"
    and "\<forall>e \<in> set es. \<forall>f \<in> set acc. BS (fst e) \<noteq> Ok (fst f)"
  shows "distinct (map fst m) \<and>
    set m = set acc \<union> {(s, b). \<exists>a. (a, b) \<in> set es \<and> BS a = Ok s} \<and>
    (\<forall>e \<in> set es. is_Ok (BS (fst e)))"
  using assms(2-5)
proof (induction es arbitrary: acc)
  case Nil
  then show ?case by simp
next
  case (Cons e es)
  then obtain s where s: "BS (fst e) = Ok s" by auto
  have new: "gomap_set s (snd e) acc = acc @ [(s, snd e)]"
    using Cons.prems(4) s by (intro gomap_set_new) auto
  have "distinct (map fst m) \<and>
    set m = set (acc @ [(s, snd e)]) \<union> {(s, b). \<exists>a. (a, b) \<in> set es \<and> BS a = Ok s} \<and>
    (\<forall>e \<in> set es. is_Ok (BS (fst e)))"
  proof (rule Cons.IH)
    show "foldO (\<lambda>e m. bindO (BS (fst e)) (\<lambda>s. Ok (gomap_set s (snd e) m))) es (acc @ [(s, snd e)]) = Ok m"
      using Cons.prems(1) s new by auto
    show "distinct (map fst es)" using Cons.prems(2) by simp
    show "distinct (map fst (acc @ [(s, snd e)]))" using Cons.prems(3,4) s by auto
    have "BS (fst g) \<noteq> Ok s" if "g \<in> set es" for g
      using that Cons.prems(2) inj [OF s, of "fst g"] by auto
    then show "\<forall>g \<in> set es. \<forall>f \<in> set (acc @ [(s, snd e)]). BS (fst g) \<noteq> Ok (fst f)"
      using Cons.prems(4) by auto
  qed
  then show ?case using s by (cases e) auto
qed

lemma getLastValidatorsByAddr_view:
  assumes laws: "staking_laws k V" and run: "getLastValidatorsByAddr k c = (Ok m, d)"
  shows "d = c \<and> distinct (map fst m) \<and> last_mirror k V m (ext c) \<and> finite (dom (view_last V (ext c))) \<and>
    (\<forall>a \<in> dom (view_last V (ext c)). \<exists>s. stk_ValBytesToString k a = Ok s \<and> s \<in> fst ` set m)"
proof -
  from run obtain es where it: "extM (stk_LastValidatorsIterator k) c = (Ok es, d)"
      and fold: "foldO (\<lambda>e m. bindO (stk_ValBytesToString k (fst e)) (\<lambda>s. Ok (gomap_set s (snd e) m))) es [] = Ok m"
    by (auto simp: getLastValidatorsByAddr_def)
  have "reads_only (stk_LastValidatorsIterator k)" using laws by (simp add: staking_laws_def read_laws_def)
  from extM_reads_only [OF this it] have d: "d = c" and es: "fst (stk_LastValidatorsIterator k (ext c)) = Ok es"
    by simp_all
  from laws es have dist: "distinct (map fst es)" and map: "map_of es = view_last V (ext c)"
    by (auto simp: staking_laws_def read_laws_def)
  have m: "distinct (map fst m)" "set m = {(s, b). \<exists>a. (a, b) \<in> set es \<and> stk_ValBytesToString k a = Ok s}"
      "\<forall>e \<in> set es. is_Ok (stk_ValBytesToString k (fst e))"
    using getLast_fold [OF str_inj [OF laws] fold dist] by auto
  have mem: "(a, b) \<in> set es \<longleftrightarrow> view_last V (ext c) a = Some b" for a b
    using dist by (simp add: map [symmetric])
  have "last_mirror k V m (ext c)" unfolding last_mirror_def m(2) by (auto simp: mem)
  moreover have "\<exists>s. stk_ValBytesToString k a = Ok s \<and> s \<in> fst ` set m" if "a \<in> dom (view_last V (ext c))" for a
  proof -
    from that obtain b where ab: "(a, b) \<in> set es" by (auto simp: mem)
    with m(3) obtain s where "stk_ValBytesToString k a = Ok s" by (force simp: is_Ok_iff)
    with ab m(2) show ?thesis by force
  qed
  moreover have "finite (dom (view_last V (ext c)))" by (simp add: map [symmetric] finite_dom_map_of)
  ultimately show ?thesis using d m(1) by blast
qed

lemma list_all2_outcome_set: "list_all2 (\<lambda>x y. f x = Ok y) xs ys \<Longrightarrow> set ys = {y. \<exists>x \<in> set xs. f x = Ok y}"
  by (induction rule: list_all2_induct) auto

lemma list_all2_outcome_Ok: "list_all2 (\<lambda>x y. f x = Ok y) xs ys \<Longrightarrow> x \<in> set xs \<Longrightarrow> \<exists>y. f x = Ok y"
  by (induction rule: list_all2_induct) auto

lemma list_all2_outcome_distinct:
  assumes "list_all2 (\<lambda>x y. f x = Ok y) xs ys" "distinct xs" "inj_on f (set xs)"
  shows "distinct ys"
  using assms
proof (induction rule: list_all2_induct)
  case (Cons x xs y ys)
  then have "y \<notin> set ys" by (auto simp: list_all2_outcome_set inj_on_def)
  with Cons show ?case by (simp add: inj_on_def)
qed simp

lemma sortNoLongerBonded_set:
  assumes "go_range rng" "sortNoLongerBonded rng SB m = Ok as" "distinct (map fst m)"
    and "\<And>s t a. SB s = Ok a \<Longrightarrow> SB t = Ok a \<Longrightarrow> s \<in> fst ` set m \<Longrightarrow> t \<in> fst ` set m \<Longrightarrow> s = t"
  shows "set as = {a. \<exists>e \<in> set m. SB (fst e) = Ok a} \<and> distinct as"
proof -
  from assms(2) obtain bs where bs: "list_all2 (\<lambda>e b. SB (fst e) = Ok b) (rng m) bs" and as: "as = sort bs"
    by (auto simp: sortNoLongerBonded_def mapO_eq_Ok)
  have set_rng: "set (rng m) = set m" by (rule go_range_set [OF assms(1)])
  with list_all2_outcome_set [OF bs] have "set bs = {a. \<exists>e \<in> set m. SB (fst e) = Ok a}" by simp
  moreover have "distinct bs"
  proof -
    have "mset (rng m) = mset m" using assms(1) by (simp add: go_range_def)
    then have "distinct (rng m)" using assms(3) by (metis distinct_map mset_eq_imp_distinct_iff)
    moreover have "inj_on (\<lambda>e. SB (fst e)) (set (rng m))" unfolding set_rng
    proof (rule inj_onI)
      fix e f assume e: "e \<in> set m" and f: "f \<in> set m" and eq: "SB (fst e) = SB (fst f)"
      obtain a where a: "SB (fst e) = Ok a" using bs e set_rng by (metis list_all2_outcome_Ok)
      have "fst e = fst f" using assms(4) [OF a] a eq e f by simp
      with e f assms(3) show "e = f" by (metis eq_key_imp_eq_value prod.collapse)
    qed
    ultimately show ?thesis by (rule list_all2_outcome_distinct [OF bs])
  qed
  ultimately show ?thesis by (simp add: as)
qed

lemma unbond_one_view:
  assumes laws: "staking_laws k V" and run: "unbond_one k a acc c = (Ok acc', d)"
  shows "\<exists>v w. view_vals V (ext c) a = Some v \<and> Status v = Bonded \<and> Tokens w = Tokens v \<and>
    Status w = Unbonding \<and> d = c\<lparr>ext := ext d\<rparr> \<and> fst acc' = fst acc + Tokens v \<and>
    view_last V (ext d) = (view_last V (ext c))(a := None) \<and>
    view_vals V (ext d) = (view_vals V (ext c))(a \<mapsto> w) \<and> view_pool V (ext d) = view_pool V (ext c)"
proof -
  from run obtain v where v: "view_vals V (ext c) a = Some v"
    using mustGetValidator_Ok [OF laws] unfolding unbond_one_def by blast
  then have str: "stk_ValStringToBytes k (OperatorAddress v) = Ok a"
    using laws by (simp add: staking_laws_def codec_laws_def)
  from mustGetValidator_bind [OF laws run [unfolded unbond_one_def] v]
  obtain w x y b where st: "Status v = Bonded" and bu: "stk_BeginUnbondingValidator k v (ext c) = (Ok w, x)"
      and b: "stk_ValStringToBytes k (OperatorAddress w) = Ok b"
      and dl: "stk_DeleteLastValidatorPower k b x = (Ok (), y)" and d: "d = c\<lparr>ext := y\<rparr>"
      and acc: "acc' = (fst acc + Tokens w, snd acc @ [stk_ABCIValidatorUpdateZero k w])"
    by (auto simp: bondedToUnbonding_def run_ext split: if_splits)
  note w = law_BeginUnbonding [OF laws bu str]
  from w b str have "b = a" by simp
  with w law_DeleteLast [OF laws dl] v st d acc show ?thesis by auto
qed

lemma unbond_loop_view:
  assumes laws: "staking_laws k V" and "foldM (unbond_one k) as acc c = (Ok acc', d)" "distinct as"
  shows "d = c\<lparr>ext := ext d\<rparr> \<and>
    (\<forall>a \<in> set as. \<exists>v. view_vals V (ext c) a = Some v \<and> Status v = Bonded) \<and>
    fst acc' = fst acc + (\<Sum>a\<in>set as. Tokens (the (view_vals V (ext c) a))) \<and>
    view_last V (ext d) = (\<lambda>a. if a \<in> set as then None else view_last V (ext c) a) \<and>
    (\<forall>a. a \<notin> set as \<longrightarrow> view_vals V (ext d) a = view_vals V (ext c) a) \<and>
    (\<forall>a \<in> set as. \<exists>w. view_vals V (ext d) a = Some w \<and> Status w = Unbonding) \<and>
    view_pool V (ext d) = view_pool V (ext c)"
  using assms(2,3)
proof (induction as arbitrary: acc c)
  case Nil
  then show ?case by simp
next
  case (Cons a as)
  then obtain acc1 c1 where one: "unbond_one k a acc c = (Ok acc1, c1)"
      and rest: "foldM (unbond_one k) as acc1 c1 = (Ok acc', d)" by auto
  from unbond_one_view [OF laws one] obtain v w where 1: "view_vals V (ext c) a = Some v" "Status v = Bonded"
      "Tokens w = Tokens v" "Status w = Unbonding" "c1 = c\<lparr>ext := ext c1\<rparr>" "fst acc1 = fst acc + Tokens v"
      "view_last V (ext c1) = (view_last V (ext c))(a := None)"
      "view_vals V (ext c1) = (view_vals V (ext c))(a \<mapsto> w)" "view_pool V (ext c1) = view_pool V (ext c)"
    by blast
  note IH = Cons.IH [OF rest]
  have a: "a \<notin> set as" "distinct as" using Cons.prems(2) by simp_all
  have "(\<Sum>b\<in>set as. Tokens (the (view_vals V (ext c1) b))) = (\<Sum>b\<in>set as. Tokens (the (view_vals V (ext c) b)))"
    using a(1) 1(8) by (intro sum.cong) auto
  moreover have "d = c\<lparr>ext := ext d\<rparr>" using IH a(2) 1(5) ext_upd_upd by metis
  moreover have "\<forall>b \<in> set (a # as). \<exists>v. view_vals V (ext c) b = Some v \<and> Status v = Bonded"
    using IH a 1(1,2,8) by (auto split: if_splits)
  ultimately show ?case using IH a 1 by (auto simp: fun_eq_iff)
qed

lemma drop_jailed_view:
  assumes laws: "staking_laws k V" and "drop_jailed k es m c = (Ok m', d)"
  shows "d = c \<and> (\<forall>e \<in> set es. \<exists>a v. stk_ValAddressFromBech32 k (fst e) = Ok a \<and> view_vals V (ext c) a = Some v) \<and>
    set m' = {f \<in> set m. \<forall>e \<in> set es. fst f = fst e \<longrightarrow> \<not> jailed_at k V (ext c) (fst e)}"
  using assms(2) unfolding drop_jailed_def
proof (induction es arbitrary: m)
  case Nil
  then show ?case by simp
next
  case (Cons e es)
  from Cons.prems obtain m1 c1 where one: "drop_jailed_one k e m c = (Ok m1, c1)"
      and rest: "foldM (drop_jailed_one k) es m1 c1 = (Ok m', d)" by auto
  from one obtain a v where a: "stk_ValAddressFromBech32 k (fst e) = Ok a"
      and g: "mustGetValidator k a c = (Ok v, c1)"
      and m1: "m1 = (if Jailed v then gomap_delete (fst e) m else m)"
    by (cases "stk_ValAddressFromBech32 k (fst e)") (auto simp: drop_jailed_one_def)
  from mustGetValidator_Ok [OF laws g] have c1: "c1 = c" and v: "view_vals V (ext c) a = Some v" by simp_all
  have j: "jailed_at k V (ext c) (fst e) \<longleftrightarrow> Jailed v" using a v by (simp add: jailed_at_def)
  from Cons.IH [of m1] rest c1 have IH: "d = c \<and>
    (\<forall>e \<in> set es. \<exists>a v. stk_ValAddressFromBech32 k (fst e) = Ok a \<and> view_vals V (ext c) a = Some v) \<and>
    set m' = {f \<in> set m1. \<forall>e \<in> set es. fst f = fst e \<longrightarrow> \<not> jailed_at k V (ext c) (fst e)}" by simp
  have "set m' = {f \<in> set m. \<forall>e \<in> set (e # es). fst f = fst e \<longrightarrow> \<not> jailed_at k V (ext c) (fst e)}"
    using IH m1 j by (auto simp: gomap_delete_def)
  with IH a v show ?case by auto
qed

lemma law_toBonded:
  assumes "staking_laws k V"
    and "stk_SendCoinsFromModuleToModule k ''not_bonded_tokens_pool'' ''bonded_tokens_pool'' cs x = (Ok (), y)"
  shows "view_pool V y = view_pool V x + amount_of cs (view_denom V) \<and>
    view_last V y = view_last V x \<and> view_vals V y = view_vals V x"
  using assms unfolding staking_laws_def pool_laws_def by blast

lemma law_toNotBonded:
  assumes "staking_laws k V"
    and "stk_SendCoinsFromModuleToModule k ''bonded_tokens_pool'' ''not_bonded_tokens_pool'' cs x = (Ok (), y)"
  shows "view_pool V y = view_pool V x - amount_of cs (view_denom V) \<and>
    view_last V y = view_last V x \<and> view_vals V y = view_vals V x"
  using assms unfolding staking_laws_def pool_laws_def by blast

lemma pool_move_view:
  assumes laws: "staking_laws k V"
    and "notBondedTokensToBonded k n c = (Ok (), d) \<and> m = n \<or> bondedTokensToNotBonded k n c = (Ok (), d) \<and> m = - n"
  shows "d = c\<lparr>ext := ext d\<rparr> \<and> view_pool V (ext d) = view_pool V (ext c) + m \<and>
    view_last V (ext d) = view_last V (ext c) \<and> view_vals V (ext d) = view_vals V (ext c)"
proof -
  have ro: "reads_only (stk_BondDenom k)" using laws by (simp add: staking_laws_def read_laws_def)
  have denom: "dn = view_denom V \<and> x = ext c" if "stk_BondDenom k (ext c) = (Ok dn, x)" for dn x
    using that laws reads_onlyD [OF ro that] unfolding staking_laws_def read_laws_def
    by (metis fst_conv)
  from assms(2) obtain dn x co cs y where bd: "stk_BondDenom k (ext c) = (Ok dn, x)"
      and co: "NewCoin (stk_coins k) dn n = Ok co" and cs: "NewCoins (stk_coins k) [co] = Ok cs"
      and d: "d = c\<lparr>ext := y\<rparr>"
      and send: "stk_SendCoinsFromModuleToModule k ''not_bonded_tokens_pool'' ''bonded_tokens_pool'' cs x = (Ok (), y) \<and> m = n \<or>
        stk_SendCoinsFromModuleToModule k ''bonded_tokens_pool'' ''not_bonded_tokens_pool'' cs x = (Ok (), y) \<and> m = - n"
    by (auto simp: notBondedTokensToBonded_def bondedTokensToNotBonded_def run_ext bindM_eq_Ok)
  have am: "amount_of cs dn = n" using laws co cs by (auto simp: staking_laws_def pool_laws_def)
  have "view_pool V y = view_pool V x + m \<and> view_last V y = view_last V x \<and> view_vals V y = view_vals V x"
    using send law_toBonded [OF laws, of cs x y] law_toNotBonded [OF laws, of cs x y] am denom [OF bd]
    by (elim disjE) simp_all
  with denom [OF bd] d show ?thesis by simp
qed

lemma pool_switch_view:
  assumes laws: "staking_laws k V" and "pool_switch k tb tn c = (Ok (), d)"
  shows "d = c\<lparr>ext := ext d\<rparr> \<and> view_pool V (ext d) = view_pool V (ext c) + tb - tn \<and>
    view_last V (ext d) = view_last V (ext c) \<and> view_vals V (ext d) = view_vals V (ext c)"
proof (cases tb tn rule: linorder_cases)
  case less
  with assms(2) have "bondedTokensToNotBonded k (tn - tb) c = (Ok (), d)" by (simp add: pool_switch_def)
  with pool_move_view [OF laws, of "tn - tb" c d "tb - tn"] show ?thesis by simp
next
  case equal
  with assms(2) show ?thesis by (simp add: pool_switch_def)
next
  case greater
  with assms(2) have "notBondedTokensToBonded k (tb - tn) c = (Ok (), d)" by (simp add: pool_switch_def)
  with pool_move_view [OF laws, of "tb - tn" c d "tb - tn"] show ?thesis by simp
qed

lemma finish_view:
  assumes laws: "staking_laws k V"
    and "thenM (if us \<noteq> [] then extM (stk_SetLastTotalPower k n) else ret ())
      (thenM (extM (stk_SetValidatorUpdates k us)) (ret us)) c = (Ok ups, d)"
  shows "d = c\<lparr>ext := ext d\<rparr> \<and> same_view V (ext c) (ext d)"
proof (cases "us = []")
  case True
  with assms(2) obtain y where "stk_SetValidatorUpdates k us (ext c) = (Ok (), y)" "d = c\<lparr>ext := y\<rparr>"
    by (auto simp: run_ext)
  with framesD [OF law_frames(6) [OF laws]] show ?thesis by auto
next
  case False
  with assms(2) obtain x y where 1: "stk_SetLastTotalPower k n (ext c) = (Ok (), x)"
      and 2: "stk_SetValidatorUpdates k us x = (Ok (), y)" and d: "d = c\<lparr>ext := y\<rparr>"
    by (auto simp: run_ext)
  have "same_view V (ext c) y"
    by (rule same_view_trans [OF framesD [OF law_frames(5) [OF laws] 1] framesD [OF law_frames(6) [OF laws] 2]])
  with d show ?thesis by simp
qed

section \<open>The whole update\<close>

lemma law_operator:
  assumes "staking_laws k V" "view_vals V x a = Some v"
  shows "stk_ValStringToBytes k (OperatorAddress v) = Ok a"
  using assms by (simp add: staking_laws_def codec_laws_def)

lemma operator_inj:
  assumes "staking_laws k V" "\<forall>a \<in> A. view_vals V x a = Some (W a)"
  shows "inj_on (\<lambda>a. OperatorAddress (W a)) A"
proof (rule inj_onI)
  fix a b assume a: "a \<in> A" and b: "b \<in> A" and eq: "OperatorAddress (W a) = OperatorAddress (W b)"
  note op = law_operator [OF assms(1) bspec [OF assms(2)]]
  have "Ok a = Ok b" using op [OF a] op [OF b] unfolding eq by (rule trans [OF sym])
  then show "a = b" by simp
qed

lemma no_longer_bonded:
  assumes laws: "staking_laws k V" and mirror: "last_mirror k V m x"
    and comp: "\<forall>a \<in> dom (view_last V x). \<exists>s. stk_ValBytesToString k a = Ok s \<and> s \<in> fst ` set m"
    and rest: "set m' = {e \<in> set m. \<forall>a \<in> C. stk_ValBytesToString k a \<noteq> Ok (fst e)}"
    and dist: "distinct (map fst m')" and rng: "go_range rng"
    and run: "sortNoLongerBonded rng (stk_ValStringToBytes k) m' = Ok gs"
  shows "set gs = dom (view_last V x) - C \<and> distinct gs"
proof -
  have sb: "stk_ValStringToBytes k s = Ok a" if "stk_ValBytesToString k a = Ok s" for a s
    using laws that by (simp add: staking_laws_def codec_laws_def)
  have key: "\<exists>a. stk_ValBytesToString k a = Ok s \<and> stk_ValStringToBytes k s = Ok a \<and> a \<in> dom (view_last V x) \<and> a \<notin> C"
    if "s \<in> fst ` set m'" for s
    using that rest mirror sb unfolding last_mirror_def by fastforce
  have "set gs = {a. \<exists>e \<in> set m'. stk_ValStringToBytes k (fst e) = Ok a} \<and> distinct gs"
  proof (rule sortNoLongerBonded_set [OF rng run dist])
    fix s t a assume "stk_ValStringToBytes k s = Ok a" "stk_ValStringToBytes k t = Ok a"
      "s \<in> fst ` set m'" "t \<in> fst ` set m'"
    with key [of s] key [of t] show "s = t" by auto
  qed
  moreover have "{a. \<exists>e \<in> set m'. stk_ValStringToBytes k (fst e) = Ok a} = dom (view_last V x) - C"
  proof (intro set_eqI iffI)
    fix a assume "a \<in> {a. \<exists>e \<in> set m'. stk_ValStringToBytes k (fst e) = Ok a}"
    then show "a \<in> dom (view_last V x) - C" using key by fastforce
  next
    fix a assume a: "a \<in> dom (view_last V x) - C"
    with comp obtain e where e: "e \<in> set m" "stk_ValBytesToString k a = Ok (fst e)"
      by (metis DiffD1 imageE)
    with a str_inj [OF laws] have "\<forall>b \<in> C. stk_ValBytesToString k b \<noteq> Ok (fst e)" by blast
    with e(1) rest have "e \<in> set m'" by blast
    with sb [OF e(2)] show "a \<in> {a. \<exists>e \<in> set m'. stk_ValStringToBytes k (fst e) = Ok a}" by blast
  qed
  ultimately show ?thesis by simp
qed

lemma apply_view:
  assumes laws: "staking_laws k V" and rngs: "go_range rngV" "go_range rngL"
    and vols: "stk_volunteers k c = (Ok vols, c)"
    and idx: "fst (stk_ValidatorsPowerStoreIterator k (ext c)) = Ok it" "distinct it"
    and max: "fst (stk_MaxValidators k (ext c)) = Ok maxV"
    and run: "ApplyAndReturnValidatorSetUpdates rngV rngL k c = (Ok ups, d)"
  defines "W \<equiv> \<lambda>a. the (view_vals V (ext c) a)"
  defines "ch \<equiv> chosen (no_power k) (unat maxV) W it 0 (active_volunteers k V (ext c) vols)"
  defines "gone \<equiv> dom (view_last V (ext c)) - set ch"
  shows "d = c\<lparr>ext := ext d\<rparr> \<and> finite (dom (view_last V (ext c))) \<and>
    (\<forall>e \<in> set vols. \<exists>a v. stk_ValAddressFromBech32 k (fst e) = Ok a \<and> view_vals V (ext c) a = Some v) \<and>
    (\<forall>a \<in> set ch. view_vals V (ext c) a = Some (W a)) \<and>
    (\<forall>a \<in> gone. \<exists>v. view_vals V (ext c) a = Some v \<and> Status v = Bonded) \<and>
    view_last V (ext d) = (\<lambda>a. if a \<in> set ch then Some (power_bytes k (W a)) else None) \<and>
    (\<forall>a \<in> set ch. view_vals V (ext d) a = Some (bonded_version (W a))) \<and>
    (\<forall>a \<in> gone. \<exists>w. view_vals V (ext d) a = Some w \<and> Status w = Unbonding) \<and>
    (\<forall>a. a \<notin> set ch \<and> a \<notin> gone \<longrightarrow> view_vals V (ext d) a = view_vals V (ext c) a) \<and>
    view_pool V (ext d) = view_pool V (ext c) +
      (\<Sum>a\<in>set ch. if Status (W a) = Bonded then 0 else Tokens (W a)) - (\<Sum>a\<in>gone. Tokens (W a))"
proof -
  have ro: "reads_only (stk_MaxValidators k)" "reads_only (stk_ValidatorsPowerStoreIterator k)"
    using laws by (simp_all add: staking_laws_def read_laws_def)
  have m1: "extM (stk_MaxValidators k) c = (Ok maxV, c)"
    and m2: "extM (stk_ValidatorsPowerStoreIterator k) c = (Ok it, c)"
    using ro max idx(1) by (simp_all add: extM_apply split_def reads_only_def)
  from run m1 obtain m c1 where gl: "getLastValidatorsByAddr k c = (Ok m, c1)"
    by (auto simp: ApplyAndReturnValidatorSetUpdates_def bindM_Ok)
  note last = getLastValidatorsByAddr_view [OF laws gl]
  from run obtain vs c2 st c3 gs c4 tn us c5 where
    dj: "drop_jailed k (rngV vols) vols c = (Ok vs, c2)" and
    sl: "select_loop k (unat maxV) it (start_selection vs m) c2 = (Ok st, c3)" and
    nb: "sortNoLongerBonded rngL (stk_ValStringToBytes k) (sel_last st) = Ok gs" and
    ub: "foldM (unbond_one k) gs (0, sel_updates st) c3 = (Ok (tn, us), c4)" and
    ps: "pool_switch k (sel_toBonded st) tn c4 = (Ok (), c5)" and
    fi: "thenM (if us \<noteq> [] then extM (stk_SetLastTotalPower k (sel_total st)) else ret ())
      (thenM (extM (stk_SetValidatorUpdates k us)) (ret us)) c5 = (Ok ups, d)"
    unfolding ApplyAndReturnValidatorSetUpdates_def
    using m1 m2 gl last vols by (auto simp: bindM_Ok thenM_eq_Ok simp del: ret_apply)
  note dropped = drop_jailed_view [OF laws dj]
  have keys: "fst ` set (sel_vols (start_selection vs m)) = active_volunteers k V (ext c) vols"
    using dropped go_range_set [OF rngs(1)]
    by (auto simp: start_selection_def active_volunteers_def)
  have c2: "c2 = c" using dropped by simp
  have mir: "last_mirror k V (sel_last (start_selection vs m)) (ext c2)"
    using last c2 by (simp add: start_selection_def)
  note sel = select_loop_refines [OF laws sl idx(2) _ mir, of W, unfolded keys]
  have ch: "chosen (no_power k) (unat maxV) W it (sel_count (start_selection vs m))
      (active_volunteers k V (ext c) vols) = ch"
    by (simp add: ch_def start_selection_def)
  have sel': "c3 = c\<lparr>ext := ext c3\<rparr> \<and> (\<forall>a \<in> set ch. view_vals V (ext c) a = Some (W a)) \<and>
    view_last V (ext c3) = (\<lambda>a. if a \<in> set ch then Some (power_bytes k (W a)) else view_last V (ext c) a) \<and>
    view_vals V (ext c3) = (\<lambda>a. if a \<in> set ch then Some (bonded_version (W a)) else view_vals V (ext c) a) \<and>
    view_pool V (ext c3) = view_pool V (ext c) \<and>
    sel_toBonded st = (\<Sum>a\<in>set ch. if Status (W a) = Bonded then 0 else Tokens (W a)) \<and>
    set (sel_last st) = {e \<in> set m. \<forall>a \<in> set ch. stk_ValBytesToString k a \<noteq> Ok (fst e)} \<and>
    distinct (map fst (sel_last st))"
    using sel last unfolding ch c2 by (simp add: W_def start_selection_def)
  have gone: "set gs = gone \<and> distinct gs" unfolding gone_def
    using last sel' by (intro no_longer_bonded [OF laws _ _ _ _ rngs(2) nb]) auto
  note unb = unbond_loop_view [OF laws ub]
  have tokens: "(\<Sum>a\<in>set gs. Tokens (the (view_vals V (ext c3) a))) = (\<Sum>a\<in>gone. Tokens (W a))"
    using gone sel' by (intro sum.cong) (auto simp: gone_def W_def)
  note pool = pool_switch_view [OF laws ps]
  note fin = finish_view [OF laws fi]
  have d: "d = c\<lparr>ext := ext d\<rparr>"
    using fin pool unb gone sel' by (metis ext_upd_upd)
  have "\<forall>a \<in> gone. \<exists>v. view_vals V (ext c) a = Some v \<and> Status v = Bonded"
    using unb gone sel' by (auto simp: gone_def split: if_splits)
  then show ?thesis
    using d last sel' unb gone tokens pool fin dropped go_range_set [OF rngs(1)]
    by (auto simp: same_view_def gone_def fun_eq_iff)
qed

lemma bonded_ok_update:
  assumes ok: "bonded_ok V x" and fin: "finite C"
    and vals: "\<forall>a \<in> C. view_vals V x a = Some (W a)"
    and last: "dom (view_last V y) = C"
    and new: "\<forall>a \<in> C. view_vals V y a = Some (bonded_version (W a))"
    and gone: "\<forall>a \<in> dom (view_last V x) - C. \<exists>w. view_vals V y a = Some w \<and> Status w = Unbonding"
    and other: "\<forall>a. a \<notin> C \<and> a \<notin> dom (view_last V x) - C \<longrightarrow> view_vals V y a = view_vals V x a"
    and W: "\<forall>a. W a = the (view_vals V x a)"
    and pool: "view_pool V y = view_pool V x + (\<Sum>a\<in>C. if Status (W a) = Bonded then 0 else Tokens (W a)) -
      (\<Sum>a\<in>dom (view_last V x) - C. Tokens (W a))"
  shows "bonded_ok V y \<and> bonded_set V y = C"
proof -
  let ?B = "bonded_set V x"
  have B: "finite ?B" "dom (view_last V x) = ?B" "view_pool V x = (\<Sum>a\<in>?B. Tokens (W a))"
    using ok W by (auto simp: bonded_ok_def)
  have set: "bonded_set V y = C"
  proof (intro set_eqI iffI)
    fix a assume a: "a \<in> bonded_set V y"
    show "a \<in> C"
    proof (rule ccontr)
      assume n: "a \<notin> C"
      have "a \<notin> dom (view_last V x)"
      proof
        assume "a \<in> dom (view_last V x)"
        with n gone obtain w where "view_vals V y a = Some w" "Status w = Unbonding" by blast
        with a show False by (simp add: bonded_set_def)
      qed
      with n other have "view_vals V y a = view_vals V x a" by blast
      with a have "a \<in> ?B" by (simp add: bonded_set_def)
      with B(2) \<open>a \<notin> dom (view_last V x)\<close> show False by simp
    qed
  qed (use new in \<open>auto simp: bonded_set_def bonded_version_def\<close>)
  have "(\<Sum>a\<in>C. if Status (W a) = Bonded then 0 else Tokens (W a)) = (\<Sum>a\<in>C - ?B. Tokens (W a))"
  proof -
    have "(\<Sum>a\<in>C. if Status (W a) = Bonded then 0 else Tokens (W a)) =
        (\<Sum>a\<in>C. if a \<in> C - ?B then Tokens (W a) else 0)"
      using vals by (intro sum.cong) (auto simp: bonded_set_def)
    also have "\<dots> = (\<Sum>a\<in>C \<inter> (C - ?B). Tokens (W a))" by (rule sum.inter_restrict [OF fin, symmetric])
    also have "C \<inter> (C - ?B) = C - ?B" by blast
    finally show ?thesis .
  qed
  moreover have "(\<Sum>a\<in>?B. Tokens (W a)) = (\<Sum>a\<in>?B - C. Tokens (W a)) + (\<Sum>a\<in>?B \<inter> C. Tokens (W a))"
    using B(1) sum.Int_Diff [of ?B "\<lambda>a. Tokens (W a)" C] by simp
  moreover have "(\<Sum>a\<in>C. Tokens (W a)) = (\<Sum>a\<in>C - ?B. Tokens (W a)) + (\<Sum>a\<in>C \<inter> ?B. Tokens (W a))"
    using fin sum.Int_Diff [of C "\<lambda>a. Tokens (W a)" ?B] by simp
  ultimately have "view_pool V y = (\<Sum>a\<in>C. Tokens (W a))"
    using pool B by (simp add: Int_commute)
  also have "\<dots> = (\<Sum>a\<in>C. Tokens (the (view_vals V y a)))"
    using new by (intro sum.cong) (auto simp: bonded_version_def)
  finally show ?thesis using set last fin by (simp add: bonded_ok_def)
qed

lemma mapO_total: "mapO f xs = Ok ys \<longleftrightarrow> (\<forall>x \<in> set xs. is_Ok (f x)) \<and> ys = map (\<lambda>x. case f x of Ok y \<Rightarrow> y) xs"
  by (induction xs arbitrary: ys) (auto simp: is_Ok_iff)

lemma drop_jailed_missing:
  assumes "\<forall>e \<in> set es. \<exists>a. stk_ValAddressFromBech32 k (fst e) = Ok a"
    and "\<forall>a. \<exists>r. stk_GetValidator k a (ext c) = (r, ext c) \<and> \<not> is_Panic r"
    and "\<exists>e \<in> set es. \<exists>a e'. stk_ValAddressFromBech32 k (fst e) = Ok a \<and> stk_GetValidator k a (ext c) = (Err e', ext c)"
  shows "drop_jailed k es m c = (Panic ''validator record not found for address'', c)"
  using assms(1,3) unfolding drop_jailed_def
proof (induction es arbitrary: m)
  case (Cons e es)
  then obtain a where a: "stk_ValAddressFromBech32 k (fst e) = Ok a" by auto
  from assms(2) obtain r where r: "stk_GetValidator k a (ext c) = (r, ext c)" "\<not> is_Panic r" by blast
  show ?case
  proof (cases r)
    case (Ok v)
    then have "drop_jailed_one k e m c = (Ok (if Jailed v then gomap_delete (fst e) m else m), c)"
      using a r by (simp add: drop_jailed_one_def mustGetValidator_def bindM_def attempt_def extM_apply)
    moreover have "\<exists>e \<in> set es. \<exists>a e'. stk_ValAddressFromBech32 k (fst e) = Ok a \<and>
        stk_GetValidator k a (ext c) = (Err e', ext c)"
      using Cons.prems(2) a r Ok by auto
    ultimately show ?thesis using Cons by (simp add: bindM_Ok)
  next
    case (Err e')
    then have "drop_jailed_one k e m c = (Panic ''validator record not found for address'', c)"
      using a r by (simp add: drop_jailed_one_def mustGetValidator_def bindM_def attempt_def extM_apply)
    then show ?thesis by (simp add: bindM_Panic)
  qed (use r in simp)
qed simp

lemma last_validators_loop_total:
  assumes "\<forall>e \<in> set es. stk_GetValidator k (fst e) (ext c) = (Ok (f (fst e)), ext c)" "i + length es \<le> m"
  shows "last_validators_loop k m es i c = (Ok (map (\<lambda>e. f (fst e)) es), c)"
  using assms by (induction es arbitrary: i) (auto simp: bindM_def extM_apply)

lemma active_volunteers_card:
  "finite (active_volunteers k V x vols) \<and> card (active_volunteers k V x vols) \<le> length vols"
proof -
  have "active_volunteers k V x vols \<subseteq> fst ` set vols" by (auto simp: active_volunteers_def)
  then have "finite (active_volunteers k V x vols)"
      and "card (active_volunteers k V x vols) \<le> card (fst ` set vols)"
    by (auto intro: finite_subset card_mono)
  moreover have "card (fst ` set vols) \<le> length vols"
    using card_length [of "map fst vols"] by simp
  ultimately show ?thesis by simp
qed

lemma chosen_card:
  "card (set (chosen zero M W it 0 (active_volunteers k V x vols))) \<le> M + length vols"
  using chosen_length [of "active_volunteers k V x vols" zero M W it 0] active_volunteers_card [of k V x vols]
    card_length [of "chosen zero M W it 0 (active_volunteers k V x vols)"] by linarith

section \<open>Historical entries\<close>

declare prune_history.simps [simp del]

lemma prune_history_view:
  assumes "history_laws k hist"
  shows "\<exists>d. prune_history k i c = (Ok (), d) \<and> block_height d = block_height c \<and>
    hist (ext d) = (\<lambda>j. if 0 \<le> j \<and> j \<le> i \<and> (\<forall>m. j \<le> m \<and> m \<le> i \<longrightarrow> hist (ext c) m \<noteq> None)
      then None else hist (ext c) j)"
proof (induction "nat (i + 1)" arbitrary: i c)
  case 0
  then have "prune_history k i c = (Ok (), c)" by (simp add: prune_history.simps)
  moreover have "\<not> (0 \<le> j \<and> j \<le> i)" for j using 0 by auto
  ultimately show ?case by (auto simp: fun_eq_iff)
next
  case (Suc n)
  then have i: "0 \<le> i" "n = nat (i - 1 + 1)" by auto
  have get: "stk_GetHistoricalInfo k i (ext c) =
      (case hist (ext c) i of None \<Rightarrow> (Err ErrNoHistoricalInfo, ext c) | Some h \<Rightarrow> (Ok h, ext c))"
    using assms by (simp add: history_laws_def)
  show ?case
  proof (cases "hist (ext c) i")
    case None
    then have "prune_history k i c = (Ok (), c)"
      using i get by (simp add: prune_history.simps bindM_def attempt_def extM_apply)
    moreover have "hist (ext c) = (\<lambda>j. if 0 \<le> j \<and> j \<le> i \<and> (\<forall>m. j \<le> m \<and> m \<le> i \<longrightarrow> hist (ext c) m \<noteq> None)
        then None else hist (ext c) j)"
    proof
      fix j show "hist (ext c) j = (if 0 \<le> j \<and> j \<le> i \<and> (\<forall>m. j \<le> m \<and> m \<le> i \<longrightarrow> hist (ext c) m \<noteq> None)
          then None else hist (ext c) j)"
        using None by (cases "j \<le> i") auto
    qed
    ultimately show ?thesis by auto
  next
    case (Some h)
    from assms obtain y where del: "stk_DeleteHistoricalInfo k i (ext c) = (Ok (), y)"
        and hy: "hist y = (hist (ext c))(i := None)" unfolding history_laws_def by blast
    have step: "prune_history k i c = prune_history k (i - 1) (c\<lparr>ext := y\<rparr>)"
      using i get del Some by (subst prune_history.simps) (simp add: bindM_def attempt_def extM_apply)
    obtain d where d: "prune_history k (i - 1) (c\<lparr>ext := y\<rparr>) = (Ok (), d)"
      "block_height d = block_height (c\<lparr>ext := y\<rparr>)"
      "hist (ext d) = (\<lambda>j. if 0 \<le> j \<and> j \<le> i - 1 \<and> (\<forall>m. j \<le> m \<and> m \<le> i - 1 \<longrightarrow> hist (ext (c\<lparr>ext := y\<rparr>)) m \<noteq> None)
        then None else hist (ext (c\<lparr>ext := y\<rparr>)) j)"
      using Suc.hyps(1) [OF i(2)] by blast
    have iff: "(0 \<le> j \<and> j \<le> i - 1 \<and> (\<forall>m. j \<le> m \<and> m \<le> i - 1 \<longrightarrow> hist y m \<noteq> None)) \<or> j = i \<longleftrightarrow>
        0 \<le> j \<and> j \<le> i \<and> (\<forall>m. j \<le> m \<and> m \<le> i \<longrightarrow> hist (ext c) m \<noteq> None)" for j
      using i Some by (auto simp: hy) (metis le_less zle_diff1_eq)+
    have "hist (ext d) j = (if 0 \<le> j \<and> j \<le> i \<and> (\<forall>m. j \<le> m \<and> m \<le> i \<longrightarrow> hist (ext c) m \<noteq> None)
        then None else hist (ext c) j)" for j
      unfolding iff [symmetric] d(3) using hy by (cases "j = i") force+
    then have "hist (ext d) = (\<lambda>j. if 0 \<le> j \<and> j \<le> i \<and> (\<forall>m. j \<le> m \<and> m \<le> i \<longrightarrow> hist (ext c) m \<noteq> None)
        then None else hist (ext c) j)" by blast
    with d step show ?thesis by auto
  qed
qed

lemma last_validators_loop_reads:
  assumes "\<forall>a. reads_only (stk_GetValidator k a)" "last_validators_loop k m es i c = (Ok vs, d)"
  shows "d = c"
  using assms(2)
proof (induction es arbitrary: i c vs)
  case (Cons e es)
  then obtain v c1 ws where g: "extM (stk_GetValidator k (fst e)) c = (Ok v, c1)"
      and "last_validators_loop k m es (Suc i) c1 = (Ok ws, d)"
    by (auto split: if_splits)
  with Cons.IH extM_reads_only [OF _ g] assms(1) show ?case by blast
qed simp

lemma GetLastValidators_reads:
  assumes "staking_laws k V" "stk_volunteers k = GetVolunteerValidators vk"
    and "GetLastValidators k c = (Ok vs, d)"
  shows "d = c"
proof -
  have ro: "reads_only (stk_MaxValidators k)" "reads_only (stk_LastValidatorsIterator k)"
      "\<forall>a. reads_only (stk_GetValidator k a)"
    using assms(1) by (simp_all add: staking_laws_def read_laws_def)
  from assms(2,3) obtain mv es m where "extM (stk_MaxValidators k) c = (Ok mv, c)"
      "extM (stk_LastValidatorsIterator k) c = (Ok es, c)" "last_validators_loop k m es 0 c = (Ok vs, d)"
    using extM_reads_only [OF ro(1)] extM_reads_only [OF ro(2)]
    by (auto simp: GetLastValidators_def Let_def GetVolunteerValidators_def) blast
  with last_validators_loop_reads [OF ro(3)] show ?thesis by blast
qed

section \<open>The reference keeper meets the laws\<close>

lemma ref_NewCoins_amount:
  "NewCoin ref_coins dn n = Ok co \<Longrightarrow> NewCoins ref_coins [co] = Ok cs \<Longrightarrow> amount_of cs dn = n"
  by (auto simp: ref_coins_def amount_of_def Let_def split: if_splits)

lemma rs_entries_map: "map_of (rs_entries x) = map_of (rs_last x)" "distinct (map fst (rs_entries x))"
proof -
  show "distinct (map fst (rs_entries x))" by (simp add: rs_entries_def comp_def)
  show "map_of (rs_entries x) = map_of (rs_last x)"
  proof
    fix a show "map_of (rs_entries x) a = map_of (rs_last x) a"
    proof (cases "a \<in> set (map fst (rs_last x))")
      case True
      then obtain b where "map_of (rs_last x) a = Some b" by (metis list.set_map map_of_eq_None_iff not_Some_eq)
      with True show ?thesis by (simp add: rs_entries_def map_of_map_restrict)
    next
      case False
      then have "map_of (rs_last x) a = None" by (simp add: map_of_eq_None_iff)
      moreover have "map_of (rs_entries x) a = None" using False by (force simp: rs_entries_def map_of_eq_None_iff)
      ultimately show ?thesis by simp
    qed
  qed
qed

lemma ref_staking_laws: "staking_laws ref_stk ref_view"
proof -
  have "codec_laws ref_stk ref_view"
    by (auto simp: codec_laws_def ref_stk_def ref_view_def rs_lookup_def ref_parse_print
        split: option.splits if_splits)
  moreover have "read_laws ref_stk ref_view"
    by (auto simp: read_laws_def reads_only_def ref_stk_def ref_view_def rs_entries_map bindM_def
        split: option.splits)
  moreover have "write_laws ref_stk ref_view"
    by (auto simp: write_laws_def frames_def same_view_def ref_stk_def ref_view_def rs_set_def
        rs_lookup_def fun_eq_iff thenM_def map_of_filter_key split: option.splits if_splits)
  moreover have "pool_laws ref_stk ref_view"
    by (auto simp: pool_laws_def ref_stk_def ref_view_def rs_send_def rs_lookup_def fun_eq_iff
        intro: ref_NewCoins_amount)
  ultimately show ?thesis by (simp add: staking_laws_def)
qed

lemma ref_stk_run:
  "stk_volunteers ref_stk = GetVolunteerValidators (ref_vk_of ref_no_staking ref_no_dist)"
  "fst (stk_ValidatorsPowerStoreIterator ref_stk (ext ref_stk_ctx)) = Ok [[97], [118]]"
  "fst (stk_MaxValidators ref_stk (ext ref_stk_ctx)) = Ok 1"
  by (simp_all add: ref_stk_def ref_stk_ctx_def ref_ctx_def ref_staking_state_def)

lemma ref_bonded_ok: "bonded_ok ref_view (ext ref_stk_ctx)"
proof -
  have "bonded_set ref_view (ext ref_stk_ctx) = {[97]}"
    by (auto simp: bonded_set_def ref_view_def rs_lookup_def ref_stk_ctx_def ref_ctx_def
        ref_staking_state_def ref_val_def ref_parse_def split: if_splits)
  then show ?thesis
    by (auto simp: bonded_ok_def ref_view_def rs_lookup_def ref_stk_ctx_def ref_ctx_def
        ref_staking_state_def ref_val_def ref_parse_def)
qed

section \<open>Properties\<close>

text \<open>C2: The end-of-block update computes the selection rule.  When it succeeds, the last
  validator powers are exactly the chosen validators with their current power, every chosen
  validator is bonded, every validator that fell out is unbonding, and no store of the
  volunteer module changes.\<close>

theorem validator_set_refines:
  assumes "staking_laws k V" "go_range rngV" "go_range rngL"
    and "stk_volunteers k = GetVolunteerValidators vk"
    and "fst (stk_ValidatorsPowerStoreIterator k (ext c)) = Ok it" "distinct it"
    and "fst (stk_MaxValidators k (ext c)) = Ok maxV"
    and "ApplyAndReturnValidatorSetUpdates rngV rngL k c = (Ok ups, d)"
  shows "let W = (\<lambda>a. the (view_vals V (ext c) a));
      ch = chosen (no_power k) (unat maxV) W it 0
             (active_volunteers k V (ext c) (volunteer_map (volunteer_kv c))) in
    view_last V (ext d) = (\<lambda>a. if a \<in> set ch then Some (power_bytes k (W a)) else None) \<and>
    (\<forall>a \<in> set ch. view_vals V (ext d) a = Some (bonded_version (W a))) \<and>
    (\<forall>a \<in> dom (view_last V (ext c)) - set ch. \<exists>w. view_vals V (ext d) a = Some w \<and> Status w = Unbonding) \<and>
    volunteer_kv d = volunteer_kv c"
proof -
  have vols: "stk_volunteers k c = (Ok (volunteer_map (volunteer_kv c)), c)"
    by (simp add: assms(4) GetVolunteerValidators_def)
  note view = apply_view [OF assms(1-3) vols assms(5-8)]
  have "volunteer_kv d = volunteer_kv (c\<lparr>ext := ext d\<rparr>)" using view by metis
  then have "volunteer_kv d = volunteer_kv c" by simp
  with view show ?thesis unfolding Let_def by blast
qed

theorem validator_set_refines_witness:
  "\<exists>ups d. ApplyAndReturnValidatorSetUpdates rev rev ref_stk ref_stk_ctx = (Ok ups, d) \<and>
     dom (view_last ref_view (ext d)) = {[97], [118]}"
proof -
  let ?run = "ApplyAndReturnValidatorSetUpdates rev rev ref_stk ref_stk_ctx"
  have "is_Ok (fst ?run)" by code_simp
  then obtain ups d where run: "?run = (Ok ups, d)" by (cases ?run) (auto simp: is_Ok_iff)
  have ch: "chosen (no_power (ref_stk :: RefStaking StakingKeeper)) (unat (1 :: uint32)) (\<lambda>a. the (view_vals ref_view (ext ref_stk_ctx) a))
      [[97], [118]] 0 (active_volunteers ref_stk ref_view (ext ref_stk_ctx) (volunteer_map (volunteer_kv ref_stk_ctx)))
      = [[97], [118]]"
    by code_simp
  have "view_last ref_view (ext d) = (\<lambda>a. if a \<in> set [[97], [118]] then
      Some (power_bytes (ref_stk :: RefStaking StakingKeeper) (the (view_vals ref_view (ext ref_stk_ctx) a))) else None)"
    using validator_set_refines [OF ref_staking_laws go_range_rev go_range_rev ref_stk_run(1,2) _ ref_stk_run(3) run]
    unfolding Let_def ch by simp
  then have "dom (view_last ref_view (ext d)) = set [[97], [118]]" by (auto split: if_splits)
  with run show ?thesis by auto
qed

text \<open>C4: The update keeps the staking module's books: if the bonded validators are the last
  validator set and the bonded pool holds their tokens before, so it is after, whatever the
  order of the Go maps.\<close>

theorem bonded_books_balance:
  assumes "staking_laws k V" "go_range rngV" "go_range rngL"
    and "stk_volunteers k = GetVolunteerValidators vk"
    and "fst (stk_ValidatorsPowerStoreIterator k (ext c)) = Ok it" "distinct it"
    and "bonded_ok V (ext c)"
    and "ApplyAndReturnValidatorSetUpdates rngV rngL k c = (Ok ups, d)"
  shows "bonded_ok V (ext d)"
proof -
  have vols: "stk_volunteers k c = (Ok (volunteer_map (volunteer_kv c)), c)"
    by (simp add: assms(4) GetVolunteerValidators_def)
  obtain maxV where max: "fst (stk_MaxValidators k (ext c)) = Ok maxV"
    using assms(8) by (auto simp: ApplyAndReturnValidatorSetUpdates_def bindM_extM_eq)
  let ?W = "\<lambda>a. the (view_vals V (ext c) a)"
  let ?C = "set (chosen (no_power k) (unat maxV) ?W it 0
    (active_volunteers k V (ext c) (volunteer_map (volunteer_kv c))))"
  note view = apply_view [OF assms(1-3) vols assms(5,6) max assms(8)]
  have last: "view_last V (ext d) = (\<lambda>a. if a \<in> ?C then Some (power_bytes k (?W a)) else None)"
    using view by blast
  have "bonded_ok V (ext d) \<and> bonded_set V (ext d) = ?C"
  proof (rule bonded_ok_update [OF assms(7), where W = ?W])
    show "dom (view_last V (ext d)) = ?C" unfolding last by (auto split: if_splits)
  qed (use view in \<open>blast | simp\<close>)+
  then show ?thesis by blast
qed

theorem bonded_books_balance_witness:
  "bonded_ok ref_view (ext (snd (ApplyAndReturnValidatorSetUpdates rev rev ref_stk ref_stk_ctx)))"
proof -
  let ?run = "ApplyAndReturnValidatorSetUpdates rev rev ref_stk ref_stk_ctx"
  have "is_Ok (fst ?run)" by code_simp
  then obtain ups d where run: "?run = (Ok ups, d)" by (cases ?run) (auto simp: is_Ok_iff)
  show ?thesis
    using bonded_books_balance [OF ref_staking_laws go_range_rev go_range_rev ref_stk_run(1,2) _ ref_bonded_ok run]
    by (simp add: run)
qed

text \<open>C5: Volunteers never cost a regular validator its seat and always get one themselves.
  After a successful update with a consistent power index: the set has at most
  \<open>MaxValidators\<close> plus the number of volunteers members, the \<open>MaxValidators\<close> strongest
  validators with power are in it, and so is every volunteer that is not jailed and has power.\<close>

theorem volunteers_get_seats:
  assumes "staking_laws k V" "go_range rngV" "go_range rngL"
    and "stk_volunteers k = GetVolunteerValidators vk"
    and "fst (stk_ValidatorsPowerStoreIterator k (ext c)) = Ok it" "distinct it"
    and "fst (stk_MaxValidators k (ext c)) = Ok maxV"
    and "ApplyAndReturnValidatorSetUpdates rngV rngL k c = (Ok ups, d)"
    and indexed: "\<forall>a \<in> set it. view_vals V (ext c) a = Some (W a)"
    and descending: "sorted_wrt (\<lambda>a b. no_power k (W a) \<longrightarrow> no_power k (W b)) it"
  shows "card (dom (view_last V (ext d))) \<le> unat maxV + length (volunteer_map (volunteer_kv c)) \<and>
    (\<forall>a \<in> set (take (unat maxV) it). (\<forall>b \<in> set (take (unat maxV) it). \<not> no_power k (W b)) \<longrightarrow>
       a \<in> dom (view_last V (ext d))) \<and>
    (\<forall>a \<in> set it. OperatorAddress (W a) \<in> active_volunteers k V (ext c) (volunteer_map (volunteer_kv c)) \<longrightarrow>
       \<not> no_power k (W a) \<longrightarrow> a \<in> dom (view_last V (ext d)))"
proof -
  let ?S = "active_volunteers k V (ext c) (volunteer_map (volunteer_kv c))"
  let ?ch = "chosen (no_power k) (unat maxV) (\<lambda>a. the (view_vals V (ext c) a)) it 0 ?S"
  have vols: "stk_volunteers k c = (Ok (volunteer_map (volunteer_kv c)), c)"
    by (simp add: assms(4) GetVolunteerValidators_def)
  have "view_last V (ext d) =
      (\<lambda>a. if a \<in> set ?ch then Some (power_bytes k (the (view_vals V (ext c) a))) else None)"
    using apply_view [OF assms(1-3) vols assms(5-8)] by blast
  then have dom: "dom (view_last V (ext d)) = set ?ch" by (auto split: if_splits)
  have ch: "?ch = chosen (no_power k) (unat maxV) W it 0 ?S"
    using indexed by (intro chosen_cong) simp
  have "card (set ?ch) \<le> unat maxV + length (volunteer_map (volunteer_kv c))" by (rule chosen_card)
  moreover have "inj_on (\<lambda>a. OperatorAddress (W a)) (set it)"
    using operator_inj [OF assms(1) indexed] .
  ultimately show ?thesis
    unfolding dom ch using chosen_top [of "unat maxV" 0 it "no_power k" W ?S]
      chosen_volunteer [OF _ _ _ descending] by auto
qed

theorem volunteers_get_seats_witness:
  "[118] \<in> dom (view_last ref_view (ext (snd (ApplyAndReturnValidatorSetUpdates rev rev ref_stk ref_stk_ctx))))"
proof -
  let ?run = "ApplyAndReturnValidatorSetUpdates rev rev ref_stk ref_stk_ctx"
  let ?W = "\<lambda>a :: bytes. if a = [97] then ref_val ''a'' Bonded 9 else ref_val ''v'' Unbonded 5"
  have "is_Ok (fst ?run)" by code_simp
  then obtain ups d where run: "?run = (Ok ups, d)" by (cases ?run) (auto simp: is_Ok_iff)
  have i: "\<forall>a \<in> set [[97], [118]]. view_vals ref_view (ext ref_stk_ctx) a = Some (?W a)" by code_simp
  have s: "sorted_wrt (\<lambda>a b. no_power (ref_stk :: RefStaking StakingKeeper) (?W a) \<longrightarrow> no_power (ref_stk :: RefStaking StakingKeeper) (?W b)) [[97], [118]]" by code_simp
  have "OperatorAddress (?W [118]) \<in>
      active_volunteers ref_stk ref_view (ext ref_stk_ctx) (volunteer_map (volunteer_kv ref_stk_ctx))"
    by code_simp
  moreover have "\<not> no_power (ref_stk :: RefStaking StakingKeeper) (?W [118])" by code_simp
  ultimately show ?thesis
    using volunteers_get_seats [OF ref_staking_laws go_range_rev go_range_rev ref_stk_run(1,2) _ ref_stk_run(3) run i s]
    by (simp add: run)
qed

text \<open>A volunteer without a staking validator stops the chain: as long as the registry
  names an address the staking module has no record of, the end-of-block update panics, for
  every iteration order and every other content of the state.\<close>

theorem orphan_volunteer_panics:
  assumes "vol_inv vk c" "is_volunteer vk c a" "go_range rngV"
    and "stk_volunteers k = GetVolunteerValidators vk"
    and "stk_ValAddressFromBech32 k = ValAddressFromBech32 (vk_bech32 vk)"
    and "length_prefix_laws (vk_LengthPrefix vk)"
    and "\<forall>b. \<exists>r. stk_GetValidator k b (ext c) = (r, ext c) \<and> \<not> is_Panic r"
    and "stk_GetValidator k a (ext c) = (Err e, ext c)"
    and "extM (stk_MaxValidators k) c = (Ok maxV, c)" "getLastValidatorsByAddr k c = (Ok lm, c)"
    and "extM (stk_ValidatorsPowerStoreIterator k) c = (Ok it, c)"
  shows "ApplyAndReturnValidatorSetUpdates rngV rngL k c =
    (Panic ''validator record not found for address'', c)"
proof -
  let ?vols = "volunteer_map (volunteer_kv c)"
  have vols: "stk_volunteers k c = (Ok ?vols, c)" by (simp add: assms(4) GetVolunteerValidators_def)
  have rng: "set (rngV ?vols) = set ?vols" by (rule go_range_set [OF assms(3)])
  have "\<forall>f \<in> set (rngV ?vols). \<exists>b. stk_ValAddressFromBech32 k (fst f) = Ok b"
    unfolding rng assms(5) using volunteer_map_parses [OF assms(1)] by blast
  moreover obtain s v where "(s, v) \<in> set ?vols" "ValAddressFromBech32 (vk_bech32 vk) s = Ok a"
    using volunteer_map_complete [OF assms(6,1)] assms(2) by blast
  then have "\<exists>f \<in> set (rngV ?vols). \<exists>b e'. stk_ValAddressFromBech32 k (fst f) = Ok b \<and>
      stk_GetValidator k b (ext c) = (Err e', ext c)"
    unfolding rng assms(5) using assms(8) by force
  ultimately have "drop_jailed k (rngV ?vols) ?vols c = (Panic ''validator record not found for address'', c)"
    by (rule drop_jailed_missing [OF _ assms(7)])
  then show ?thesis
    by (simp add: ApplyAndReturnValidatorSetUpdates_def bindM_Ok bindM_Panic assms(9-11) vols)
qed

theorem orphan_volunteer_panics_witness:
  "ApplyAndReturnValidatorSetUpdates rev rev ref_stk (ref_stk_ctx\<lparr>ext := ref_staking_state\<lparr>rs_vals := []\<rparr>\<rparr>) =
    (Panic ''validator record not found for address'', ref_stk_ctx\<lparr>ext := ref_staking_state\<lparr>rs_vals := []\<rparr>\<rparr>)"
proof (rule orphan_volunteer_panics [where vk = "ref_vk_of ref_no_staking ref_no_dist" and a = "[118]"
      and e = "ErrExternal ''validator does not exist''" and maxV = 1 and lm = "[(''a'', [9])]"
      and it = "[[97], [118]]"])
  let ?c = "ref_stk_ctx\<lparr>ext := ref_staking_state\<lparr>rs_vals := []\<rparr>\<rparr>"
  show "vol_inv (ref_vk_of ref_no_staking ref_no_dist) ?c"
    by (simp add: vol_inv_def ref_stk_ctx_def kv_ok_def vol_entry_ok_def ref_volunteer_def
      ref_vk_of_def ref_bech32_def ref_parse_def GetVolunteerValidatorKey_def ref_length_prefix_def
      VolunteerValidatorKey_def)
  show "is_volunteer (ref_vk_of ref_no_staking ref_no_dist) ?c [118]"
    unfolding is_volunteer_def
    by (intro exI [of _ "[0x11, 1, 118]"] exI [of _ ref_volunteer]) code_simp
  show "length_prefix_laws (vk_LengthPrefix (ref_vk_of ref_no_staking ref_no_dist))"
    by (auto simp: length_prefix_laws_def ref_vk_of_def ref_length_prefix_def split: if_splits)
  show "\<forall>b. \<exists>r. stk_GetValidator ref_stk b (ext ?c) = (r, ext ?c) \<and> \<not> is_Panic r"
    by (auto simp: ref_stk_def bindM_def split: option.splits)
  show "getLastValidatorsByAddr ref_stk ?c = (Ok [(''a'', [9])], ?c)"
    by code_simp
qed (simp_all add: go_range_rev ref_stk_def ref_vk_of_def ref_bech32_def ref_stk_ctx_def ref_ctx_def
      ref_staking_state_def rs_lookup_def bindM_def extM_apply)

text \<open>The order in which Go iterates over the map of departed validators does not reach
  the result: the list is the same for every order.\<close>

theorem departures_deterministic:
  assumes "go_range rng" "go_range rng'" "sortNoLongerBonded rng StringToBytes m = Ok gs"
  shows "sortNoLongerBonded rng' StringToBytes m = Ok gs \<and> sorted gs"
proof -
  let ?f = "\<lambda>e :: string \<times> bytes. StringToBytes (fst e)"
  let ?g = "\<lambda>e. case ?f e of Ok y \<Rightarrow> y"
  have "set (rng m) = set m" "set (rng' m) = set m"
    by (rule go_range_set [OF assms(1)], rule go_range_set [OF assms(2)])
  moreover have perm: "mset (rng m) = mset (rng' m)" using assms(1,2) by (simp add: go_range_def)
  moreover have ok: "\<forall>x \<in> set (rng m). is_Ok (?f x)" and gs: "gs = sort (map ?g (rng m))"
    using assms(3) by (auto simp: sortNoLongerBonded_def mapO_total)
  ultimately have "mapO ?f (rng' m) = Ok (map ?g (rng' m))" by (simp add: mapO_total)
  moreover have "sort (map ?g (rng' m)) = gs"
    unfolding gs using perm by (intro properties_for_sort) simp_all
  ultimately show ?thesis by (simp add: sortNoLongerBonded_def gs)
qed

theorem departures_deterministic_witness:
  "sortNoLongerBonded (\<lambda>xs. xs) ref_parse [(''b'', [1]), (''a'', [2])] = Ok [[97], [98]]"
  using departures_deterministic [OF go_range_rev go_range_id, of ref_parse "[(''b'', [1]), (''a'', [2])]" "[[97], [98]]"]
  by (simp add: sortNoLongerBonded_def ref_parse_def)

text \<open>C8: The next block can list the set that an update left: \<open>GetLastValidators\<close> finds at
  most as many entries as it allows for, so it does not panic, and returns the records of
  exactly the bonded set.\<close>

theorem last_validators_after_update:
  assumes "staking_laws k V" "go_range rngV" "go_range rngL"
    and "stk_volunteers k = GetVolunteerValidators vk"
    and "fst (stk_ValidatorsPowerStoreIterator k (ext c)) = Ok it" "distinct it"
    and "fst (stk_MaxValidators k (ext c)) = Ok maxV"
    and "ApplyAndReturnValidatorSetUpdates rngV rngL k c = (Ok ups, d)"
    and "unat maxV + length (volunteer_map (volunteer_kv c)) < 2 ^ 32"
    and "fst (stk_MaxValidators k (ext d)) = Ok maxV"
    and "fst (stk_LastValidatorsIterator k (ext d)) = Ok es"
    and "\<forall>a v. view_vals V (ext d) a = Some v \<longrightarrow> stk_GetValidator k a (ext d) = (Ok v, ext d)"
  shows "\<exists>vs. GetLastValidators k d = (Ok vs, d) \<and>
    Some ` set vs = view_vals V (ext d) ` dom (view_last V (ext d))"
proof -
  let ?ch = "chosen (no_power k) (unat maxV) (\<lambda>a. the (view_vals V (ext c) a)) it 0
    (active_volunteers k V (ext c) (volunteer_map (volunteer_kv c)))"
  have vols: "stk_volunteers k c = (Ok (volunteer_map (volunteer_kv c)), c)"
    by (simp add: assms(4) GetVolunteerValidators_def)
  note view = apply_view [OF assms(1-3) vols assms(5-8)]
  have "view_last V (ext d) =
      (\<lambda>a. if a \<in> set ?ch then Some (power_bytes k (the (view_vals V (ext c) a))) else None)"
    using view by blast
  then have dom: "dom (view_last V (ext d)) = set ?ch" by (auto split: if_splits)
  have "volunteer_kv d = volunteer_kv (c\<lparr>ext := ext d\<rparr>)" using view by metis
  then have kv: "volunteer_kv d = volunteer_kv c" by simp
  have recs: "\<forall>a \<in> set ?ch. \<exists>v. view_vals V (ext d) a = Some v" using view by blast
  have ro: "reads_only (stk_MaxValidators k)" "reads_only (stk_LastValidatorsIterator k)"
    and es: "distinct (map fst es)" "map_of es = view_last V (ext d)"
    using assms(1,11) by (auto simp: staking_laws_def read_laws_def)
  have es_dom: "fst ` set es = dom (view_last V (ext d))"
    using es(2) by (metis dom_map_of_conv_image_fst)
  have "length es = card (set ?ch)" using es(1) es_dom dom by (metis distinct_card length_map set_map)
  also have "\<dots> \<le> unat maxV + length (volunteer_map (volunteer_kv c))"
    by (rule chosen_card)
  finally have len: "length es \<le> unat (maxV + word_of_nat (length (volunteer_map (volunteer_kv c))))"
    using assms(9) by (simp add: unat_word_ariths unat_of_nat)
  have rec: "\<exists>v. view_vals V (ext d) (fst e) = Some v" if "e \<in> set es" for e
    using that recs es_dom dom by blast
  have "\<forall>e \<in> set es. stk_GetValidator k (fst e) (ext d) = (Ok (the (view_vals V (ext d) (fst e))), ext d)"
    using assms(12) rec by fastforce
  note loop = last_validators_loop_total [OF this, of 0, simplified, OF len]
  have "GetLastValidators k d = (Ok (map (\<lambda>e. the (view_vals V (ext d) (fst e))) es), d)"
    using loop ro assms(10,11) by (simp add: GetLastValidators_def Let_def bindM_def extM_apply split_def
        reads_only_def assms(4) GetVolunteerValidators_def kv)
  moreover have "Some ` set (map (\<lambda>e. the (view_vals V (ext d) (fst e))) es) =
      view_vals V (ext d) ` dom (view_last V (ext d))"
    unfolding es_dom [symmetric] set_map image_image using rec by (intro image_cong) auto
  ultimately show ?thesis by blast
qed

theorem last_validators_after_update_witness:
  "\<exists>vs. GetLastValidators ref_stk (snd (ApplyAndReturnValidatorSetUpdates rev rev ref_stk ref_stk_ctx)) =
     (Ok vs, snd (ApplyAndReturnValidatorSetUpdates rev rev ref_stk ref_stk_ctx)) \<and> vs \<noteq> []"
proof -
  let ?run = "ApplyAndReturnValidatorSetUpdates rev rev ref_stk ref_stk_ctx"
  have "is_Ok (fst ?run)" by code_simp
  then obtain ups d where run: "?run = (Ok ups, d)" by (cases ?run) (auto simp: is_Ok_iff)
  have "fst (stk_MaxValidators ref_stk (ext (snd ?run))) = Ok 1" by code_simp
  then have max: "fst (stk_MaxValidators ref_stk (ext d)) = Ok 1" by (simp add: run)
  have it: "fst (stk_LastValidatorsIterator ref_stk (ext d)) = Ok (rs_entries (ext d))"
    by (simp add: ref_stk_def)
  have "length (volunteer_map (volunteer_kv ref_stk_ctx)) = 1" by code_simp
  then have small: "unat (1 :: uint32) + length (volunteer_map (volunteer_kv ref_stk_ctx)) < 2 ^ 32" by simp
  have recs: "\<forall>a v. view_vals ref_view (ext d) a = Some v \<longrightarrow> stk_GetValidator ref_stk a (ext d) = (Ok v, ext d)"
    by (simp add: ref_stk_def ref_view_def bindM_def)
  have "rs_last (ext (snd ?run)) \<noteq> []" by code_simp
  then have "dom (view_last ref_view (ext d)) \<noteq> {}" by (simp add: run ref_view_def dom_map_of_conv_image_fst)
  then show ?thesis
    using last_validators_after_update [OF ref_staking_laws go_range_rev go_range_rev ref_stk_run(1,2) _
        ref_stk_run(3) run small max it recs]
    unfolding run snd_conv by fastforce
qed

text \<open>C26: The historical entries are a sliding window: starting from a gap-free range of
  heights below the current one, the block hook leaves exactly the last \<open>HistoricalEntries\<close>
  of them, the current height included.\<close>

theorem history_window:
  assumes "staking_laws k V" "history_laws k hist" "stk_volunteers k = GetVolunteerValidators vk"
    and "stk_HistoricalEntries k (ext c) = (Ok n, ext c)" "0 < n"
    and "dom (hist (ext c)) = {lo..<block_height c}" "0 \<le> lo"
    and "Staking_BeginBlocker k c = (Ok (), d)"
  shows "dom (hist (ext d)) = {j \<in> {lo..<block_height c}. block_height c - uint n < j} \<union> {block_height c}"
proof -
  let ?h = "block_height c" and ?i = "block_height c - uint n"
  obtain c1 where pr: "prune_history k ?i c = (Ok (), c1)" and h1: "block_height c1 = ?h"
      and hist1: "hist (ext c1) = (\<lambda>j. if 0 \<le> j \<and> j \<le> ?i \<and> (\<forall>m. j \<le> m \<and> m \<le> ?i \<longrightarrow> hist (ext c) m \<noteq> None)
        then None else hist (ext c) j)"
    using prune_history_view [OF assms(2)] by blast
  have n: "n \<noteq> 0" using assms(5) by auto
  have entries: "extM (stk_HistoricalEntries k) c = (Ok n, c)" using assms(4) by (simp add: extM_apply)
  from assms(8) obtain vs c2 where gl: "GetLastValidators k c1 = (Ok vs, c2)"
      and set: "extM (stk_SetHistoricalInfo k ?h (stk_NewHistoricalInfo k ?h vs (stk_PowerReduction k))) c2 = (Ok (), d)"
    using n unfolding Staking_BeginBlocker_def TrackHistoricalInfo_def
    by (auto simp: bindM_Ok entries thenM_Ok pr)
  have "c2 = c1" by (rule GetLastValidators_reads [OF assms(1,3) gl])
  with set assms(2) have "hist (ext d) = (hist (ext c1))(?h \<mapsto> stk_NewHistoricalInfo k ?h vs (stk_PowerReduction k))"
    unfolding history_laws_def by (auto simp: extM_eq)
  moreover have "0 < uint n" using assms(5) by (simp add: word_less_def)
  moreover have "hist (ext c1) j \<noteq> None \<longleftrightarrow> j \<in> dom (hist (ext c)) \<and> ?i < j" for j
  proof (cases "j \<in> dom (hist (ext c)) \<and> j \<le> ?i")
    case True
    with \<open>0 < uint n\<close> have "m \<in> dom (hist (ext c))" if "j \<le> m" "m \<le> ?i" for m
      using that unfolding assms(6) by auto
    moreover have "0 \<le> j" using True assms(7) unfolding assms(6) by auto
    ultimately show ?thesis using True unfolding hist1 by auto
  qed (auto simp: hist1)
  ultimately have "dom (hist (ext d)) = {j \<in> dom (hist (ext c)). ?i < j} \<union> {?h}"
    by (auto simp: dom_def)
  then show ?thesis by (simp add: assms(6))
qed

theorem history_window_witness:
  "dom (map_of (rs_history (ext (snd (Staking_BeginBlocker ref_stk ref_stk_ctx))))) = {1}"
proof -
  let ?d = "snd (Staking_BeginBlocker ref_stk ref_stk_ctx)"
  have run: "Staking_BeginBlocker ref_stk ref_stk_ctx = (Ok (), ?d)" by (rule is_Ok_run) code_simp
  have h: "history_laws ref_stk (\<lambda>x. map_of (rs_history x))"
    by (auto simp: history_laws_def ref_stk_def bindM_def fun_eq_iff map_of_filter_key split: option.splits)
  have "stk_HistoricalEntries ref_stk (ext ref_stk_ctx) = (Ok 1, ext ref_stk_ctx)" by (simp add: ref_stk_def)
  moreover have "dom (map_of (rs_history (ext ref_stk_ctx))) = {0..<block_height ref_stk_ctx}"
    by (auto simp: ref_stk_ctx_def ref_ctx_def ref_staking_state_def)
  ultimately have "dom (map_of (rs_history (ext ?d))) =
      {j \<in> {0..<block_height ref_stk_ctx}. block_height ref_stk_ctx - uint (1 :: uint32) < j} \<union> {block_height ref_stk_ctx}"
    by (intro history_window [OF ref_staking_laws h ref_stk_run(1) _ _ _ _ run]) simp_all
  then show ?thesis by (auto simp: ref_stk_ctx_def ref_ctx_def)
qed

end
