(* ===== verification/StakingLive.thy ===== *)
theory StakingLive
  imports Staking
begin

text \<open>
  Progress of the staking end blocker, \<open>src/x/staking/keeper/val_state_change.go\<close>: on a
  well-formed staking state it returns, unless a call into the SDK or the bank fails on an input
  that call is meant for, and then it fails with exactly that outcome.  The module's own code adds
  no failure: it does not panic on a jailed validator, a bad status transition or an exhausted
  iterator, and it asks for no pool transfer that the balance does not cover.  A panic or an error
  there stops the chain, so this is the liveness of block production.
\<close>

section \<open>Specification\<close>

text \<open>A call that leaves the balance \<open>free\<close> of the not-bonded pool alone when it succeeds.\<close>

definition spares :: "('x \<Rightarrow> int) \<Rightarrow> ('x, 'a) M \<Rightarrow> bool" where
  "spares free m \<longleftrightarrow> (\<forall>x a y. m x = (Ok a, y) \<longrightarrow> free y = free x)"

definition spare_laws :: "'x StakingKeeper \<Rightarrow> ('x \<Rightarrow> int) \<Rightarrow> bool" where
  "spare_laws k free \<longleftrightarrow>
     spares free (stk_MaxValidators k) \<and> spares free (stk_LastValidatorsIterator k) \<and>
     spares free (stk_ValidatorsPowerStoreIterator k) \<and> spares free (stk_BondDenom k) \<and>
     (\<forall>v. spares free (stk_DeleteValidatorByPowerIndex k v)) \<and>
     (\<forall>v. spares free (stk_SetValidatorByPowerIndex k v)) \<and>
     (\<forall>v. spares free (stk_DeleteValidatorQueue k v)) \<and>
     (\<forall>ca a. spares free (stk_AfterValidatorBonded k ca a)) \<and>
     (\<forall>a p. spares free (stk_SetLastValidatorPower k a p)) \<and>
     (\<forall>a. spares free (stk_DeleteLastValidatorPower k a)) \<and>
     (\<forall>n. spares free (stk_SetLastTotalPower k n)) \<and>
     (\<forall>us. spares free (stk_SetValidatorUpdates k us)) \<and>
     (\<forall>v. spares free (stk_SetValidator k v)) \<and> (\<forall>v. spares free (stk_BeginUnbondingValidator k v))"

text \<open>
  What is stored can be read back, its address printed and its key decoded, and a positive amount
  of the bond denomination makes a coin.
\<close>

definition stored_laws :: "'x StakingKeeper \<Rightarrow> 'x StakingView \<Rightarrow> bool" where
  "stored_laws k V \<longleftrightarrow>
     (\<forall>x a v. view_vals V x a = Some v \<longrightarrow>
        is_Ok (fst (stk_GetValidator k a x)) \<and> is_Ok (stk_ValBytesToString k a) \<and>
        is_Ok (stk_GetConsAddr k v)) \<and>
     (\<forall>n>0. \<exists>c cs. NewCoin (stk_coins k) (view_denom V) n = Ok c \<and> NewCoins (stk_coins k) [c] = Ok cs)"

definition progress_laws :: "'x StakingKeeper \<Rightarrow> 'x StakingView \<Rightarrow> ('x \<Rightarrow> int) \<Rightarrow> bool" where
  "progress_laws k V free \<longleftrightarrow> staking_laws k V \<and> spare_laws k free \<and> stored_laws k V"

text \<open>\<open>r\<close> is the failure of the call \<open>m\<close> in some state with the property \<open>P\<close>.\<close>

definition fails_as :: "('x \<Rightarrow> bool) \<Rightarrow> ('x, 'a) M \<Rightarrow> unit outcome \<Rightarrow> bool" where
  "fails_as P m r \<longleftrightarrow> (\<exists>x. P x \<and> \<not> is_Ok (fst (m x)) \<and> r = fail_of (fst (m x)))"

abbreviation anywhere :: "'x \<Rightarrow> bool" where
  "anywhere \<equiv> \<lambda>_. True"

text \<open>
  The failures that are not the module's own: of a store call of the SDK's keeper, of the staking
  hooks, of \<open>SetValidator\<close> on a record with a valid address, of \<open>BeginUnbondingValidator\<close> on a
  stored bonded record, and of a transfer that the paying pool covers.
\<close>

definition update_failure :: "'x StakingKeeper \<Rightarrow> 'x StakingView \<Rightarrow> ('x \<Rightarrow> int) \<Rightarrow> unit outcome \<Rightarrow> bool" where
  "update_failure k V free r \<longleftrightarrow>
     fails_as anywhere (stk_MaxValidators k) r \<or> fails_as anywhere (stk_LastValidatorsIterator k) r \<or>
     fails_as anywhere (stk_BondDenom k) r \<or>
     (\<exists>v. fails_as anywhere (stk_DeleteValidatorByPowerIndex k v) r) \<or>
     (\<exists>v. fails_as anywhere (stk_SetValidatorByPowerIndex k v) r) \<or>
     (\<exists>v. fails_as anywhere (stk_DeleteValidatorQueue k v) r) \<or>
     (\<exists>ca a. fails_as anywhere (stk_AfterValidatorBonded k ca a) r) \<or>
     (\<exists>a p. fails_as anywhere (stk_SetLastValidatorPower k a p) r) \<or>
     (\<exists>a. fails_as anywhere (stk_DeleteLastValidatorPower k a) r) \<or>
     (\<exists>n. fails_as anywhere (stk_SetLastTotalPower k n) r) \<or>
     (\<exists>us. fails_as anywhere (stk_SetValidatorUpdates k us) r) \<or>
     (\<exists>v. is_Ok (stk_ValStringToBytes k (OperatorAddress v)) \<and> fails_as anywhere (stk_SetValidator k v) r) \<or>
     (\<exists>a v. Status v = Bonded \<and> fails_as (\<lambda>x. view_vals V x a = Some v) (stk_BeginUnbondingValidator k v) r) \<or>
     (\<exists>cs. fails_as (\<lambda>x. amount_of cs (view_denom V) \<le> free x)
        (stk_SendCoinsFromModuleToModule k ''not_bonded_tokens_pool'' ''bonded_tokens_pool'' cs) r) \<or>
     (\<exists>cs. fails_as (\<lambda>x. amount_of cs (view_denom V) \<le> view_pool V x)
        (stk_SendCoinsFromModuleToModule k ''bonded_tokens_pool'' ''not_bonded_tokens_pool'' cs) r)"

text \<open>
  And of the maturity queues: their calls, an address of a dequeued entry that does not parse, and a
  panic (errors are skipped) of the completion of an entry.
\<close>

definition queue_failure :: "'x StakingKeeper \<Rightarrow> unit outcome \<Rightarrow> bool" where
  "queue_failure k r \<longleftrightarrow>
     fails_as anywhere (stk_UnbondAllMatureValidators k) r \<or>
     (\<exists>t. fails_as anywhere (stk_DequeueAllMatureUBDQueue k t) r) \<or>
     (\<exists>t. fails_as anywhere (stk_DequeueAllMatureRedelegationQueue k t) r) \<or>
     (\<not> is_Ok r \<and> (\<exists>t x ps y. \<exists>p \<in> set ps. stk_DequeueAllMatureUBDQueue k t x = (Ok ps, y) \<and>
        r \<in> {fail_of (stk_ValStringToBytes k (dv_Validator p)), fail_of (stk_AccStringToBytes k (dv_Delegator p))})) \<or>
     (\<not> is_Ok r \<and> (\<exists>t x ps y. \<exists>p \<in> set ps. stk_DequeueAllMatureRedelegationQueue k t x = (Ok ps, y) \<and>
        r \<in> {fail_of (stk_ValStringToBytes k (dvv_ValidatorSrc p)), fail_of (stk_ValStringToBytes k (dvv_ValidatorDst p)),
          fail_of (stk_AccStringToBytes k (dvv_Delegator p))})) \<or>
     (is_Panic r \<and> (\<exists>d v. fails_as anywhere (stk_CompleteUnbonding k d v) r)) \<or>
     (is_Panic r \<and> (\<exists>d v w. fails_as anywhere (stk_CompleteRedelegation k d v w) r))"

definition sdk_failure :: "'x StakingKeeper \<Rightarrow> 'x StakingView \<Rightarrow> ('x \<Rightarrow> int) \<Rightarrow> unit outcome \<Rightarrow> bool" where
  "sdk_failure k V free r \<longleftrightarrow> update_failure k V free r \<or> queue_failure k r"

text \<open>
  A well-formed state: the power index lists records that are not jailed, every volunteer has
  a record, indexed unless it is jailed, the books of the bonded pool balance, and the
  not-bonded pool holds the tokens of the indexed validators that are not bonded.
\<close>

definition staking_state_ok ::
    "'x StakingKeeper \<Rightarrow> 'x StakingView \<Rightarrow> ('x \<Rightarrow> int) \<Rightarrow> ValAddress list \<Rightarrow>
     (string \<times> VolunteerValidator) list \<Rightarrow> 'x \<Rightarrow> bool" where
  "staking_state_ok k V free it vols x \<longleftrightarrow>
     distinct it \<and>
     (\<forall>a \<in> set it. \<exists>v. view_vals V x a = Some v \<and> \<not> Jailed v) \<and>
     (\<forall>a v. view_vals V x a = Some v \<longrightarrow> Status v \<noteq> Unspecified \<and> 0 \<le> Tokens v) \<and>
     (\<forall>e \<in> set vols. \<exists>a v. stk_ValAddressFromBech32 k (fst e) = Ok a \<and> view_vals V x a = Some v \<and>
        OperatorAddress v = fst e \<and> (Jailed v \<or> a \<in> set it)) \<and>
     bonded_ok V x \<and>
     (\<Sum>a \<in> set it. if Status (the (view_vals V x a)) = Bonded then 0 else Tokens (the (view_vals V x a))) \<le> free x"

text \<open>A call that succeeds and spares the pool, or fails in a way that is accounted for.\<close>

definition steady :: "(unit outcome \<Rightarrow> bool) \<Rightarrow> ('x \<Rightarrow> int) \<Rightarrow> ('x, 'a) M \<Rightarrow> bool" where
  "steady F free m \<longleftrightarrow> spares free m \<and> (\<forall>x. \<not> is_Ok (fst (m x)) \<longrightarrow> F (fail_of (fst (m x))))"

section \<open>Single steps return\<close>

lemma extM_runs:
  assumes "\<And>a x. m (ext c) = (Ok a, x) \<Longrightarrow> Q a (c\<lparr>ext := x\<rparr>)"
    and "\<not> is_Ok (fst (m (ext c))) \<Longrightarrow> F (fail_of (fst (m (ext c))))"
  shows "runs F (extM m) c Q"
  using assms by (cases "m (ext c)"; cases "fst (m (ext c))") (auto simp: runs_def extM_apply)

lemma steady_runs:
  assumes "steady F free m" "\<And>a x. m (ext c) = (Ok a, x) \<Longrightarrow> free x = free (ext c) \<Longrightarrow> Q a (c\<lparr>ext := x\<rparr>)"
  shows "runs F (extM m) c Q"
  by (rule extM_runs) (use assms in \<open>auto simp: steady_def spares_def\<close>)

lemma fails_anywhere: "\<not> is_Ok (fst (m x)) \<Longrightarrow> fails_as anywhere m (fail_of (fst (m x)))"
  by (auto simp: fails_as_def)

lemma failing_calls:
  "fails_as anywhere (stk_MaxValidators k) r \<Longrightarrow> sdk_failure k V free r"
  "fails_as anywhere (stk_LastValidatorsIterator k) r \<Longrightarrow> sdk_failure k V free r"
  "fails_as anywhere (stk_BondDenom k) r \<Longrightarrow> sdk_failure k V free r"
  "fails_as anywhere (stk_DeleteValidatorByPowerIndex k v) r \<Longrightarrow> sdk_failure k V free r"
  "fails_as anywhere (stk_SetValidatorByPowerIndex k v) r \<Longrightarrow> sdk_failure k V free r"
  "fails_as anywhere (stk_DeleteValidatorQueue k v) r \<Longrightarrow> sdk_failure k V free r"
  "fails_as anywhere (stk_AfterValidatorBonded k ca a) r \<Longrightarrow> sdk_failure k V free r"
  "fails_as anywhere (stk_SetLastValidatorPower k a p) r \<Longrightarrow> sdk_failure k V free r"
  "fails_as anywhere (stk_DeleteLastValidatorPower k a) r \<Longrightarrow> sdk_failure k V free r"
  "fails_as anywhere (stk_SetLastTotalPower k n) r \<Longrightarrow> sdk_failure k V free r"
  "fails_as anywhere (stk_SetValidatorUpdates k us) r \<Longrightarrow> sdk_failure k V free r"
  "stk_ValStringToBytes k (OperatorAddress v) = Ok a \<Longrightarrow> fails_as anywhere (stk_SetValidator k v) r \<Longrightarrow> sdk_failure k V free r"
  "Status v = Bonded \<Longrightarrow> fails_as (\<lambda>x. view_vals V x a = Some v) (stk_BeginUnbondingValidator k v) r \<Longrightarrow> sdk_failure k V free r"
  "fails_as (\<lambda>x. amount_of cs (view_denom V) \<le> free x)
     (stk_SendCoinsFromModuleToModule k ''not_bonded_tokens_pool'' ''bonded_tokens_pool'' cs) r \<Longrightarrow> sdk_failure k V free r"
  "fails_as (\<lambda>x. amount_of cs (view_denom V) \<le> view_pool V x)
     (stk_SendCoinsFromModuleToModule k ''bonded_tokens_pool'' ''not_bonded_tokens_pool'' cs) r \<Longrightarrow> sdk_failure k V free r"
  unfolding sdk_failure_def update_failure_def is_Ok_iff by blast+

lemma progress_steady:
  assumes "progress_laws k V free"
  shows "steady (sdk_failure k V free) free (stk_MaxValidators k)" "steady (sdk_failure k V free) free (stk_LastValidatorsIterator k)"
    "steady (sdk_failure k V free) free (stk_BondDenom k)"
    "steady (sdk_failure k V free) free (stk_DeleteValidatorByPowerIndex k v)" "steady (sdk_failure k V free) free (stk_SetValidatorByPowerIndex k v)"
    "steady (sdk_failure k V free) free (stk_DeleteValidatorQueue k v)" "steady (sdk_failure k V free) free (stk_AfterValidatorBonded k ca a)"
    "steady (sdk_failure k V free) free (stk_SetLastValidatorPower k a p)" "steady (sdk_failure k V free) free (stk_DeleteLastValidatorPower k a)"
    "steady (sdk_failure k V free) free (stk_SetLastTotalPower k n)" "steady (sdk_failure k V free) free (stk_SetValidatorUpdates k us)"
    "stk_ValStringToBytes k (OperatorAddress v) = Ok a \<Longrightarrow> steady (sdk_failure k V free) free (stk_SetValidator k v)"
  using assms
  by (auto simp: steady_def progress_laws_def spare_laws_def intro: failing_calls fails_anywhere)

lemma progress_staking: "progress_laws k V free \<Longrightarrow> staking_laws k V"
  by (simp add: progress_laws_def)

lemma progress_stored:
  assumes "progress_laws k V free" "view_vals V x a = Some v"
  shows "is_Ok (fst (stk_GetValidator k a x))" "\<exists>s. stk_ValBytesToString k a = Ok s"
    "\<exists>b. stk_GetConsAddr k v = Ok b"
  using assms unfolding progress_laws_def stored_laws_def by (metis is_Ok_iff)+

lemma mustGetValidator_runs:
  assumes laws: "progress_laws k V free" and v: "view_vals V (ext c) a = Some v" and Q: "Q v c"
  shows "runs (sdk_failure k V free) (mustGetValidator k a) c Q"
proof -
  from progress_stored(1) [OF laws v] obtain w x where get: "stk_GetValidator k a (ext c) = (Ok w, x)"
    by (cases "stk_GetValidator k a (ext c)") (auto simp: is_Ok_iff)
  then have "mustGetValidator k a c = (Ok w, c\<lparr>ext := x\<rparr>)"
    by (simp add: mustGetValidator_def bindM_def attempt_def extM_apply)
  moreover from mustGetValidator_Ok [OF progress_staking [OF laws] this] v
  have "c\<lparr>ext := x\<rparr> = c" "w = v" by simp_all
  ultimately show ?thesis using Q by (simp add: runs_Ok)
qed

lemma bondValidator_runs:
  assumes laws: "progress_laws k V free" and v: "view_vals V (ext c) a = Some v"
  shows "runs (sdk_failure k V free) (bondValidator k v) c (\<lambda>_ d. free (ext d) = free (ext c))"
proof -
  note st = progress_staking [OF laws]
  have us: "stk_UpdateStatus k v Bonded = bonded_version v"
    using st by (simp add: staking_laws_def codec_laws_def bonded_version_def)
  have str: "stk_ValStringToBytes k (OperatorAddress (bonded_version v)) = Ok a"
    using law_operator [OF st v] by (simp add: bonded_version_def)
  note set = progress_steady(12) [OF laws str]
  show ?thesis
  proof (cases "\<exists>x. is_Ok (fst (stk_SetValidator k (bonded_version v) x))")
    case True
    then obtain x y where x: "stk_SetValidator k (bonded_version v) x = (Ok (), y)"
      by (metis is_Ok_iff old.unit.exhaust prod.collapse)
    have "view_vals V y a = Some (bonded_version v)" using law_SetValidator [OF st x str] by simp
    from progress_stored(3) [OF laws this] obtain b where b: "stk_GetConsAddr k (bonded_version v) = Ok b" ..
    show ?thesis unfolding bondValidator_def us Let_def
      by (rule runs_intro steady_runs [OF set] steady_runs progress_steady(1-11) [OF laws] b str | simp)+
  next
    case False
    then have never: "runs (sdk_failure k V free) (extM (stk_SetValidator k (bonded_version v))) d Q" for d Q
      using set False by (intro extM_runs) (metis fst_conv is_Ok.simps(1), auto simp: steady_def)
    show ?thesis unfolding bondValidator_def us Let_def
      by (rule runs_thenM steady_runs progress_steady(4) [OF laws] never)+
  qed
qed

lemma bond_switch_runs:
  assumes laws: "progress_laws k V free" and v: "view_vals V (ext c) a = Some v" "Status v \<noteq> Unspecified"
  shows "runs (sdk_failure k V free) (bond_switch k v) c (\<lambda>_ d. free (ext d) = free (ext c))"
proof -
  note b = runs_mono [OF bondValidator_runs [OF laws v(1)]]
  show ?thesis using v(2)
    by (cases "Status v")
      (auto simp: bond_switch_def unbondedToBonded_def unbondingToBonded_def intro!: runs_intro intro: b)
qed

lemma record_power_runs:
  assumes laws: "progress_laws k V free" and s: "stk_ValBytesToString k a = Ok s"
  shows "runs (sdk_failure k V free) (record_power k a w moved st) c (\<lambda>_ d. free (ext d) = free (ext c))"
  unfolding record_power_def Let_def
  by (rule runs_intro s)+ (auto intro!: runs_intro steady_runs [OF progress_steady(8) [OF laws]])

text \<open>An iteration of the selection loop on a stored validator that is not jailed.\<close>

lemma select_body_runs:
  assumes laws: "progress_laws k V free" and v: "view_vals V (ext c) a = Some v" "\<not> Jailed v" "Status v \<noteq> Unspecified"
  shows "runs (sdk_failure k V free) (select_body k maxV a st) c (\<lambda>_ d. free (ext d) = free (ext c))"
proof -
  obtain s where s: "stk_ValBytesToString k a = Ok s" using progress_stored(2) [OF laws v(1)] ..
  show ?thesis unfolding select_body_def Let_def
    by (rule runs_bindM, rule mustGetValidator_runs [OF laws v(1)])
      (auto simp: v(2) intro!: runs_intro runs_mono [OF bond_switch_runs [OF laws v(1,3)]]
        intro: runs_mono [OF record_power_runs [OF laws s]])
qed

lemma select_loop_runs:
  assumes laws: "progress_laws k V free"
    and "distinct it" "\<forall>a \<in> set it. \<exists>v. view_vals V (ext c) a = Some v \<and> \<not> Jailed v \<and> Status v \<noteq> Unspecified"
    and "fst ` set (sel_vols st) \<subseteq> (\<lambda>a. OperatorAddress (the (view_vals V (ext c) a))) ` set it"
    and "last_mirror k V (sel_last st) (ext c)"
  shows "runs (sdk_failure k V free) (select_loop k maxV it st) c (\<lambda>_ d. free (ext d) = free (ext c))"
  using assms(2-)
proof (induction it arbitrary: st c)
  case Nil
  then show ?case by (simp add: runs_Ok)
next
  case (Cons a it)
  then obtain v where v: "view_vals V (ext c) a = Some v" "\<not> Jailed v" "Status v \<noteq> Unspecified" by auto
  show ?case
  proof (cases "sel_count st < maxV \<or> sel_vols st \<noteq> []")
    case False
    then show ?thesis by (simp add: runs_Ok)
  next
    case True
    from select_body_runs [OF laws v, of maxV st] show ?thesis
    proof (cases rule: runs_cases)
      case (fail r t)
      with True show ?thesis by (simp add: runs_bind_fail)
    next
      case (ok p c1)
      obtain goes st1 where p: "p = (goes, st1)" by (rule prod.exhaust)
      note body = ok(1) [unfolded p] and free = ok(2)
      have "runs (sdk_failure k V free) (if goes then select_loop k maxV it st1 else ret st1) c1 (\<lambda>_ d. free (ext d) = free (ext c1))"
        using progress_staking [OF laws] body v(1) Cons.prems(4)
      proof (cases rule: select_body_cases)
        case skip
        have "fst ` set (sel_vols st) \<subseteq> (\<lambda>a. OperatorAddress (the (view_vals V (ext c) a))) ` set it"
          using Cons.prems(3) v(1) skip(1) by (auto simp: subset_insert)
        with skip Cons.prems Cons.IH [of c st] show ?thesis by simp
      next
        case stop
        then show ?thesis by (simp add: runs_Ok)
      next
        case (take s)
        have "runs (sdk_failure k V free) (select_loop k maxV it st1) c1 (\<lambda>_ d. free (ext d) = free (ext c1))"
        proof (rule Cons.IH)
          show "distinct it" using Cons.prems(1) by simp
          show "\<forall>a \<in> set it. \<exists>v. view_vals V (ext c1) a = Some v \<and> \<not> Jailed v \<and> Status v \<noteq> Unspecified"
            using Cons.prems(1,2) take(11) by auto
          have "(\<lambda>b. OperatorAddress (the (view_vals V (ext c1) b))) ` set it =
              (\<lambda>b. OperatorAddress (the (view_vals V (ext c) b))) ` set it"
            using Cons.prems(1) take(11) by (intro image_cong) auto
          then show "fst ` set (sel_vols st1) \<subseteq> (\<lambda>a. OperatorAddress (the (view_vals V (ext c1) a))) ` set it"
            using Cons.prems(3) take(6) v(1) by auto
          show "last_mirror k V (sel_last st1) (ext c1)"
            unfolding take(8) by (rule last_mirror_take [OF progress_staking [OF laws] Cons.prems(4) take(7,10)])
        qed
        with take(3) show ?thesis by simp
      qed
      then show ?thesis using True free by (simp add: runs_bind_Ok [where m = "select_body k maxV a st", OF body])
    qed
  qed
qed

section \<open>The rest of the update returns\<close>

lemma foldO_total: "(\<And>x b. x \<in> set xs \<Longrightarrow> is_Ok (f x b)) \<Longrightarrow> is_Ok (foldO f xs b)"
proof (induction xs arbitrary: b)
  case (Cons x xs)
  then obtain c where "f x b = Ok c" by (metis is_Ok_iff list.set_intros(1))
  with Cons show ?case by simp
qed simp

lemma getLast_runs:
  assumes laws: "progress_laws k V free" and ok: "bonded_ok V (ext c)"
  shows "runs (sdk_failure k V free) (getLastValidatorsByAddr k) c (\<lambda>_ d. d = c)"
  unfolding getLastValidatorsByAddr_def
proof (rule runs_bindM, rule steady_runs [OF progress_steady(2) [OF laws]])
  note st = progress_staking [OF laws]
  fix es x
  assume it: "stk_LastValidatorsIterator k (ext c) = (Ok es, x)"
  have "reads_only (stk_LastValidatorsIterator k)" using st by (simp add: staking_laws_def read_laws_def)
  from reads_onlyD [OF this it] have x: "x = ext c" .
  have es: "map_of es = view_last V (ext c)" "distinct (map fst es)"
    using st it by (auto simp: staking_laws_def read_laws_def dest!: spec [of _ "ext c"])
  have "is_Ok (stk_ValBytesToString k (fst e))" if "e \<in> set es" for e
  proof -
    have "fst e \<in> dom (view_last V (ext c))"
      unfolding es(1) [symmetric] dom_map_of_conv_image_fst using that by simp
    then obtain v where "view_vals V (ext c) (fst e) = Some v"
      using ok by (auto simp: bonded_ok_def bonded_set_def)
    from progress_stored(2) [OF laws this] show ?thesis by (auto simp: is_Ok_iff)
  qed
  then have "is_Ok (foldO (\<lambda>e m. bindO (stk_ValBytesToString k (fst e)) (\<lambda>s. Ok (gomap_set s (snd e) m))) es [])"
    by (intro foldO_total) (fastforce simp: is_Ok_iff)
  then show "runs (sdk_failure k V free) (liftO (foldO (\<lambda>e last. bindO (stk_ValBytesToString k (fst e)) (\<lambda>s.
      Ok (gomap_set s (snd e) last))) es [])) (c\<lparr>ext := x\<rparr>) (\<lambda>_ d. d = c)"
    using x by (intro runs_liftO_or) auto
qed

lemma drop_jailed_runs:
  assumes laws: "progress_laws k V free"
    and "\<forall>e \<in> set es. \<exists>a v. stk_ValAddressFromBech32 k (fst e) = Ok a \<and> view_vals V (ext c) a = Some v"
  shows "runs (sdk_failure k V free) (drop_jailed k es m) c (\<lambda>_ d. d = c)"
  unfolding drop_jailed_def
proof (rule runs_foldM [where I = "\<lambda>es _ d. set es \<subseteq> set es0 \<and> d = c" for es0, THEN runs_mono])
  fix e and fs :: "(string \<times> VolunteerValidator) list" and b d
  assume I: "set (e # fs) \<subseteq> set es \<and> d = c"
  then obtain a v where "stk_ValAddressFromBech32 k (fst e) = Ok a" "view_vals V (ext c) a = Some v"
    using assms(2) by auto
  then show "runs (sdk_failure k V free) (drop_jailed_one k e b) d (\<lambda>_ t. set fs \<subseteq> set es \<and> t = c)"
    using I unfolding drop_jailed_one_def
    by (auto intro!: runs_intro mustGetValidator_runs [OF laws])
qed auto

lemma unbond_one_runs:
  assumes laws: "progress_laws k V free" and v: "view_vals V (ext c) a = Some v" "Status v = Bonded"
  shows "runs (sdk_failure k V free) (unbond_one k a acc) c (\<lambda>_ d. free (ext d) = free (ext c))"
proof -
  note st = progress_staking [OF laws] and op = law_operator [OF progress_staking [OF laws] v(1)]
  have begin_unbonding: "runs (sdk_failure k V free) (extM (stk_BeginUnbondingValidator k v)) c
      (\<lambda>w d. stk_ValStringToBytes k (OperatorAddress w) = Ok a \<and> free (ext d) = free (ext c))"
  proof (rule extM_runs)
    fix w x
    assume w: "stk_BeginUnbondingValidator k v (ext c) = (Ok w, x)"
    moreover have "spares free (stk_BeginUnbondingValidator k v)" using laws by (simp add: progress_laws_def spare_laws_def)
    ultimately show "stk_ValStringToBytes k (OperatorAddress w) = Ok a \<and> free (ext (c\<lparr>ext := x\<rparr>)) = free (ext c)"
      using law_BeginUnbonding [OF st w op] op by (auto simp: spares_def)
  next
    assume "\<not> is_Ok (fst (stk_BeginUnbondingValidator k v (ext c)))"
    then show "sdk_failure k V free (fail_of (fst (stk_BeginUnbondingValidator k v (ext c))))"
      using v by (intro failing_calls(13) [of v V a]) (auto simp: fails_as_def)
  qed
  show ?thesis unfolding unbond_one_def bondedToUnbonding_def
    by (intro runs_bindM, intro mustGetValidator_runs [OF laws v(1)])
      (auto simp: v(2) intro!: runs_intro runs_mono [OF begin_unbonding] steady_runs [OF progress_steady(9) [OF laws]])
qed

lemma unbond_loop_runs:
  assumes laws: "progress_laws k V free" and "distinct gs"
    and "\<forall>a \<in> set gs. \<exists>v. view_vals V (ext c) a = Some v \<and> Status v = Bonded"
  shows "runs (sdk_failure k V free) (foldM (unbond_one k) gs acc) c (\<lambda>_ d. free (ext d) = free (ext c))"
  using assms(2,3)
proof (induction gs arbitrary: acc c)
  case Nil
  then show ?case by (simp add: runs_Ok)
next
  case (Cons a gs)
  then obtain v where v: "view_vals V (ext c) a = Some v" "Status v = Bonded" by auto
  show ?case unfolding foldM.simps
  proof (rule runs_bindM, rule runs_mono [OF unbond_one_runs [OF laws v]])
    fix acc1 c1
    assume one: "unbond_one k a acc c = (Ok acc1, c1)" and free: "free (ext c1) = free (ext c)"
    from unbond_one_view [OF progress_staking [OF laws] one] obtain w where
      "view_vals V (ext c1) = (view_vals V (ext c))(a \<mapsto> w)" by blast
    with Cons.prems Cons.IH [of c1 acc1] free
    show "runs (sdk_failure k V free) (foldM (unbond_one k) gs acc1) c1 (\<lambda>_ d. free (ext d) = free (ext c))"
      by auto
  qed
qed

lemma pool_switch_runs:
  assumes laws: "progress_laws k V free" and "tb - tn \<le> free (ext c)" "tn - tb \<le> view_pool V (ext c)"
  shows "runs (sdk_failure k V free) (pool_switch k tb tn) c (\<lambda>_ _. True)"
proof -
  note st = progress_staking [OF laws]
  have bd: "runs (sdk_failure k V free) (extM (stk_BondDenom k)) c (\<lambda>dn d. dn = view_denom V \<and> d = c)"
  proof (rule steady_runs [OF progress_steady(3) [OF laws]])
    fix dn x
    assume bd: "stk_BondDenom k (ext c) = (Ok dn, x)"
    have "reads_only (stk_BondDenom k)" using st by (simp add: staking_laws_def read_laws_def)
    from reads_onlyD [OF this bd] have "x = ext c" .
    moreover have "dn = view_denom V" using st bd by (auto simp: staking_laws_def read_laws_def dest!: spec [of _ "ext c"])
    ultimately show "dn = view_denom V \<and> c\<lparr>ext := x\<rparr> = c" by simp
  qed
  have coins: "\<exists>co cs. NewCoin (stk_coins k) (view_denom V) n = Ok co \<and> NewCoins (stk_coins k) [co] = Ok cs \<and>
      amount_of cs (view_denom V) = n" if "0 < n" for n
    using laws that st unfolding progress_laws_def stored_laws_def staking_laws_def pool_laws_def by metis
  have in_ok: "runs (sdk_failure k V free) (extM (stk_SendCoinsFromModuleToModule k ''not_bonded_tokens_pool'' ''bonded_tokens_pool'' cs)) c
      (\<lambda>_ _. True)" if "amount_of cs (view_denom V) \<le> free (ext c)" for cs
    using that by (intro extM_runs failing_calls(14) [of cs]) (auto simp: fails_as_def)
  have out_ok: "runs (sdk_failure k V free) (extM (stk_SendCoinsFromModuleToModule k ''bonded_tokens_pool'' ''not_bonded_tokens_pool'' cs)) c
      (\<lambda>_ _. True)" if "amount_of cs (view_denom V) \<le> view_pool V (ext c)" for cs
    using that by (intro extM_runs failing_calls(15) [of cs]) (auto simp: fails_as_def)
  consider "tb > tn" | "tb < tn" | "tb = tn" by linarith
  then show ?thesis
  proof cases
    case 1
    with coins [of "tb - tn"] obtain co cs where "NewCoin (stk_coins k) (view_denom V) (tb - tn) = Ok co"
        "NewCoins (stk_coins k) [co] = Ok cs" "amount_of cs (view_denom V) = tb - tn" by auto
    then show ?thesis using 1 assms(2) in_ok [of cs]
      by (auto simp: pool_switch_def notBondedTokensToBonded_def intro!: runs_intro runs_mono [OF bd])
  next
    case 2
    with coins [of "tn - tb"] obtain co cs where "NewCoin (stk_coins k) (view_denom V) (tn - tb) = Ok co"
        "NewCoins (stk_coins k) [co] = Ok cs" "amount_of cs (view_denom V) = tn - tb" by auto
    then show ?thesis using 2 assms(3) out_ok [of cs]
      by (auto simp: pool_switch_def bondedTokensToNotBonded_def intro!: runs_intro runs_mono [OF bd])
  qed (simp add: pool_switch_def runs_Ok)
qed

lemma sortNoLongerBonded_total:
  assumes "go_range rng" "\<forall>e \<in> set m. is_Ok (SB (fst e))"
  shows "\<exists>gs. sortNoLongerBonded rng SB m = Ok gs"
proof -
  have "mapO (\<lambda>e. SB (fst e)) (rng m) = Ok (map (\<lambda>e. case SB (fst e) of Ok y \<Rightarrow> y) (rng m))"
    using assms by (simp add: mapO_total go_range_set)
  then show ?thesis by (simp add: sortNoLongerBonded_def)
qed

lemma finish_runs:
  assumes "progress_laws k V free"
  shows "runs (sdk_failure k V free) (thenM (if us \<noteq> [] then extM (stk_SetLastTotalPower k n) else ret ())
    (thenM (extM (stk_SetValidatorUpdates k us)) (ret us))) c (\<lambda>_ _. True)"
  by (auto intro!: runs_intro steady_runs [OF progress_steady(10) [OF assms]]
    steady_runs [OF progress_steady(11) [OF assms]])

text \<open>The balances cover the transfer between the pools.\<close>

lemma transfer_covered:
  fixes W :: "ValAddress \<Rightarrow> Validator"
  assumes fin: "finite B" "finite I" and C: "C \<subseteq> I" and gone: "G \<subseteq> B"
    and tokens: "\<forall>a \<in> I \<union> B. 0 \<le> Tokens (W a)"
    and free: "(\<Sum>a\<in>I. if Status (W a) = Bonded then 0 else Tokens (W a)) \<le> f"
    and pool: "p = (\<Sum>a\<in>B. Tokens (W a))"
  shows "(\<Sum>a\<in>C. if Status (W a) = Bonded then 0 else Tokens (W a)) - (\<Sum>a\<in>G. Tokens (W a)) \<le> f"
    and "(\<Sum>a\<in>G. Tokens (W a)) - (\<Sum>a\<in>C. if Status (W a) = Bonded then 0 else Tokens (W a)) \<le> p"
proof -
  have "(\<Sum>a\<in>C. if Status (W a) = Bonded then 0 else Tokens (W a)) \<le>
      (\<Sum>a\<in>I. if Status (W a) = Bonded then 0 else Tokens (W a))"
    using fin(2) C tokens by (intro sum_mono2) auto
  moreover have "0 \<le> (\<Sum>a\<in>G. Tokens (W a))" using gone tokens by (intro sum_nonneg) auto
  ultimately show "(\<Sum>a\<in>C. if Status (W a) = Bonded then 0 else Tokens (W a)) - (\<Sum>a\<in>G. Tokens (W a)) \<le> f"
    using free by linarith
  have "(\<Sum>a\<in>G. Tokens (W a)) \<le> (\<Sum>a\<in>B. Tokens (W a))"
    using fin(1) gone tokens by (intro sum_mono2) auto
  moreover have "0 \<le> (\<Sum>a\<in>C. if Status (W a) = Bonded then 0 else Tokens (W a))"
    using C tokens by (intro sum_nonneg) auto
  ultimately show "(\<Sum>a\<in>G. Tokens (W a)) - (\<Sum>a\<in>C. if Status (W a) = Bonded then 0 else Tokens (W a)) \<le> p"
    using pool by linarith
qed

text \<open>The volunteers left after the jailed ones are dropped are all in the power index.\<close>

lemma volunteers_indexed:
  assumes ok: "staking_state_ok k V free it vols x" and rng: "go_range rng"
    and dropped: "set vs = {f \<in> set vols. \<forall>e \<in> set (rng vols). fst f = fst e \<longrightarrow> \<not> jailed_at k V x (fst e)}"
  shows "fst ` set vs \<subseteq> (\<lambda>a. OperatorAddress (the (view_vals V x a))) ` set it"
proof
  fix s assume "s \<in> fst ` set vs"
  then obtain e where e: "e \<in> set vols" "\<not> jailed_at k V x (fst e)" and s: "s = fst e"
    using dropped go_range_set [OF rng] by auto
  with ok obtain a v where "stk_ValAddressFromBech32 k (fst e) = Ok a" "view_vals V x a = Some v"
      "OperatorAddress v = fst e" "Jailed v \<or> a \<in> set it"
    unfolding staking_state_ok_def by blast
  moreover from this e(2) have "a \<in> set it" by (auto simp: jailed_at_def)
  ultimately show "s \<in> (\<lambda>a. OperatorAddress (the (view_vals V x a))) ` set it"
    using s by (intro image_eqI [of _ _ a]) simp_all
qed

text \<open>The first half: up to and including the selection loop; \<open>R\<close> is the rest.\<close>

lemma selection_runs:
  assumes laws: "progress_laws k V free" and rng: "go_range rngV"
    and vols: "stk_volunteers k c = (Ok vols, c)"
    and idx: "fst (stk_ValidatorsPowerStoreIterator k (ext c)) = Ok it"
    and ok: "staking_state_ok k V free it vols (ext c)"
    and rest: "\<And>maxV m vs st c1. getLastValidatorsByAddr k c = (Ok m, c) \<Longrightarrow>
      select_loop k maxV it (start_selection vs m) c = (Ok st, c1) \<Longrightarrow> free (ext c1) = free (ext c) \<Longrightarrow>
      runs (sdk_failure k V free) (R st) c1 Q"
  shows "runs (sdk_failure k V free) (bindM (extM (stk_MaxValidators k)) (\<lambda>maxV.
    bindM (getLastValidatorsByAddr k) (\<lambda>m. bindM (extM (stk_ValidatorsPowerStoreIterator k)) (\<lambda>it.
    bindM (stk_volunteers k) (\<lambda>vols. bindM (drop_jailed k (rngV vols) vols) (\<lambda>vs.
    bindM (select_loop k (unat maxV) it (start_selection vs m)) R)))))) c Q"
proof -
  let ?F = "sdk_failure k V free"
  note st = progress_staking [OF laws]
  have bo: "bonded_ok V (ext c)" and dist: "distinct it" using ok by (auto simp: staking_state_ok_def)
  have ro: "reads_only (stk_MaxValidators k)" "reads_only (stk_ValidatorsPowerStoreIterator k)"
    using st by (simp_all add: staking_laws_def read_laws_def)
  have m2: "extM (stk_ValidatorsPowerStoreIterator k) c = (Ok it, c)"
    using ro idx by (simp add: extM_apply split_def reads_only_def)
  have recs: "\<forall>e \<in> set (rngV vols). \<exists>a v. stk_ValAddressFromBech32 k (fst e) = Ok a \<and> view_vals V (ext c) a = Some v"
    using ok go_range_set [OF rng] unfolding staking_state_ok_def by blast
  have select: "runs ?F (bindM (select_loop k maxV it (start_selection vs m)) R) c Q"
    if gl: "getLastValidatorsByAddr k c = (Ok m, c)" and dj: "drop_jailed k (rngV vols) vols c = (Ok vs, c)" for maxV m vs
  proof -
    let ?st = "start_selection vs m"
    have mir: "last_mirror k V (sel_last ?st) (ext c)"
      using getLastValidatorsByAddr_view [OF st gl] by (simp add: start_selection_def)
    have vs: "fst ` set (sel_vols ?st) \<subseteq> (\<lambda>a. OperatorAddress (the (view_vals V (ext c) a))) ` set it"
      using volunteers_indexed [OF ok rng, of vs] drop_jailed_view [OF st dj] by (simp add: start_selection_def)
    have recs: "\<forall>a \<in> set it. \<exists>v. view_vals V (ext c) a = Some v \<and> \<not> Jailed v \<and> Status v \<noteq> Unspecified"
      using ok unfolding staking_state_ok_def by blast
    show ?thesis
      by (rule runs_bindM, rule runs_mono [OF select_loop_runs [OF laws dist recs vs mir]]) (rule rest [OF gl])
  qed
  have "runs ?F (bindM (drop_jailed k (rngV vols) vols) (\<lambda>vs. bindM (select_loop k maxV it (start_selection vs m)) R)) c Q"
    if "getLastValidatorsByAddr k c = (Ok m, c)" for maxV m
    by (rule runs_bindM, rule runs_mono [OF drop_jailed_runs [OF laws recs]]) (use select [OF that] in simp)
  then have "runs ?F (bindM (getLastValidatorsByAddr k) (\<lambda>m. bindM (extM (stk_ValidatorsPowerStoreIterator k)) (\<lambda>it.
      bindM (stk_volunteers k) (\<lambda>vols. bindM (drop_jailed k (rngV vols) vols) (\<lambda>vs.
      bindM (select_loop k maxV it (start_selection vs m)) R))))) c Q" for maxV
    by (intro runs_bindM [of _ "getLastValidatorsByAddr k"] runs_mono [OF getLast_runs [OF laws bo]])
      (simp add: runs_bind_Ok [where m = "extM (stk_ValidatorsPowerStoreIterator k)", OF m2]
        runs_bind_Ok [where m = "stk_volunteers k", OF vols])
  moreover have "c\<lparr>ext := x\<rparr> = c" if "stk_MaxValidators k (ext c) = (Ok maxV, x)" for maxV x
    using reads_onlyD [OF ro(1) that] by simp
  ultimately show ?thesis
    by (intro runs_bindM [of _ "extM (stk_MaxValidators k)"] steady_runs [OF progress_steady(1) [OF laws]]) simp
qed

text \<open>The second half: the departing validators are unbonded and the pools settled.\<close>

lemma departures_run:
  assumes laws: "progress_laws k V free" and rng: "go_range rngL"
    and ok: "staking_state_ok k V free it vols (ext c)"
    and gl: "getLastValidatorsByAddr k c = (Ok m, c)"
    and sl: "select_loop k maxV it (start_selection vs m) c = (Ok st, c1)" and free: "free (ext c1) = free (ext c)"
  shows "runs (sdk_failure k V free) (bindM (liftO (sortNoLongerBonded rngL (stk_ValStringToBytes k) (sel_last st))) (\<lambda>gs.
     bindM (foldM (unbond_one k) gs (0, sel_updates st)) (\<lambda>(tn, us).
     thenM (pool_switch k (sel_toBonded st) tn) (
     thenM (if us \<noteq> [] then extM (stk_SetLastTotalPower k (sel_total st)) else ret ()) (
     thenM (extM (stk_SetValidatorUpdates k us)) (ret us)))))) c1 (\<lambda>_ _. True)"
proof -
  note stk = progress_staking [OF laws] and last = getLastValidatorsByAddr_view [OF progress_staking [OF laws] gl]
  define W where "W = (\<lambda>a. the (view_vals V (ext c) a))"
  define ch where "ch = chosen (no_power k) maxV W it 0 (fst ` set vs)"
  have bo: "bonded_ok V (ext c)" and dist: "distinct it" using ok by (auto simp: staking_state_ok_def)
  have "last_mirror k V (sel_last (start_selection vs m)) (ext c)" using last by (simp add: start_selection_def)
  note sel = select_loop_refines [OF stk sl dist _ this, of W]
  have sel': "view_vals V (ext c1) = (\<lambda>a. if a \<in> set ch then Some (bonded_version (W a)) else view_vals V (ext c) a)"
    "view_pool V (ext c1) = view_pool V (ext c)"
    "sel_toBonded st = (\<Sum>a\<in>set ch. if Status (W a) = Bonded then 0 else Tokens (W a))"
    "set (sel_last st) = {e \<in> set m. \<forall>a \<in> set ch. stk_ValBytesToString k a \<noteq> Ok (fst e)}"
    "distinct (map fst (sel_last st))"
    using sel last by (simp_all add: W_def ch_def start_selection_def)
  have "\<forall>e \<in> set (sel_last st). is_Ok (stk_ValStringToBytes k (fst e))"
    using last stk unfolding sel'(4) last_mirror_def staking_laws_def codec_laws_def by fastforce
  then obtain gs where nb: "sortNoLongerBonded rngL (stk_ValStringToBytes k) (sel_last st) = Ok gs"
    using sortNoLongerBonded_total [OF rng] by blast
  have gone: "set gs = dom (view_last V (ext c)) - set ch \<and> distinct gs"
    using last sel' by (intro no_longer_bonded [OF stk _ _ _ _ rng nb]) auto
  have B: "dom (view_last V (ext c)) = bonded_set V (ext c)" "finite (bonded_set V (ext c))"
    "view_pool V (ext c) = (\<Sum>a\<in>bonded_set V (ext c). Tokens (W a))"
    using bo by (auto simp: bonded_ok_def W_def)
  have "\<forall>a \<in> set gs. \<exists>v. view_vals V (ext c1) a = Some v \<and> Status v = Bonded"
    using gone B(1) sel'(1) by (auto simp: bonded_set_def)
  note loop = unbond_loop_runs [OF laws conjunct2 [OF gone] this]
  have sub: "set ch \<subseteq> set it" by (simp add: ch_def chosen_sublist)
  have pos: "\<forall>a \<in> set it \<union> bonded_set V (ext c). 0 \<le> Tokens (W a)"
    using ok unfolding staking_state_ok_def bonded_set_def W_def by fastforce
  have fr: "(\<Sum>a\<in>set it. if Status (W a) = Bonded then 0 else Tokens (W a)) \<le> free (ext c)"
    using ok unfolding staking_state_ok_def W_def by blast
  have "set gs \<subseteq> bonded_set V (ext c)" using gone B(1) by blast
  note cover = transfer_covered [OF B(2) finite_set sub this pos fr B(3)]
  have settle: "runs (sdk_failure k V free) (thenM (pool_switch k (sel_toBonded st) tn) (
     thenM (if us \<noteq> [] then extM (stk_SetLastTotalPower k (sel_total st)) else ret ()) (
     thenM (extM (stk_SetValidatorUpdates k us)) (ret us)))) c2 (\<lambda>_ _. True)"
    if ub: "foldM (unbond_one k) gs (0, sel_updates st) c1 = (Ok (tn, us), c2)" and free2: "free (ext c2) = free (ext c1)" for tn us c2
  proof -
    note unb = unbond_loop_view [OF stk ub]
    have tn: "tn = (\<Sum>a\<in>set gs. Tokens (W a))"
      using unb gone sel'(1) by (auto simp: W_def intro!: sum.cong)
    have "view_pool V (ext c2) = view_pool V (ext c)" using unb gone sel'(2) by simp
    then have "runs (sdk_failure k V free) (pool_switch k (sel_toBonded st) tn) c2 (\<lambda>_ _. True)"
      using cover free free2 by (intro pool_switch_runs [OF laws]) (simp_all add: sel'(3) tn)
    then show ?thesis by (rule runs_thenM [OF runs_mono]) (rule finish_runs [OF laws])
  qed
  show ?thesis
  proof (rule runs_bindM, rule runs_liftO [OF nb], rule runs_bindM, rule runs_mono [OF loop])
    fix p c2
    assume "foldM (unbond_one k) gs (0, sel_updates st) c1 = (Ok p, c2)" "free (ext c2) = free (ext c1)"
    then show "runs (sdk_failure k V free) (case p of (tn, us) \<Rightarrow> thenM (pool_switch k (sel_toBonded st) tn) (
       thenM (if us \<noteq> [] then extM (stk_SetLastTotalPower k (sel_total st)) else ret ()) (
       thenM (extM (stk_SetValidatorUpdates k us)) (ret us)))) c2 (\<lambda>_ _. True)"
      using settle by (cases p) simp
  qed
qed

lemma apply_runs:
  assumes laws: "progress_laws k V free" and rngs: "go_range rngV" "go_range rngL"
    and vols: "stk_volunteers k c = (Ok vols, c)"
    and idx: "fst (stk_ValidatorsPowerStoreIterator k (ext c)) = Ok it"
    and ok: "staking_state_ok k V free it vols (ext c)"
  shows "runs (sdk_failure k V free) (ApplyAndReturnValidatorSetUpdates rngV rngL k) c (\<lambda>_ _. True)"
  unfolding ApplyAndReturnValidatorSetUpdates_def
  by (rule selection_runs [OF laws rngs(1) vols idx ok]) (rule departures_run [OF laws rngs(2) ok])

section \<open>The maturity queues\<close>

lemma attempt_runs:
  assumes "is_Panic (fst (m s)) \<Longrightarrow> F (fail_of (fst (m s)))" "\<And>r t. Q r t"
  shows "runs F (attempt m) s Q"
  using assms by (cases "m s"; cases "fst (m s)") (auto simp: runs_def attempt_def)

lemma EmitEvent_runs: "Q () (c\<lparr>events := events c @ [e]\<rparr>) \<Longrightarrow> runs F (EmitEvent e) c Q"
  by (simp add: EmitEvent_def runs_def)

lemma fst_extM: "fst (extM m c) = fst (m (ext c))"
  by (cases "m (ext c)") (simp add: extM_apply)

lemma fails_panic: "is_Panic (fst (m x)) \<Longrightarrow> is_Panic (fail_of (fst (m x))) \<and> fails_as anywhere m (fail_of (fst (m x)))"
  unfolding fails_as_def by (cases "fst (m x)") (auto intro!: exI [of _ x])

lemma queue_panics:
  "is_Panic (fst (stk_CompleteUnbonding k d v x)) \<Longrightarrow> queue_failure k (fail_of (fst (stk_CompleteUnbonding k d v x)))"
  "is_Panic (fst (stk_CompleteRedelegation k d v w x)) \<Longrightarrow> queue_failure k (fail_of (fst (stk_CompleteRedelegation k d v w x)))"
  using fails_panic [of "stk_CompleteUnbonding k d v" x] fails_panic [of "stk_CompleteRedelegation k d v w" x]
  unfolding queue_failure_def by blast+

lemma complete_unbonding_runs:
  assumes "stk_DequeueAllMatureUBDQueue k t x = (Ok ps, y)" "p \<in> set ps"
  shows "runs (queue_failure k) (complete_unbonding k p) c (\<lambda>_ _. True)"
proof -
  have parse: "queue_failure k (fail_of r)" if "\<not> is_Ok r" "r \<in> {stk_ValStringToBytes k (dv_Validator p), stk_AccStringToBytes k (dv_Delegator p)}" for r
  proof -
    have "\<not> is_Ok (fail_of r)" "fail_of r \<in> {fail_of (stk_ValStringToBytes k (dv_Validator p)), fail_of (stk_AccStringToBytes k (dv_Delegator p))}"
      using that by auto
    with assms show ?thesis unfolding queue_failure_def by blast
  qed
  show ?thesis unfolding complete_unbonding_def
    by (intro runs_bindM runs_liftO_or attempt_runs)
      (auto simp: fst_extM intro: parse queue_panics(1) runs_ret EmitEvent_runs split: sum.split)
qed

lemma complete_redelegation_runs:
  assumes "stk_DequeueAllMatureRedelegationQueue k t x = (Ok ps, y)" "p \<in> set ps"
  shows "runs (queue_failure k) (complete_redelegation k p) c (\<lambda>_ _. True)"
proof -
  have parse: "queue_failure k (fail_of r)" if "\<not> is_Ok r" "r \<in> {stk_ValStringToBytes k (dvv_ValidatorSrc p),
      stk_ValStringToBytes k (dvv_ValidatorDst p), stk_AccStringToBytes k (dvv_Delegator p)}" for r
  proof -
    have "\<not> is_Ok (fail_of r)" "fail_of r \<in> {fail_of (stk_ValStringToBytes k (dvv_ValidatorSrc p)),
        fail_of (stk_ValStringToBytes k (dvv_ValidatorDst p)), fail_of (stk_AccStringToBytes k (dvv_Delegator p))}"
      using that by auto
    with assms show ?thesis unfolding queue_failure_def by blast
  qed
  show ?thesis unfolding complete_redelegation_def
    by (intro runs_bindM runs_liftO_or attempt_runs)
      (auto simp: fst_extM intro: parse queue_panics(2) runs_ret EmitEvent_runs split: sum.split)
qed

text \<open>A loop whose body returns from every state returns.\<close>

lemma forM_runs_all:
  assumes "\<And>x s. x \<in> set xs \<Longrightarrow> runs F (f x) s (\<lambda>_ _. True)" "\<And>s. Q () s"
  shows "runs F (forM xs f) s Q"
  by (rule runs_mono [OF runs_forM [where I = "\<lambda>ys _. set ys \<subseteq> set xs"]])
    (use assms in \<open>auto intro: runs_mono [OF assms(1)]\<close>)

lemma matured_runs:
  "runs (queue_failure k) (thenM (extM (stk_UnbondAllMatureValidators k)) (
     bindM (getsM block_time) (\<lambda>time.
     bindM (extM (stk_DequeueAllMatureUBDQueue k time)) (\<lambda>matureUnbonds.
     thenM (forM matureUnbonds (complete_unbonding k)) (
     bindM (extM (stk_DequeueAllMatureRedelegationQueue k time)) (\<lambda>matureRedelegations.
     thenM (forM matureRedelegations (complete_redelegation k)) (ret us))))))) c (\<lambda>_ _. True)"
proof -
  have calls: "fails_as anywhere (stk_UnbondAllMatureValidators k) r \<Longrightarrow> queue_failure k r"
    "fails_as anywhere (stk_DequeueAllMatureUBDQueue k t) r \<Longrightarrow> queue_failure k r"
    "fails_as anywhere (stk_DequeueAllMatureRedelegationQueue k t) r \<Longrightarrow> queue_failure k r" for t r
    unfolding queue_failure_def by blast+
  have D: "runs (queue_failure k) (extM (stk_DequeueAllMatureUBDQueue k t)) c
      (\<lambda>ps _. \<forall>p \<in> set ps. \<forall>c. runs (queue_failure k) (complete_unbonding k p) c (\<lambda>_ _. True))" for t c
    by (rule extM_runs) (blast intro: complete_unbonding_runs calls fails_anywhere)+
  have R: "runs (queue_failure k) (extM (stk_DequeueAllMatureRedelegationQueue k t)) c
      (\<lambda>ts _. \<forall>p \<in> set ts. \<forall>c. runs (queue_failure k) (complete_redelegation k p) c (\<lambda>_ _. True))" for t c
    by (rule extM_runs) (blast intro: complete_redelegation_runs calls fails_anywhere)+
  have U: "runs (queue_failure k) (extM (stk_UnbondAllMatureValidators k)) c (\<lambda>_ _. True)" for c
    by (rule extM_runs) (blast intro: calls fails_anywhere)+
  show ?thesis
    by (intro runs_intro runs_mono [OF U] runs_mono [OF D] runs_mono [OF R] forM_runs_all) auto
qed

section \<open>The reference keeper meets the laws\<close>

lemma ref_progress_laws: "progress_laws ref_stk ref_view (\<lambda>_. 100)"
proof -
  have "spare_laws ref_stk (\<lambda>_. 100)" by (simp add: spare_laws_def spares_def)
  moreover have "stored_laws ref_stk ref_view"
    by (auto simp: stored_laws_def ref_stk_def ref_view_def rs_lookup_def ref_parse_def is_Ok_iff ref_coins_def ref_coin_ok_def
        ref_denoms_sorted_def Let_def bindM_def split: option.splits if_splits)
  ultimately show ?thesis using ref_staking_laws by (simp add: progress_laws_def)
qed

lemma ref_state_ok:
  "staking_state_ok ref_stk ref_view (\<lambda>_. 100) [[97], [118]] (volunteer_map (volunteer_kv ref_stk_ctx)) (ext ref_stk_ctx)"
proof -
  have vm: "volunteer_map (volunteer_kv ref_stk_ctx) = [(''v'', ref_volunteer)]" by code_simp
  have lk: "rs_lookup ref_staking_state a = (if a = [97] then Some (ref_val ''a'' Bonded 9) else
      if a = [118] then Some (ref_val ''v'' Unbonded 5) else None)" for a
    by (auto simp: rs_lookup_def ref_staking_state_def ref_val_def ref_parse_def of_char_def)
  have e: "ext ref_stk_ctx = ref_staking_state" by (simp add: ref_stk_ctx_def ref_ctx_def)
  have v: "stk_ValAddressFromBech32 ref_stk ''v'' = Ok [118]" by code_simp
  show ?thesis using ref_bonded_ok unfolding staking_state_ok_def vm e
    by (auto simp: ref_view_def lk v ref_val_def)
qed

section \<open>Liveness of the end blocker\<close>

text \<open>C3: on a well-formed staking state the end blocker of the staking module returns unless an
  SDK call fails.  The selection of the validator set, the unbonding of the validators that leave
  it, the settlement of the two pools and the maturity queues all go through, for every order in
  which the Go maps are visited; or the run ends with the very error or panic of a store call, a
  hook, a queue operation, or a transfer that the paying pool covers.
\<close>

theorem end_blocker_returns:
  assumes "progress_laws k V free" "go_range rngV" "go_range rngL"
    and "stk_volunteers k = GetVolunteerValidators vk"
    and "fst (stk_ValidatorsPowerStoreIterator k (ext c)) = Ok it"
    and "staking_state_ok k V free it (volunteer_map (volunteer_kv c)) (ext c)"
  shows "is_Ok (fst (Staking_EndBlocker rngV rngL k c)) \<or>
    sdk_failure k V free (fail_of (fst (Staking_EndBlocker rngV rngL k c)))"
proof (rule runs_outcome)
  have vols: "stk_volunteers k c = (Ok (volunteer_map (volunteer_kv c)), c)"
    by (simp add: assms(4) GetVolunteerValidators_def)
  have mature: "runs (sdk_failure k V free) m d (\<lambda>_ _. True)" if "runs (queue_failure k) m d (\<lambda>_ _. True)"
    for m :: "('a Ctx, ValidatorUpdate list) M" and d
    using that by (simp add: runs_eq sdk_failure_def split: if_splits)
  show "runs (sdk_failure k V free) (Staking_EndBlocker rngV rngL k) c (\<lambda>_ _. True)"
    unfolding Staking_EndBlocker_def BlockValidatorUpdates_def
    by (rule runs_bindM, rule runs_mono [OF apply_runs [OF assms(1-3) vols assms(5,6)]], rule mature, rule matured_runs)
qed

theorem end_blocker_returns_witness:
  "(is_Ok (fst (Staking_EndBlocker rev rev ref_stk ref_stk_ctx)) \<or>
      sdk_failure ref_stk ref_view (\<lambda>_ :: RefStaking. 100) (fail_of (fst (Staking_EndBlocker rev rev ref_stk ref_stk_ctx)))) \<and>
   is_Ok (fst (Staking_EndBlocker rev rev ref_stk ref_stk_ctx))"
proof
  show "is_Ok (fst (Staking_EndBlocker rev rev ref_stk ref_stk_ctx)) \<or>
      sdk_failure ref_stk ref_view (\<lambda>_ :: RefStaking. 100) (fail_of (fst (Staking_EndBlocker rev rev ref_stk ref_stk_ctx)))"
    using end_blocker_returns [OF ref_progress_laws go_range_rev go_range_rev ref_stk_run(1,2) ref_state_ok] by simp
qed code_simp

end
