(* ===== verification/Export.thy ===== *)
theory Export
  imports StakingLive
begin

text \<open>
  The genesis export of \<open>src/app/export.go\<close>: \<open>ExportAppStateAndValidators\<close> and the
  preparation for a fresh start at height zero, which withdraws all rewards, re-initialises the
  distribution state, clears the heights kept by staking and slashing, jails the validators
  outside an allow list and recomputes the validator set with the staking keeper of
  \<open>Staking\<close>.

  The distribution, slashing and SDK staking keepers are parameters.  An iteration is the list
  of entries it visits, read when it starts: no callback writes a key that is still to be
  visited.  \<open>ctx.WithBlockHeight\<close> is an update of the context, and the distribution
  functions, which read the height, take it as an argument.
\<close>

section \<open>Data and interfaces\<close>

text \<open>Decimal coins: the amount is a \<open>LegacyDec\<close>.\<close>

type_synonym DecCoins = "Coin list"

record Delegation =
  DelegatorAddress :: string
  ValidatorAddress :: string
  Shares :: LegacyDec

record Entry =
  CreationHeight :: int
  CompletionTime :: int
  InitialBalance :: int
  EntryBalance :: int

record Redelegation =
  red_Delegator :: string
  red_ValidatorSrc :: string
  red_ValidatorDst :: string
  red_Entries :: "Entry list"

record UnbondingDelegation =
  ubd_Delegator :: string
  ubd_Validator :: string
  ubd_Entries :: "Entry list"

record SigningInfo =
  StartHeight :: int
  IndexOffset :: int
  Tombstoned :: bool

record GenesisValidator =
  gv_Address :: bytes
  gv_Power :: int64
  gv_Name :: string

record ExportedApp =
  AppState :: bytes
  Validators :: "GenesisValidator list"
  ExportHeight :: int64
  ConsensusParams :: bytes

record 'x XplaApp =
  app_StakingKeeper :: "'x StakingKeeper"
  app_bech32 :: Bech32
  app_LastBlockHeight :: int64
  app_IterateValidators :: "('x, Validator list) M"
  app_WithdrawValidatorCommission :: "int \<Rightarrow> ValAddress \<Rightarrow> ('x, Coins) M"
  app_GetAllDelegations :: "('x, Delegation list) M"
  app_WithdrawDelegationRewards :: "int \<Rightarrow> AccAddress \<Rightarrow> ValAddress \<Rightarrow> ('x, Coins) M"
  app_DeleteAllValidatorSlashEvents :: "('x, unit) M"
  app_DeleteAllValidatorHistoricalRewards :: "('x, unit) M"
  app_GetValidatorOutstandingRewardsCoins :: "ValAddress \<Rightarrow> ('x, DecCoins) M"
  app_FeePool_Get :: "('x, DecCoins) M"
  app_FeePool_Set :: "DecCoins \<Rightarrow> ('x, unit) M"
  app_DecCoins_Add :: "DecCoins \<Rightarrow> DecCoins \<Rightarrow> DecCoins outcome"
  app_AfterValidatorCreated :: "int \<Rightarrow> ValAddress \<Rightarrow> ('x, unit) M"
  app_BeforeDelegationCreated :: "int \<Rightarrow> AccAddress \<Rightarrow> ValAddress \<Rightarrow> ('x, unit) M"
  app_AfterDelegationModified :: "int \<Rightarrow> AccAddress \<Rightarrow> ValAddress \<Rightarrow> ('x, unit) M"
  app_IterateRedelegations :: "('x, Redelegation list) M"
  app_SetRedelegation :: "Redelegation \<Rightarrow> ('x, unit) M"
  app_IterateUnbondingDelegations :: "('x, UnbondingDelegation list) M"
  app_SetUnbondingDelegation :: "UnbondingDelegation \<Rightarrow> ('x, unit) M"
  app_ValidatorsReverseIterator :: "('x, bytes list) M"
  app_AddressFromValidatorsKey :: "bytes \<Rightarrow> ValAddress outcome"
  app_IterateValidatorSigningInfos :: "('x, (bytes \<times> SigningInfo) list) M"
  app_SetValidatorSigningInfo :: "bytes \<Rightarrow> SigningInfo \<Rightarrow> ('x, unit) M"
  app_ExportGenesisForModules :: "string list \<Rightarrow> ('x Ctx, (string \<times> bytes) list) M"
  app_MarshalIndent :: "(string \<times> bytes) list \<Rightarrow> bytes outcome"
  app_WriteValidators :: "('x, GenesisValidator list) M"
  app_GetConsensusParams :: "'x \<Rightarrow> bytes"

text \<open>A call of another keeper with the context's height.\<close>

definition at_height :: "(int \<Rightarrow> ('x, 'a) M) \<Rightarrow> ('x Ctx, 'a) M" where
  "at_height m = bindM (getsM block_height) (\<lambda>h. extM (m h))"

definition WithBlockHeight :: "int \<Rightarrow> ('x Ctx, unit) M" where
  "WithBlockHeight h = modifyM (\<lambda>c. c\<lparr>block_height := h\<rparr>)"

section \<open>The fee distribution state\<close>

text \<open>The allow list as a Go map from the given strings; a bad address panics.\<close>

definition allowed_addrs :: "'x XplaApp \<Rightarrow> string list \<Rightarrow> ('x Ctx, (string \<times> bool) list) M" where
  "allowed_addrs app addrs =
     foldM (\<lambda>addr m. thenM (must (liftO (ValAddressFromBech32 (app_bech32 app) addr)))
       (ret (gomap_set addr True m))) addrs []"

text \<open>
  The commission of one validator.  A bad operator address is only logged, and the withdrawal
  goes on with the nil address; its error is only logged too.
\<close>

definition withdraw_commission :: "'x XplaApp \<Rightarrow> Validator \<Rightarrow> ('x Ctx, unit) M" where
  "withdraw_commission app val =
     bindM (attempt (liftO (stk_ValStringToBytes (app_StakingKeeper app) (OperatorAddress val)))) (\<lambda>r.
     let valAddr = (case r of Inl _ \<Rightarrow> [] | Inr a \<Rightarrow> a) in
     bindM (attempt (at_height (\<lambda>h. app_WithdrawValidatorCommission app h valAddr))) (\<lambda>_. ret ()))"

definition withdraw_rewards :: "'x XplaApp \<Rightarrow> Delegation \<Rightarrow> ('x Ctx, unit) M" where
  "withdraw_rewards app delegation =
     bindM (must (liftO (ValAddressFromBech32 (app_bech32 app) (ValidatorAddress delegation)))) (\<lambda>valAddr.
     bindM (must (liftO (AccAddressFromBech32 (app_bech32 app) (DelegatorAddress delegation)))) (\<lambda>delAddr.
     thenM (must (at_height (\<lambda>h. app_WithdrawDelegationRewards app h delAddr valAddr))) (ret ())))"

text \<open>Outstanding fractions go to the community pool before the validator is initialised again.\<close>

definition reinit_validator :: "'x XplaApp \<Rightarrow> Validator \<Rightarrow> ('x Ctx, unit) M" where
  "reinit_validator app val =
     bindM (must (liftO (stk_ValStringToBytes (app_StakingKeeper app) (OperatorAddress val)))) (\<lambda>valAddr.
     bindM (must (extM (app_GetValidatorOutstandingRewardsCoins app valAddr))) (\<lambda>scraps.
     bindM (must (extM (app_FeePool_Get app))) (\<lambda>communityPool.
     bindM (liftO (app_DecCoins_Add app communityPool scraps)) (\<lambda>communityPool'.
     thenM (must (extM (app_FeePool_Set app communityPool'))) (
     must (at_height (\<lambda>h. app_AfterValidatorCreated app h valAddr)))))))"

definition reinit_delegation :: "'x XplaApp \<Rightarrow> Delegation \<Rightarrow> ('x Ctx, unit) M" where
  "reinit_delegation app del =
     bindM (must (liftO (ValAddressFromBech32 (app_bech32 app) (ValidatorAddress del)))) (\<lambda>valAddr.
     bindM (must (liftO (AccAddressFromBech32 (app_bech32 app) (DelegatorAddress del)))) (\<lambda>delAddr.
     thenM (must (at_height (\<lambda>h. app_BeforeDelegationCreated app h delAddr valAddr))) (
     must (at_height (\<lambda>h. app_AfterDelegationModified app h delAddr valAddr)))))"

definition prep_distribution :: "'x XplaApp \<Rightarrow> ('x Ctx, unit) M" where
  "prep_distribution app =
     bindM (must (extM (app_IterateValidators app))) (\<lambda>vals.
     thenM (forM vals (withdraw_commission app)) (
     bindM (must (extM (app_GetAllDelegations app))) (\<lambda>dels.
     thenM (forM dels (withdraw_rewards app)) (
     thenM (extM (app_DeleteAllValidatorSlashEvents app)) (
     thenM (extM (app_DeleteAllValidatorHistoricalRewards app)) (
     bindM (getsM block_height) (\<lambda>height.
     thenM (WithBlockHeight 0) (
     bindM (must (extM (app_IterateValidators app))) (\<lambda>vals'.
     thenM (forM vals' (reinit_validator app)) (
     thenM (forM dels (reinit_delegation app)) (
     WithBlockHeight height)))))))))))"

section \<open>The staking and slashing state\<close>

definition reset_entry :: "Entry \<Rightarrow> Entry" where
  "reset_entry e = e\<lparr>CreationHeight := 0\<rparr>"

definition reset_redelegation :: "'x XplaApp \<Rightarrow> Redelegation \<Rightarrow> ('x Ctx, unit) M" where
  "reset_redelegation app red =
     must (extM (app_SetRedelegation app (red\<lparr>red_Entries := map reset_entry (red_Entries red)\<rparr>)))"

definition reset_unbonding :: "'x XplaApp \<Rightarrow> UnbondingDelegation \<Rightarrow> ('x Ctx, unit) M" where
  "reset_unbonding app ubd =
     must (extM (app_SetUnbondingDelegation app (ubd\<lparr>ubd_Entries := map reset_entry (ubd_Entries ubd)\<rparr>)))"

text \<open>
  One validator of the reverse iteration.  Only the record is written: the power index keeps
  its entry even when the record becomes jailed.
\<close>

definition reset_validator ::
    "'x XplaApp \<Rightarrow> bool \<Rightarrow> (string \<times> bool) list \<Rightarrow> bytes \<Rightarrow> ('x Ctx, unit) M" where
  "reset_validator app applyAllowedAddrs allowedAddrsMap key =
     bindM (liftO (app_AddressFromValidatorsKey app key)) (\<lambda>addr.
     bindM (must (extM (stk_GetValidator (app_StakingKeeper app) addr))) (\<lambda>validator0.
     let validator1 = validator0\<lparr>UnbondingHeight := 0\<rparr>;
         allowed = (map_of allowedAddrsMap (ValAddress_String (app_bech32 app) addr) = Some True);
         validator = (if applyAllowedAddrs \<and> \<not> allowed then validator1\<lparr>Jailed := True\<rparr> else validator1) in
     must (extM (stk_SetValidator (app_StakingKeeper app) validator))))"

definition reset_signing_info :: "'x XplaApp \<Rightarrow> bytes \<times> SigningInfo \<Rightarrow> ('x Ctx, unit) M" where
  "reset_signing_info app e =
     must (extM (app_SetValidatorSigningInfo app (fst e) ((snd e)\<lparr>StartHeight := 0\<rparr>)))"

definition reset_redelegations :: "'x XplaApp \<Rightarrow> ('x Ctx, unit) M" where
  "reset_redelegations app =
     bindM (must (extM (app_IterateRedelegations app))) (\<lambda>reds. forM reds (reset_redelegation app))"

definition reset_unbondings :: "'x XplaApp \<Rightarrow> ('x Ctx, unit) M" where
  "reset_unbondings app =
     bindM (must (extM (app_IterateUnbondingDelegations app))) (\<lambda>ubds. forM ubds (reset_unbonding app))"

definition reset_validators :: "'x XplaApp \<Rightarrow> bool \<Rightarrow> (string \<times> bool) list \<Rightarrow> ('x Ctx, unit) M" where
  "reset_validators app applyAllowedAddrs allowedAddrsMap =
     bindM (extM (app_ValidatorsReverseIterator app)) (\<lambda>keys.
     forM keys (reset_validator app applyAllowedAddrs allowedAddrsMap))"

definition reset_signing_infos :: "'x XplaApp \<Rightarrow> ('x Ctx, unit) M" where
  "reset_signing_infos app =
     bindM (must (extM (app_IterateValidatorSigningInfos app))) (\<lambda>infos. forM infos (reset_signing_info app))"

definition prep_staking ::
    "'x XplaApp \<Rightarrow> bool \<Rightarrow> (string \<times> bool) list \<Rightarrow> ('x Ctx, unit) M" where
  "prep_staking app applyAllowedAddrs allowedAddrsMap =
     thenM (reset_redelegations app) (
     thenM (reset_unbondings app) (
     reset_validators app applyAllowedAddrs allowedAddrsMap))"

definition prepForZeroHeightGenesis ::
    "((string \<times> VolunteerValidator) list \<Rightarrow> (string \<times> VolunteerValidator) list) \<Rightarrow>
     ((string \<times> bytes) list \<Rightarrow> (string \<times> bytes) list) \<Rightarrow>
     'x XplaApp \<Rightarrow> string list \<Rightarrow> ('x Ctx, unit) M" where
  "prepForZeroHeightGenesis rngV rngL app jailAllowedAddrs =
     bindM (allowed_addrs app jailAllowedAddrs) (\<lambda>allowedAddrsMap.
     thenM (prep_distribution app) (
     thenM (prep_staking app (0 < length jailAllowedAddrs) allowedAddrsMap) (
     thenM (must (ApplyAndReturnValidatorSetUpdates rngV rngL (app_StakingKeeper app))) (
     reset_signing_infos app))))"

section \<open>The export\<close>

definition ExportAppStateAndValidators ::
    "((string \<times> VolunteerValidator) list \<Rightarrow> (string \<times> VolunteerValidator) list) \<Rightarrow>
     ((string \<times> bytes) list \<Rightarrow> (string \<times> bytes) list) \<Rightarrow>
     'x XplaApp \<Rightarrow> bool \<Rightarrow> string list \<Rightarrow> string list \<Rightarrow> ('x Ctx, ExportedApp) M" where
  "ExportAppStateAndValidators rngV rngL app forZeroHeight jailAllowedAddrs modulesToExport =
     thenM (modifyM (\<lambda>c. c\<lparr>block_height := sint (app_LastBlockHeight app), is_check_tx := True\<rparr>)) (
     let height = (if forZeroHeight then 0 else app_LastBlockHeight app + 1) in
     thenM (if forZeroHeight then prepForZeroHeightGenesis rngV rngL app jailAllowedAddrs else ret ()) (
     bindM (app_ExportGenesisForModules app modulesToExport) (\<lambda>genState.
     bindM (liftO (app_MarshalIndent app genState)) (\<lambda>appState.
     bindM (extM (app_WriteValidators app)) (\<lambda>validators.
     bindM (getsM (\<lambda>c. app_GetConsensusParams app (ext c))) (\<lambda>params.
     ret \<lparr>AppState = appState, Validators = validators, ExportHeight = height,
          ConsensusParams = params\<rparr>))))))"

section \<open>Specification\<close>

text \<open>What the other modules' stores hold, seen through their documented contents.\<close>

record 'x ExportView =
  ev_reds :: "'x \<Rightarrow> string \<times> string \<times> string \<Rightarrow> Redelegation option"
  ev_ubds :: "'x \<Rightarrow> string \<times> string \<Rightarrow> UnbondingDelegation option"
  ev_infos :: "'x \<Rightarrow> bytes \<Rightarrow> SigningInfo option"
  ev_community :: "'x \<Rightarrow> string \<Rightarrow> int"
  ev_outstanding :: "'x \<Rightarrow> ValAddress \<Rightarrow> string \<Rightarrow> int"

definition red_key :: "Redelegation \<Rightarrow> string \<times> string \<times> string" where
  "red_key r = (red_Delegator r, red_ValidatorSrc r, red_ValidatorDst r)"

definition ubd_key :: "UnbondingDelegation \<Rightarrow> string \<times> string" where
  "ubd_key u = (ubd_Delegator u, ubd_Validator u)"

text \<open>A call that leaves the observation \<open>ob\<close> of the state alone, on every branch.\<close>

definition idle :: "('x \<Rightarrow> 'o) \<Rightarrow> ('x, 'a) M \<Rightarrow> bool" where
  "idle ob m \<longleftrightarrow> (\<forall>x. ob (snd (m x)) = ob x)"

text \<open>An iteration over a store: read-only, and it lists every entry once under its key.\<close>

definition lists_store :: "('x, 'e list) M \<Rightarrow> ('e \<Rightarrow> 'k) \<Rightarrow> ('e \<Rightarrow> 'v) \<Rightarrow> ('x \<Rightarrow> 'k \<Rightarrow> 'v option) \<Rightarrow> bool" where
  "lists_store m key val view \<longleftrightarrow> reads_only m \<and>
     (\<forall>x es. fst (m x) = Ok es \<longrightarrow> distinct (map key es) \<and> map_of (map (\<lambda>e. (key e, val e)) es) = view x)"

definition distribution_idle :: "'x XplaApp \<Rightarrow> ('x \<Rightarrow> 'o) \<Rightarrow> bool" where
  "distribution_idle app ob \<longleftrightarrow>
     idle ob (app_IterateValidators app) \<and> idle ob (app_GetAllDelegations app) \<and>
     (\<forall>h a. idle ob (app_WithdrawValidatorCommission app h a)) \<and>
     (\<forall>h a b. idle ob (app_WithdrawDelegationRewards app h a b)) \<and>
     idle ob (app_DeleteAllValidatorSlashEvents app) \<and>
     idle ob (app_DeleteAllValidatorHistoricalRewards app) \<and>
     (\<forall>a. idle ob (app_GetValidatorOutstandingRewardsCoins app a)) \<and>
     idle ob (app_FeePool_Get app) \<and> (\<forall>cs. idle ob (app_FeePool_Set app cs)) \<and>
     (\<forall>h a. idle ob (app_AfterValidatorCreated app h a)) \<and>
     (\<forall>h a b. idle ob (app_BeforeDelegationCreated app h a b)) \<and>
     (\<forall>h a b. idle ob (app_AfterDelegationModified app h a b))"

definition update_idle :: "'x StakingKeeper \<Rightarrow> ('x \<Rightarrow> 'o) \<Rightarrow> bool" where
  "update_idle k ob \<longleftrightarrow>
     idle ob (stk_MaxValidators k) \<and> idle ob (stk_LastValidatorsIterator k) \<and>
     idle ob (stk_ValidatorsPowerStoreIterator k) \<and> idle ob (stk_BondDenom k) \<and>
     (\<forall>a. idle ob (stk_GetValidator k a)) \<and> (\<forall>v. idle ob (stk_SetValidator k v)) \<and>
     (\<forall>v. idle ob (stk_DeleteValidatorByPowerIndex k v)) \<and>
     (\<forall>v. idle ob (stk_SetValidatorByPowerIndex k v)) \<and>
     (\<forall>v. idle ob (stk_DeleteValidatorQueue k v)) \<and>
     (\<forall>ca a. idle ob (stk_AfterValidatorBonded k ca a)) \<and>
     (\<forall>v. idle ob (stk_BeginUnbondingValidator k v)) \<and>
     (\<forall>a p. idle ob (stk_SetLastValidatorPower k a p)) \<and>
     (\<forall>a. idle ob (stk_DeleteLastValidatorPower k a)) \<and>
     (\<forall>n. idle ob (stk_SetLastTotalPower k n)) \<and> (\<forall>us. idle ob (stk_SetValidatorUpdates k us)) \<and>
     (\<forall>f t cs. idle ob (stk_SendCoinsFromModuleToModule k f t cs))"

text \<open>The stores of redelegations, unbonding delegations and signing infos are independent.\<close>

definition height_laws :: "'x XplaApp \<Rightarrow> 'x ExportView \<Rightarrow> bool" where
  "height_laws app E \<longleftrightarrow>
     (let ob = (\<lambda>x. (ev_reds E x, ev_ubds E x)) in
     distribution_idle app ob \<and> update_idle (app_StakingKeeper app) ob \<and>
     idle ob (app_IterateValidatorSigningInfos app) \<and> idle ob (app_ValidatorsReverseIterator app) \<and>
     (\<forall>a i. idle ob (app_SetValidatorSigningInfo app a i)) \<and>
     (\<forall>r. idle (ev_ubds E) (app_SetRedelegation app r)) \<and> (\<forall>u. idle (ev_reds E) (app_SetUnbondingDelegation app u))) \<and>
     lists_store (app_IterateRedelegations app) red_key (\<lambda>r. r) (ev_reds E) \<and>
     (\<forall>r x y. app_SetRedelegation app r x = (Ok (), y) \<longrightarrow> ev_reds E y = (ev_reds E x)(red_key r \<mapsto> r)) \<and>
     lists_store (app_IterateUnbondingDelegations app) ubd_key (\<lambda>u. u) (ev_ubds E) \<and>
     (\<forall>u x y. app_SetUnbondingDelegation app u x = (Ok (), y) \<longrightarrow> ev_ubds E y = (ev_ubds E x)(ubd_key u \<mapsto> u)) \<and>
     lists_store (app_IterateValidatorSigningInfos app) fst snd (ev_infos E) \<and>
     (\<forall>a i x y. app_SetValidatorSigningInfo app a i x = (Ok (), y) \<longrightarrow> ev_infos E y = (ev_infos E x)(a \<mapsto> i))"

text \<open>The distribution module's outstanding rewards and community pool.\<close>

definition reward_laws :: "'x XplaApp \<Rightarrow> 'x ExportView \<Rightarrow> bool" where
  "reward_laws app E \<longleftrightarrow>
     (\<forall>a. reads_only (app_GetValidatorOutstandingRewardsCoins app a)) \<and> reads_only (app_FeePool_Get app) \<and>
     (\<forall>a x cs. fst (app_GetValidatorOutstandingRewardsCoins app a x) = Ok cs \<longrightarrow> amount_of cs = ev_outstanding E x a) \<and>
     (\<forall>x cs. fst (app_FeePool_Get app x) = Ok cs \<longrightarrow> amount_of cs = ev_community E x) \<and>
     (\<forall>as bs cs. app_DecCoins_Add app as bs = Ok cs \<longrightarrow> (\<forall>dn. amount_of cs dn = amount_of as dn + amount_of bs dn)) \<and>
     (\<forall>cs x y. app_FeePool_Set app cs x = (Ok (), y) \<longrightarrow>
        ev_community E y = amount_of cs \<and> ev_outstanding E y = ev_outstanding E x) \<and>
     (\<forall>h a x y. app_AfterValidatorCreated app h a x = (Ok (), y) \<longrightarrow>
        ev_community E y = ev_community E x \<and> ev_outstanding E y = (ev_outstanding E x)(a := \<lambda>_. 0))"

text \<open>
  The staking view with the power index and the seat limit: what everything before the
  validator set update leaves alone, except for the records themselves.  Storing a record does
  not write the power index.
\<close>

definition staking_ob :: "'x StakingKeeper \<Rightarrow> 'x StakingView \<Rightarrow> 'x \<Rightarrow> _" where
  "staking_ob k V x = (view_last V x, fst (stk_ValidatorsPowerStoreIterator k x), fst (stk_MaxValidators k x))"

definition jail_laws :: "'x XplaApp \<Rightarrow> 'x StakingView \<Rightarrow> bool" where
  "jail_laws app V \<longleftrightarrow>
     (let k = app_StakingKeeper app; ob = (\<lambda>x. (view_vals V x, staking_ob k V x)) in
     staking_laws k V \<and> distribution_idle app ob \<and>
     idle ob (app_IterateRedelegations app) \<and> (\<forall>r. idle ob (app_SetRedelegation app r)) \<and>
     idle ob (app_IterateUnbondingDelegations app) \<and> (\<forall>u. idle ob (app_SetUnbondingDelegation app u)) \<and>
     (\<forall>v. idle (staking_ob k V) (stk_SetValidator k v)) \<and>
     (\<forall>v w r. Tokens v = Tokens w \<longrightarrow> stk_PotentialConsensusPower k v r = stk_PotentialConsensusPower k w r) \<and>
     reads_only (app_ValidatorsReverseIterator app) \<and>
     (\<forall>x keys. fst (app_ValidatorsReverseIterator app x) = Ok keys \<longrightarrow>
        (\<exists>as. list_all2 (\<lambda>key a. app_AddressFromValidatorsKey app key = Ok a) keys as \<and>
          distinct as \<and> set as = dom (view_vals V x))))"

text \<open>The slashing keeper's calls leave the observation \<open>ob\<close> alone.\<close>

definition slashing_idle :: "'x XplaApp \<Rightarrow> ('x \<Rightarrow> 'o) \<Rightarrow> bool" where
  "slashing_idle app ob \<longleftrightarrow> idle ob (app_IterateValidatorSigningInfos app) \<and>
     (\<forall>a i. idle ob (app_SetValidatorSigningInfo app a i))"

text \<open>The record a validator has in the exported genesis.\<close>

definition genesis_record :: "'x XplaApp \<Rightarrow> string list \<Rightarrow> ValAddress \<Rightarrow> Validator \<Rightarrow> Validator" where
  "genesis_record app addrs a v = v\<lparr>UnbondingHeight := 0,
     Jailed := Jailed v \<or> (addrs \<noteq> [] \<and> ValAddress_String (app_bech32 app) a \<notin> set addrs)\<rparr>"

text \<open>The entries of the exported genesis: creation heights cleared, the rest kept.\<close>

definition clear_red :: "Redelegation \<Rightarrow> Redelegation" where
  "clear_red r = r\<lparr>red_Entries := map reset_entry (red_Entries r)\<rparr>"

definition clear_ubd :: "UnbondingDelegation \<Rightarrow> UnbondingDelegation" where
  "clear_ubd u = u\<lparr>ubd_Entries := map reset_entry (ubd_Entries u)\<rparr>"

section \<open>A reference application\<close>

text \<open>
  The staking state of \<open>Staking\<close> with the other modules' stores beside it: one redelegation,
  one unbonding delegation, one signing info and some outstanding rewards.
\<close>

record RefExport = RefStaking +
  re_reds :: "Redelegation list"
  re_ubds :: "UnbondingDelegation list"
  re_infos :: "(bytes \<times> SigningInfo) list"
  re_community :: DecCoins
  re_outstanding :: "(bytes \<times> DecCoins) list"

definition ref_reds :: "RefExport \<Rightarrow> string \<times> string \<times> string \<Rightarrow> Redelegation option" where
  "ref_reds x = map_of (map (\<lambda>r. (red_key r, r)) (re_reds x))"

definition ref_ubds :: "RefExport \<Rightarrow> string \<times> string \<Rightarrow> UnbondingDelegation option" where
  "ref_ubds x = map_of (map (\<lambda>u. (ubd_key u, u)) (re_ubds x))"

definition dec_coins :: "int \<Rightarrow> DecCoins" where
  "dec_coins n = [\<lparr>Denom = ''axpla'', Amount = n\<rparr>]"

definition ref_outstanding :: "RefExport \<Rightarrow> bytes \<Rightarrow> DecCoins" where
  "ref_outstanding x a = (case map_of (re_outstanding x) a of None \<Rightarrow> [] | Some cs \<Rightarrow> cs)"

text \<open>The last entry stored under each key, as an iterator lists them.\<close>

definition last_entries :: "('e \<Rightarrow> 'k) \<Rightarrow> 'e list \<Rightarrow> 'e list" where
  "last_entries key es = map (\<lambda>k. the (map_of (map (\<lambda>e. (key e, e)) es) k)) (remdups (map key es))"

definition ref_app :: "RefExport XplaApp" where
  "ref_app = \<lparr>app_StakingKeeper = ref_stk, app_bech32 = ref_bech32, app_LastBlockHeight = 41,
     app_IterateValidators = getsM (\<lambda>x. map snd (rs_vals x)),
     app_WithdrawValidatorCommission = (\<lambda>_ _. ret []), app_GetAllDelegations = ret [],
     app_WithdrawDelegationRewards = (\<lambda>_ _ _. ret []),
     app_DeleteAllValidatorSlashEvents = ret (), app_DeleteAllValidatorHistoricalRewards = ret (),
     app_GetValidatorOutstandingRewardsCoins = (\<lambda>a. getsM (\<lambda>x. ref_outstanding x a)),
     app_FeePool_Get = getsM re_community,
     app_FeePool_Set = (\<lambda>cs. modifyM (\<lambda>x. x\<lparr>re_community := cs\<rparr>)),
     app_DecCoins_Add = (\<lambda>as bs. Ok (as @ bs)),
     app_AfterValidatorCreated = (\<lambda>_ a. modifyM (\<lambda>x. x\<lparr>re_outstanding := (a, []) # re_outstanding x\<rparr>)),
     app_BeforeDelegationCreated = (\<lambda>_ _ _. ret ()), app_AfterDelegationModified = (\<lambda>_ _ _. ret ()),
     app_IterateRedelegations = getsM (\<lambda>x. last_entries red_key (re_reds x)),
     app_SetRedelegation = (\<lambda>r. modifyM (\<lambda>x. x\<lparr>re_reds := r # re_reds x\<rparr>)),
     app_IterateUnbondingDelegations = getsM (\<lambda>x. last_entries ubd_key (re_ubds x)),
     app_SetUnbondingDelegation = (\<lambda>u. modifyM (\<lambda>x. x\<lparr>re_ubds := u # re_ubds x\<rparr>)),
     app_ValidatorsReverseIterator = getsM (\<lambda>x. rev (remdups (filter (\<lambda>a. rs_lookup x a \<noteq> None) (map fst (rs_vals x))))),
     app_AddressFromValidatorsKey = Ok,
     app_IterateValidatorSigningInfos = getsM (\<lambda>x. last_entries fst (re_infos x)),
     app_SetValidatorSigningInfo = (\<lambda>a i. modifyM (\<lambda>x. x\<lparr>re_infos := (a, i) # re_infos x\<rparr>)),
     app_ExportGenesisForModules = (\<lambda>_. ret []), app_MarshalIndent = (\<lambda>_. Ok []),
     app_WriteValidators = ret [], app_GetConsensusParams = (\<lambda>_. [])\<rparr>"

definition ref_export_view :: "RefExport ExportView" where
  "ref_export_view = \<lparr>ev_reds = ref_reds, ev_ubds = ref_ubds, ev_infos = (\<lambda>x. map_of (re_infos x)),
     ev_community = (\<lambda>x. amount_of (re_community x)),
     ev_outstanding = (\<lambda>x a. amount_of (ref_outstanding x a))\<rparr>"

definition ref_entry :: Entry where
  "ref_entry = \<lparr>CreationHeight = 17, CompletionTime = 90, InitialBalance = 5, EntryBalance = 5\<rparr>"

definition ref_export_state :: RefExport where
  "ref_export_state = RefStaking.extend ref_staking_state (RefExport.fields
     [\<lparr>red_Delegator = ''d'', red_ValidatorSrc = ''a'', red_ValidatorDst = ''v'', red_Entries = [ref_entry]\<rparr>]
     [\<lparr>ubd_Delegator = ''d'', ubd_Validator = ''a'', ubd_Entries = [ref_entry, ref_entry]\<rparr>]
     [([1], \<lparr>StartHeight = 3, IndexOffset = 9, Tombstoned = False\<rparr>)] (dec_coins 7) [([97], dec_coins 2), ([118], dec_coins 3)])"

definition ref_export_ctx :: "RefExport Ctx" where
  "ref_export_ctx = (ref_ctx ref_export_state)\<lparr>volunteer_kv := [([0x11, 1, 118], ref_volunteer)]\<rparr>"

section \<open>Idle calls\<close>

lemma keeps_idle:
  "idle ob m \<Longrightarrow> keeps (\<lambda>c. ob (ext c) = o' \<and> volunteer_kv c = kv) (extM m)"
  by (auto simp: keeps_def extM_apply idle_def split: prod.splits) (metis snd_conv)+

lemma keeps_at_height [keeps_intro]: "(\<And>h. keeps P (extM (m h))) \<Longrightarrow> keeps P (at_height m)"
  unfolding at_height_def by (rule keeps_bindM) (rule keeps_getsM)

lemma keeps_WithBlockHeight [keeps_intro]:
  "keeps (\<lambda>c. ob (ext c) = o' \<and> volunteer_kv c = kv) (WithBlockHeight h)"
  by (simp add: WithBlockHeight_def keeps_def)

text \<open>The rules for operations whose calls are all idle.\<close>

lemmas idle_intro = keeps_idle keeps_at_height keeps_WithBlockHeight keeps_must keeps_attempt keeps_bindM
  keeps_thenM keeps_forM keeps_foldM keeps_ret keeps_panic keeps_liftO keeps_getsM keeps_if

lemma keeps_ob:
  assumes "keeps (\<lambda>c. ob (ext c) = ob (ext c0) \<and> volunteer_kv c = volunteer_kv c0) m" "m c0 = (r, d)"
  shows "ob (ext d) = ob (ext c0)" "volunteer_kv d = volunteer_kv c0"
  using keepsD [OF assms(1) _ assms(2)] by simp_all

section \<open>Everything before the validator set update\<close>

lemma allowed_addrs_Ok:
  assumes "allowed_addrs app addrs c = (Ok m, d)"
  shows "d = c \<and> (\<forall>s. map_of m s = Some True \<longleftrightarrow> s \<in> set addrs)"
proof -
  have "d = c \<and> (\<forall>s. map_of m s = Some True \<longleftrightarrow> s \<in> set addrs \<or> map_of m0 s = Some True)"
    if "foldM (\<lambda>addr m. thenM (must (liftO (ValAddressFromBech32 (app_bech32 app) addr)))
       (ret (gomap_set addr True m))) addrs m0 c = (Ok m, d)" for m0
    using that by (induction addrs arbitrary: m0) (auto simp: thenM_eq_Ok gomap_set_get)
  from this [of "[]"] assms show ?thesis by (simp add: allowed_addrs_def)
qed

lemma prep_distribution_idle:
  assumes "distribution_idle app ob"
  shows "keeps (\<lambda>c. ob (ext c) = o' \<and> volunteer_kv c = kv) (prep_distribution app)"
proof -
  note d = assms [unfolded distribution_idle_def]
  show ?thesis
    unfolding prep_distribution_def withdraw_commission_def withdraw_rewards_def
      reinit_validator_def reinit_delegation_def Let_def
    by (intro idle_intro; simp add: d)
qed

lemma reset_validator_Ok:
  assumes laws: "staking_laws (app_StakingKeeper app) V"
    and ob: "\<forall>v. idle (staking_ob (app_StakingKeeper app) V) (stk_SetValidator (app_StakingKeeper app) v)"
    and m: "\<And>s. map_of m s = Some True \<longleftrightarrow> s \<in> set addrs"
    and key: "app_AddressFromValidatorsKey app key = Ok a"
    and run: "reset_validator app (0 < length addrs) m key c = (Ok (), d)"
  shows "\<exists>v. view_vals V (ext c) a = Some v \<and> volunteer_kv d = volunteer_kv c \<and>
    view_vals V (ext d) = (view_vals V (ext c))(a \<mapsto> genesis_record app addrs a v) \<and>
    staking_ob (app_StakingKeeper app) V (ext d) = staking_ob (app_StakingKeeper app) V (ext c)"
proof -
  let ?k = "app_StakingKeeper app"
  have rec: "genesis_record app addrs a v = (if 0 < length addrs \<and> map_of m (ValAddress_String (app_bech32 app) a) \<noteq> Some True
      then v\<lparr>UnbondingHeight := 0, Jailed := True\<rparr> else v\<lparr>UnbondingHeight := 0\<rparr>)" for v
    unfolding genesis_record_def m by (cases v) simp
  from run key obtain v x y where v: "extM (stk_GetValidator ?k a) c = (Ok v, c\<lparr>ext := x\<rparr>)"
      and set: "stk_SetValidator ?k (genesis_record app addrs a v) x = (Ok (), y)" and d: "d = c\<lparr>ext := y\<rparr>"
    by (auto simp: reset_validator_def Let_def rec extM_eq)
  have "reads_only (stk_GetValidator ?k a)" using laws by (simp add: staking_laws_def read_laws_def)
  from extM_reads_only [OF this v] laws have x: "c\<lparr>ext := x\<rparr> = c" and val: "view_vals V (ext c) a = Some v"
    by (auto simp: staking_laws_def read_laws_def)
  from x have x: "x = ext c" by (metis Ctx.select_convs(11) Ctx.surjective Ctx.update_convs(11))
  have "stk_ValStringToBytes ?k (OperatorAddress (genesis_record app addrs a v)) = Ok a"
    using law_operator [OF laws val] by (simp add: genesis_record_def)
  note s = law_SetValidator [OF laws set this]
  have "staking_ob ?k V y = staking_ob ?k V x" using ob set by (metis idle_def snd_conv)
  with s val d x show ?thesis by simp
qed

lemma reset_validators_Ok:
  assumes laws: "staking_laws (app_StakingKeeper app) V"
    and ob: "\<forall>v. idle (staking_ob (app_StakingKeeper app) V) (stk_SetValidator (app_StakingKeeper app) v)"
    and m: "\<And>s. map_of m s = Some True \<longleftrightarrow> s \<in> set addrs"
    and "list_all2 (\<lambda>key a. app_AddressFromValidatorsKey app key = Ok a) keys as" "distinct as"
    and "forM keys (reset_validator app (0 < length addrs) m) c = (Ok (), d)"
  shows "volunteer_kv d = volunteer_kv c \<and>
    view_vals V (ext d) = (\<lambda>a. if a \<in> set as then map_option (genesis_record app addrs a) (view_vals V (ext c) a)
      else view_vals V (ext c) a) \<and>
    staking_ob (app_StakingKeeper app) V (ext d) = staking_ob (app_StakingKeeper app) V (ext c)"
  using assms(4-)
proof (induction arbitrary: c rule: list_all2_induct)
  case Nil
  then show ?case by simp
next
  case (Cons key keys a as)
  from Cons.prems(2) obtain c1 where one: "reset_validator app (0 < length addrs) m key c = (Ok (), c1)"
      and rest: "forM keys (reset_validator app (0 < length addrs) m) c1 = (Ok (), d)"
    by (auto simp: bindM_eq_Ok)
  from reset_validator_Ok [OF laws ob m Cons.hyps(1) one] Cons.IH [OF _ rest] Cons.prems(1)
  show ?case by (auto simp: fun_eq_iff)
qed

lemma prep_staking_Ok:
  assumes laws: "jail_laws app V" and m: "\<And>s. map_of m s = Some True \<longleftrightarrow> s \<in> set addrs"
    and run: "prep_staking app (0 < length addrs) m c = (Ok (), d)"
  shows "volunteer_kv d = volunteer_kv c \<and>
    view_vals V (ext d) = (\<lambda>a. map_option (genesis_record app addrs a) (view_vals V (ext c) a)) \<and>
    staking_ob (app_StakingKeeper app) V (ext d) = staking_ob (app_StakingKeeper app) V (ext c)"
proof -
  let ?k = "app_StakingKeeper app" and ?ob = "\<lambda>x. (view_vals V x, staking_ob (app_StakingKeeper app) V x)"
  note l = laws [unfolded jail_laws_def Let_def]
  have keep: "keeps (\<lambda>x. ?ob (ext x) = o' \<and> volunteer_kv x = kv) (thenM (reset_redelegations app) (reset_unbondings app))" for o' kv
    unfolding reset_redelegations_def reset_unbondings_def reset_redelegation_def reset_unbonding_def
    by (intro idle_intro; simp add: l)
  from run obtain c1 keys x where f: "thenM (reset_redelegations app) (reset_unbondings app) c = (Ok (), c1)"
      and it: "app_ValidatorsReverseIterator app (ext c1) = (Ok keys, x)"
      and rest: "forM keys (reset_validator app (0 < length addrs) m) (c1\<lparr>ext := x\<rparr>) = (Ok (), d)"
    by (fastforce simp: prep_staking_def reset_validators_def thenM_eq_Ok extM_eq)
  note o1 = keeps_ob [OF keep f]
  have "reads_only (app_ValidatorsReverseIterator app)" using l by simp
  then have "x = ext c1" using it by (rule reads_onlyD)
  then have rest: "forM keys (reset_validator app (0 < length addrs) m) c1 = (Ok (), d)" using rest by simp
  have "\<exists>as. list_all2 (\<lambda>key a. app_AddressFromValidatorsKey app key = Ok a) keys as \<and>
      distinct as \<and> set as = dom (view_vals V (ext c1))"
    using l it by (elim conjE allE [of _ "ext c1"] allE [of _ keys] impE) simp_all
  then obtain as where as: "list_all2 (\<lambda>key a. app_AddressFromValidatorsKey app key = Ok a) keys as"
      "distinct as" "set as = dom (view_vals V (ext c1))"
    by blast
  have st: "staking_laws ?k V" and ob: "\<forall>v. idle (staking_ob ?k V) (stk_SetValidator ?k v)" using l by auto
  from reset_validators_Ok [OF st ob m as(1,2) rest] o1 as(3) show ?thesis
    by (auto simp: fun_eq_iff domIff split: if_splits)
qed


section \<open>A jailed validator in the power index stops the update\<close>

lemma select_body_jailed:
  assumes laws: "staking_laws k V" and v: "view_vals V (ext c) a = Some v" "Jailed v" and "sel_count st < maxV"
  shows "select_body k maxV a st c \<noteq> (Ok r, d)"
proof
  assume "select_body k maxV a st c = (Ok r, d)"
  from mustGetValidator_bind [OF laws this [unfolded select_body_def Let_def] v(1)] v(2) assms(4)
  show False by (auto split: if_splits)
qed

lemma select_loop_not_jailed:
  assumes laws: "staking_laws k V" and "select_loop k maxV (bs @ a # rest) st c = (Ok st', d)" "distinct (bs @ a # rest)"
    and "\<forall>b \<in> set (bs @ [a]). view_vals V (ext c) b = Some (W b)" "last_mirror k V (sel_last st) (ext c)"
    and "\<forall>b \<in> set bs. \<not> no_power k (W b)" "sel_count st + length bs < maxV"
  shows "\<not> Jailed (W a)"
  using assms(2-)
proof (induction bs arbitrary: st c)
  case Nil
  then have "view_vals V (ext c) a = Some (W a)" "sel_count st < maxV" by simp_all
  with select_body_jailed [OF laws this(1) _ this(2)] Nil.prems(1) show ?case by auto
next
  case (Cons b bs)
  from Cons.prems(6) have less: "sel_count st < maxV" by simp
  from Cons.prems(3) have v: "view_vals V (ext c) b = Some (W b)" by simp
  from less Cons.prems(1) obtain goes st1 c1 where body: "select_body k maxV b st c = (Ok (goes, st1), c1)"
      and more: "(if goes then select_loop k maxV (bs @ a # rest) st1 else ret st1) c1 = (Ok st', d)"
    by auto
  from laws body v Cons.prems(4) show ?case
  proof (cases rule: select_body_cases)
    case skip
    with less show ?thesis by simp
  next
    case stop
    with Cons.prems(5) show ?thesis by simp
  next
    case (take s)
    have "last_mirror k V (sel_last st1) (ext c1)"
      unfolding take(8) by (rule last_mirror_take [OF laws Cons.prems(4) take(7,10)])
    moreover have "\<forall>x \<in> set (bs @ [a]). view_vals V (ext c1) x = Some (W x)"
      using Cons.prems(2,3) take(11) by auto
    moreover have "select_loop k maxV (bs @ a # rest) st1 c1 = (Ok st', d)" using more take(3) by simp
    ultimately show ?thesis using Cons.IH Cons.prems(2,5,6) take(5) by simp
  qed
qed

lemma apply_not_jailed:
  assumes laws: "staking_laws k V" and vols: "stk_volunteers k c = (Ok vols, c)"
    and run: "ApplyAndReturnValidatorSetUpdates rngV rngL k c = (Ok ups, d)"
    and idx: "fst (stk_ValidatorsPowerStoreIterator k (ext c)) = Ok (bs @ a # rest)" "distinct (bs @ a # rest)"
    and max: "fst (stk_MaxValidators k (ext c)) = Ok maxV"
    and recs: "\<forall>b \<in> set (bs @ [a]). view_vals V (ext c) b = Some (W b)"
    and power: "\<forall>b \<in> set bs. \<not> no_power k (W b)" and top: "length bs < unat maxV"
  shows "\<not> Jailed (W a)"
proof -
  have ro: "reads_only (stk_MaxValidators k)" "reads_only (stk_ValidatorsPowerStoreIterator k)"
    using laws by (simp_all add: staking_laws_def read_laws_def)
  have m1: "extM (stk_MaxValidators k) c = (Ok maxV, c)"
    and m2: "extM (stk_ValidatorsPowerStoreIterator k) c = (Ok (bs @ a # rest), c)"
    using ro max idx(1) by (simp_all add: extM_apply split_def reads_only_def)
  from run m1 obtain m c1 where gl: "getLastValidatorsByAddr k c = (Ok m, c1)"
    by (auto simp: ApplyAndReturnValidatorSetUpdates_def bindM_Ok)
  note last = getLastValidatorsByAddr_view [OF laws gl]
  from run obtain vs c2 st c3 where dj: "drop_jailed k (rngV vols) vols c = (Ok vs, c2)"
      and sl: "select_loop k (unat maxV) (bs @ a # rest) (start_selection vs m) c2 = (Ok st, c3)"
    unfolding ApplyAndReturnValidatorSetUpdates_def
    using m1 m2 gl last vols by (auto simp: bindM_Ok thenM_eq_Ok simp del: ret_apply)
  from drop_jailed_view [OF laws dj] have "c2 = c" by simp
  with select_loop_not_jailed [OF laws sl idx(2), of W] last recs power top show ?thesis
    by (simp add: start_selection_def)
qed

lemma no_power_genesis:
  assumes "jail_laws app V"
  shows "no_power (app_StakingKeeper app) (genesis_record app addrs a v) = no_power (app_StakingKeeper app) v"
proof -
  have "\<forall>v w r. Tokens v = Tokens w \<longrightarrow>
      stk_PotentialConsensusPower (app_StakingKeeper app) v r = stk_PotentialConsensusPower (app_StakingKeeper app) w r"
    using assms unfolding jail_laws_def Let_def by (elim conjE)
  moreover have "Tokens (genesis_record app addrs a v) = Tokens v" by (simp add: genesis_record_def)
  ultimately show ?thesis unfolding no_power_def by metis
qed

section \<open>Unbonding heights\<close>

lemma update_unbonding_heights:
  assumes laws: "staking_laws k V" and rngs: "go_range rngV" "go_range rngL"
    and vols: "stk_volunteers k c = (Ok vols, c)"
    and idx: "fst (stk_ValidatorsPowerStoreIterator k (ext c)) = Ok it" "distinct it"
    and run: "ApplyAndReturnValidatorSetUpdates rngV rngL k c = (Ok ups, d)"
    and zero: "\<forall>a v. view_vals V (ext c) a = Some v \<longrightarrow> UnbondingHeight v = 0"
    and v: "view_vals V (ext d) a = Some v"
  shows "UnbondingHeight v = 0 \<or> (view_last V (ext c) a \<noteq> None \<and> view_last V (ext d) a = None)"
proof -
  obtain maxV where max: "fst (stk_MaxValidators k (ext c)) = Ok maxV"
    using run by (auto simp: ApplyAndReturnValidatorSetUpdates_def bindM_extM_eq)
  let ?W = "\<lambda>a. the (view_vals V (ext c) a)"
  let ?ch = "set (chosen (no_power k) (unat maxV) ?W it 0 (active_volunteers k V (ext c) vols))"
  note view = apply_view [OF laws rngs vols idx max run]
  have last: "view_last V (ext d) = (\<lambda>a. if a \<in> ?ch then Some (power_bytes k (?W a)) else None)" using view by blast
  have ch: "view_vals V (ext c) a = Some (?W a)" "view_vals V (ext d) a = Some (bonded_version (?W a))" if "a \<in> ?ch"
    using view that by blast+
  have rest: "view_vals V (ext d) a = view_vals V (ext c) a" if "a \<notin> ?ch" "view_last V (ext c) a = None"
    using view that by blast
  show ?thesis
  proof (cases "a \<in> ?ch")
    case True
    with ch v zero show ?thesis by (auto simp: bonded_version_def)
  next
    case False
    then show ?thesis using last rest v zero by (cases "view_last V (ext c) a = None") auto
  qed
qed

lemma prepared_unbonding_heights:
  assumes laws: "jail_laws app V" and vols: "stk_volunteers (app_StakingKeeper app) = GetVolunteerValidators vk"
    and run: "prepForZeroHeightGenesis rngV rngL app addrs c = (Ok (), d)"
    and idl: "slashing_idle app (\<lambda>x. (view_vals V x, view_last V x))" and rngs: "go_range rngV" "go_range rngL"
    and idx: "fst (stk_ValidatorsPowerStoreIterator (app_StakingKeeper app) (ext c)) = Ok it" "distinct it"
    and v: "view_vals V (ext d) a = Some v"
  shows "UnbondingHeight v = 0 \<or> (view_last V (ext c) a \<noteq> None \<and> view_last V (ext d) a = None)"
proof -
  let ?k = "app_StakingKeeper app" and ?ob = "\<lambda>x. (view_vals V x, staking_ob (app_StakingKeeper app) V x)"
    and ?ov = "\<lambda>x. (view_vals V x, view_last V x)"
  from run obtain m c1 c2 c3 c4 ups where al: "allowed_addrs app addrs c = (Ok m, c1)"
      and pd: "prep_distribution app c1 = (Ok (), c2)" and ps: "prep_staking app (0 < length addrs) m c2 = (Ok (), c3)"
      and ap: "ApplyAndReturnValidatorSetUpdates rngV rngL ?k c3 = (Ok ups, c4)" and rs: "reset_signing_infos app c4 = (Ok (), d)"
    by (auto simp: prepForZeroHeightGenesis_def thenM_eq_Ok)
  have st: "staking_laws ?k V" and di: "distribution_idle app ?ob" using laws unfolding jail_laws_def Let_def by blast+
  note m = allowed_addrs_Ok [OF al]
  have "?ob (ext c2) = ?ob (ext c1)" by (rule keeps_ob(1) [OF prep_distribution_idle [OF di] pd])
  moreover have "view_vals V (ext c3) = (\<lambda>a. map_option (genesis_record app addrs a) (view_vals V (ext c2) a)) \<and>
      staking_ob ?k V (ext c3) = staking_ob ?k V (ext c2)"
    using prep_staking_Ok [OF laws _ ps] m by blast
  ultimately have c3: "\<forall>a v. view_vals V (ext c3) a = Some v \<longrightarrow> UnbondingHeight v = 0"
      "fst (stk_ValidatorsPowerStoreIterator ?k (ext c3)) = Ok it" "view_last V (ext c3) = view_last V (ext c)"
    using m idx(1) by (auto simp: staking_ob_def genesis_record_def)
  have vo: "stk_volunteers ?k c3 = (Ok (volunteer_map (volunteer_kv c3)), c3)" by (simp add: vols GetVolunteerValidators_def)
  have "keeps (\<lambda>x. ?ov (ext x) = o' \<and> volunteer_kv x = kv) (reset_signing_infos app)" for o' kv
    unfolding reset_signing_infos_def reset_signing_info_def using idl [unfolded slashing_idle_def] by (intro idle_intro; simp)
  from keeps_ob(1) [OF this rs] have d: "view_vals V (ext d) = view_vals V (ext c4)" "view_last V (ext d) = view_last V (ext c4)"
    by simp_all
  from update_unbonding_heights [OF st rngs vo c3(2) idx(2) ap c3(1)] v show ?thesis unfolding d c3(3) by blast
qed

section \<open>The stores whose heights are cleared\<close>

text \<open>Writing every entry of a store back under its key maps the store.\<close>

lemma rewrite_store:
  assumes set: "\<And>e x y. put e x = (Ok (), y) \<Longrightarrow> view y = (view x)(key e \<mapsto> val e)"
    and key: "\<And>e. key (f e) = key e"
    and "distinct (map key es)" "forM es (\<lambda>e. must (extM (put (f e)))) c = (Ok (), d)"
  shows "view (ext d) = (\<lambda>k. case map_of (map (\<lambda>e. (key e, val (f e))) es) k of
      None \<Rightarrow> view (ext c) k | Some v \<Rightarrow> Some v)"
  using assms(3,4)
proof (induction es arbitrary: c)
  case Nil
  then show ?case by simp
next
  case (Cons e es)
  from Cons.prems(2) obtain x where x: "put (f e) (ext c) = (Ok (), x)"
      and rest: "forM es (\<lambda>e. must (extM (put (f e)))) (c\<lparr>ext := x\<rparr>) = (Ok (), d)"
    by (auto simp: extM_eq bindM_eq_Ok)
  have "map_of (map (\<lambda>e. (key e, val (f e))) es) (key e) = None"
    using Cons.prems(1) by (auto simp: map_of_eq_None_iff)
  moreover have "view (ext d) = (\<lambda>k. case map_of (map (\<lambda>e. (key e, val (f e))) es) k of
      None \<Rightarrow> view x k | Some v \<Rightarrow> Some v)"
    using Cons.IH [OF _ rest] Cons.prems(1) by (simp cong: option.case_cong)
  ultimately show ?case using set [OF x] key [of e]
    by (auto simp: fun_eq_iff split: option.splits)
qed

lemma clear_store:
  assumes ls: "lists_store lst key val view"
    and set: "\<And>e x y. put e x = (Ok (), y) \<Longrightarrow> view y = (view x)(key e \<mapsto> val e)"
    and key: "\<And>e. key (f e) = key e" and val: "\<And>e. val (f e) = g (val e)"
    and run: "bindM (must (extM lst)) (\<lambda>es. forM es (\<lambda>e. must (extM (put (f e))))) c = (Ok (), d)"
  shows "view (ext d) = (\<lambda>k. map_option g (view (ext c) k))"
proof -
  from run obtain es x where es: "lst (ext c) = (Ok es, x)"
      and rest: "forM es (\<lambda>e. must (extM (put (f e)))) (c\<lparr>ext := x\<rparr>) = (Ok (), d)"
    by (auto simp: extM_eq)
  from ls es have x: "x = ext c" and dist: "distinct (map key es)"
      and all: "map_of (map (\<lambda>e. (key e, val e)) es) = view (ext c)"
    unfolding lists_store_def by (metis reads_onlyD, (metis fst_conv)+)
  have "map_of (map (\<lambda>e. (key e, val (f e))) es) = (\<lambda>k. map_option g (view (ext c) k))"
    unfolding all [symmetric] val by (induction es) auto
  with rewrite_store [where view = view, OF set key dist rest] x show ?thesis
    by (auto simp: fun_eq_iff split: option.splits)
qed


lemma law_red:
  assumes "height_laws app E"
  shows "lists_store (app_IterateRedelegations app) red_key (\<lambda>r. r) (ev_reds E)"
    "app_SetRedelegation app r x = (Ok (), y) \<Longrightarrow> ev_reds E y = (ev_reds E x)(red_key r \<mapsto> r)"
  using assms by (auto simp: height_laws_def Let_def)

lemma law_ubd:
  assumes "height_laws app E"
  shows "lists_store (app_IterateUnbondingDelegations app) ubd_key (\<lambda>u. u) (ev_ubds E)"
    "app_SetUnbondingDelegation app u x = (Ok (), y) \<Longrightarrow> ev_ubds E y = (ev_ubds E x)(ubd_key u \<mapsto> u)"
  using assms by (auto simp: height_laws_def Let_def)

lemma law_info:
  assumes "height_laws app E"
  shows "lists_store (app_IterateValidatorSigningInfos app) fst snd (ev_infos E)"
    "app_SetValidatorSigningInfo app a i x = (Ok (), y) \<Longrightarrow> ev_infos E y = (ev_infos E x)(a \<mapsto> i)"
  using assms by (auto simp: height_laws_def Let_def)

lemma idle_reads: "reads_only m \<Longrightarrow> idle ob m"
  by (simp add: idle_def reads_only_def)

lemma reset_redelegations_Ok:
  assumes laws: "height_laws app E" and run: "reset_redelegations app c = (Ok (), d)"
  shows "ev_reds E (ext d) = (\<lambda>k. map_option clear_red (ev_reds E (ext c) k)) \<and> ev_ubds E (ext d) = ev_ubds E (ext c)"
proof -
  have eq: "reset_redelegation app = (\<lambda>e. must (extM (app_SetRedelegation app (clear_red e))))"
    by (simp add: fun_eq_iff reset_redelegation_def clear_red_def)
  have "keeps (\<lambda>x. ev_ubds E (ext x) = o' \<and> volunteer_kv x = kv) (reset_redelegations app)" for o' kv
    unfolding reset_redelegations_def reset_redelegation_def using laws law_red(1) [OF laws]
    by (intro idle_intro) (auto simp: height_laws_def Let_def lists_store_def intro: idle_reads)
  from keeps_ob(1) [OF this run] show ?thesis
    using clear_store [of "app_IterateRedelegations app" red_key "\<lambda>r. r" "ev_reds E" "app_SetRedelegation app"
      clear_red clear_red c d, OF law_red(1) [OF laws] law_red(2) [OF laws]] run
    by (simp add: reset_redelegations_def eq clear_red_def red_key_def)
qed

lemma reset_unbondings_Ok:
  assumes laws: "height_laws app E" and run: "reset_unbondings app c = (Ok (), d)"
  shows "ev_ubds E (ext d) = (\<lambda>k. map_option clear_ubd (ev_ubds E (ext c) k)) \<and> ev_reds E (ext d) = ev_reds E (ext c)"
proof -
  have eq: "reset_unbonding app = (\<lambda>e. must (extM (app_SetUnbondingDelegation app (clear_ubd e))))"
    by (simp add: fun_eq_iff reset_unbonding_def clear_ubd_def)
  have "keeps (\<lambda>x. ev_reds E (ext x) = o' \<and> volunteer_kv x = kv) (reset_unbondings app)" for o' kv
    unfolding reset_unbondings_def reset_unbonding_def using laws law_ubd(1) [OF laws]
    by (intro idle_intro) (auto simp: height_laws_def Let_def lists_store_def intro: idle_reads)
  from keeps_ob(1) [OF this run] show ?thesis
    using clear_store [of "app_IterateUnbondingDelegations app" ubd_key "\<lambda>u. u" "ev_ubds E"
      "app_SetUnbondingDelegation app" clear_ubd clear_ubd c d, OF law_ubd(1) [OF laws] law_ubd(2) [OF laws]] run
    by (simp add: reset_unbondings_def eq clear_ubd_def ubd_key_def)
qed

lemma reset_signing_infos_Ok:
  assumes laws: "height_laws app E" and run: "reset_signing_infos app c = (Ok (), d)"
  shows "ev_infos E (ext d) = (\<lambda>a. map_option (\<lambda>i. i\<lparr>StartHeight := 0\<rparr>) (ev_infos E (ext c) a))"
proof -
  have eq: "reset_signing_info app =
      (\<lambda>e. must (extM (app_SetValidatorSigningInfo app (fst e) ((snd e)\<lparr>StartHeight := 0\<rparr>))))"
    by (simp add: fun_eq_iff reset_signing_info_def)
  show ?thesis
    using clear_store [of "app_IterateValidatorSigningInfos app" fst snd "ev_infos E"
      "\<lambda>e. app_SetValidatorSigningInfo app (fst e) (snd e)" "\<lambda>e. (fst e, (snd e)\<lparr>StartHeight := 0\<rparr>)"
      "\<lambda>i. i\<lparr>StartHeight := 0\<rparr>" c d, OF law_info(1) [OF laws] law_info(2) [OF laws]] run
    by (simp add: reset_signing_infos_def eq)
qed

section \<open>The validator set update leaves other stores alone\<close>

lemma apply_idle:
  assumes "update_idle k ob" "stk_volunteers k = GetVolunteerValidators vk"
  shows "keeps (\<lambda>c. ob (ext c) = o' \<and> volunteer_kv c = kv) (ApplyAndReturnValidatorSetUpdates rngV rngL k)"
proof -
  let ?P = "\<lambda>c. ob (ext c) = o' \<and> volunteer_kv c = kv"
  note i = assms(1) [unfolded update_idle_def]
  have vols: "keeps ?P (stk_volunteers k)" by (simp add: assms(2) GetVolunteerValidators_def keeps_getsM)
  have get: "keeps ?P (mustGetValidator k a)" for a
    unfolding mustGetValidator_def by (intro idle_intro keeps_sum_case; simp add: i)
  have last: "keeps ?P (getLastValidatorsByAddr k)"
    unfolding getLastValidatorsByAddr_def by (intro idle_intro; simp add: i)
  have drop: "keeps ?P (drop_jailed k es m)" for es m
    unfolding drop_jailed_def drop_jailed_one_def by (intro idle_intro get)
  have bond: "keeps ?P (bond_switch k v)" for v
    unfolding bond_switch_def unbondedToBonded_def unbondingToBonded_def bondValidator_def Let_def
    by (cases "Status v") (auto intro!: idle_intro simp: i)
  have body: "keeps ?P (select_body k maxV a st)" for maxV a st
    unfolding select_body_def record_power_def Let_def split_def
    by (intro idle_intro get bond; simp add: i)
  have loop: "keeps ?P (select_loop k maxV it st)" for maxV it st
    by (induction it arbitrary: st) (auto intro!: idle_intro body)
  have unbond: "keeps ?P (foldM (unbond_one k) gs acc)" for gs acc
    unfolding unbond_one_def bondedToUnbonding_def by (intro idle_intro get; simp add: i)
  have pool: "keeps ?P (pool_switch k tb tn)" for tb tn
    unfolding pool_switch_def notBondedTokensToBonded_def bondedTokensToNotBonded_def
    by (intro idle_intro; simp add: i)
  show ?thesis unfolding ApplyAndReturnValidatorSetUpdates_def split_def
    by (intro idle_intro vols last drop loop unbond pool; simp add: i)
qed

section \<open>Scraps and the community pool\<close>

lemma reinit_validator_Ok:
  assumes laws: "reward_laws app E" and run: "reinit_validator app v c = (Ok (), d)"
  shows "\<exists>a. stk_ValStringToBytes (app_StakingKeeper app) (OperatorAddress v) = Ok a \<and>
    ev_community E (ext d) = (\<lambda>dn. ev_community E (ext c) dn + ev_outstanding E (ext c) a dn) \<and>
    ev_outstanding E (ext d) = (ev_outstanding E (ext c))(a := \<lambda>_. 0)"
proof -
  from run obtain a scraps x1 pool x2 pool' x3 x4 where
    a: "stk_ValStringToBytes (app_StakingKeeper app) (OperatorAddress v) = Ok a" and
    1: "app_GetValidatorOutstandingRewardsCoins app a (ext c) = (Ok scraps, x1)" and
    2: "app_FeePool_Get app x1 = (Ok pool, x2)" and add: "app_DecCoins_Add app pool scraps = Ok pool'" and
    3: "app_FeePool_Set app pool' x2 = (Ok (), x3)" and
    4: "app_AfterValidatorCreated app (block_height c) a x3 = (Ok (), x4)" and d: "ext d = x4"
    by (auto simp: reinit_validator_def at_height_def extM_eq thenM_eq_Ok)
  note l = laws [unfolded reward_laws_def]
  have ro: "reads_only (app_GetValidatorOutstandingRewardsCoins app a)" "reads_only (app_FeePool_Get app)"
    using l by simp_all
  have x1: "x1 = ext c" using ro(1) 1 by (rule reads_onlyD)
  have x2: "x2 = x1" using ro(2) 2 by (rule reads_onlyD)
  have s: "amount_of scraps = ev_outstanding E (ext c) a" using l 1 by (metis fst_conv)
  have p: "amount_of pool = ev_community E (ext c)" using l 2 x1 by (metis fst_conv)
  have "amount_of pool' dn = amount_of pool dn + amount_of scraps dn" for dn using l add by blast
  moreover have "ev_community E x3 = amount_of pool'" "ev_outstanding E x3 = ev_outstanding E x2" using l 3 by blast+
  moreover have "ev_community E x4 = ev_community E x3" "ev_outstanding E x4 = (ev_outstanding E x3)(a := \<lambda>_. 0)"
    using l 4 by blast+
  ultimately show ?thesis using a d x1 x2 s p by (simp add: fun_eq_iff)
qed


lemma reinit_validators_Ok:
  assumes laws: "reward_laws app E" and "forM vals (reinit_validator app) c = (Ok (), d)"
    and "list_all2 (\<lambda>v a. stk_ValStringToBytes (app_StakingKeeper app) (OperatorAddress v) = Ok a) vals as" "distinct as"
  shows "ev_community E (ext d) = (\<lambda>dn. ev_community E (ext c) dn + (\<Sum>a\<leftarrow>as. ev_outstanding E (ext c) a dn)) \<and>
    ev_outstanding E (ext d) = (\<lambda>a. if a \<in> set as then \<lambda>_. 0 else ev_outstanding E (ext c) a)"
  using assms(3,2,4)
proof (induction arbitrary: c rule: list_all2_induct)
  case Nil
  then show ?case by simp
next
  case (Cons v vals a as)
  from Cons.prems(1) obtain c1 where one: "reinit_validator app v c = (Ok (), c1)"
      and rest: "forM vals (reinit_validator app) c1 = (Ok (), d)" by (auto simp: bindM_eq_Ok)
  from reinit_validator_Ok [OF laws one] Cons.hyps(1)
  have c1: "ev_community E (ext c1) = (\<lambda>dn. ev_community E (ext c) dn + ev_outstanding E (ext c) a dn)"
      "ev_outstanding E (ext c1) = (ev_outstanding E (ext c))(a := \<lambda>_. 0)" by auto
  have "map (\<lambda>b. ev_outstanding E (ext c1) b dn) as = map (\<lambda>b. ev_outstanding E (ext c) b dn) as" for dn
    using Cons.prems(2) c1(2) by auto
  then have sums: "(\<Sum>b\<leftarrow>as. ev_outstanding E (ext c1) b dn) = (\<Sum>b\<leftarrow>as. ev_outstanding E (ext c) b dn)" for dn
    by (rule arg_cong)
  from Cons.IH [OF rest] Cons.prems(2) have
    IH: "ev_community E (ext d) = (\<lambda>dn. ev_community E (ext c1) dn + (\<Sum>a\<leftarrow>as. ev_outstanding E (ext c1) a dn))"
      "ev_outstanding E (ext d) = (\<lambda>a. if a \<in> set as then \<lambda>_. 0 else ev_outstanding E (ext c1) a)" by auto
  show ?case unfolding IH sums unfolding c1 by (auto simp: fun_eq_iff)
qed

section \<open>The reference application meets the laws\<close>

lemma last_entries_store:
  "distinct (map key (last_entries key es)) \<and>
   map_of (map (\<lambda>e. (key e, e)) (last_entries key es)) = map_of (map (\<lambda>e. (key e, e)) es)"
proof -
  let ?m = "map_of (map (\<lambda>e. (key e, e)) es)"
  have k: "key (the (?m k)) = k" if "k \<in> key ` set es" for k
  proof -
    from that have "?m k \<noteq> None" by (auto simp: map_of_eq_None_iff image_comp o_def)
    then obtain e where "?m k = Some e" by auto
    from map_of_SomeD [OF this] this show ?thesis by auto
  qed
  then have keys: "map (\<lambda>k. key (the (?m k))) (remdups (map key es)) = remdups (map key es)"
    by (intro map_idI) auto
  have "map_of (map (\<lambda>k. (k, the (?m k))) (remdups (map key es))) = ?m"
    by (rule ext) (auto simp: map_of_map_restrict restrict_map_def map_of_eq_None_iff image_comp o_def
        split: option.splits intro: sym)
  moreover have "map (\<lambda>e. (key e, e)) (last_entries key es) = map (\<lambda>k. (k, the (?m k))) (remdups (map key es))"
    using k by (auto simp: last_entries_def)
  ultimately have "map_of (map (\<lambda>e. (key e, e)) (last_entries key es)) = ?m" by (simp only:)
  moreover have "map key (last_entries key es) = remdups (map key es)"
    using keys by (simp add: last_entries_def o_def)
  ultimately show ?thesis by simp
qed


lemma last_entries_lists: "lists_store (getsM (\<lambda>x. last_entries key (f x))) key (\<lambda>e. e) (\<lambda>x. map_of (map (\<lambda>e. (key e, e)) (f x)))"
  using last_entries_store by (auto simp: lists_store_def reads_only_def)

lemma last_entries_pairs:
  fixes f :: "'x \<Rightarrow> ('k \<times> 'v) list"
  shows "lists_store (getsM (\<lambda>x. last_entries fst (f x))) fst snd (\<lambda>x. map_of (f x))"
proof -
  have h: "map_of es k = map_option snd (map_of (map (\<lambda>e. (fst e, e)) es) k)" for es :: "('k \<times> 'v) list" and k
    by (induction es) auto
  have "map_of (last_entries fst es) = map_of es" for es :: "('k \<times> 'v) list"
    by (rule ext) (simp add: h last_entries_store)
  with last_entries_store show ?thesis by (auto simp: lists_store_def reads_only_def)
qed

lemma ref_height_laws: "height_laws ref_app ref_export_view"
proof -
  let ?ob = "\<lambda>x. (ev_reds ref_export_view x, ev_ubds ref_export_view x)"
  have "distribution_idle ref_app ?ob"
    by (simp add: distribution_idle_def idle_def ref_app_def ref_export_view_def ref_reds_def ref_ubds_def)
  moreover have "update_idle (app_StakingKeeper ref_app) ?ob"
    by (auto simp: update_idle_def idle_def ref_app_def ref_stk_def ref_export_view_def ref_reds_def ref_ubds_def
        rs_set_def rs_send_def bindM_def thenM_def split: option.splits outcome.splits prod.splits)
  moreover have "lists_store (app_IterateRedelegations ref_app) red_key (\<lambda>r. r) (ev_reds ref_export_view)"
      "lists_store (app_IterateUnbondingDelegations ref_app) ubd_key (\<lambda>u. u) (ev_ubds ref_export_view)"
      "lists_store (app_IterateValidatorSigningInfos ref_app) fst snd (ev_infos ref_export_view)"
    using last_entries_lists [of red_key re_reds] last_entries_lists [of ubd_key re_ubds] last_entries_pairs [of re_infos]
    by (simp_all add: ref_app_def ref_export_view_def ref_reds_def [abs_def] ref_ubds_def [abs_def])
  ultimately show ?thesis
    by (simp add: height_laws_def idle_def ref_app_def ref_export_view_def ref_reds_def ref_ubds_def)
qed

lemma ref_reward_laws: "reward_laws ref_app ref_export_view"
  by (auto simp: reward_laws_def reads_only_def ref_app_def ref_export_view_def amount_of_def ref_outstanding_def fun_eq_iff)

lemma ref_jail_laws: "jail_laws ref_app ref_view"
proof -
  let ?ob = "\<lambda>x. (view_vals ref_view x, staking_ob (app_StakingKeeper ref_app) ref_view x)"
  have "distribution_idle ref_app ?ob"
    by (simp add: distribution_idle_def idle_def ref_app_def ref_view_def staking_ob_def ref_stk_def rs_lookup_def [abs_def])
  moreover have "staking_laws (app_StakingKeeper ref_app) ref_view"
    using ref_staking_laws by (simp add: ref_app_def)
  moreover have "idle ?ob (app_IterateRedelegations ref_app) \<and> (\<forall>r. idle ?ob (app_SetRedelegation ref_app r)) \<and>
      idle ?ob (app_IterateUnbondingDelegations ref_app) \<and> (\<forall>u. idle ?ob (app_SetUnbondingDelegation ref_app u))"
    by (simp add: idle_def ref_app_def ref_view_def staking_ob_def ref_stk_def rs_lookup_def [abs_def])
  moreover have "\<forall>v. idle (staking_ob (app_StakingKeeper ref_app) ref_view) (stk_SetValidator (app_StakingKeeper ref_app) v)"
    by (auto simp: idle_def ref_app_def ref_view_def staking_ob_def ref_stk_def rs_set_def bindM_def
        split: outcome.splits)
  moreover have "\<forall>v w r. Tokens v = Tokens w \<longrightarrow> stk_PotentialConsensusPower (app_StakingKeeper ref_app) v r =
      stk_PotentialConsensusPower (app_StakingKeeper ref_app) w r"
    by (simp add: ref_app_def ref_stk_def)
  moreover have "reads_only (app_ValidatorsReverseIterator ref_app)"
    by (simp add: reads_only_def ref_app_def)
  moreover have "\<exists>as. list_all2 (\<lambda>key a. app_AddressFromValidatorsKey ref_app key = Ok a) keys as \<and>
      distinct as \<and> set as = dom (view_vals ref_view x)"
    if "fst (app_ValidatorsReverseIterator ref_app x) = Ok keys" for x keys
  proof -
    have "a \<in> fst ` set (rs_vals x)" if "rs_lookup x a = Some v" for a v
      using that by (force simp: rs_lookup_def split: option.splits dest: map_of_SomeD)
    with that show ?thesis
      by (intro exI [of _ keys]) (auto simp: ref_app_def ref_view_def list.rel_eq)
  qed
  ultimately show ?thesis unfolding jail_laws_def Let_def by blast
qed


section \<open>Properties\<close>

text \<open>C7: A zero-height export with an allow list never succeeds when a validator that is not on the
  list ranks among the first \<open>MaxValidators\<close> of the power index, behind validators that all have
  power: the record is marked jailed but its entry stays in the index, and the validator set update
  panics when it meets it, unless something failed before.
\<close>

theorem allow_list_export_fails:
  assumes "jail_laws app V" "stk_volunteers (app_StakingKeeper app) = GetVolunteerValidators vk"
    and "fst (stk_ValidatorsPowerStoreIterator (app_StakingKeeper app) (ext c)) = Ok (bs @ a # rest)" "distinct (bs @ a # rest)"
    and "fst (stk_MaxValidators (app_StakingKeeper app) (ext c)) = Ok maxV"
    and "\<forall>b \<in> set (bs @ [a]). view_vals V (ext c) b = Some (W b)"
    and "\<forall>b \<in> set bs. \<not> no_power (app_StakingKeeper app) (W b)"
    and "length bs < unat maxV" "addrs \<noteq> []" "ValAddress_String (app_bech32 app) a \<notin> set addrs"
  shows "\<not> is_Ok (fst (ExportAppStateAndValidators rngV rngL app True addrs modules c))"
proof
  let ?k = "app_StakingKeeper app" and ?c = "c\<lparr>block_height := sint (app_LastBlockHeight app), is_check_tx := True\<rparr>"
    and ?ob = "\<lambda>x. (view_vals V x, staking_ob (app_StakingKeeper app) V x)"
  assume "is_Ok (fst (ExportAppStateAndValidators rngV rngL app True addrs modules c))"
  then obtain m c1 c2 c3 c4 ups where al: "allowed_addrs app addrs ?c = (Ok m, c1)"
      and pd: "prep_distribution app c1 = (Ok (), c2)"
      and ps: "prep_staking app (0 < length addrs) m c2 = (Ok (), c3)"
      and ap: "ApplyAndReturnValidatorSetUpdates rngV rngL ?k c3 = (Ok ups, c4)"
    by (cases "ExportAppStateAndValidators rngV rngL app True addrs modules c")
      (auto simp: is_Ok_iff ExportAppStateAndValidators_def prepForZeroHeightGenesis_def Let_def thenM_eq_Ok)
  have st: "staking_laws ?k V" and di: "distribution_idle app ?ob"
    using assms(1) unfolding jail_laws_def Let_def by blast+
  note m = allowed_addrs_Ok [OF al]
  have "?ob (ext c2) = ?ob (ext c1)" by (rule keeps_ob(1) [OF prep_distribution_idle [OF di] pd])
  moreover have "view_vals V (ext c3) = (\<lambda>a. map_option (genesis_record app addrs a) (view_vals V (ext c2) a)) \<and>
      staking_ob ?k V (ext c3) = staking_ob ?k V (ext c2)"
    using prep_staking_Ok [OF assms(1) _ ps] m by blast
  ultimately have c3: "view_vals V (ext c3) = (\<lambda>a. map_option (genesis_record app addrs a) (view_vals V (ext c) a))"
      "fst (stk_ValidatorsPowerStoreIterator ?k (ext c3)) = Ok (bs @ a # rest)" "fst (stk_MaxValidators ?k (ext c3)) = Ok maxV"
    using m assms(3,5) by (auto simp: staking_ob_def)
  have vols: "stk_volunteers ?k c3 = (Ok (volunteer_map (volunteer_kv c3)), c3)"
    by (simp add: assms(2) GetVolunteerValidators_def)
  have "\<not> Jailed (genesis_record app addrs a (W a))"
    by (rule apply_not_jailed [OF st vols ap c3(2) assms(4) c3(3), where W = "\<lambda>b. genesis_record app addrs b (W b)"])
      (use assms(6-8) c3(1) no_power_genesis [OF assms(1)] in auto)
  with assms(9,10) show False by (simp add: genesis_record_def)
qed


theorem allow_list_export_fails_witness:
  "\<not> is_Ok (fst (ExportAppStateAndValidators rev rev ref_app True [''v''] [] ref_export_ctx)) \<and>
   fst (ExportAppStateAndValidators rev rev ref_app True [''v''] [] ref_export_ctx) =
     Panic ''should never retrieve a jailed validator from the power store''"
proof -
  let ?W = "\<lambda>a. the (view_vals ref_view (ext ref_export_ctx) a)"
  have vols: "stk_volunteers (app_StakingKeeper ref_app) = GetVolunteerValidators (ref_vk_of ref_no_staking ref_no_dist)"
    by (simp add: ref_app_def ref_stk_def)
  have it: "fst (stk_ValidatorsPowerStoreIterator (app_StakingKeeper ref_app) (ext ref_export_ctx)) = Ok ([] @ [97] # [[118]])"
    by code_simp
  have max: "fst (stk_MaxValidators (app_StakingKeeper ref_app) (ext ref_export_ctx)) = Ok 1" by code_simp
  have recs: "\<forall>b \<in> set ([] @ [[97]]). view_vals ref_view (ext ref_export_ctx) b = Some (?W b)"
    by code_simp
  have out: "ValAddress_String (app_bech32 ref_app) [97] \<notin> set [''v'']" by code_simp
  have "\<not> is_Ok (fst (ExportAppStateAndValidators rev rev ref_app True [''v''] [] ref_export_ctx))"
    by (rule allow_list_export_fails [OF ref_jail_laws vols it _ max recs _ _ _ out]) simp_all
  moreover have "fst (ExportAppStateAndValidators rev rev ref_app True [''v''] [] ref_export_ctx) =
      Panic ''should never retrieve a jailed validator from the power store''" by code_simp
  ultimately show ?thesis by (rule conjI)
qed

text \<open>C22: The preparation for height zero clears every height that would point past the new
  genesis: the creation heights of all redelegation and unbonding entries, whose other fields
  stay as they were, the start heights of all signing infos, and the unbonding heights of all
  validators but those that the validator set update, which runs after the reset, removes from the
  set.
\<close>

theorem zero_height_clears_heights:
  assumes "height_laws app E" "stk_volunteers (app_StakingKeeper app) = GetVolunteerValidators vk"
    and "prepForZeroHeightGenesis rngV rngL app addrs c = (Ok (), d)"
    and "jail_laws app V" "slashing_idle app (\<lambda>x. (view_vals V x, view_last V x))" "go_range rngV" "go_range rngL"
    and "fst (stk_ValidatorsPowerStoreIterator (app_StakingKeeper app) (ext c)) = Ok it" "distinct it"
  shows "ev_reds E (ext d) = (\<lambda>k. map_option clear_red (ev_reds E (ext c) k)) \<and>
    ev_ubds E (ext d) = (\<lambda>k. map_option clear_ubd (ev_ubds E (ext c) k)) \<and>
    (\<forall>a i. ev_infos E (ext d) a = Some i \<longrightarrow> StartHeight i = 0) \<and>
    (\<forall>a v. view_vals V (ext d) a = Some v \<longrightarrow> UnbondingHeight v = 0 \<or>
      (view_last V (ext c) a \<noteq> None \<and> view_last V (ext d) a = None))"
proof -
  let ?ob = "\<lambda>x. (ev_reds E x, ev_ubds E x)"
  from assms(3) obtain m c1 c2 c3 c4 c5 c6 ups where al: "allowed_addrs app addrs c = (Ok m, c1)"
      and pd: "prep_distribution app c1 = (Ok (), c2)"
      and rr: "reset_redelegations app c2 = (Ok (), c3)" and ru: "reset_unbondings app c3 = (Ok (), c4)"
      and rv: "reset_validators app (0 < length addrs) m c4 = (Ok (), c5)"
      and ap: "ApplyAndReturnValidatorSetUpdates rngV rngL (app_StakingKeeper app) c5 = (Ok ups, c6)"
      and rs: "reset_signing_infos app c6 = (Ok (), d)"
    by (auto simp: prepForZeroHeightGenesis_def prep_staking_def thenM_eq_Ok)
  note l = assms(1) [unfolded height_laws_def Let_def]
  have up: "update_idle (app_StakingKeeper app) ?ob" and di: "distribution_idle app ?ob" using l by simp_all
  have kv: "keeps (\<lambda>x. ?ob (ext x) = o' \<and> volunteer_kv x = kv) (reset_validators app b m)" for o' kv b
    unfolding reset_validators_def reset_validator_def Let_def using up [unfolded update_idle_def]
    by (intro idle_intro; simp add: l)
  have ks: "keeps (\<lambda>x. ?ob (ext x) = o' \<and> volunteer_kv x = kv) (reset_signing_infos app)" for o' kv
    unfolding reset_signing_infos_def reset_signing_info_def by (intro idle_intro; simp add: l)
  have "?ob (ext c2) = ?ob (ext c)"
    using keeps_ob(1) [OF prep_distribution_idle [OF di] pd] allowed_addrs_Ok [OF al] by simp
  moreover have "?ob (ext c5) = ?ob (ext c4)" by (rule keeps_ob(1) [OF kv rv])
  moreover have "?ob (ext c6) = ?ob (ext c5)" by (rule keeps_ob(1) [OF apply_idle [OF up assms(2)] ap])
  moreover have "?ob (ext d) = ?ob (ext c6)" by (rule keeps_ob(1) [OF ks rs])
  moreover note reset_redelegations_Ok [OF assms(1) rr] reset_unbondings_Ok [OF assms(1) ru]
  moreover have "\<forall>a i. ev_infos E (ext d) a = Some i \<longrightarrow> StartHeight i = 0"
    using reset_signing_infos_Ok [OF assms(1) rs] by auto
  moreover have "\<forall>a v. view_vals V (ext d) a = Some v \<longrightarrow> UnbondingHeight v = 0 \<or>
      (view_last V (ext c) a \<noteq> None \<and> view_last V (ext d) a = None)"
    using prepared_unbonding_heights [OF assms(4,2,3,5-9)] by blast
  ultimately show ?thesis by simp
qed

theorem zero_height_clears_heights_witness:
  "\<exists>d. prepForZeroHeightGenesis rev rev ref_app [] ref_export_ctx = (Ok (), d) \<and>
     map_option (\<lambda>u. map CreationHeight (ubd_Entries u)) (ev_ubds ref_export_view (ext d) (''d'', ''a'')) = Some [0, 0] \<and>
     (\<forall>a v. view_vals ref_view (ext d) a = Some v \<longrightarrow> UnbondingHeight v = 0 \<or> view_last ref_view (ext d) a = None)"
proof -
  let ?run = "prepForZeroHeightGenesis rev rev ref_app [] ref_export_ctx"
  have "is_Ok (fst ?run)" by code_simp
  then obtain d where run: "?run = (Ok (), d)" by (cases ?run) (auto simp: is_Ok_iff)
  have vols: "stk_volunteers (app_StakingKeeper ref_app) = GetVolunteerValidators (ref_vk_of ref_no_staking ref_no_dist)"
    by (simp add: ref_app_def ref_stk_def)
  have idl: "slashing_idle ref_app (\<lambda>x. (view_vals ref_view x, view_last ref_view x))"
    by (simp add: slashing_idle_def idle_def ref_app_def ref_view_def rs_lookup_def [abs_def])
  have it: "fst (stk_ValidatorsPowerStoreIterator (app_StakingKeeper ref_app) (ext ref_export_ctx)) = Ok [[97], [118]]"
    by code_simp
  have dis: "distinct [[97], [118] :: bytes]" by simp
  note z = zero_height_clears_heights [OF ref_height_laws vols run ref_jail_laws idl go_range_rev go_range_rev it dis]
  have c: "ev_ubds ref_export_view (ext d) = (\<lambda>k. map_option clear_ubd (ev_ubds ref_export_view (ext ref_export_ctx) k))"
      "\<forall>a v. view_vals ref_view (ext d) a = Some v \<longrightarrow> UnbondingHeight v = 0 \<or> view_last ref_view (ext d) a = None"
    subgoal using z by (elim conjE)
    subgoal using z by (elim conjE) metis
    done
  have "map_option (\<lambda>u. map CreationHeight (ubd_Entries u))
      (map_option clear_ubd (ev_ubds ref_export_view (ext ref_export_ctx) (''d'', ''a''))) = Some [0, 0]"
    by code_simp
  with run c show ?thesis by simp
qed

text \<open>Re-initialising the validators loses no rewards: whatever they have outstanding, down to
  the last fraction, ends up in the community pool, in every denomination, and nothing stays
  outstanding for them.
\<close>

theorem scraps_reach_community_pool:
  assumes "reward_laws app E" "forM vals (reinit_validator app) c = (Ok (), d)"
    and "list_all2 (\<lambda>v a. stk_ValStringToBytes (app_StakingKeeper app) (OperatorAddress v) = Ok a) vals as"
    and "distinct as"
  shows "ev_community E (ext d) dn = ev_community E (ext c) dn + (\<Sum>a\<in>set as. ev_outstanding E (ext c) a dn) \<and>
    (\<forall>a \<in> set as. ev_outstanding E (ext d) a dn = 0)"
  using reinit_validators_Ok [OF assms] assms(4) by (simp add: sum_list_distinct_conv_sum_set)

theorem scraps_reach_community_pool_witness:
  "\<exists>d. forM (map snd (rs_vals ref_staking_state)) (reinit_validator ref_app) ref_export_ctx = (Ok (), d) \<and>
     ev_community ref_export_view (ext d) ''axpla'' = 12"
proof -
  let ?vals = "map snd (rs_vals ref_staking_state)" and ?as = "[[97], [118]] :: bytes list"
  let ?run = "forM ?vals (reinit_validator ref_app) ref_export_ctx"
  have "is_Ok (fst ?run)" by code_simp
  then obtain d where run: "?run = (Ok (), d)" by (cases ?run) (auto simp: is_Ok_iff)
  have as: "list_all2 (\<lambda>v a. stk_ValStringToBytes (app_StakingKeeper ref_app) (OperatorAddress v) = Ok a) ?vals ?as"
    by code_simp
  have dist: "distinct ?as" by code_simp
  have before: "ev_community ref_export_view (ext ref_export_ctx) ''axpla'' = 7" by code_simp
  have sum: "(\<Sum>a\<in>set ?as. ev_outstanding ref_export_view (ext ref_export_ctx) a ''axpla'') = 5"
  proof -
    have "ev_outstanding ref_export_view (ext ref_export_ctx) [97] ''axpla'' = 2"
      "ev_outstanding ref_export_view (ext ref_export_ctx) [118] ''axpla'' = 3" by code_simp+
    then show ?thesis by simp
  qed
  from scraps_reach_community_pool [OF ref_reward_laws run as dist, of "''axpla''"] run
  show ?thesis unfolding before sum by simp
qed

end
