(* ===== verification/Eip712.thy ===== *)
theory Eip712
  imports EthTypes
begin

text \<open>
  EIP-712 signing data for Cosmos transactions, \<open>src/legacy/ethermint/ethereum/eip712\<close>: the JSON
  sign document is flattened (\<open>message.go\<close>), a type schema is derived from it (\<open>types.go\<close>), and
  both are wrapped as typed data (\<open>eip712.go\<close>, \<open>domain.go\<close>, \<open>encoding.go\<close>).

  A parsed JSON document is a value of the datatype \<open>JSON\<close>; the functions of the gjson and sjson
  packages, the title caser, the codecs and the hash are parameters.
\<close>

section \<open>JSON\<close>

datatype JSON =
    JNull
  | JBool bool
  | JNumber string
  | JString string
  | JArray "JSON list"
  | JObject "(string \<times> JSON) list"

text \<open>
  \<open>jf_Get\<close> is \<open>None\<close> when the result does not exist; \<open>jf_Map\<close> returns the entries of the Go map,
  which the code ranges over in an unspecified order.
\<close>

record JsonFns =
  jf_Parse :: "bytes \<Rightarrow> JSON option"
  jf_Get :: "JSON \<Rightarrow> string \<Rightarrow> JSON option"
  jf_Map :: "JSON \<Rightarrow> (string \<times> JSON) list"
  jf_SetRaw :: "JSON \<Rightarrow> string \<Rightarrow> JSON \<Rightarrow> JSON outcome"
  jf_Delete :: "JSON \<Rightarrow> string \<Rightarrow> JSON outcome"
  jf_Title :: "string \<Rightarrow> string"

fun IsObject :: "JSON \<Rightarrow> bool" where
  "IsObject (JObject _) = True"
| "IsObject _ = False"

text \<open>\<open>fmt.Sprintf("%d", n)\<close>.\<close>

fun dec_string :: "nat \<Rightarrow> string" where
  "dec_string n = (if n < 10 then [char_of (48 + n)] else dec_string (n div 10) @ [char_of (48 + n mod 10)])"

declare dec_string.simps [simp del]

section \<open>\<open>message.go\<close>\<close>

record eip712MessagePayload =
  mp_payload :: JSON
  mp_numPayloadMsgs :: nat
  mp_message :: JSON

definition payloadMsgsField :: string where
  "payloadMsgsField = ''msgs''"

definition unmarshalBytesToJSONObject :: "JsonFns \<Rightarrow> bytes \<Rightarrow> JSON outcome" where
  "unmarshalBytesToJSONObject jf data = (case jf_Parse jf data of
      None \<Rightarrow> Err ErrJSONUnmarshal
    | Some payload \<Rightarrow> if IsObject payload then Ok payload else Err ErrJSONUnmarshal)"

definition msgFieldForIndex :: "nat \<Rightarrow> string" where
  "msgFieldForIndex i = ''msg'' @ dec_string i"

definition getPayloadMessages :: "JsonFns \<Rightarrow> JSON \<Rightarrow> JSON list outcome" where
  "getPayloadMessages jf payload = (case jf_Get jf payload payloadMsgsField of
      None \<Rightarrow> Err (ErrInvalidRequest ''no messages found in payload'')
    | Some JNull \<Rightarrow> Ok []
    | Some (JArray msgs) \<Rightarrow> Ok msgs
    | Some _ \<Rightarrow> Err (ErrInvalidRequest ''expected type array of messages''))"

definition payloadWithNewMessage :: "JsonFns \<Rightarrow> JSON \<Rightarrow> JSON \<Rightarrow> nat \<Rightarrow> JSON outcome" where
  "payloadWithNewMessage jf payload msg index =
     (let field = msgFieldForIndex index in
      if jf_Get jf payload field \<noteq> None then Err (ErrInvalidRequest ''malformed payload received'')
      else if \<not> IsObject msg then Err (ErrInvalidRequest ''msg is not valid JSON'')
      else jf_SetRaw jf payload field msg)"

definition payloadWithoutMsgsField :: "JsonFns \<Rightarrow> JSON \<Rightarrow> JSON outcome" where
  "payloadWithoutMsgsField jf payload = jf_Delete jf payload payloadMsgsField"

text \<open>The loop \<open>for i, msg := range msgs\<close>, with the index of the first message left.\<close>

primrec add_messages :: "JsonFns \<Rightarrow> nat \<Rightarrow> JSON list \<Rightarrow> JSON \<Rightarrow> JSON outcome" where
  "add_messages jf i [] flattened = Ok flattened"
| "add_messages jf i (msg # msgs) flattened =
     bindO (payloadWithNewMessage jf flattened msg i) (add_messages jf (Suc i) msgs)"

definition FlattenPayloadMessages :: "JsonFns \<Rightarrow> JSON \<Rightarrow> (JSON \<times> nat) outcome" where
  "FlattenPayloadMessages jf payload =
     bindO (getPayloadMessages jf payload) (\<lambda>msgs.
     bindO (add_messages jf 0 msgs payload) (\<lambda>flattened.
     bindO (payloadWithoutMsgsField jf flattened) (\<lambda>flattened. Ok (flattened, length msgs))))"

definition createEIP712MessagePayload :: "JsonFns \<Rightarrow> bytes \<Rightarrow> eip712MessagePayload outcome" where
  "createEIP712MessagePayload jf data =
     bindO (unmarshalBytesToJSONObject jf data) (\<lambda>basicPayload.
     bindO (FlattenPayloadMessages jf basicPayload) (\<lambda>(payload, numPayloadMsgs).
     if IsObject payload then
       Ok \<lparr>mp_payload = payload, mp_numPayloadMsgs = numPayloadMsgs, mp_message = payload\<rparr>
     else Err ErrInvalidType))"

section \<open>\<open>types.go\<close>\<close>

type_synonym Fields = "(string \<times> string) list"
type_synonym TypeMap = "(string \<times> Fields) list"

definition rootPrefix :: string where
  "rootPrefix = ''_''"

definition typePrefix :: string where
  "typePrefix = ''Type''"

definition maxDuplicateTypeDefs :: nat where
  "maxDuplicateTypeDefs = 1000"

definition tx_fields :: Fields where
  "tx_fields = [(''account_number'', ''string''), (''chain_id'', ''string''), (''fee'', ''Fee''), (''memo'', ''string''),
     (''sequence'', ''string'')]"

definition initial_types :: TypeMap where
  "initial_types =
     [(''EIP712Domain'', [(''name'', ''string''), (''version'', ''string''), (''chainId'', ''uint256''),
        (''verifyingContract'', ''string''), (''salt'', ''string'')]),
      (''Tx'', tx_fields),
      (''Fee'', [(''amount'', ''Coin[]''), (''gas'', ''string'')]),
      (''Coin'', [(''denom'', ''string''), (''amount'', ''string'')])]"

definition msgRootType :: "JsonFns \<Rightarrow> JSON \<Rightarrow> string outcome" where
  "msgRootType jf msg =
     (let msgType = (case jf_Get jf msg ''type'' of Some (JString s) \<Rightarrow> s | _ \<Rightarrow> []) in
      if msgType = [] then Err ErrInvalidType
      else Ok (typePrefix @ last (split_on (CHR ''/'') msgType)))"

definition sortedJSONKeys :: "JsonFns \<Rightarrow> (string list \<Rightarrow> string list) \<Rightarrow> JSON \<Rightarrow> string list outcome" where
  "sortedJSONKeys jf rng json =
     (if \<not> IsObject json then Err ErrInvalidType else Ok (rev (sort (rng (map fst (jf_Map jf json))))))"

definition sanitizeTypedef :: "JsonFns \<Rightarrow> string \<Rightarrow> string" where
  "sanitizeTypedef jf str = concat (map (\<lambda>part.
     if part = rootPrefix then typePrefix
     else concat (map (jf_Title jf) (split_on (CHR ''_'') part))) (split_on (CHR ''.'') str))"

definition typeDefForPrefix :: "JsonFns \<Rightarrow> string \<Rightarrow> string \<Rightarrow> string" where
  "typeDefForPrefix jf prefix rootType = (if prefix = rootPrefix then rootType else sanitizeTypedef jf prefix)"

definition prefixForSubField :: "string \<Rightarrow> string \<Rightarrow> string" where
  "prefixForSubField prefix fieldName = prefix @ ''.'' @ fieldName"

definition typeDefWithIndex :: "string \<Rightarrow> nat \<Rightarrow> string" where
  "typeDefWithIndex typeDef index = typeDef @ dec_string index"

fun typesAreEqual :: "Fields \<Rightarrow> Fields \<Rightarrow> bool" where
  "typesAreEqual [] [] = True"
| "typesAreEqual ((n1, t1) # ts1) ((n2, t2) # ts2) = (\<not> (n1 \<noteq> n2 \<or> t1 \<noteq> t2) \<and> typesAreEqual ts1 ts2)"
| "typesAreEqual _ _ = False"

text \<open>
  The search for a free or equal definition; \<open>left\<close> is the number of indices below the maximum.
\<close>

primrec find_typedef :: "nat \<Rightarrow> nat \<Rightarrow> string \<Rightarrow> Fields \<Rightarrow> (TypeMap, string) M" where
  "find_typedef 0 index typeDef types = throw (ErrInvalidRequest ''exceeded maximum number of duplicates'')"
| "find_typedef (Suc left) index typeDef types =
     bindM (getsM (\<lambda>typeMap. map_of typeMap (typeDefWithIndex typeDef index))) (\<lambda>existing. case existing of
       Some existingTypes \<Rightarrow>
         if typesAreEqual types existingTypes then ret (typeDefWithIndex typeDef index)
         else find_typedef left (index + 1) typeDef types
     | None \<Rightarrow>
         thenM (modifyM (gomap_set (typeDefWithIndex typeDef index) types)) (ret (typeDefWithIndex typeDef index)))"

definition addTypesToRoot :: "string \<Rightarrow> Fields \<Rightarrow> (TypeMap, string) M" where
  "addTypesToRoot typeDef types = find_typedef maxDuplicateTypeDefs 0 typeDef types"

fun getEthTypeForJSON :: "JSON \<Rightarrow> string" where
  "getEthTypeForJSON (JBool _) = ''bool''"
| "getEthTypeForJSON (JNumber _) = ''int64''"
| "getEthTypeForJSON (JString _) = ''string''"
| "getEthTypeForJSON _ = []"

definition collection_suffix :: "bool \<Rightarrow> string" where
  "collection_suffix isCollection = (if isCollection then ''[]'' else [])"

text \<open>
  The body of the loop over the fields; \<open>sub\<close> is the recursive call.  Null values and arrays of
  arrays add nothing.
\<close>

definition field_value_types ::
    "JsonFns \<Rightarrow> (string \<Rightarrow> JSON \<Rightarrow> (TypeMap, string) M) \<Rightarrow> string \<Rightarrow> string \<Rightarrow> bool \<Rightarrow> JSON \<Rightarrow> Fields \<Rightarrow> (TypeMap, Fields) M" where
  "field_value_types jf sub prefix fieldName isCollection field typesToAdd =
     (let ethType = getEthTypeForJSON field in
      if ethType \<noteq> [] then ret (typesToAdd @ [(fieldName, ethType @ collection_suffix isCollection)])
      else if IsObject field then
        bindM (sub (prefixForSubField prefix fieldName) field) (\<lambda>fieldTypeDef.
        ret (typesToAdd @ [(fieldName, sanitizeTypedef jf fieldTypeDef @ collection_suffix isCollection)]))
      else ret typesToAdd)"

definition field_types ::
    "JsonFns \<Rightarrow> (string \<Rightarrow> JSON \<Rightarrow> (TypeMap, string) M) \<Rightarrow> string \<Rightarrow> JSON \<Rightarrow> string \<Rightarrow> Fields \<Rightarrow> (TypeMap, Fields) M" where
  "field_types jf sub prefix payload fieldName typesToAdd = (case jf_Get jf payload fieldName of
      None \<Rightarrow> ret typesToAdd
    | Some (JArray []) \<Rightarrow> ret (typesToAdd @ [(fieldName, ''string[]'')])
    | Some (JArray (v # _)) \<Rightarrow> field_value_types jf sub prefix fieldName True v typesToAdd
    | Some v \<Rightarrow> field_value_types jf sub prefix fieldName False v typesToAdd)"

text \<open>
  The first argument bounds the depth of the recursion; the caller gives the size of the
  document, which is enough because every call goes to a value inside the previous one.
\<close>

primrec recursivelyAddTypesToRoot ::
    "nat \<Rightarrow> JsonFns \<Rightarrow> (string list \<Rightarrow> string list) \<Rightarrow> string \<Rightarrow> string \<Rightarrow> JSON \<Rightarrow> (TypeMap, string) M" where
  "recursivelyAddTypesToRoot 0 jf rng rootType prefix payload = panic ''out of depth''"
| "recursivelyAddTypesToRoot (Suc n) jf rng rootType prefix payload =
     bindM (liftO (sortedJSONKeys jf rng payload)) (\<lambda>sortedFieldNames.
     bindM (foldM (field_types jf (recursivelyAddTypesToRoot n jf rng rootType) prefix payload) sortedFieldNames [])
       (addTypesToRoot (typeDefForPrefix jf prefix rootType)))"

definition addMsgTypeDefToTxSchema :: "string \<Rightarrow> string \<Rightarrow> (TypeMap, unit) M" where
  "addMsgTypeDefToTxSchema msgField msgTypeDef =
     modifyM (\<lambda>ts. gomap_set ''Tx''
       ((case map_of ts ''Tx'' of None \<Rightarrow> [] | Some fs \<Rightarrow> fs) @ [(msgField, msgTypeDef)]) ts)"

definition doRecover :: "('s, 'a) M \<Rightarrow> ('s, 'a) M" where
  "doRecover m s = (case m s of (Panic _, t) \<Rightarrow> (Err (Error ''panicked with error''), t) | r \<Rightarrow> r)"

definition addMsgTypesToRoot ::
    "JsonFns \<Rightarrow> (string list \<Rightarrow> string list) \<Rightarrow> string \<Rightarrow> JSON \<Rightarrow> (TypeMap, unit) M" where
  "addMsgTypesToRoot jf rng msgField msg = doRecover (
     if \<not> IsObject msg then throw (ErrInvalidRequest ''message is not valid JSON'')
     else
       bindM (liftO (msgRootType jf msg)) (\<lambda>rootType.
       bindM (recursivelyAddTypesToRoot (size msg) jf rng rootType rootPrefix msg)
         (addMsgTypeDefToTxSchema msgField)))"

text \<open>A missing field is the zero \<open>gjson.Result\<close>, which is of type \<open>Null\<close>.\<close>

definition createEIP712Types :: "JsonFns \<Rightarrow> (string list \<Rightarrow> string list) \<Rightarrow> eip712MessagePayload \<Rightarrow> TypeMap outcome" where
  "createEIP712Types jf rng mp =
     (case forM [0..<mp_numPayloadMsgs mp] (\<lambda>i. addMsgTypesToRoot jf rng (msgFieldForIndex i)
         (case jf_Get jf (mp_payload mp) (msgFieldForIndex i) of None \<Rightarrow> JNull | Some v \<Rightarrow> v)) initial_types of
        (Ok _, ts) \<Rightarrow> Ok ts
      | (Err e, _) \<Rightarrow> Err e
      | (Panic p, _) \<Rightarrow> Panic p)"

section \<open>\<open>domain.go\<close> and \<open>eip712.go\<close>\<close>

record TypedDataDomain =
  dom_Name :: string
  dom_Version :: string
  dom_ChainId :: "int option"
  dom_VerifyingContract :: string
  dom_Salt :: string

record TypedData =
  td_Types :: TypeMap
  td_PrimaryType :: string
  td_Domain :: TypedDataDomain
  td_Message :: JSON

definition createEIP712Domain :: "uint64 \<Rightarrow> TypedDataDomain" where
  "createEIP712Domain chainID = \<lparr>dom_Name = ''Cosmos Web3'', dom_Version = ''1.0.0'', dom_ChainId = Some (sint chainID),
     dom_VerifyingContract = ''cosmos'', dom_Salt = ''0''\<rparr>"

definition WrapTxToTypedData ::
    "JsonFns \<Rightarrow> (string list \<Rightarrow> string list) \<Rightarrow> uint64 \<Rightarrow> bytes \<Rightarrow> TypedData outcome" where
  "WrapTxToTypedData jf rng chainID data =
     bindO (createEIP712MessagePayload jf data) (\<lambda>messagePayload.
     bindO (createEIP712Types jf rng messagePayload) (\<lambda>types.
     Ok \<lparr>td_Types = types, td_PrimaryType = ''Tx'', td_Domain = createEIP712Domain chainID,
       td_Message = mp_message messagePayload\<rparr>))"

section \<open>\<open>encoding.go\<close>\<close>

record StdSignDoc =
  sdoc_ChainID :: string
  sdoc_Fee :: bytes
  sdoc_Msgs :: "bytes list"

record SignDoc =
  sd_BodyBytes :: bytes
  sd_AuthInfoBytes :: bytes
  sd_ChainId :: string
  sd_AccountNumber :: uint64

record AuthInfo =
  ai_Sequences :: "uint64 list"
  ai_Fee :: "(Coins \<times> uint64) option"

record 'a TxBody =
  tb_Messages :: "'a list"
  tb_Memo :: string
  tb_TimeoutHeight :: uint64
  tb_ExtensionOptions :: nat
  tb_NonCriticalExtensionOptions :: nat

text \<open>The codecs: packed messages \<open>'a\<close>, unpacked messages \<open>'m\<close>.\<close>

record ('a, 'm) DocCodec =
  dc_Initialised :: bool
  dc_AminoDoc :: "bytes \<Rightarrow> StdSignDoc outcome"
  dc_AminoFee :: "bytes \<Rightarrow> unit outcome"
  dc_AminoMsg :: "bytes \<Rightarrow> 'm outcome"
  dc_SignDoc :: "bytes \<Rightarrow> SignDoc outcome"
  dc_AuthInfo :: "bytes \<Rightarrow> AuthInfo outcome"
  dc_TxBody :: "bytes \<Rightarrow> 'a TxBody outcome"
  dc_UnpackAny :: "'a \<Rightarrow> 'm outcome"
  dc_Signers :: "'m \<Rightarrow> bytes list outcome"
  dc_StdSignBytes :: "string \<Rightarrow> uint64 \<Rightarrow> uint64 \<Rightarrow> uint64 \<Rightarrow> Coins \<times> uint64 \<Rightarrow> 'm list \<Rightarrow> string \<Rightarrow> bytes"
  dc_TypedDataAndHash :: "TypedData \<Rightarrow> bytes outcome"

definition validateCodecInit :: "('a, 'm) DocCodec \<Rightarrow> unit outcome" where
  "validateCodecInit dc = guardO (dc_Initialised dc) (Error ''missing codec'')"

primrec check_signers :: "('a, 'm) DocCodec \<Rightarrow> bytes option \<Rightarrow> 'm list \<Rightarrow> unit outcome" where
  "check_signers dc msgSigner [] = Ok ()"
| "check_signers dc msgSigner (m # ms) =
     bindO (dc_Signers dc m) (\<lambda>signers.
     bindO (guardO (length signers = 1) (Error ''expect exactly 1 signer'')) (\<lambda>_.
     case msgSigner of
       None \<Rightarrow> check_signers dc (Some (hd signers)) ms
     | Some s \<Rightarrow> bindO (guardO (s = hd signers) (Error ''multiple signers detected'')) (\<lambda>_. check_signers dc msgSigner ms)))"

definition validatePayloadMessages :: "('a, 'm) DocCodec \<Rightarrow> 'm list \<Rightarrow> unit outcome" where
  "validatePayloadMessages dc msgs =
     bindO (guardO (msgs \<noteq> []) (Error ''transaction does contain any messages'')) (\<lambda>_. check_signers dc None msgs)"

text \<open>\<open>chainID.Uint64()\<close> keeps the low 64 bits.\<close>

definition decodeAminoSignDoc ::
    "JsonFns \<Rightarrow> (string list \<Rightarrow> string list) \<Rightarrow> ('a, 'm) DocCodec \<Rightarrow> bytes \<Rightarrow> TypedData outcome" where
  "decodeAminoSignDoc jf rng dc signDocBytes =
     bindO (validateCodecInit dc) (\<lambda>_.
     bindO (dc_AminoDoc dc signDocBytes) (\<lambda>aminoDoc.
     bindO (dc_AminoFee dc (sdoc_Fee aminoDoc)) (\<lambda>_.
     bindO (mapO (dc_AminoMsg dc) (sdoc_Msgs aminoDoc)) (\<lambda>msgs.
     bindO (validatePayloadMessages dc msgs) (\<lambda>_.
     bindO (ParseChainID (sdoc_ChainID aminoDoc)) (\<lambda>chainID.
     WrapTxToTypedData jf rng (word_of_int chainID) signDocBytes))))))"

definition decodeProtobufSignDoc ::
    "JsonFns \<Rightarrow> (string list \<Rightarrow> string list) \<Rightarrow> ('a, 'm) DocCodec \<Rightarrow> bytes \<Rightarrow> TypedData outcome" where
  "decodeProtobufSignDoc jf rng dc signDocBytes =
     bindO (validateCodecInit dc) (\<lambda>_.
     bindO (dc_SignDoc dc signDocBytes) (\<lambda>signDoc.
     bindO (dc_AuthInfo dc (sd_AuthInfoBytes signDoc)) (\<lambda>authInfo.
     bindO (dc_TxBody dc (sd_BodyBytes signDoc)) (\<lambda>body.
     bindO (guardO (\<not> (tb_TimeoutHeight body \<noteq> 0 \<or> tb_ExtensionOptions body \<noteq> 0 \<or> tb_NonCriticalExtensionOptions body \<noteq> 0))
       (Error ''body contains unsupported fields'')) (\<lambda>_.
     bindO (guardO (length (ai_Sequences authInfo) = 1) (Error ''invalid number of signer infos provided'')) (\<lambda>_.
     bindO (mapO (dc_UnpackAny dc) (tb_Messages body)) (\<lambda>msgs.
     bindO (validatePayloadMessages dc msgs) (\<lambda>_.
     bindO (ParseChainID (sd_ChainId signDoc)) (\<lambda>chainID.
     bindO (case ai_Fee authInfo of None \<Rightarrow> Panic ''nil pointer dereference'' | Some f \<Rightarrow> Ok f) (\<lambda>stdFee.
     WrapTxToTypedData jf rng (word_of_int chainID)
       (dc_StdSignBytes dc (sd_ChainId signDoc) (sd_AccountNumber signDoc) (hd (ai_Sequences authInfo))
         (tb_TimeoutHeight body) stdFee msgs (tb_Memo body))))))))))))"

definition isValidEIP712Payload :: "TypedData \<Rightarrow> bool" where
  "isValidEIP712Payload td \<longleftrightarrow> td_Message td \<noteq> JObject [] \<and> td_Types td \<noteq> [] \<and> td_PrimaryType td \<noteq> [] \<and>
     td_Domain td \<noteq> \<lparr>dom_Name = [], dom_Version = [], dom_ChainId = None, dom_VerifyingContract = [], dom_Salt = []\<rparr>"

definition GetEIP712TypedDataForMsg ::
    "JsonFns \<Rightarrow> (string list \<Rightarrow> string list) \<Rightarrow> ('a, 'm) DocCodec \<Rightarrow> bytes \<Rightarrow> TypedData outcome" where
  "GetEIP712TypedDataForMsg jf rng dc signDocBytes =
     (let protobuf = (case decodeProtobufSignDoc jf rng dc signDocBytes of
          Ok td \<Rightarrow> if isValidEIP712Payload td then Ok td else Err (Error ''could not decode sign doc'')
        | Err _ \<Rightarrow> Err (Error ''could not decode sign doc'')
        | Panic p \<Rightarrow> Panic p) in
      case decodeAminoSignDoc jf rng dc signDocBytes of
        Ok td \<Rightarrow> if isValidEIP712Payload td then Ok td else protobuf
      | Err _ \<Rightarrow> protobuf
      | Panic p \<Rightarrow> Panic p)"

definition GetEIP712BytesForMsg ::
    "JsonFns \<Rightarrow> (string list \<Rightarrow> string list) \<Rightarrow> ('a, 'm) DocCodec \<Rightarrow> bytes \<Rightarrow> bytes outcome" where
  "GetEIP712BytesForMsg jf rng dc signDocBytes =
     bindO (GetEIP712TypedDataForMsg jf rng dc signDocBytes) (dc_TypedDataAndHash dc)"

section \<open>Specification\<close>

definition alnum :: "char \<Rightarrow> bool" where
  "alnum ch \<longleftrightarrow> (let n = of_char ch :: nat in (48 \<le> n \<and> n \<le> 57) \<or> (65 \<le> n \<and> n \<le> 90) \<or> (97 \<le> n \<and> n \<le> 122))"

text \<open>Keys of letters, digits and underscores, which the path syntax of gjson takes literally.\<close>

definition plain_key :: "string \<Rightarrow> bool" where
  "plain_key k \<longleftrightarrow> k \<noteq> [] \<and> list_all (\<lambda>ch. alnum ch \<or> ch = CHR ''_'') k"

text \<open>Documents in which every object has distinct plain keys.\<close>

inductive json_ok :: "JSON \<Rightarrow> bool" where
  ok_null: "json_ok JNull"
| ok_bool: "json_ok (JBool b)"
| ok_number: "json_ok (JNumber n)"
| ok_string: "json_ok (JString s)"
| ok_array: "\<forall>v \<in> set vs. json_ok v \<Longrightarrow> json_ok (JArray vs)"
| ok_object: "distinct (map fst es) \<Longrightarrow> \<forall>(k, v) \<in> set es. plain_key k \<and> json_ok v \<Longrightarrow> json_ok (JObject es)"

inductive_cases json_ok_ArrayE [elim!]: "json_ok (JArray vs)"
inductive_cases json_ok_ObjectE [elim!]: "json_ok (JObject es)"

text \<open>
  What gjson and sjson document for objects with distinct keys and plain paths, and what the
  title caser does to ASCII letters and digits: it leaves a word that starts with an upper
  case letter alone and never leaves the letters and digits.
\<close>

definition json_laws :: "JsonFns \<Rightarrow> bool" where
  "json_laws jf \<longleftrightarrow>
     (\<forall>es k. distinct (map fst es) \<longrightarrow> plain_key k \<longrightarrow> jf_Get jf (JObject es) k = map_of es k) \<and>
     (\<forall>es. distinct (map fst es) \<longrightarrow> set (jf_Map jf (JObject es)) = set es) \<and>
     (\<forall>es k v. distinct (map fst es) \<longrightarrow> plain_key k \<longrightarrow> k \<notin> fst ` set es \<longrightarrow>
        jf_SetRaw jf (JObject es) k v = Ok (JObject (es @ [(k, v)]))) \<and>
     (\<forall>es k. distinct (map fst es) \<longrightarrow> plain_key k \<longrightarrow>
        jf_Delete jf (JObject es) k = Ok (JObject (filter (\<lambda>e. fst e \<noteq> k) es)))"

definition title_laws :: "JsonFns \<Rightarrow> bool" where
  "title_laws jf \<longleftrightarrow>
     (\<forall>w. list_all alnum w \<longrightarrow> list_all alnum (jf_Title jf w)) \<and>
     (\<forall>w. list_all alnum w \<longrightarrow> jf_Title jf (CHR ''T'' # w) = CHR ''T'' # w)"

text \<open>
  The type schema: a type name, without its array suffix, is \<open>resolved\<close> when it is one of the
  basic types used or defined; a schema is closed when all its field types are.
\<close>

definition base_name :: "string \<Rightarrow> string" where
  "base_name t = (if drop (length t - 2) t = ''[]'' then take (length t - 2) t else t)"

definition resolved :: "TypeMap \<Rightarrow> string \<Rightarrow> bool" where
  "resolved ts t \<longleftrightarrow> base_name t \<in> {''string'', ''bool'', ''int64'', ''uint256''} \<union> fst ` set ts"

definition schema_closed :: "TypeMap \<Rightarrow> bool" where
  "schema_closed ts \<longleftrightarrow> (\<forall>(n, fs) \<in> set ts. \<forall>(f, t) \<in> set fs. resolved ts t)"

text \<open>The prefixes that occur: the root, or keys joined to it by dots.\<close>

definition good_prefix :: "string \<Rightarrow> bool" where
  "good_prefix p \<longleftrightarrow> p = ''_'' \<or>
     (\<exists>q. p = ''_.'' @ q \<and> list_all (\<lambda>ch. alnum ch \<or> ch = CHR ''_'' \<or> ch = CHR ''.'') q)"

definition fields_resolved :: "TypeMap \<Rightarrow> Fields \<Rightarrow> bool" where
  "fields_resolved ts fs \<longleftrightarrow> (\<forall>(f, t) \<in> set fs. resolved ts t)"

text \<open>\<open>extends ts ts'\<close>: \<open>ts'\<close> is closed and keeps the definitions of \<open>ts\<close>.\<close>

definition extends :: "TypeMap \<Rightarrow> TypeMap \<Rightarrow> bool" where
  "extends ts ts' \<longleftrightarrow> schema_closed ts' \<and> map_of ts \<subseteq>\<^sub>m map_of ts'"

text \<open>What the recursive call promises for an object under a prefix.\<close>

definition sub_sound :: "JsonFns \<Rightarrow> (string \<Rightarrow> JSON \<Rightarrow> (TypeMap, string) M) \<Rightarrow> bool" where
  "sub_sound jf sub \<longleftrightarrow> (\<forall>pre v ts d ts'. good_prefix pre \<longrightarrow> pre \<noteq> rootPrefix \<longrightarrow> IsObject v \<longrightarrow> json_ok v \<longrightarrow> schema_closed ts \<longrightarrow>
     sub pre v ts = (Ok d, ts') \<longrightarrow>
     extends ts ts' \<and> map_of ts' d \<noteq> None \<and> (\<exists>j. d = typeDefWithIndex (sanitizeTypedef jf pre) j))"

text \<open>The messages of a document, and the document with its messages moved to fields of their own.\<close>

definition payload_msgs :: "(string \<times> JSON) list \<Rightarrow> JSON list \<Rightarrow> bool" where
  "payload_msgs es msgs \<longleftrightarrow> map_of es ''msgs'' = Some (JArray msgs) \<or> (map_of es ''msgs'' = Some JNull \<and> msgs = [])"

definition flat_entries :: "(string \<times> JSON) list \<Rightarrow> JSON list \<Rightarrow> (string \<times> JSON) list" where
  "flat_entries es msgs = filter (\<lambda>e. fst e \<noteq> ''msgs'') es @ zip (map msgFieldForIndex [0..<length msgs]) msgs"

section \<open>Reference functions\<close>

definition ref_upper :: "char \<Rightarrow> char" where
  "ref_upper ch = (let n = of_char ch :: nat in if 97 \<le> n \<and> n \<le> 122 then char_of (n - 32) else ch)"

definition ref_json :: "JSON option \<Rightarrow> JsonFns" where
  "ref_json doc = \<lparr>jf_Parse = (\<lambda>_. doc),
     jf_Get = (\<lambda>j k. case j of JObject es \<Rightarrow> map_of es k | _ \<Rightarrow> None),
     jf_Map = (\<lambda>j. case j of JObject es \<Rightarrow> es | _ \<Rightarrow> []),
     jf_SetRaw = (\<lambda>j k v. case j of JObject es \<Rightarrow> Ok (JObject (es @ [(k, v)])) | _ \<Rightarrow> Err ErrInvalidType),
     jf_Delete = (\<lambda>j k. case j of JObject es \<Rightarrow> Ok (JObject (filter (\<lambda>e. fst e \<noteq> k) es)) | _ \<Rightarrow> Err ErrInvalidType),
     jf_Title = (\<lambda>w. case w of [] \<Rightarrow> [] | ch # r \<Rightarrow> ref_upper ch # r)\<rparr>"

definition ref_msg :: "string \<Rightarrow> JSON" where
  "ref_msg t = JObject [(''type'', JString t), (''value'', JObject [(''amount'', JArray [JObject [(''denom'', JString ''a'')]])])]"

definition ref_doc :: JSON where
  "ref_doc = JObject [(''memo'', JString []), (''msgs'', JArray [ref_msg ''sdk/MsgSend'', ref_msg ''sdk/MsgSend''])]"

section \<open>Lemmas on the parameters\<close>

lemma plain_keys [simp]: "plain_key ''msgs''" "plain_key ''type''" "plain_key ''fee''"
  by code_simp+

lemma json_Get: "json_laws jf \<Longrightarrow> distinct (map fst es) \<Longrightarrow> plain_key k \<Longrightarrow> jf_Get jf (JObject es) k = map_of es k"
  by (simp add: json_laws_def)

lemma json_SetRaw: "json_laws jf \<Longrightarrow> distinct (map fst es) \<Longrightarrow> plain_key k \<Longrightarrow> k \<notin> fst ` set es \<Longrightarrow>
    jf_SetRaw jf (JObject es) k v = Ok (JObject (es @ [(k, v)]))"
  by (simp add: json_laws_def)

lemma json_Delete: "json_laws jf \<Longrightarrow> distinct (map fst es) \<Longrightarrow> plain_key k \<Longrightarrow>
    jf_Delete jf (JObject es) k = Ok (JObject (filter (\<lambda>e. fst e \<noteq> k) es))"
  by (simp add: json_laws_def)

lemma dec_string_digits: "list_all is_digit (dec_string n) \<and> dec_string n \<noteq> []"
proof (induction n rule: dec_string.induct)
  case (1 n)
  have d: "is_digit (char_of (48 + k))" if "k < 10" for k :: nat using that by (simp add: is_digit_def)
  show ?case
  proof (cases "n < 10")
    case True
    then show ?thesis by (simp add: dec_string.simps [of n] d)
  next
    case False
    with 1 show ?thesis by (simp add: dec_string.simps [of n] d)
  qed
qed

text \<open>Different numbers have different decimal strings: \<open>decimal\<close> reads them back.\<close>

lemma decimal_dec_string: "decimal (dec_string n) = int n"
proof (induction n rule: dec_string.induct)
  case (1 n)
  have digit: "int (of_char (char_of (48 + k) :: char)) - 48 = int k" if "k < 10" for k :: nat using that by simp
  show ?case
  proof (cases "n < 10")
    case True
    then show ?thesis using digit [OF True] by (simp add: dec_string.simps [of n] decimal_def)
  next
    case False
    have m: "n mod 10 < 10" by simp
    have "int (n div 10) * 10 + int (n mod 10) = int n"
      by (metis div_mult_mod_eq of_nat_add of_nat_mult of_nat_numeral)
    with False 1 show ?thesis
      using digit [OF m] by (simp add: dec_string.simps [of n] decimal_snoc)
  qed
qed

lemma dec_string_inj: "dec_string i = dec_string j \<longleftrightarrow> i = j"
  by (metis decimal_dec_string of_nat_eq_iff)

lemma msgField_inj [simp]: "msgFieldForIndex i = msgFieldForIndex j \<longleftrightarrow> i = j"
  by (simp add: msgFieldForIndex_def dec_string_inj)

lemma digit_alnum: "is_digit ch \<Longrightarrow> alnum ch"
  by (simp add: is_digit_def alnum_def Let_def)

lemma dec_string_alnum: "list_all alnum (dec_string n)"
  using dec_string_digits [of n] by (auto simp: list_all_iff digit_alnum)

lemma msgField_plain [simp]: "plain_key (msgFieldForIndex i)"
proof -
  have "alnum (CHR ''m'')" "alnum (CHR ''s'')" "alnum (CHR ''g'')" by code_simp+
  then show ?thesis using dec_string_alnum [of i] by (auto simp: plain_key_def msgFieldForIndex_def list_all_iff)
qed

lemma msgField_not_msgs [simp]: "msgFieldForIndex i \<noteq> ''msgs''"
proof
  assume "msgFieldForIndex i = ''msgs''"
  then have "dec_string i = ''s''" by (simp add: msgFieldForIndex_def)
  with dec_string_digits [of i] show False by (simp add: is_digit_def)
qed

section \<open>Flattening\<close>

text \<open>The entries the messages are stored under, from index \<open>i\<close> on.\<close>

lemma add_messages_run:
  assumes "json_laws jf" "distinct (map fst es)" "\<forall>(k, v) \<in> set es. plain_key k"
  shows "if list_all IsObject msgs \<and> (\<forall>j \<in> {i..<i + length msgs}. msgFieldForIndex j \<notin> fst ` set es)
    then add_messages jf i msgs (JObject es) =
      Ok (JObject (es @ zip (map msgFieldForIndex [i..<i + length msgs]) msgs))
    else \<exists>e. add_messages jf i msgs (JObject es) = Err e"
  using assms(2,3)
proof (induction msgs arbitrary: i es)
  case Nil
  then show ?case by simp
next
  case (Cons m msgs)
  show ?case
  proof (cases "IsObject m \<and> msgFieldForIndex i \<notin> fst ` set es")
    case False
    then have "\<exists>e. payloadWithNewMessage jf (JObject es) m i = Err e"
      using json_Get [OF assms(1) Cons.prems(1)] by (auto simp: payloadWithNewMessage_def Let_def map_of_eq_None_iff)
    with False show ?thesis by auto
  next
    case True
    let ?es = "es @ [(msgFieldForIndex i, m)]"
    have "payloadWithNewMessage jf (JObject es) m i = Ok (JObject ?es)"
      using True json_Get [OF assms(1) Cons.prems(1)] json_SetRaw [OF assms(1) Cons.prems(1)]
      by (auto simp: payloadWithNewMessage_def Let_def map_of_eq_None_iff)
    then have step: "add_messages jf i (m # msgs) (JObject es) = add_messages jf (Suc i) msgs (JObject ?es)" by simp
    have ok: "distinct (map fst ?es)" "\<forall>(k, v) \<in> set ?es. plain_key k" using True Cons.prems by auto
    have "{i..<i + length (m # msgs)} = insert i {Suc i..<Suc i + length msgs}" by auto
    then have clash: "(\<forall>j \<in> {i..<i + length (m # msgs)}. msgFieldForIndex j \<notin> fst ` set es) \<longleftrightarrow>
        (\<forall>j \<in> {Suc i..<Suc i + length msgs}. msgFieldForIndex j \<notin> fst ` set ?es)"
      using True by auto
    have zip: "es @ zip (map msgFieldForIndex [i..<i + length (m # msgs)]) (m # msgs) =
        ?es @ zip (map msgFieldForIndex [Suc i..<Suc i + length msgs]) msgs"
      by (simp add: upt_conv_Cons del: upt_Suc)
    have obj: "list_all IsObject (m # msgs) \<longleftrightarrow> list_all IsObject msgs" using True by simp
    show ?thesis unfolding step clash zip obj by (rule Cons.IH [OF ok])
  qed
qed

lemma filter_zip_msgs:
  "filter (\<lambda>e. fst e \<noteq> ''msgs'') (zip (map msgFieldForIndex is) msgs) = zip (map msgFieldForIndex is) msgs"
  by (rule filter_True) (auto dest!: set_zip_leftD simp: msgField_not_msgs [symmetric])

section \<open>Depth and determinism\<close>

lemma size_entry: "(k, v) \<in> set es \<Longrightarrow> size v < size (JObject es)"
  by (induction es) auto

lemma size_item: "v \<in> set vs \<Longrightarrow> size v < size (JArray vs)"
  by (induction vs) auto

lemma sorted_keys_order:
  assumes "go_range rng" "go_range rng'"
  shows "sortedJSONKeys jf rng json = sortedJSONKeys jf rng' json"
proof -
  have "sort (rng xs) = sort (rng' xs)" for xs
    using assms by (intro properties_for_sort) (simp_all add: go_range_def)
  then show ?thesis by (simp add: sortedJSONKeys_def)
qed

lemma sorted_keys_set:
  assumes "json_laws jf" "go_range rng" "json_ok (JObject es)" "sortedJSONKeys jf rng (JObject es) = Ok names"
  shows "set names = fst ` set es"
proof -
  have "set (jf_Map jf (JObject es)) = set es" using assms(1,3) by (auto simp: json_laws_def)
  moreover have "names = rev (sort (rng (map fst (jf_Map jf (JObject es)))))"
    using assms(4) by (simp add: sortedJSONKeys_def)
  ultimately show ?thesis by (simp only: set_rev set_sort set_map go_range_set [OF assms(2)])
qed

text \<open>The value found under a field name is a proper part of the object.\<close>

lemma field_part:
  assumes "json_laws jf" "json_ok (JObject es)" "k \<in> fst ` set es"
  obtains v where "jf_Get jf (JObject es) k = Some v" "json_ok v" "size v < size (JObject es)" "plain_key k"
proof -
  from assms(3) obtain w where w: "(k, w) \<in> set es" by auto
  with assms(2) have p: "plain_key k" and d: "distinct (map fst es)" by auto
  from w d have "map_of es k = Some w" by simp
  with json_Get [OF assms(1) d p] have "jf_Get jf (JObject es) k = Some w" by simp
  moreover have "json_ok w" using assms(2) w by auto
  ultimately show thesis using that p size_entry [OF w] by blast
qed

lemma foldM_cong_set: "(\<And>x b. x \<in> set xs \<Longrightarrow> f x b = g x b) \<Longrightarrow> foldM f xs b = foldM g xs b"
proof (induction xs arbitrary: b)
  case (Cons x xs)
  then have "f x b = g x b" "foldM f xs = foldM g xs" by (auto simp: fun_eq_iff)
  then show ?case by simp
qed simp

lemma foldM_no_panic:
  "(\<And>x b s. x \<in> set xs \<Longrightarrow> \<not> is_Panic (fst (f x b s))) \<Longrightarrow> \<not> is_Panic (fst (foldM f xs b s))"
proof (induction xs arbitrary: b s)
  case (Cons x xs)
  then have "\<not> is_Panic (fst (f x b s))" by simp
  with Cons show ?case by (cases "f x b s"; cases "fst (f x b s)") (auto simp: bindM_def)
qed simp

lemma find_typedef_no_panic: "\<not> is_Panic (fst (find_typedef left i d fs ts))"
  by (induction left arbitrary: i) (auto simp: bindM_def thenM_def split: option.splits)

text \<open>One field: two recursive calls that agree on smaller objects give the same types, and neither panics.\<close>

lemma field_types_cong:
  assumes "json_laws jf" "json_ok (JObject es)" "k \<in> fst ` set es"
    and "\<forall>pre v. IsObject v \<longrightarrow> json_ok v \<longrightarrow> size v < size (JObject es) \<longrightarrow> sub pre v = sub' pre v"
  shows "field_types jf sub prefix (JObject es) k acc = field_types jf sub' prefix (JObject es) k acc"
proof -
  from assms(1-3) obtain v where v: "jf_Get jf (JObject es) k = Some v" "json_ok v" "size v < size (JObject es)"
    by (rule field_part)
  have sub: "field_value_types jf sub prefix k c w acc = field_value_types jf sub' prefix k c w acc"
    if "json_ok w" "size w < size (JObject es)" for c w
    using assms(4) that by (cases w) (simp_all add: field_value_types_def)
  show ?thesis
  proof (cases v)
    case (JArray vs)
    show ?thesis
    proof (cases vs)
      case (Cons w ws)
      then have "w \<in> set vs" by simp
      with v JArray have "json_ok w" "size w < size (JObject es)" using size_item [of w vs] by auto
      with sub v JArray Cons show ?thesis by (simp add: field_types_def)
    qed (simp add: v JArray field_types_def)
  qed (use v sub in \<open>auto simp: field_types_def\<close>)
qed

lemma field_types_no_panic:
  assumes "json_laws jf" "json_ok (JObject es)" "k \<in> fst ` set es"
    and "\<forall>pre v s. IsObject v \<longrightarrow> json_ok v \<longrightarrow> size v < size (JObject es) \<longrightarrow> \<not> is_Panic (fst (sub pre v s))"
  shows "\<not> is_Panic (fst (field_types jf sub prefix (JObject es) k acc s))"
proof -
  from assms(1-3) obtain v where v: "jf_Get jf (JObject es) k = Some v" "json_ok v" "size v < size (JObject es)"
    by (rule field_part)
  have sub: "\<not> is_Panic (fst (field_value_types jf sub prefix k c w acc s))"
    if "json_ok w" "size w < size (JObject es)" for c w
  proof (cases "IsObject w")
    case True
    with assms(4) that have "\<not> is_Panic (fst (sub (prefixForSubField prefix k) w s))" by blast
    with True show ?thesis
      by (cases "sub (prefixForSubField prefix k) w s"; cases "fst (sub (prefixForSubField prefix k) w s)")
        (auto simp: field_value_types_def Let_def bindM_def)
  qed (simp add: field_value_types_def Let_def)
  show ?thesis
  proof (cases v)
    case (JArray vs)
    show ?thesis
    proof (cases vs)
      case (Cons w ws)
      then have "w \<in> set vs" by simp
      with v JArray have "json_ok w" "size w < size (JObject es)" using size_item [of w vs] by auto
      with sub v JArray Cons show ?thesis by (simp add: field_types_def)
    qed (simp add: v JArray field_types_def)
  qed (use v sub in \<open>auto simp: field_types_def\<close>)
qed

lemma types_depth_enough:
  assumes "json_laws jf" "go_range rng"
  shows "IsObject p \<Longrightarrow> json_ok p \<Longrightarrow> size p \<le> n \<Longrightarrow> size p \<le> m \<Longrightarrow>
    recursivelyAddTypesToRoot n jf rng rootType prefix p = recursivelyAddTypesToRoot m jf rng rootType prefix p"
proof (induction n arbitrary: m p prefix)
  case 0
  then show ?case by (cases p) auto
next
  case (Suc n)
  from Suc.prems obtain es m' where p: "p = JObject es" and m: "m = Suc m'"
    by (cases p; cases m) auto
  have sub: "\<forall>pre v. IsObject v \<longrightarrow> json_ok v \<longrightarrow> size v < size (JObject es) \<longrightarrow>
      recursivelyAddTypesToRoot n jf rng rootType pre v = recursivelyAddTypesToRoot m' jf rng rootType pre v"
    using Suc.IH Suc.prems(3,4) p m by auto
  show ?case
  proof (cases "sortedJSONKeys jf rng p")
    case (Ok names)
    with sorted_keys_set [OF assms] Suc.prems p have "set names = fst ` set es" by auto
    with Suc.prems(2) have "foldM (field_types jf (recursivelyAddTypesToRoot n jf rng rootType) prefix p) names [] =
        foldM (field_types jf (recursivelyAddTypesToRoot m' jf rng rootType) prefix p) names []"
      unfolding p by (intro foldM_cong_set field_types_cong [OF assms(1) _ _ sub]) auto
    with Ok m show ?thesis by simp
  qed (simp_all add: m fun_eq_iff)
qed

lemma types_no_panic:
  assumes "json_laws jf" "go_range rng"
  shows "IsObject p \<Longrightarrow> json_ok p \<Longrightarrow> size p \<le> n \<Longrightarrow> \<not> is_Panic (fst (recursivelyAddTypesToRoot n jf rng rootType prefix p s))"
proof (induction n arbitrary: p prefix s)
  case 0
  then show ?case by (cases p) auto
next
  case (Suc n)
  from Suc.prems obtain es where p: "p = JObject es" by (cases p) auto
  have sub: "\<forall>pre v s. IsObject v \<longrightarrow> json_ok v \<longrightarrow> size v < size (JObject es) \<longrightarrow>
      \<not> is_Panic (fst (recursivelyAddTypesToRoot n jf rng rootType pre v s))"
    using Suc.IH Suc.prems(3) p by auto
  obtain names where names: "sortedJSONKeys jf rng p = Ok names" by (simp add: p sortedJSONKeys_def)
  with sorted_keys_set [OF assms] Suc.prems p have "set names = fst ` set es" by auto
  with Suc.prems(2) have "\<not> is_Panic (fst (foldM (field_types jf (recursivelyAddTypesToRoot n jf rng rootType) prefix p) names [] s))"
    unfolding p by (intro foldM_no_panic field_types_no_panic [OF assms(1) _ _ sub]) auto
  then show ?case using names find_typedef_no_panic
    by (auto simp: bindM_def addTypesToRoot_def split: prod.splits outcome.splits)
qed

section \<open>Type names\<close>

lemma split_on_chars: "w \<in> set (split_on c xs) \<Longrightarrow> set w \<subseteq> set xs"
  by (induction xs arbitrary: w) (fastforce split: list.splits if_splits)+

lemma list_all_concat_map: "(\<forall>x \<in> set xs. list_all P (f x)) \<Longrightarrow> list_all P (concat (map f xs))"
  by (induction xs) auto

lemma sanitize_word:
  "CHR ''.'' \<notin> set d \<Longrightarrow> CHR ''_'' \<notin> set d \<Longrightarrow> sanitizeTypedef jf d = jf_Title jf d"
  by (cases "d = rootPrefix") (simp_all add: sanitizeTypedef_def split_on_absent, simp add: rootPrefix_def)

lemma alnum_not: "\<not> alnum (CHR ''_'')" "\<not> alnum (CHR ''.'')" "\<not> alnum (CHR '']'')" "alnum (CHR ''T'')" "list_all alnum ''ype''"
  by code_simp+

lemma sanitize_part:
  assumes "title_laws jf" "list_all (\<lambda>ch. alnum ch \<or> ch = CHR ''_'') part"
  shows "list_all alnum (concat (map (jf_Title jf) (split_on (CHR ''_'') part)))"
proof -
  have "list_all alnum w" if "w \<in> set (split_on (CHR ''_'') part)" for w
    using split_on_chars [OF that] split_on_clean [OF that] assms(2) by (fastforce simp: list_all_iff)
  then have "list_all alnum (jf_Title jf w)" if "w \<in> set (split_on (CHR ''_'') part)" for w
    using assms(1) that by (simp add: title_laws_def)
  then show ?thesis by (auto simp: list_all_iff)
qed

text \<open>A sanitised prefix is \<open>Type\<close> followed by letters and digits.\<close>

lemma sanitize_prefix:
  assumes "title_laws jf" "good_prefix p"
  obtains r where "sanitizeTypedef jf p = ''Type'' @ r" "list_all alnum r"
proof -
  have ty: "list_all alnum typePrefix" using alnum_not by (simp add: typePrefix_def)
  have parts: "list_all alnum (if part = rootPrefix then typePrefix else concat (map (jf_Title jf) (split_on (CHR ''_'') part)))"
    if "part \<in> set (split_on (CHR ''.'') q)" "list_all (\<lambda>ch. alnum ch \<or> ch = CHR ''_'' \<or> ch = CHR ''.'') q" for part q
  proof -
    have "list_all (\<lambda>ch. alnum ch \<or> ch = CHR ''_'') part"
      using split_on_chars [OF that(1)] split_on_clean [OF that(1)] that(2) by (fastforce simp: list_all_iff)
    then show ?thesis using sanitize_part [OF assms(1)] ty by simp
  qed
  from assms(2) consider "p = ''_''" | q where "p = ''_.'' @ q" "list_all (\<lambda>ch. alnum ch \<or> ch = CHR ''_'' \<or> ch = CHR ''.'') q"
    unfolding good_prefix_def by blast
  then show thesis
  proof cases
    case 1
    have "sanitizeTypedef jf p = ''Type'' @ []" by (simp add: 1 sanitizeTypedef_def rootPrefix_def typePrefix_def)
    then show thesis by (rule that) simp
  next
    case 2
    have "sanitizeTypedef jf p = ''Type'' @ concat (map (\<lambda>part. if part = rootPrefix then typePrefix
        else concat (map (jf_Title jf) (split_on (CHR ''_'') part))) (split_on (CHR ''.'') q))"
      by (simp add: 2(1) sanitizeTypedef_def rootPrefix_def typePrefix_def)
    moreover have "list_all alnum (concat (map (\<lambda>part. if part = rootPrefix then typePrefix
        else concat (map (jf_Title jf) (split_on (CHR ''_'') part))) (split_on (CHR ''.'') q)))"
      using parts [OF _ 2(2)] by (intro list_all_concat_map ballI)
    ultimately show thesis by (rule that)
  qed
qed

text \<open>So the second call of \<open>sanitizeTypedef\<close>, on the indexed name, changes nothing.\<close>

lemma sanitize_stable:
  assumes "title_laws jf" "good_prefix p"
  shows "sanitizeTypedef jf (typeDefWithIndex (sanitizeTypedef jf p) j) = typeDefWithIndex (sanitizeTypedef jf p) j"
proof -
  obtain r where r: "sanitizeTypedef jf p = ''Type'' @ r" "list_all alnum r" using assms by (rule sanitize_prefix)
  let ?d = "CHR ''T'' # ''ype'' @ r @ dec_string j"
  have d: "typeDefWithIndex (sanitizeTypedef jf p) j = ?d" by (simp add: typeDefWithIndex_def r)
  have al: "list_all alnum (''ype'' @ r @ dec_string j)" using r(2) dec_string_alnum alnum_not(5) by (simp add: list_all_append)
  then have "CHR ''_'' \<notin> set ?d" "CHR ''.'' \<notin> set ?d" using alnum_not by (auto simp: list_all_iff)
  then have "sanitizeTypedef jf ?d = jf_Title jf ?d" by (intro sanitize_word)
  also have "\<dots> = ?d" using assms(1) al unfolding title_laws_def by blast
  finally show ?thesis using d by simp
qed

lemma good_prefix_sub: "good_prefix p \<Longrightarrow> plain_key k \<Longrightarrow> good_prefix (prefixForSubField p k)"
  unfolding good_prefix_def plain_key_def prefixForSubField_def by (fastforce simp: list_all_iff)

lemma sub_prefix_not_root: "p \<noteq> [] \<Longrightarrow> prefixForSubField p k \<noteq> rootPrefix"
  by (cases p) (auto simp: prefixForSubField_def rootPrefix_def)

lemma base_name_suffix: "base_name (t @ ''[]'') = t"
  by (simp add: base_name_def)

lemma base_name_index: "base_name (typeDefWithIndex d j) = typeDefWithIndex d j"
proof -
  obtain ds ch where ch: "dec_string j = ds @ [ch]" using dec_string_digits [of j] by (cases "dec_string j" rule: rev_cases) auto
  then have "alnum ch" using dec_string_alnum [of j] by simp
  then have "ch \<noteq> CHR '']''" using alnum_not by auto
  moreover have "last (drop (length t - 2) t) = last t" if "t \<noteq> []" for t :: string
    using that by (intro last_drop) (cases t, auto)
  ultimately have "drop (length (typeDefWithIndex d j) - 2) (typeDefWithIndex d j) \<noteq> ''[]''"
    unfolding typeDefWithIndex_def ch by (metis append_is_Nil_conv last_appendR last.simps last_snoc list.distinct(1))
  then show ?thesis by (simp add: base_name_def)
qed

section \<open>The schema stays closed\<close>

lemma keys_map_of: "fst ` set ts = dom (map_of ts)"
  by (simp add: dom_map_of_conv_image_fst)

lemma resolved_mono: "map_of ts \<subseteq>\<^sub>m map_of ts' \<Longrightarrow> resolved ts t \<Longrightarrow> resolved ts' t"
  unfolding resolved_def keys_map_of using map_le_implies_dom_le by blast

lemma fields_resolved_mono: "map_of ts \<subseteq>\<^sub>m map_of ts' \<Longrightarrow> fields_resolved ts fs \<Longrightarrow> fields_resolved ts' fs"
  unfolding fields_resolved_def using resolved_mono by blast

lemma extends_refl: "schema_closed ts \<Longrightarrow> extends ts ts"
  by (simp add: extends_def)

lemma extends_trans: "extends ts us \<Longrightarrow> extends us vs \<Longrightarrow> extends ts vs"
  unfolding extends_def using map_le_trans by blast

lemma gomap_set_entries: "set (gomap_set k v es) \<subseteq> insert (k, v) (set es)"
  by (induction es) auto

lemma closed_set:
  assumes "schema_closed ts" "fields_resolved ts fs"
  shows "schema_closed (gomap_set k fs ts)"
proof -
  have "resolved (gomap_set k fs ts) t" if "resolved ts t" for t
    using that gomap_set_keys [of k fs ts] by (auto simp: resolved_def)
  then show ?thesis
    using assms gomap_set_entries [of k fs ts] unfolding schema_closed_def fields_resolved_def by fastforce
qed

lemma typesAreEqual_iff: "typesAreEqual a b \<longleftrightarrow> a = b"
  by (induction a b rule: typesAreEqual.induct) auto

lemma find_typedef_run:
  assumes "find_typedef left i d fs ts = (Ok key, ts')" "schema_closed ts" "fields_resolved ts fs"
  shows "extends ts ts' \<and> map_of ts' key = Some fs \<and> (\<exists>j. key = typeDefWithIndex d j)"
  using assms(1)
proof (induction left arbitrary: i)
  case (Suc left)
  show ?case
  proof (cases "map_of ts (typeDefWithIndex d i)")
    case None
    with Suc.prems have r: "key = typeDefWithIndex d i" "ts' = gomap_set key fs ts"
      by (auto simp: bindM_def thenM_def)
    moreover have "map_of ts \<subseteq>\<^sub>m map_of (gomap_set key fs ts)"
      using None r(1) by (auto simp: map_le_def gomap_set_get)
    ultimately show ?thesis using closed_set [OF assms(2,3)] by (auto simp: extends_def gomap_set_get)
  next
    case (Some ex)
    with Suc show ?thesis
      using extends_refl [OF assms(2)] by (auto simp: bindM_def typesAreEqual_iff split: if_splits)
  qed
qed simp

lemma basic_resolved: "getEthTypeForJSON v \<noteq> [] \<Longrightarrow> resolved ts (getEthTypeForJSON v @ collection_suffix c)"
  by (cases v) (auto simp: resolved_def collection_suffix_def base_name_suffix base_name_def)

lemma field_value_sound:
  assumes "title_laws jf" "sub_sound jf sub" "good_prefix prefix" "plain_key k" "json_ok v"
    and "schema_closed ts" "fields_resolved ts acc" "field_value_types jf sub prefix k c v acc ts = (Ok fs, ts')"
  shows "extends ts ts' \<and> fields_resolved ts' fs"
proof (cases "getEthTypeForJSON v = [] \<and> IsObject v")
  case False
  with assms(6-8) basic_resolved [of v ts c] show ?thesis
    by (auto simp: field_value_types_def Let_def extends_refl fields_resolved_def split: if_splits)
next
  case True
  let ?pre = "prefixForSubField prefix k"
  from True assms(8) obtain d where d: "sub ?pre v ts = (Ok d, ts')"
      "fs = acc @ [(k, sanitizeTypedef jf d @ collection_suffix c)]"
    by (auto simp: field_value_types_def)
  have "prefix \<noteq> []" using assms(3) by (auto simp: good_prefix_def)
  then have pre: "good_prefix ?pre" "?pre \<noteq> rootPrefix"
    using good_prefix_sub [OF assms(3,4)] sub_prefix_not_root by auto
  have "extends ts ts' \<and> map_of ts' d \<noteq> None \<and> (\<exists>j. d = typeDefWithIndex (sanitizeTypedef jf ?pre) j)"
    using assms(2,5,6) pre True d(1) unfolding sub_sound_def by blast
  then obtain j where ext: "extends ts ts'" and key: "map_of ts' d \<noteq> None"
      and dj: "d = typeDefWithIndex (sanitizeTypedef jf ?pre) j" by blast
  have "sanitizeTypedef jf d = d" unfolding dj by (rule sanitize_stable [OF assms(1) pre(1)])
  moreover have "base_name d = d" unfolding dj by (rule base_name_index)
  ultimately have "resolved ts' (sanitizeTypedef jf d @ collection_suffix c)"
    using key by (auto simp: resolved_def collection_suffix_def base_name_suffix keys_map_of)
  moreover have "fields_resolved ts' acc"
    using ext assms(7) by (auto simp: extends_def intro: fields_resolved_mono)
  ultimately show ?thesis using ext d(2) by (auto simp: fields_resolved_def)
qed

lemma field_types_sound:
  assumes "json_laws jf" "title_laws jf" "sub_sound jf sub" "good_prefix prefix" "json_ok (JObject es)" "k \<in> fst ` set es"
    and "schema_closed ts" "fields_resolved ts acc" "field_types jf sub prefix (JObject es) k acc ts = (Ok fs, ts')"
  shows "extends ts ts' \<and> fields_resolved ts' fs"
proof -
  from assms(1,5,6) obtain v where v: "jf_Get jf (JObject es) k = Some v" "json_ok v" "plain_key k"
    by (rule field_part)
  note sound = field_value_sound [OF assms(2-4) v(3) _ assms(7,8)]
  show ?thesis
  proof (cases v)
    case (JArray vs)
    show ?thesis
    proof (cases vs)
      case Nil
      with JArray v(1) assms(9) have "ts' = ts" "fs = acc @ [(k, ''string[]'')]" by (simp_all add: field_types_def)
      moreover have "resolved ts ''string[]''" by (simp add: resolved_def base_name_def)
      ultimately show ?thesis using assms(7,8) by (auto simp: extends_refl fields_resolved_def)
    next
      case (Cons w ws)
      with JArray v(2) have "json_ok w" by auto
      moreover have "field_value_types jf sub prefix k True w acc ts = (Ok fs, ts')"
        using JArray Cons v(1) assms(9) by (simp add: field_types_def)
      ultimately show ?thesis by (rule sound)
    qed
  qed (use v assms(9) sound in \<open>auto simp: field_types_def\<close>)
qed

lemma fields_fold_sound:
  assumes "json_laws jf" "title_laws jf" "sub_sound jf sub" "good_prefix prefix" "json_ok (JObject es)"
  shows "set names \<subseteq> fst ` set es \<Longrightarrow> schema_closed ts \<Longrightarrow> fields_resolved ts acc \<Longrightarrow>
    foldM (field_types jf sub prefix (JObject es)) names acc ts = (Ok fs, ts') \<Longrightarrow> extends ts ts' \<and> fields_resolved ts' fs"
proof (induction names arbitrary: acc ts)
  case Nil
  then show ?case by (simp add: extends_refl)
next
  case (Cons k names)
  from Cons.prems(4) obtain acc1 ts1 where step: "field_types jf sub prefix (JObject es) k acc ts = (Ok acc1, ts1)"
      "foldM (field_types jf sub prefix (JObject es)) names acc1 ts1 = (Ok fs, ts')" by auto
  have one: "extends ts ts1 \<and> fields_resolved ts1 acc1"
    using field_types_sound [OF assms _ Cons.prems(2,3) step(1)] Cons.prems(1) by auto
  then have "extends ts1 ts' \<and> fields_resolved ts' fs"
    using Cons.IH [OF _ _ _ step(2)] Cons.prems(1) by (auto simp: extends_def)
  with one show ?case using extends_trans by blast
qed

lemma types_sound:
  assumes "json_laws jf" "title_laws jf" "go_range rng"
  shows "IsObject p \<Longrightarrow> json_ok p \<Longrightarrow> good_prefix prefix \<Longrightarrow> schema_closed ts \<Longrightarrow>
    recursivelyAddTypesToRoot n jf rng rootType prefix p ts = (Ok d, ts') \<Longrightarrow>
    extends ts ts' \<and> map_of ts' d \<noteq> None \<and> (\<exists>j. d = typeDefWithIndex (typeDefForPrefix jf prefix rootType) j)"
proof (induction n arbitrary: p prefix ts d ts')
  case (Suc n)
  from Suc.prems(1) obtain es where p: "p = JObject es" by (cases p) auto
  have sub: "sub_sound jf (recursivelyAddTypesToRoot n jf rng rootType)"
    using Suc.IH unfolding sub_sound_def by (metis typeDefForPrefix_def)
  from Suc.prems(5) obtain names fs ts1 where run: "sortedJSONKeys jf rng (JObject es) = Ok names"
      "foldM (field_types jf (recursivelyAddTypesToRoot n jf rng rootType) prefix (JObject es)) names [] ts = (Ok fs, ts1)"
      "addTypesToRoot (typeDefForPrefix jf prefix rootType) fs ts1 = (Ok d, ts')"
    unfolding p by auto
  have "set names = fst ` set es" using sorted_keys_set [OF assms(1,3) _ run(1)] Suc.prems(2) p by simp
  then have "extends ts ts1 \<and> fields_resolved ts1 fs"
    using fields_fold_sound [OF assms(1,2) sub Suc.prems(3) _ _ Suc.prems(4) _ run(2)] Suc.prems(2) p
    by (simp add: fields_resolved_def)
  moreover from this have "extends ts1 ts' \<and> map_of ts' d = Some fs \<and> (\<exists>j. d = typeDefWithIndex (typeDefForPrefix jf prefix rootType) j)"
    using find_typedef_run run(3) by (auto simp: extends_def addTypesToRoot_def)
  ultimately show ?case using extends_trans by blast
qed simp

section \<open>The document\<close>

lemma flatten_Ok:
  assumes "json_laws jf" "json_ok (JObject es)" "FlattenPayloadMessages jf (JObject es) = Ok (p, n)"
  obtains msgs where "payload_msgs es msgs" "p = JObject (flat_entries es msgs)" "n = length msgs"
    "json_ok (JObject (flat_entries es msgs))"
proof -
  from assms(2) have d: "distinct (map fst es)" and pl: "\<forall>(k, v) \<in> set es. plain_key k \<and> json_ok v" by auto
  from assms(3) obtain msgs fl where run: "getPayloadMessages jf (JObject es) = Ok msgs" "add_messages jf 0 msgs (JObject es) = Ok fl"
      "jf_Delete jf fl ''msgs'' = Ok p" "n = length msgs"
    by (auto simp: FlattenPayloadMessages_def payloadWithoutMsgsField_def payloadMsgsField_def)
  have ms: "payload_msgs es msgs" using run(1) json_Get [OF assms(1) d, of "''msgs''"]
    by (auto simp: getPayloadMessages_def payloadMsgsField_def payload_msgs_def split: option.splits JSON.splits)
  let ?z = "zip (map msgFieldForIndex [0..<length msgs]) msgs"
  have "\<forall>(k, v) \<in> set es. plain_key k" using pl by auto
  from add_messages_run [OF assms(1) d this, of msgs 0] run(2)
  have fl: "fl = JObject (es @ ?z)" and new: "\<forall>j < length msgs. msgFieldForIndex j \<notin> fst ` set es"
    by (auto split: if_splits)
  have zk: "map fst ?z = map msgFieldForIndex [0..<length msgs]" by simp
  have "distinct (map msgFieldForIndex [0..<length msgs])" by (simp add: distinct_map inj_on_def)
  moreover have "fst ` set es \<inter> msgFieldForIndex ` {0..<length msgs} = {}"
    using new unfolding disjoint_iff by (metis atLeastLessThan_iff imageE)
  ultimately have dz: "distinct (map fst (es @ ?z))" using d unfolding map_append zk distinct_append by simp
  then have p: "p = JObject (flat_entries es msgs)"
    using run(3) json_Delete [OF assms(1) dz, of "''msgs''"] by (simp add: fl flat_entries_def filter_zip_msgs)
  have "json_ok v" if "v \<in> set msgs" for v
    using ms that pl by (fastforce simp: payload_msgs_def dest!: map_of_SomeD)
  moreover have "plain_key k" if "(k, v) \<in> set ?z" for k v using set_zip_leftD [OF that] by auto
  ultimately have zok: "\<forall>(k, v) \<in> set ?z. plain_key k \<and> json_ok v" by (auto dest: set_zip_rightD)
  have "set (flat_entries es msgs) \<subseteq> set es \<union> set ?z" unfolding flat_entries_def set_append by auto
  then have "\<forall>(k, v) \<in> set (flat_entries es msgs). plain_key k \<and> json_ok v" using pl zok by blast
  moreover have "flat_entries es msgs = filter (\<lambda>e. fst e \<noteq> ''msgs'') (es @ ?z)"
    by (simp add: flat_entries_def filter_zip_msgs)
  then have "distinct (map fst (flat_entries es msgs))" by (simp only: distinct_map_filter [OF dz])
  ultimately have "json_ok (JObject (flat_entries es msgs))" by (intro ok_object)
  then show thesis by (rule that [OF ms p run(4)])
qed

lemma message_types_run:
  assumes "json_laws jf" "title_laws jf" "go_range rng" "json_ok msg" "schema_closed ts" "map_of ts ''Tx'' = Some fs"
    and "addMsgTypesToRoot jf rng field msg ts = (Ok (), ts')"
  shows "schema_closed ts' \<and> (\<exists>d. map_of ts' ''Tx'' = Some (fs @ [(field, d)]))"
proof -
  from assms(7) obtain rt d ts1 where run: "IsObject msg" "recursivelyAddTypesToRoot (size msg) jf rng rt rootPrefix msg ts = (Ok d, ts1)"
      "addMsgTypeDefToTxSchema field d ts1 = (Ok (), ts')"
    by (auto simp: addMsgTypesToRoot_def doRecover_def bindM_def split: prod.splits outcome.splits if_splits)
  have root: "good_prefix rootPrefix" by (simp add: good_prefix_def rootPrefix_def)
  from types_sound [OF assms(1-3) run(1) assms(4) root assms(5) run(2)] obtain j
    where t: "extends ts ts1" "map_of ts1 d \<noteq> None" "d = typeDefWithIndex (typeDefForPrefix jf rootPrefix rt) j" by blast
  then have tx: "map_of ts1 ''Tx'' = Some fs" and c: "schema_closed ts1"
    using assms(6) by (auto simp: extends_def map_le_def dom_def)
  have "base_name d = d" unfolding t(3) by (rule base_name_index)
  then have "resolved ts1 d" using t(2) by (auto simp: resolved_def keys_map_of)
  moreover have "fields_resolved ts1 fs"
    using c map_of_SomeD [OF tx] by (auto simp: schema_closed_def fields_resolved_def)
  ultimately have "fields_resolved ts1 (fs @ [(field, d)])" by (auto simp: fields_resolved_def)
  with c have "schema_closed (gomap_set ''Tx'' (fs @ [(field, d)]) ts1)" by (rule closed_set)
  with run(3) tx show ?thesis by (auto simp: addMsgTypeDefToTxSchema_def gomap_set_get)
qed

lemma all_messages_run:
  assumes "json_laws jf" "title_laws jf" "go_range rng" "\<forall>i. json_ok (msg i)"
  shows "forM [0..<n] (\<lambda>i. addMsgTypesToRoot jf rng (msgFieldForIndex i) (msg i)) initial_types = (Ok (), ts) \<Longrightarrow>
    schema_closed ts \<and> (\<exists>tys. length tys = n \<and> map_of ts ''Tx'' = Some (tx_fields @ zip (map msgFieldForIndex [0..<n]) tys))"
proof (induction n arbitrary: ts)
  case 0
  moreover have "schema_closed initial_types" by code_simp
  moreover have "map_of initial_types ''Tx'' = Some tx_fields" by code_simp
  ultimately show ?case by simp
next
  case (Suc n)
  then obtain us where "forM [0..<n] (\<lambda>i. addMsgTypesToRoot jf rng (msgFieldForIndex i) (msg i)) initial_types = (Ok (), us)"
      and last: "addMsgTypesToRoot jf rng (msgFieldForIndex n) (msg n) us = (Ok (), ts)"
    by (auto simp: forM_append bindM_eq_Ok)
  with Suc.IH obtain tys where us: "schema_closed us" "length tys = n"
      "map_of us ''Tx'' = Some (tx_fields @ zip (map msgFieldForIndex [0..<n]) tys)" by blast
  from message_types_run [OF assms(1-3) _ us(1,3) last] assms(4)
  obtain d where "schema_closed ts" "map_of ts ''Tx'' = Some ((tx_fields @ zip (map msgFieldForIndex [0..<n]) tys) @ [(msgFieldForIndex n, d)])"
    by blast
  moreover have "zip (map msgFieldForIndex [0..<Suc n]) (tys @ [d]) = zip (map msgFieldForIndex [0..<n]) tys @ [(msgFieldForIndex n, d)]"
    using us(2) by simp
  ultimately show ?case using us(2) by (intro conjI exI [of _ "tys @ [d]"]) simp_all
qed

lemma ref_json_laws: "json_laws (ref_json doc)"
  by (auto simp: json_laws_def ref_json_def)

lemma ref_title_laws: "title_laws (ref_json doc)"
proof -
  have "alnum (ref_upper ch)" if "alnum ch" for ch
    using that by (auto simp: alnum_def ref_upper_def Let_def)
  moreover have "ref_upper (CHR ''T'') = CHR ''T''" by code_simp
  ultimately show ?thesis by (auto simp: title_laws_def ref_json_def split: list.splits)
qed

lemma ref_msg_ok: "json_ok (ref_msg t)"
proof -
  have "plain_key ''value''" "plain_key ''amount''" "plain_key ''denom''" by code_simp+
  then show ?thesis by (auto simp: ref_msg_def intro!: json_ok.intros)
qed

lemma ref_doc_ok: "json_ok ref_doc"
proof -
  have "plain_key ''memo''" by code_simp
  then show ?thesis by (auto simp: ref_doc_def ref_msg_ok intro!: json_ok.intros)
qed

lemma types_order:
  assumes "go_range rng" "go_range rng'"
  shows "recursivelyAddTypesToRoot n jf rng rootType = recursivelyAddTypesToRoot n jf rng' rootType"
proof (induction n)
  case (Suc n)
  show ?case by (simp add: fun_eq_iff Suc.IH sorted_keys_order [OF assms])
qed (simp add: fun_eq_iff)

lemma wrap_order:
  assumes "go_range rng" "go_range rng'"
  shows "WrapTxToTypedData jf rng chainID data = WrapTxToTypedData jf rng' chainID data"
  unfolding WrapTxToTypedData_def createEIP712Types_def addMsgTypesToRoot_def types_order [OF assms] ..

section \<open>Properties\<close>

text \<open>C21: The typed data that is signed covers the whole transaction.  Whenever the conversion
  of a sign document with distinct plain keys succeeds, the signed message is the document with
  its messages moved to the fields \<open>msg0\<close>, \<open>msg1\<close>, ...; the type of the transaction lists exactly
  those fields after the fixed ones; and the schema is closed, every type it mentions being
  basic or defined in it.\<close>

theorem eip712_covers_messages:
  assumes "json_laws jf" "title_laws jf" "go_range rng" "jf_Parse jf data = Some doc" "json_ok doc"
    and "WrapTxToTypedData jf rng chainID data = Ok td"
  shows "\<exists>es msgs tys. doc = JObject es \<and> payload_msgs es msgs \<and> td_Message td = JObject (flat_entries es msgs) \<and>
    schema_closed (td_Types td) \<and> td_PrimaryType td = ''Tx'' \<and> length tys = length msgs \<and>
    map_of (td_Types td) ''Tx'' = Some (tx_fields @ zip (map msgFieldForIndex [0..<length msgs]) tys)"
proof -
  from assms(6) obtain mp types where run: "createEIP712MessagePayload jf data = Ok mp" "createEIP712Types jf rng mp = Ok types"
      and td: "td_Types td = types" "td_PrimaryType td = ''Tx''" "td_Message td = mp_message mp"
    by (auto simp: WrapTxToTypedData_def)
  from run(1) assms(4) obtain es p n where doc: "doc = JObject es" and fl: "FlattenPayloadMessages jf (JObject es) = Ok (p, n)"
      and mp: "mp = \<lparr>mp_payload = p, mp_numPayloadMsgs = n, mp_message = p\<rparr>"
    by (cases doc) (auto simp: createEIP712MessagePayload_def unmarshalBytesToJSONObject_def split: if_splits)
  from fl obtain msgs where m: "payload_msgs es msgs" "p = JObject (flat_entries es msgs)" "n = length msgs"
      "json_ok (JObject (flat_entries es msgs))"
    by (rule flatten_Ok [OF assms(1) assms(5) [unfolded doc]])
  let ?msg = "\<lambda>i. case jf_Get jf p (msgFieldForIndex i) of None \<Rightarrow> JNull | Some v \<Rightarrow> v"
  have "json_ok (?msg i)" for i
  proof (cases "jf_Get jf p (msgFieldForIndex i)")
    case (Some v)
    with m(4) have "map_of (flat_entries es msgs) (msgFieldForIndex i) = Some v"
      unfolding m(2) by (auto simp: json_Get [OF assms(1)])
    with m(4) Some show ?thesis by (auto dest!: map_of_SomeD)
  qed (simp add: ok_null)
  moreover have "forM [0..<n] (\<lambda>i. addMsgTypesToRoot jf rng (msgFieldForIndex i) (?msg i)) initial_types = (Ok (), types)"
    using run(2) mp by (auto simp: createEIP712Types_def split: prod.splits outcome.splits)
  ultimately obtain tys where "schema_closed types" "length tys = n"
      "map_of types ''Tx'' = Some (tx_fields @ zip (map msgFieldForIndex [0..<n]) tys)"
    using all_messages_run [OF assms(1-3), of ?msg] by blast
  with doc m mp td show ?thesis by auto
qed

theorem eip712_covers_messages_witness:
  "\<exists>td tys. WrapTxToTypedData (ref_json (Some ref_doc)) rev 7 [] = Ok td \<and> schema_closed (td_Types td) \<and> length tys = 2 \<and>
    map_of (td_Types td) ''Tx'' = Some (tx_fields @ zip [''msg0'', ''msg1''] tys)"
proof -
  let ?jf = "ref_json (Some ref_doc)"
  have "is_Ok (WrapTxToTypedData ?jf rev 7 [])" by code_simp
  then obtain td where td: "WrapTxToTypedData ?jf rev 7 [] = Ok td" by (auto simp: is_Ok_iff)
  have parse: "jf_Parse ?jf [] = Some ref_doc" by (simp add: ref_json_def)
  from eip712_covers_messages [OF ref_json_laws ref_title_laws go_range_rev parse ref_doc_ok td]
  obtain tys where "schema_closed (td_Types td)" "length tys = 2"
      "map_of (td_Types td) ''Tx'' = Some (tx_fields @ zip (map msgFieldForIndex [0..<2]) tys)"
    by (auto simp: ref_doc_def payload_msgs_def numeral_2_eq_2)
  moreover have "map msgFieldForIndex [0..<2] = [''msg0'', ''msg1'']" by code_simp
  ultimately show ?thesis using td by auto
qed

text \<open>The depth given to the type generator is enough: on a document with distinct plain keys
  the recursion never runs out of it and any larger depth gives the same result.\<close>

theorem eip712_depth_enough:
  assumes "json_laws jf" "go_range rng" "json_ok msg" "IsObject msg" "size msg \<le> n"
  shows "\<not> is_Panic (fst (recursivelyAddTypesToRoot (size msg) jf rng rootType prefix msg ts)) \<and>
    recursivelyAddTypesToRoot n jf rng rootType prefix msg ts =
      recursivelyAddTypesToRoot (size msg) jf rng rootType prefix msg ts"
  using types_no_panic [OF assms(1,2,4,3) order.refl] types_depth_enough [OF assms(1,2,4,3,5) order.refl] by simp

theorem eip712_depth_enough_witness:
  "recursivelyAddTypesToRoot 1000 (ref_json None) rev ''TypeMsgSend'' rootPrefix (ref_msg ''m'') initial_types =
     recursivelyAddTypesToRoot (size (ref_msg ''m'')) (ref_json None) rev ''TypeMsgSend'' rootPrefix (ref_msg ''m'') initial_types"
proof -
  have "size (ref_msg ''m'') \<le> 1000" "IsObject (ref_msg ''m'')" by (simp_all add: ref_msg_def)
  then show ?thesis using eip712_depth_enough [OF ref_json_laws go_range_rev ref_msg_ok] by blast
qed

text \<open>C39: The bytes to be signed do not depend on the order in which Go ranges over the JSON
  maps.\<close>

theorem eip712_deterministic:
  assumes "go_range rng" "go_range rng'"
  shows "GetEIP712BytesForMsg jf rng dc signDoc = GetEIP712BytesForMsg jf rng' dc signDoc"
  using assms by (simp add: GetEIP712BytesForMsg_def GetEIP712TypedDataForMsg_def wrap_order [OF assms]
      decodeAminoSignDoc_def decodeProtobufSignDoc_def)

theorem eip712_deterministic_witness:
  "\<forall>dc signDoc. GetEIP712BytesForMsg (ref_json (Some ref_doc)) (\<lambda>xs. xs) dc signDoc =
    GetEIP712BytesForMsg (ref_json (Some ref_doc)) rev dc signDoc"
  using eip712_deterministic [OF go_range_id go_range_rev] by blast

end
