(* ===== verification/Eip712Legacy.thy ===== *)
theory Eip712Legacy
  imports Eip712
begin

text \<open>
  The legacy EIP-712 encoding, \<open>eip712_legacy.go\<close> and \<open>encoding_legacy.go\<close> of
  \<open>src/legacy/ethermint/ethereum/eip712\<close>: the type schema is read off the Go value of the
  first message by reflection, and the fee payer is added to the fee.

  Go types are the datatype \<open>GoType\<close>, in which a struct is its name (the fields are looked up,
  since struct types may be recursive); Go values are \<open>GoVal\<close>, and a \<open>reflect.Value\<close> is a value
  with its static type, or the invalid zero value.  Calls that \<open>reflect\<close> documents to panic are
  panics here; \<open>walkFields\<close> recovers them into errors.
\<close>

section \<open>Reflection\<close>

datatype GoKind = KInt | KInt8 | KInt16 | KInt32 | KInt64 | KUint | KUint8 | KUint16 | KUint32 | KUint64

datatype GoType =
    TString
  | TBool
  | TNum GoKind
  | TSlice GoType
  | TArray GoType
  | TPtr GoType
  | TInterface
  | TStruct string
  | TOther string

text \<open>
  \<open>VBasic z\<close> is a string, a boolean, a number or another scalar, zero when \<open>z\<close>; \<open>None\<close> is nil;
  \<open>VAny\<close> is the struct of a protobuf \<open>Any\<close>, its type URL and its packed bytes.
\<close>

datatype GoVal =
    VBasic bool
  | VPtr "GoVal option"
  | VIface "(GoType \<times> GoVal) option"
  | VSlice "GoVal list option"
  | VArray "GoVal list"
  | VStruct "GoVal list"
  | VAny string bytes

datatype rvalue = RInvalid | RV GoType GoVal

text \<open>
  The codec, the struct definitions of the program (the \<open>json\<close> tag and the type of each field),
  convertibility of types, and the Go value behind a message.
\<close>

record 'm LegacyCodec =
  lc_MarshalJSON :: "'m \<Rightarrow> bytes outcome"
  lc_AminoMessageType :: "bytes \<Rightarrow> string outcome"
  lc_UnmarshalMap :: "bytes \<Rightarrow> (string \<times> JSON) list outcome"
  lc_AccAddressString :: "bytes \<Rightarrow> string"
  lc_Reflect :: "'m \<Rightarrow> GoType \<times> GoVal"
  lc_Fields :: "string \<Rightarrow> (string \<times> GoType) list"
  lc_ConvertibleTo :: "GoType \<Rightarrow> string \<Rightarrow> bool"
  lc_UnpackAny :: "string \<Rightarrow> bytes \<Rightarrow> (GoType \<times> GoVal) option outcome"

definition IsValid :: "rvalue \<Rightarrow> bool" where
  "IsValid v \<longleftrightarrow> v \<noteq> RInvalid"

fun zero_val :: "GoVal \<Rightarrow> bool" where
  "zero_val (VBasic z) = z"
| "zero_val (VPtr p) = (p = None)"
| "zero_val (VIface i) = (i = None)"
| "zero_val (VSlice s) = (s = None)"
| "zero_val (VArray vs) = list_all zero_val vs"
| "zero_val (VStruct vs) = list_all zero_val vs"
| "zero_val (VAny url value) = (url = [] \<and> value = [])"

fun IsZero :: "rvalue \<Rightarrow> bool outcome" where
  "IsZero RInvalid = Panic ''reflect: call of reflect.Value.IsZero on zero Value''"
| "IsZero (RV t v) = Ok (zero_val v)"

definition Elem :: "rvalue \<Rightarrow> rvalue outcome" where
  "Elem field = (case field of
      RV (TPtr t) (VPtr p) \<Rightarrow> Ok (case p of None \<Rightarrow> RInvalid | Some v \<Rightarrow> RV t v)
    | RV TInterface (VIface i) \<Rightarrow> Ok (case i of None \<Rightarrow> RInvalid | Some (t, v) \<Rightarrow> RV t v)
    | _ \<Rightarrow> Panic ''reflect: call of reflect.Value.Elem on a value that is not a pointer or an interface'')"

text \<open>
  \<open>reflect.TypeOf(field.Interface())\<close>, where the caller goes on to ask the type for its kind:
  a nil interface gives the nil type, and the kind of the nil type is a nil dereference.  The
  dynamic type of an interface value is never an interface.
\<close>

definition DynType :: "rvalue \<Rightarrow> GoType outcome" where
  "DynType field = (case field of
      RInvalid \<Rightarrow> Panic ''reflect: call of reflect.Value.Interface on zero Value''
    | RV t v \<Rightarrow>
        if t = TInterface then
          (case v of
             VIface (Some (u, w)) \<Rightarrow> if u = TInterface then Panic ''interface holds an interface'' else Ok u
           | _ \<Rightarrow> Panic ''nil pointer dereference'')
        else Ok t)"

text \<open>\<open>field.Len()\<close> and \<open>field.Index(0)\<close> of an array or a slice.\<close>

definition elements :: "rvalue \<Rightarrow> rvalue list outcome" where
  "elements field = (case field of
      RV (TSlice t) (VSlice vs) \<Rightarrow> Ok (case vs of None \<Rightarrow> [] | Some vs \<Rightarrow> map (RV t) vs)
    | RV (TArray t) (VArray vs) \<Rightarrow> Ok (map (RV t) vs)
    | _ \<Rightarrow> Panic ''reflect: call of reflect.Value.Len on a value that is not a collection'')"

definition struct_fields :: "'m LegacyCodec \<Rightarrow> GoType \<Rightarrow> (string \<times> GoType) list outcome" where
  "struct_fields lc t = (case t of TStruct s \<Rightarrow> Ok (lc_Fields lc s)
     | _ \<Rightarrow> Panic ''reflect: NumField of non-struct type'')"

definition FieldAt :: "rvalue \<Rightarrow> nat \<Rightarrow> GoType \<Rightarrow> rvalue outcome" where
  "FieldAt v i t = (case v of
      RV (TStruct s) (VStruct vs) \<Rightarrow>
        if i < length vs then Ok (RV t (vs ! i)) else Panic ''reflect: Field index out of range''
    | _ \<Rightarrow> Panic ''reflect: call of reflect.Value.Field on a value that is not a struct'')"

section \<open>\<open>eip712_legacy.go\<close>\<close>

definition typeDefPrefix :: string where
  "typeDefPrefix = ''_''"

definition cosmosAnyType :: GoType where
  "cosmosAnyType = TPtr (TStruct ''Any'')"

definition cosmosAnyWrapper :: GoType where
  "cosmosAnyWrapper = TStruct ''cosmosAnyWrapper''"

fun num_name :: "GoKind \<Rightarrow> string" where
  "num_name KInt = ''int64''"
| "num_name KInt8 = ''int8''"
| "num_name KInt16 = ''int16''"
| "num_name KInt32 = ''int32''"
| "num_name KInt64 = ''int64''"
| "num_name KUint = ''uint64''"
| "num_name KUint8 = ''uint8''"
| "num_name KUint16 = ''uint16''"
| "num_name KUint32 = ''uint32''"
| "num_name KUint64 = ''uint64''"

fun typToEth :: "'m LegacyCodec \<Rightarrow> GoType \<Rightarrow> string" where
  "typToEth lc TString = ''string''"
| "typToEth lc TBool = ''bool''"
| "typToEth lc (TNum k) = num_name k"
| "typToEth lc (TSlice t) = (let ethName = typToEth lc t in if ethName \<noteq> [] then ethName @ ''[]'' else [])"
| "typToEth lc (TArray t) = (let ethName = typToEth lc t in if ethName \<noteq> [] then ethName @ ''[]'' else [])"
| "typToEth lc (TPtr t) =
     (if lc_ConvertibleTo lc t ''big.Int'' \<or> lc_ConvertibleTo lc t ''time.Time'' \<or>
         lc_ConvertibleTo lc t ''ed25519.PubKey'' \<or> lc_ConvertibleTo lc t ''math.LegacyDec'' \<or>
         lc_ConvertibleTo lc t ''math.Int'' then ''string'' else [])"
| "typToEth lc (TStruct s) =
     (if lc_ConvertibleTo lc (TStruct s) ''common.Hash'' \<or> lc_ConvertibleTo lc (TStruct s) ''common.Address'' \<or>
         lc_ConvertibleTo lc (TStruct s) ''big.Int'' \<or> lc_ConvertibleTo lc (TStruct s) ''ed25519.PubKey'' \<or>
         lc_ConvertibleTo lc (TStruct s) ''time.Time'' \<or> lc_ConvertibleTo lc (TStruct s) ''math.LegacyDec'' \<or>
         lc_ConvertibleTo lc (TStruct s) ''math.Int'' then ''string'' else [])"
| "typToEth lc TInterface = []"
| "typToEth lc (TOther s) = []"

text \<open>
  \<open>field.Interface().(*Any)\<close> and the unpacking.  A nil \<open>*Any\<close> is dereferenced; when the codec
  leaves the target alone, the wrapper holds a nil interface.
\<close>

definition unpackAny :: "'m LegacyCodec \<Rightarrow> rvalue \<Rightarrow> (GoType \<times> rvalue) outcome" where
  "unpackAny lc field = (case field of
      RInvalid \<Rightarrow> Panic ''reflect: call of reflect.Value.Interface on zero Value''
    | RV t v \<Rightarrow>
        if t = TPtr (TStruct ''Any'') then
          (case v of
             VPtr (Some (VAny url value)) \<Rightarrow>
               bindO (lc_UnpackAny lc url value) (\<lambda>m.
               Ok (TPtr cosmosAnyWrapper,
                   RV (TPtr cosmosAnyWrapper) (VPtr (Some (VStruct [VBasic (url = []), VIface m])))))
           | _ \<Rightarrow> Panic ''nil pointer dereference'')
        else Err ErrPackAny)"

text \<open>The loop that strips pointers and interfaces off the type and the value in step.\<close>

definition IsPtr :: "rvalue \<Rightarrow> bool" where
  "IsPtr field \<longleftrightarrow> (case field of RV (TPtr t) v \<Rightarrow> True | _ \<Rightarrow> False)"

fun rsize :: "rvalue \<Rightarrow> nat" where
  "rsize RInvalid = 0"
| "rsize (RV t v) = Suc (size v)"

function peel :: "GoType \<Rightarrow> rvalue \<Rightarrow> (GoType \<times> rvalue) outcome" where
  "peel fieldType field = (case fieldType of
      TPtr t \<Rightarrow>
        if IsValid field then
          (case Elem field of Ok f \<Rightarrow> peel t f | Err e \<Rightarrow> Err e | Panic p \<Rightarrow> Panic p)
        else peel t field
    | TInterface \<Rightarrow>
        (case DynType field of Ok t \<Rightarrow> peel t field | Err e \<Rightarrow> Err e | Panic p \<Rightarrow> Panic p)
    | _ \<Rightarrow>
        if IsPtr field then
          (case Elem field of Ok f \<Rightarrow> peel fieldType f | Err e \<Rightarrow> Err e | Panic p \<Rightarrow> Panic p)
        else Ok (fieldType, field))"
  by pat_completeness auto

termination
proof -
  have elem: "rsize f < rsize field" if "Elem field = Ok f" for field f
    using that by (cases field) (auto simp: Elem_def split: GoType.splits GoVal.splits option.splits prod.splits)
  have dyn: "t \<noteq> TInterface \<and> IsValid field" if "DynType field = Ok t" for field t
    using that by (cases field) (auto simp: DynType_def IsValid_def split: GoVal.splits option.splits prod.splits if_splits)
  show ?thesis
    by (relation "measures [\<lambda>(t, f). rsize f, \<lambda>(t, f). if IsValid f then (if t = TInterface then 1 else 0) else size t]")
      (auto dest: elem dyn)
qed

text \<open>The first element of a collection; \<open>None\<close> when it is empty.  A \<open>*Any\<close> element is unpacked.\<close>

definition is_collection :: "GoType \<Rightarrow> bool" where
  "is_collection t \<longleftrightarrow> (case t of TSlice u \<Rightarrow> True | TArray u \<Rightarrow> True | _ \<Rightarrow> False)"

definition elem_type :: "GoType \<Rightarrow> GoType" where
  "elem_type t = (case t of TSlice u \<Rightarrow> u | TArray u \<Rightarrow> u | _ \<Rightarrow> t)"

definition unpack_if_any :: "'m LegacyCodec \<Rightarrow> GoType \<Rightarrow> rvalue \<Rightarrow> (GoType \<times> rvalue) outcome" where
  "unpack_if_any lc fieldType field = (if fieldType = cosmosAnyType then unpackAny lc field else Ok (fieldType, field))"

definition first_element ::
    "'m LegacyCodec \<Rightarrow> GoType \<Rightarrow> rvalue \<Rightarrow> (bool \<times> GoType \<times> rvalue) option outcome" where
  "first_element lc fieldType field =
     (if is_collection fieldType then
        bindO (elements field) (\<lambda>vs. case vs of
          [] \<Rightarrow> Ok None
        | v # _ \<Rightarrow> bindO (unpack_if_any lc (elem_type fieldType) v) (\<lambda>(t, f). Ok (Some (True, t, f))))
      else Ok (Some (False, fieldType, field)))"

definition jsonNameFromTag :: "string \<Rightarrow> string" where
  "jsonNameFromTag tag = hd (split_on (CHR '','') tag)"

text \<open>\<open>typeMap[typeDef] = append(typeMap[typeDef], ...)\<close>.\<close>

definition append_type :: "string \<Rightarrow> string \<times> string \<Rightarrow> (TypeMap, unit) M" where
  "append_type typeDef entry =
     modifyM (\<lambda>ts. gomap_set typeDef ((case map_of ts typeDef of None \<Rightarrow> [] | Some fs \<Rightarrow> fs) @ [entry]) ts)"

definition legacy_typedef :: "JsonFns \<Rightarrow> string \<Rightarrow> string \<Rightarrow> string" where
  "legacy_typedef jf rootType prefix = (if prefix = typeDefPrefix then rootType else sanitizeTypedef jf prefix)"

text \<open>The body of the loop over the fields; \<open>sub\<close> is the recursive call.\<close>

definition legacy_field ::
    "JsonFns \<Rightarrow> 'm LegacyCodec \<Rightarrow> (string \<Rightarrow> GoType \<Rightarrow> rvalue \<Rightarrow> (TypeMap, unit) M) \<Rightarrow> string \<Rightarrow> string \<Rightarrow>
     string \<times> GoType \<Rightarrow> rvalue \<Rightarrow> (TypeMap, unit) M" where
  "legacy_field jf lc sub rootType prefix structField field0 =
     (let fieldName = jsonNameFromTag (fst structField); typeDef = legacy_typedef jf rootType prefix in
      bindM (liftO (unpack_if_any lc (snd structField) field0)) (\<lambda>(fieldType1, field1).
      bindM (liftO (IsZero field1)) (\<lambda>zero. if zero then ret () else
      bindM (liftO (peel fieldType1 field1)) (\<lambda>(fieldType2, field2).
      bindM (liftO (first_element lc fieldType2 field2)) (\<lambda>r. case r of
        None \<Rightarrow> ret ()
      | Some (isCollection, fieldType3, field3) \<Rightarrow>
        bindM (liftO (peel fieldType3 field3)) (\<lambda>(fieldType, field).
        let fieldPrefix = prefix @ ''.'' @ fieldName; ethTyp = typToEth lc fieldType in
        if ethTyp \<noteq> [] then
          append_type typeDef (fieldName, if isCollection \<and> \<not> is_collection fieldType then ethTyp @ ''[]'' else ethTyp)
        else (case fieldType of
            TStruct s \<Rightarrow>
              thenM (append_type typeDef (fieldName, sanitizeTypedef jf fieldPrefix @ collection_suffix isCollection))
                (sub fieldPrefix fieldType field)
          | _ \<Rightarrow> ret ())))))))"

text \<open>
  The first argument bounds the nesting of structs, including those unpacked from \<open>Any\<close> values,
  which the codec produces.
\<close>

primrec legacyTraverseFields ::
    "nat \<Rightarrow> JsonFns \<Rightarrow> 'm LegacyCodec \<Rightarrow> string \<Rightarrow> string \<Rightarrow> GoType \<Rightarrow> rvalue \<Rightarrow> (TypeMap, unit) M" where
  "legacyTraverseFields 0 jf lc rootType prefix t v = panic ''out of depth''"
| "legacyTraverseFields (Suc depth) jf lc rootType prefix t v =
     bindM (liftO (struct_fields lc t)) (\<lambda>fs.
     bindM (getsM (\<lambda>ts. case map_of ts (legacy_typedef jf rootType prefix) of None \<Rightarrow> [] | Some es \<Rightarrow> es)) (\<lambda>present.
     if length present = length fs then ret ()
     else forM (enumerate 0 fs) (\<lambda>(i, structField).
       bindM (if IsValid v then liftO (FieldAt v i (snd structField)) else ret RInvalid) (\<lambda>field.
       legacy_field jf lc (legacyTraverseFields depth jf lc rootType) rootType prefix structField field))))"

text \<open>
  The loop of \<open>walkFields\<close> that strips pointers and interfaces.  A message is handed over as an
  interface value, so the type is the dynamic type of the value.
\<close>

primrec strip :: "GoType \<Rightarrow> rvalue \<Rightarrow> (GoType \<times> rvalue) outcome" where
  "strip (TPtr t) v = bindO (Elem v) (strip t)"
| "strip TInterface v = Panic ''reflect: Elem of invalid type''"
| "strip TString v = Ok (TString, v)"
| "strip TBool v = Ok (TBool, v)"
| "strip (TNum k) v = Ok (TNum k, v)"
| "strip (TSlice t) v = Ok (TSlice t, v)"
| "strip (TArray t) v = Ok (TArray t, v)"
| "strip (TStruct s) v = Ok (TStruct s, v)"
| "strip (TOther s) v = Ok (TOther s, v)"

definition walkFields ::
    "nat \<Rightarrow> JsonFns \<Rightarrow> 'm LegacyCodec \<Rightarrow> string \<Rightarrow> GoType \<times> GoVal \<Rightarrow> (TypeMap, unit) M" where
  "walkFields depth jf lc rootType m = doRecover (
     bindM (liftO (strip (fst m) (RV (fst m) (snd m)))) (\<lambda>(t, v).
     legacyTraverseFields depth jf lc rootType typeDefPrefix t v))"

definition legacy_root_types :: "string \<Rightarrow> TypeMap" where
  "legacy_root_types msgTypeName =
     gomap_set msgTypeName []
      [(''EIP712Domain'', [(''name'', ''string''), (''version'', ''string''), (''chainId'', ''uint256''),
         (''verifyingContract'', ''string''), (''salt'', ''string'')]),
       (''Tx'', [(''account_number'', ''string''), (''chain_id'', ''string''), (''fee'', ''Fee''), (''memo'', ''string''),
         (''msgs'', ''Msg[]''), (''sequence'', ''string'')]),
       (''Fee'', [(''amount'', ''Coin[]''), (''gas'', ''string'')]),
       (''Coin'', [(''denom'', ''string''), (''amount'', ''string'')]),
       (''Msg'', [(''type'', ''string''), (''value'', msgTypeName)])]"

definition extractMsgTypes ::
    "nat \<Rightarrow> JsonFns \<Rightarrow> 'm LegacyCodec \<Rightarrow> string \<Rightarrow> 'm \<Rightarrow> TypeMap outcome" where
  "extractMsgTypes depth jf lc msgTypeName msg =
     (case walkFields depth jf lc msgTypeName (lc_Reflect lc msg) (legacy_root_types msgTypeName) of
        (Ok _, ts) \<Rightarrow> Ok ts
      | (Err e, _) \<Rightarrow> Err e
      | (Panic p, _) \<Rightarrow> Panic p)"

definition legacy_domain :: "uint64 \<Rightarrow> TypedDataDomain" where
  "legacy_domain chainID = \<lparr>dom_Name = ''Cosmos Web3'', dom_Version = ''1.0.0'', dom_ChainId = Some (sint chainID),
     dom_VerifyingContract = ''cosmos'', dom_Salt = ''0''\<rparr>"

text \<open>The fee payer patched into the document and into the type of the fee.\<close>

definition add_fee_payer ::
    "'m LegacyCodec \<Rightarrow> bytes option \<Rightarrow> (string \<times> JSON) list \<Rightarrow> TypeMap \<Rightarrow>
     ((string \<times> JSON) list \<times> TypeMap) outcome" where
  "add_fee_payer lc feeDelegation txData msgTypes = (case feeDelegation of
      None \<Rightarrow> Ok (txData, msgTypes)
    | Some feePayer \<Rightarrow>
       (case map_of txData ''fee'' of
          Some (JObject feeInfo) \<Rightarrow>
            Ok (gomap_set ''fee'' (JObject (gomap_set ''feePayer'' (JString (lc_AccAddressString lc feePayer)) feeInfo)) txData,
                gomap_set ''Fee'' [(''feePayer'', ''string''), (''amount'', ''Coin[]''), (''gas'', ''string'')] msgTypes)
        | _ \<Rightarrow> Err ErrInvalidType))"

definition LegacyWrapTxToTypedData ::
    "nat \<Rightarrow> JsonFns \<Rightarrow> 'm LegacyCodec \<Rightarrow> uint64 \<Rightarrow> 'm \<Rightarrow> bytes \<Rightarrow> bytes option \<Rightarrow> TypedData outcome" where
  "LegacyWrapTxToTypedData depth jf lc chainID msg data feeDelegation =
     bindO (case lc_UnmarshalMap lc data of Ok m \<Rightarrow> Ok m | Err _ \<Rightarrow> Err ErrJSONUnmarshal | Panic p \<Rightarrow> Panic p) (\<lambda>txData.
     bindO (extractMsgTypes depth jf lc ''MsgValue'' msg) (\<lambda>msgTypes.
     bindO (add_fee_payer lc feeDelegation txData msgTypes) (\<lambda>(txData', msgTypes').
     Ok \<lparr>td_Types = msgTypes', td_PrimaryType = ''Tx'', td_Domain = legacy_domain chainID,
       td_Message = JObject txData'\<rparr>)))"

section \<open>\<open>encoding_legacy.go\<close>\<close>

definition getMsgType :: "'m LegacyCodec \<Rightarrow> 'm \<Rightarrow> string outcome" where
  "getMsgType lc msg =
     bindO (lc_MarshalJSON lc msg) (\<lambda>jsonBytes.
     bindO (lc_AminoMessageType lc jsonBytes) (\<lambda>t.
     if t = [] then Err (Error ''could not decode message: type is missing'') else Ok t))"

text \<open>The loop over the messages, with the type and signer of the first one once it is past.\<close>

primrec legacy_check_messages ::
    "('a, 'm) DocCodec \<Rightarrow> 'm LegacyCodec \<Rightarrow> (string \<times> bytes) option \<Rightarrow> 'm list \<Rightarrow> unit outcome" where
  "legacy_check_messages dc lc first [] = Ok ()"
| "legacy_check_messages dc lc first (m # ms) =
     bindO (getMsgType lc m) (\<lambda>t.
     bindO (dc_Signers dc m) (\<lambda>signers.
     bindO (guardO (length signers = 1) (Error ''expect exactly 1 signer'')) (\<lambda>_.
     case first of
       None \<Rightarrow> legacy_check_messages dc lc (Some (t, hd signers)) ms
     | Some (msgType, msgSigner) \<Rightarrow>
         bindO (guardO (t = msgType) (Error ''different types of messages detected'')) (\<lambda>_.
         bindO (guardO (msgSigner = hd signers) (Error ''multiple signers detected'')) (\<lambda>_.
         legacy_check_messages dc lc first ms)))))"

definition legacyValidatePayloadMessages :: "('a, 'm) DocCodec \<Rightarrow> 'm LegacyCodec \<Rightarrow> 'm list \<Rightarrow> unit outcome" where
  "legacyValidatePayloadMessages dc lc msgs =
     bindO (guardO (msgs \<noteq> []) (Error ''transaction does contain any messages'')) (\<lambda>_.
     legacy_check_messages dc lc None msgs)"

text \<open>\<open>signers[0]\<close>, which panics on an empty slice.\<close>

definition first_signer :: "('a, 'm) DocCodec \<Rightarrow> 'm \<Rightarrow> bytes outcome" where
  "first_signer dc msg = bindO (dc_Signers dc msg) (\<lambda>signers. case signers of
      [] \<Rightarrow> Panic ''index out of range''
    | s # _ \<Rightarrow> Ok s)"

definition legacyDecodeAminoSignDoc ::
    "nat \<Rightarrow> JsonFns \<Rightarrow> ('a, 'm) DocCodec \<Rightarrow> 'm LegacyCodec \<Rightarrow> bytes \<Rightarrow> TypedData outcome" where
  "legacyDecodeAminoSignDoc depth jf dc lc signDocBytes =
     bindO (validateCodecInit dc) (\<lambda>_.
     bindO (dc_AminoDoc dc signDocBytes) (\<lambda>aminoDoc.
     bindO (dc_AminoFee dc (sdoc_Fee aminoDoc)) (\<lambda>_.
     bindO (mapO (dc_AminoMsg dc) (sdoc_Msgs aminoDoc)) (\<lambda>msgs.
     bindO (legacyValidatePayloadMessages dc lc msgs) (\<lambda>_.
     bindO (first_signer dc (hd msgs)) (\<lambda>feePayer.
     bindO (ParseChainID (sdoc_ChainID aminoDoc)) (\<lambda>chainID.
     LegacyWrapTxToTypedData depth jf lc (word_of_int chainID) (hd msgs) signDocBytes (Some feePayer))))))))"

definition legacyDecodeProtobufSignDoc ::
    "nat \<Rightarrow> JsonFns \<Rightarrow> ('a, 'm) DocCodec \<Rightarrow> 'm LegacyCodec \<Rightarrow> bytes \<Rightarrow> TypedData outcome" where
  "legacyDecodeProtobufSignDoc depth jf dc lc signDocBytes =
     bindO (validateCodecInit dc) (\<lambda>_.
     bindO (dc_SignDoc dc signDocBytes) (\<lambda>signDoc.
     bindO (dc_AuthInfo dc (sd_AuthInfoBytes signDoc)) (\<lambda>authInfo.
     bindO (dc_TxBody dc (sd_BodyBytes signDoc)) (\<lambda>body.
     bindO (guardO (\<not> (tb_TimeoutHeight body \<noteq> 0 \<or> tb_ExtensionOptions body \<noteq> 0 \<or> tb_NonCriticalExtensionOptions body \<noteq> 0))
       (Error ''body contains unsupported fields'')) (\<lambda>_.
     bindO (guardO (length (ai_Sequences authInfo) = 1) (Error ''invalid number of signer infos provided'')) (\<lambda>_.
     bindO (mapO (dc_UnpackAny dc) (tb_Messages body)) (\<lambda>msgs.
     bindO (legacyValidatePayloadMessages dc lc msgs) (\<lambda>_.
     bindO (ParseChainID (sd_ChainId signDoc)) (\<lambda>chainID.
     bindO (case ai_Fee authInfo of None \<Rightarrow> Panic ''nil pointer dereference'' | Some f \<Rightarrow> Ok f) (\<lambda>stdFee.
     bindO (first_signer dc (hd msgs)) (\<lambda>feePayer.
     LegacyWrapTxToTypedData depth jf lc (word_of_int chainID) (hd msgs)
       (dc_StdSignBytes dc (sd_ChainId signDoc) (sd_AccountNumber signDoc) (hd (ai_Sequences authInfo))
         (tb_TimeoutHeight body) stdFee msgs (tb_Memo body)) (Some feePayer))))))))))))"

definition LegacyGetEIP712TypedDataForMsg ::
    "nat \<Rightarrow> JsonFns \<Rightarrow> ('a, 'm) DocCodec \<Rightarrow> 'm LegacyCodec \<Rightarrow> bytes \<Rightarrow> TypedData outcome" where
  "LegacyGetEIP712TypedDataForMsg depth jf dc lc signDocBytes =
     (let protobuf = (case legacyDecodeProtobufSignDoc depth jf dc lc signDocBytes of
          Ok td \<Rightarrow> if isValidEIP712Payload td then Ok td else Err (Error ''could not decode sign doc'')
        | Err _ \<Rightarrow> Err (Error ''could not decode sign doc'')
        | Panic p \<Rightarrow> Panic p) in
      case legacyDecodeAminoSignDoc depth jf dc lc signDocBytes of
        Ok td \<Rightarrow> if isValidEIP712Payload td then Ok td else protobuf
      | Err _ \<Rightarrow> protobuf
      | Panic p \<Rightarrow> Panic p)"

definition LegacyGetEIP712BytesForMsg ::
    "nat \<Rightarrow> JsonFns \<Rightarrow> ('a, 'm) DocCodec \<Rightarrow> 'm LegacyCodec \<Rightarrow> bytes \<Rightarrow> bytes outcome" where
  "LegacyGetEIP712BytesForMsg depth jf dc lc signDocBytes =
     bindO (LegacyGetEIP712TypedDataForMsg depth jf dc lc signDocBytes) (dc_TypedDataAndHash dc)"


section \<open>Specification\<close>

text \<open>The definitions that describe the transaction around the messages.\<close>

definition envelope :: "string set" where
  "envelope = {''EIP712Domain'', ''Tx'', ''Fee'', ''Coin'', ''Msg''}"

definition fee_with_payer :: Fields where
  "fee_with_payer = [(''feePayer'', ''string''), (''amount'', ''Coin[]''), (''gas'', ''string'')]"

text \<open>A prefix of the traversal: the root, or something joined to it by a dot.\<close>

definition legacy_prefix :: "string \<Rightarrow> bool" where
  "legacy_prefix p \<longleftrightarrow> p = ''_'' \<or> has_prefix p ''_.''"

text \<open>\<open>m'\<close> returns everything that \<open>m\<close> returns.\<close>

definition improves :: "('s, 'a) M \<Rightarrow> ('s, 'a) M \<Rightarrow> bool" where
  "improves m m' \<longleftrightarrow> (\<forall>s a t. m s = (Ok a, t) \<longrightarrow> m' s = (Ok a, t))"

section \<open>A reference codec\<close>

text \<open>
  A message type \<open>Msg\<close> with a string, a list of numbers, a nested struct, an \<open>Any\<close> and an empty
  field.
\<close>

definition ref_lc_fields :: "string \<Rightarrow> (string \<times> GoType) list" where
  "ref_lc_fields s =
     (if s = ''Msg'' then [(''sender,omitempty'', TString), (''ids'', TSlice (TNum KUint64)), (''coin'', TPtr (TStruct ''Coin'')),
        (''payload'', cosmosAnyType), (''memo'', TString)]
      else if s = ''Coin'' then [(''denom'', TString), (''amount'', TStruct ''Int'')]
      else if s = ''cosmosAnyWrapper'' then [(''type'', TString), (''value'', TInterface)]
      else [])"

definition ref_lc_msg :: "GoType \<times> GoVal" where
  "ref_lc_msg = (TPtr (TStruct ''Msg''), VPtr (Some (VStruct [VBasic False, VSlice (Some [VBasic False]),
     VPtr (Some (VStruct [VBasic False, VStruct [VBasic False]])), VPtr (Some (VAny ''/coin'' [1])), VBasic True])))"

definition ref_lc :: "nat LegacyCodec" where
  "ref_lc = \<lparr>lc_MarshalJSON = (\<lambda>m. Ok [word_of_nat m]), lc_AminoMessageType = (\<lambda>b. Ok ''xpla/Msg''),
     lc_UnmarshalMap = (\<lambda>b. Ok [(''fee'', JObject [(''amount'', JArray []), (''gas'', JString ''9'')]), (''memo'', JString [])]),
     lc_AccAddressString = ref_print, lc_Reflect = (\<lambda>m. ref_lc_msg), lc_Fields = ref_lc_fields,
     lc_ConvertibleTo = (\<lambda>t n. t = TStruct ''Int'' \<and> n = ''math.Int''),
     lc_UnpackAny = (\<lambda>url b. Ok (Some (TPtr (TStruct ''Coin''), VPtr (Some (VStruct [VBasic False, VStruct [VBasic False]])))))\<rparr>"

section \<open>The message types leave the envelope alone\<close>

declare peel.simps [simp del]

lemma sanitize_under_root: "sanitizeTypedef jf (''_.'' @ q) = ''Type'' @ concat (map (\<lambda>part.
     if part = rootPrefix then typePrefix
     else concat (map (jf_Title jf) (split_on (CHR ''_'') part))) (split_on (CHR ''.'') q))"
  by (simp add: sanitizeTypedef_def rootPrefix_def typePrefix_def split: list.splits)

lemma legacy_typedef_outside:
  assumes "legacy_prefix p"
  shows "legacy_typedef jf ''MsgValue'' p \<notin> envelope"
proof (cases "p = ''_''")
  case True
  then show ?thesis by (simp add: legacy_typedef_def typeDefPrefix_def envelope_def)
next
  case False
  with assms obtain q where "p = ''_.'' @ q" by (auto simp: legacy_prefix_def has_prefix_iff)
  then show ?thesis using sanitize_under_root [of jf q] by (simp add: legacy_typedef_def typeDefPrefix_def envelope_def)
qed

lemma legacy_prefix_sub: "legacy_prefix p \<Longrightarrow> legacy_prefix (p @ CHR ''.'' # n)"
  by (auto simp: legacy_prefix_def has_prefix_iff)

lemma keeps_append_type:
  "d \<notin> envelope \<Longrightarrow> keeps (\<lambda>ts. \<forall>n \<in> envelope. map_of ts n = f n) (append_type d e)"
  by (auto simp: append_type_def keeps_def gomap_set_get)

lemma legacy_field_keeps:
  assumes pre: "legacy_prefix p"
    and sub: "\<And>q t v. legacy_prefix q \<Longrightarrow> keeps (\<lambda>ts. \<forall>n \<in> envelope. map_of ts n = f n) (sub q t v)"
  shows "keeps (\<lambda>ts. \<forall>n \<in> envelope. map_of ts n = f n) (legacy_field jf lc sub ''MsgValue'' p sf fd)"
proof -
  note app = keeps_append_type [OF legacy_typedef_outside [OF pre]]
  show ?thesis unfolding legacy_field_def Let_def
    by (auto intro!: keeps_intro app sub legacy_prefix_sub pre split: option.splits GoType.splits prod.splits)
qed

lemma legacyTraverseFields_keeps:
  "legacy_prefix p \<Longrightarrow>
   keeps (\<lambda>ts. \<forall>n \<in> envelope. map_of ts n = f n) (legacyTraverseFields depth jf lc ''MsgValue'' p t v)"
proof (induction depth arbitrary: p t v)
  case 0
  then show ?case unfolding legacyTraverseFields.simps by (intro keeps_panic)
next
  case (Suc depth)
  show ?case unfolding legacyTraverseFields.simps
    by (auto intro!: keeps_intro legacy_field_keeps Suc split: prod.splits)
qed

lemma keeps_doRecover: "keeps P m \<Longrightarrow> keeps P (doRecover m)"
  by (fastforce simp: keeps_def doRecover_def split: prod.splits outcome.splits)

lemma extract_envelope:
  assumes "extractMsgTypes depth jf lc ''MsgValue'' msg = Ok ts" "n \<in> envelope"
  shows "map_of ts n = map_of (legacy_root_types ''MsgValue'') n"
proof -
  let ?P = "\<lambda>ts. \<forall>n \<in> envelope. map_of ts n = map_of (legacy_root_types ''MsgValue'') n"
  have "keeps ?P (walkFields depth jf lc ''MsgValue'' (lc_Reflect lc msg))" unfolding walkFields_def
    by (auto intro!: keeps_doRecover keeps_intro legacyTraverseFields_keeps
        simp: legacy_prefix_def typeDefPrefix_def split: prod.splits)
  then have "?P (snd (walkFields depth jf lc ''MsgValue'' (lc_Reflect lc msg) (legacy_root_types ''MsgValue'')))"
    by (rule keeps_snd) simp
  with assms show ?thesis by (auto simp: extractMsgTypes_def split: prod.splits outcome.splits)
qed


section \<open>Depth\<close>

text \<open>A larger bound on the depth does not change the result of a traversal that succeeds.\<close>

lemma improves_refl: "improves m m"
  by (simp add: improves_def)

lemma improves_bindM: "improves m m' \<Longrightarrow> (\<And>a. improves (f a) (f' a)) \<Longrightarrow> improves (bindM m f) (bindM m' f')"
  unfolding improves_def bindM_eq_Ok by blast

lemma improves_thenM: "improves m m' \<Longrightarrow> improves k k' \<Longrightarrow> improves (thenM m k) (thenM m' k')"
  unfolding thenM_def by (rule improves_bindM)

lemma improves_forM: "(\<And>x. improves (f x) (g x)) \<Longrightarrow> improves (forM xs f) (forM xs g)"
  by (induction xs) (auto intro: improves_refl improves_bindM)

lemma improves_if: "improves m m' \<Longrightarrow> improves k k' \<Longrightarrow> improves (if b then m else k) (if b then m' else k')"
  by simp

lemma improves_struct:
  "(\<And>s. improves (f s) (g s)) \<Longrightarrow>
   improves (case t of TStruct s \<Rightarrow> f s | _ \<Rightarrow> k) (case t of TStruct s \<Rightarrow> g s | _ \<Rightarrow> k)"
  by (cases t) (auto intro: improves_refl)

lemma improves_option:
  "improves m m' \<Longrightarrow> (\<And>x. improves (f x) (g x)) \<Longrightarrow>
   improves (case r of None \<Rightarrow> m | Some x \<Rightarrow> f x) (case r of None \<Rightarrow> m' | Some x \<Rightarrow> g x)"
  by (cases r) auto

lemma improves_prod: "(\<And>x y. improves (f x y) (g x y)) \<Longrightarrow> improves (case r of (x, y) \<Rightarrow> f x y) (case r of (x, y) \<Rightarrow> g x y)"
  by (cases r) auto

lemmas improves_intro = improves_bindM improves_thenM improves_forM improves_if improves_struct improves_option
  improves_prod

lemma legacy_field_mono:
  assumes "\<And>q t v. improves (sub q t v) (sub' q t v)"
  shows "improves (legacy_field jf lc sub r p sf fd) (legacy_field jf lc sub' r p sf fd)"
  unfolding legacy_field_def Let_def by (intro improves_intro assms improves_refl)

lemma legacyTraverseFields_mono:
  "improves (legacyTraverseFields depth jf lc r p t v) (legacyTraverseFields (Suc depth) jf lc r p t v)"
proof (induction depth arbitrary: p t v)
  case 0
  then show ?case by (simp add: improves_def)
next
  case (Suc depth)
  let ?F = "\<lambda>sub. bindM (liftO (struct_fields lc t)) (\<lambda>fs.
     bindM (getsM (\<lambda>ts. case map_of ts (legacy_typedef jf r p) of None \<Rightarrow> [] | Some es \<Rightarrow> es)) (\<lambda>present.
     if length present = length fs then ret ()
     else forM (enumerate 0 fs) (\<lambda>(i, structField).
       bindM (if IsValid v then liftO (FieldAt v i (snd structField)) else ret RInvalid) (\<lambda>field.
       legacy_field jf lc sub r p structField field))))"
  have "improves (?F (legacyTraverseFields depth jf lc r)) (?F (legacyTraverseFields (Suc depth) jf lc r))"
    by (intro improves_intro legacy_field_mono Suc.IH improves_refl)
  then show ?case unfolding legacyTraverseFields.simps .
qed

lemma legacyTraverseFields_depth:
  assumes "legacyTraverseFields depth jf lc r p t v ts = (Ok (), us)"
  shows "legacyTraverseFields (depth + n) jf lc r p t v ts = (Ok (), us)"
proof (induction n)
  case 0
  with assms show ?case by simp
next
  case (Suc n)
  then show ?case using legacyTraverseFields_mono [of "depth + n" jf lc r p t v]
    unfolding improves_def add_Suc_right by blast
qed

section \<open>Properties\<close>

text \<open>The legacy encoding accepts a list of messages exactly when there is at least one and
  all of them have the same amino type and the same single signer.
\<close>

theorem legacy_validate_iff:
  "legacyValidatePayloadMessages dc lc msgs = Ok () \<longleftrightarrow>
   msgs \<noteq> [] \<and> (\<exists>t s. \<forall>m \<in> set msgs. getMsgType lc m = Ok t \<and> dc_Signers dc m = Ok [s])"
proof -
  have rest: "legacy_check_messages dc lc (Some (t, s)) ms = Ok () \<longleftrightarrow>
      (\<forall>m \<in> set ms. getMsgType lc m = Ok t \<and> dc_Signers dc m = Ok [s])" for ms t s
    by (induction ms) (auto simp: length_Suc_conv)
  show ?thesis
    by (cases msgs) (auto simp: legacyValidatePayloadMessages_def rest length_Suc_conv)
qed

text \<open>C25: The message cannot reshape the transaction it travels in.  In the typed data of a
  legacy-encoded transaction the definitions of the domain, the transaction, the coins and the
  message wrapper are the fixed ones, whatever the message's Go type; the fee is defined with the
  fee payer; and the signed document is the original one with the fee payer's address added to
  the fee.
\<close>

theorem legacy_wrap_envelope:
  assumes "LegacyWrapTxToTypedData depth jf lc chainID msg data (Some payer) = Ok td"
    and "lc_UnmarshalMap lc data = Ok txData"
  shows "(\<forall>n \<in> {''EIP712Domain'', ''Tx'', ''Coin'', ''Msg''}. map_of (td_Types td) n = map_of (legacy_root_types ''MsgValue'') n) \<and>
    map_of (td_Types td) ''Fee'' = Some fee_with_payer \<and>
    (\<exists>fee fee' txData'. map_of txData ''fee'' = Some (JObject fee) \<and> td_Message td = JObject txData' \<and>
      map_of txData' = (map_of txData)(''fee'' \<mapsto> JObject fee') \<and>
      map_of fee' = (map_of fee)(''feePayer'' \<mapsto> JString (lc_AccAddressString lc payer)))"
proof -
  from assms obtain ts txData' ts' where ts: "extractMsgTypes depth jf lc ''MsgValue'' msg = Ok ts"
      and fp: "add_fee_payer lc (Some payer) txData ts = Ok (txData', ts')"
      and td: "td_Types td = ts'" "td_Message td = JObject txData'"
    by (auto simp: LegacyWrapTxToTypedData_def)
  from fp obtain fee where fee: "map_of txData ''fee'' = Some (JObject fee)"
      and tx: "txData' = gomap_set ''fee'' (JObject (gomap_set ''feePayer'' (JString (lc_AccAddressString lc payer)) fee)) txData"
      and ts': "ts' = gomap_set ''Fee'' fee_with_payer ts"
    by (auto simp: add_fee_payer_def fee_with_payer_def split: option.splits JSON.splits)
  have "map_of (td_Types td) n = map_of (legacy_root_types ''MsgValue'') n" if "n \<in> {''EIP712Domain'', ''Tx'', ''Coin'', ''Msg''}" for n
    using that extract_envelope [OF ts, of n] by (auto simp: td ts' gomap_set_get envelope_def)
  then show ?thesis using fee by (auto simp: td ts' tx gomap_set_get fun_eq_iff)
qed

theorem legacy_wrap_envelope_witness:
  "\<exists>td. LegacyWrapTxToTypedData 5 (ref_json None) ref_lc 47 0 [] (Some [97]) = Ok td \<and>
     map_of (td_Types td) ''Fee'' = Some fee_with_payer"
proof -
  let ?r = "LegacyWrapTxToTypedData 5 (ref_json None) ref_lc 47 0 [] (Some [97])"
  have "is_Ok ?r" by code_simp
  then obtain td where td: "?r = Ok td" by (auto simp: is_Ok_iff)
  have "lc_UnmarshalMap ref_lc [] =
      Ok [(''fee'', JObject [(''amount'', JArray []), (''gas'', JString ''9'')]), (''memo'', JString [])]"
    by (simp add: ref_lc_def)
  from legacy_wrap_envelope [OF td this] td show ?thesis by blast
qed

end
