(* ===== verification/EthSecp256k1.thy ===== *)
theory EthSecp256k1
  imports Eip712Legacy
begin

text \<open>
  The legacy Ethereum keys, \<open>src/legacy/ethermint/crypto/ethsecp256k1\<close> and
  \<open>src/legacy/ethermint/crypto/hd\<close>: the key types with their amino encoding, signing, signature
  verification over the raw bytes and over both EIP-712 encodings of a sign document, and the
  derivation of keys from a mnemonic.

  The elliptic curve, the hash and the derivation libraries are parameters: private keys of type
  \<open>'k\<close>, public keys of type \<open>'p\<close>, extended keys of type \<open>'e\<close>.
\<close>

section \<open>Keys\<close>

record EthPrivKey =
  priv_Key :: bytes

record EthPubKey =
  pub_Key :: bytes

record ('k, 'p) EthCrypto =
  ec_GenerateKey :: "'k outcome"
  ec_FromECDSA :: "'k \<Rightarrow> bytes"
  ec_ToECDSA :: "bytes \<Rightarrow> 'k outcome"
  ec_PublicKey :: "'k \<Rightarrow> 'p"
  ec_CompressPubkey :: "'p \<Rightarrow> bytes"
  ec_DecompressPubkey :: "bytes \<Rightarrow> 'p outcome"
  ec_PubkeyToAddress :: "'p \<Rightarrow> bytes"
  ec_Keccak256 :: "bytes \<Rightarrow> bytes"
  ec_Sign :: "bytes \<Rightarrow> 'k \<Rightarrow> bytes outcome"
  ec_VerifySignature :: "bytes \<Rightarrow> bytes \<Rightarrow> bytes \<Rightarrow> bool"

definition PrivKeySize :: nat where "PrivKeySize = 32"
definition PubKeySize :: nat where "PubKeySize = 33"
definition KeyType :: string where "KeyType = ''eth_secp256k1''"
definition DigestLength :: nat where "DigestLength = 32"
definition SignatureLength :: nat where "SignatureLength = 65"

section \<open>The private key\<close>

definition GenerateKey :: "('k, 'p) EthCrypto \<Rightarrow> EthPrivKey outcome" where
  "GenerateKey ec = bindO (ec_GenerateKey ec) (\<lambda>priv. Ok \<lparr>priv_Key = ec_FromECDSA ec priv\<rparr>)"

text \<open>\<open>Bytes\<close> returns a copy, so that the caller cannot write through to the key.\<close>

definition PrivKey_Bytes :: "EthPrivKey \<Rightarrow> bytes" where
  "PrivKey_Bytes privKey = priv_Key privKey"

definition PrivKey_ToECDSA :: "('k, 'p) EthCrypto \<Rightarrow> EthPrivKey \<Rightarrow> 'k outcome" where
  "PrivKey_ToECDSA ec privKey = ec_ToECDSA ec (PrivKey_Bytes privKey)"

text \<open>The public key; \<open>None\<close> is nil.\<close>

definition PrivKey_PubKey :: "('k, 'p) EthCrypto \<Rightarrow> EthPrivKey \<Rightarrow> EthPubKey option outcome" where
  "PrivKey_PubKey ec privKey = (case PrivKey_ToECDSA ec privKey of
      Ok k \<Rightarrow> Ok (Some \<lparr>pub_Key = ec_CompressPubkey ec (ec_PublicKey ec k)\<rparr>)
    | Err _ \<Rightarrow> Ok None
    | Panic p \<Rightarrow> Panic p)"

definition PrivKey_Type :: "EthPrivKey \<Rightarrow> string" where
  "PrivKey_Type privKey = KeyType"

text \<open>The other key is any key of the interface: its type name and its bytes.\<close>

definition PrivKey_Equals :: "EthPrivKey \<Rightarrow> PubKey \<Rightarrow> bool" where
  "PrivKey_Equals privKey other \<longleftrightarrow> PrivKey_Type privKey = pk_Type other \<and> PrivKey_Bytes privKey = pk_Bytes other"

definition PrivKey_MarshalAmino :: "EthPrivKey \<Rightarrow> bytes outcome" where
  "PrivKey_MarshalAmino privKey = Ok (priv_Key privKey)"

definition PrivKey_UnmarshalAmino :: "bytes \<Rightarrow> EthPrivKey \<Rightarrow> EthPrivKey outcome" where
  "PrivKey_UnmarshalAmino bz privKey =
     (if length bz \<noteq> PrivKeySize then Err (Error ''invalid privkey size'') else Ok (privKey\<lparr>priv_Key := bz\<rparr>))"

definition PrivKey_MarshalAminoJSON :: "EthPrivKey \<Rightarrow> bytes outcome" where
  "PrivKey_MarshalAminoJSON privKey = PrivKey_MarshalAmino privKey"

definition PrivKey_UnmarshalAminoJSON :: "bytes \<Rightarrow> EthPrivKey \<Rightarrow> EthPrivKey outcome" where
  "PrivKey_UnmarshalAminoJSON bz privKey = PrivKey_UnmarshalAmino bz privKey"

definition Sign :: "('k, 'p) EthCrypto \<Rightarrow> EthPrivKey \<Rightarrow> bytes \<Rightarrow> bytes outcome" where
  "Sign ec privKey digestBz0 =
     (let digestBz = (if length digestBz0 \<noteq> DigestLength then ec_Keccak256 ec digestBz0 else digestBz0) in
      bindO (PrivKey_ToECDSA ec privKey) (\<lambda>key. ec_Sign ec digestBz key))"

section \<open>The public key\<close>

text \<open>The address is empty when the key is invalid.\<close>

definition PubKey_Address :: "('k, 'p) EthCrypto \<Rightarrow> EthPubKey \<Rightarrow> bytes outcome" where
  "PubKey_Address ec pubKey = (case ec_DecompressPubkey ec (pub_Key pubKey) of
      Ok pubk \<Rightarrow> Ok (ec_PubkeyToAddress ec pubk)
    | Err _ \<Rightarrow> Ok []
    | Panic p \<Rightarrow> Panic p)"

definition PubKey_Bytes :: "EthPubKey \<Rightarrow> bytes" where
  "PubKey_Bytes pubKey = pub_Key pubKey"

definition hex_digit :: "nat \<Rightarrow> char" where
  "hex_digit n = char_of (if n < 10 then 48 + n else 55 + n)"

definition hex_upper :: "bytes \<Rightarrow> string" where
  "hex_upper bz = concat (map (\<lambda>b. [hex_digit (unat b div 16), hex_digit (unat b mod 16)]) bz)"

definition PubKey_String :: "EthPubKey \<Rightarrow> string" where
  "PubKey_String pubKey = ''EthPubKeySecp256k1{'' @ hex_upper (pub_Key pubKey) @ ''}''"

definition PubKey_Type :: "EthPubKey \<Rightarrow> string" where
  "PubKey_Type pubKey = KeyType"

definition PubKey_Equals :: "EthPubKey \<Rightarrow> PubKey \<Rightarrow> bool" where
  "PubKey_Equals pubKey other \<longleftrightarrow> PubKey_Type pubKey = pk_Type other \<and> PubKey_Bytes pubKey = pk_Bytes other"

definition PubKey_MarshalAmino :: "EthPubKey \<Rightarrow> bytes outcome" where
  "PubKey_MarshalAmino pubKey = Ok (pub_Key pubKey)"

definition PubKey_UnmarshalAmino :: "bytes \<Rightarrow> EthPubKey \<Rightarrow> EthPubKey outcome" where
  "PubKey_UnmarshalAmino bz pubKey =
     (if length bz \<noteq> PubKeySize then Err ErrInvalidPubKey else Ok (pubKey\<lparr>pub_Key := bz\<rparr>))"

definition PubKey_MarshalAminoJSON :: "EthPubKey \<Rightarrow> bytes outcome" where
  "PubKey_MarshalAminoJSON pubKey = PubKey_MarshalAmino pubKey"

definition PubKey_UnmarshalAminoJSON :: "bytes \<Rightarrow> EthPubKey \<Rightarrow> EthPubKey outcome" where
  "PubKey_UnmarshalAminoJSON bz pubKey = PubKey_UnmarshalAmino bz pubKey"

definition verifySignatureECDSA :: "('k, 'p) EthCrypto \<Rightarrow> EthPubKey \<Rightarrow> bytes \<Rightarrow> bytes \<Rightarrow> bool" where
  "verifySignatureECDSA ec pubKey msg sig0 =
     (let sig = (if length sig0 = SignatureLength then take (length sig0 - 1) sig0 else sig0) in
      ec_VerifySignature ec (pub_Key pubKey) (ec_Keccak256 ec msg) sig)"

text \<open>
  The two EIP-712 encodings of a sign document, as functions of its bytes: \<open>Eip712\<close> and
  \<open>Eip712Legacy\<close> with their parameters.
\<close>

record ('a, 'm) SignDocEnv =
  sde_json :: JsonFns
  sde_range :: "string list \<Rightarrow> string list"
  sde_codec :: "('a, 'm) DocCodec"
  sde_legacy :: "'m LegacyCodec"
  sde_depth :: nat

definition eip712_bytes :: "('a, 'm) SignDocEnv \<Rightarrow> bytes \<Rightarrow> bytes outcome" where
  "eip712_bytes env msg = GetEIP712BytesForMsg (sde_json env) (sde_range env) (sde_codec env) msg"

definition legacy_eip712_bytes :: "('a, 'm) SignDocEnv \<Rightarrow> bytes \<Rightarrow> bytes outcome" where
  "legacy_eip712_bytes env msg =
     LegacyGetEIP712BytesForMsg (sde_depth env) (sde_json env) (sde_codec env) (sde_legacy env) msg"

definition verifySignatureAsEIP712 ::
    "('k, 'p) EthCrypto \<Rightarrow> ('a, 'm) SignDocEnv \<Rightarrow> EthPubKey \<Rightarrow> bytes \<Rightarrow> bytes \<Rightarrow> bool outcome" where
  "verifySignatureAsEIP712 ec env pubKey msg sig = (case eip712_bytes env msg of
      Panic p \<Rightarrow> Panic p
    | Err _ \<Rightarrow> Ok False
    | Ok eip712Bytes \<Rightarrow>
        if verifySignatureECDSA ec pubKey eip712Bytes sig then Ok True
        else (case legacy_eip712_bytes env msg of
            Panic p \<Rightarrow> Panic p
          | Err _ \<Rightarrow> Ok False
          | Ok legacyEIP712Bytes \<Rightarrow> Ok (verifySignatureECDSA ec pubKey legacyEIP712Bytes sig)))"

definition VerifySignature ::
    "('k, 'p) EthCrypto \<Rightarrow> ('a, 'm) SignDocEnv \<Rightarrow> EthPubKey \<Rightarrow> bytes \<Rightarrow> bytes \<Rightarrow> bool outcome" where
  "VerifySignature ec env pubKey msg sig =
     (if verifySignatureECDSA ec pubKey msg sig then Ok True else verifySignatureAsEIP712 ec env pubKey msg sig)"

section \<open>\<open>hd/algorithm.go\<close>\<close>

record ('k, 'e) Derivation =
  hd_ParseDerivationPath :: "string \<Rightarrow> uint32 list outcome"
  hd_NewSeed :: "string \<Rightarrow> string \<Rightarrow> bytes outcome"
  hd_NewMaster :: "bytes \<Rightarrow> 'e outcome"
  hd_DeriveChild :: "'e \<Rightarrow> uint32 \<Rightarrow> 'e outcome"
  hd_ECPrivKey :: "'e \<Rightarrow> 'k outcome"

definition EthSecp256k1Type :: string where
  "EthSecp256k1Type = KeyType"

text \<open>The names of the supported signing algorithms, for keys and for the Ledger.\<close>

definition SupportedAlgorithms :: "string list" where
  "SupportedAlgorithms = [EthSecp256k1Type, ''secp256k1'']"

record KeyringOptions =
  SupportedAlgos :: "string list"
  SupportedAlgosLedger :: "string list"

definition EthSecp256k1Option :: "KeyringOptions \<Rightarrow> KeyringOptions" where
  "EthSecp256k1Option options = options\<lparr>SupportedAlgos := SupportedAlgorithms, SupportedAlgosLedger := SupportedAlgorithms\<rparr>"

definition Name :: string where
  "Name = EthSecp256k1Type"

definition Derive ::
    "('k, 'p) EthCrypto \<Rightarrow> ('k, 'e) Derivation \<Rightarrow> string \<Rightarrow> string \<Rightarrow> string \<Rightarrow> bytes outcome" where
  "Derive ec d mnemonic bip39Passphrase path =
     bindO (hd_ParseDerivationPath d path) (\<lambda>hdpath.
     bindO (hd_NewSeed d mnemonic bip39Passphrase) (\<lambda>seed.
     bindO (hd_NewMaster d seed) (\<lambda>masterKey.
     bindO (foldO (\<lambda>n key. hd_DeriveChild d key n) hdpath masterKey) (\<lambda>key.
     bindO (hd_ECPrivKey d key) (\<lambda>privateKey.
     Ok (ec_FromECDSA ec privateKey))))))"

text \<open>\<open>copy\<close> into a slice of \<open>PrivKeySize\<close> zero bytes.\<close>

definition Generate :: "bytes \<Rightarrow> EthPrivKey" where
  "Generate bz = \<lparr>priv_Key = take PrivKeySize bz @ replicate (PrivKeySize - length bz) 0\<rparr>"

section \<open>Specification\<close>

text \<open>
  What the curve and hash functions document: a private key is 32 bytes and converts back and
  forth, a compressed public key decompresses to itself, a digest is 32 bytes, a signature has 65
  bytes of which the last is the recovery id, and the first 64 bytes verify the digest.
\<close>

definition crypto_laws :: "('k, 'p) EthCrypto \<Rightarrow> bool" where
  "crypto_laws ec \<longleftrightarrow>
     (\<forall>k. length (ec_FromECDSA ec k) = 32 \<and> ec_ToECDSA ec (ec_FromECDSA ec k) = Ok k) \<and>
     (\<forall>p. length (ec_CompressPubkey ec p) = 33 \<and> ec_DecompressPubkey ec (ec_CompressPubkey ec p) = Ok p) \<and>
     (\<forall>m. length (ec_Keccak256 ec m) = 32) \<and>
     (\<forall>d k. length d = 32 \<longrightarrow> (\<exists>sig. ec_Sign ec d k = Ok sig \<and> length sig = 65 \<and>
        ec_VerifySignature ec (ec_CompressPubkey ec (ec_PublicKey ec k)) d (take 64 sig)))"

section \<open>Reference functions\<close>

text \<open>A toy scheme: keys are numbers below 256, a signature repeats the key and the digest.\<close>

definition ref_digest :: "bytes \<Rightarrow> bytes" where
  "ref_digest m = replicate 32 (sum_list m + 1)"

definition ref_ec :: "(byte, byte) EthCrypto" where
  "ref_ec = \<lparr>ec_GenerateKey = Ok 7, ec_FromECDSA = (\<lambda>k. replicate 32 k),
     ec_ToECDSA = (\<lambda>b. if length b = 32 then Ok (hd b) else Err (ErrExternal ''invalid length'')),
     ec_PublicKey = (\<lambda>k. k), ec_CompressPubkey = (\<lambda>p. replicate 33 p),
     ec_DecompressPubkey = (\<lambda>b. if length b = 33 then Ok (hd b) else Err (ErrExternal ''invalid public key'')),
     ec_PubkeyToAddress = (\<lambda>p. replicate 20 p), ec_Keccak256 = ref_digest,
     ec_Sign = (\<lambda>d k. Ok (replicate 32 k @ d @ [0])),
     ec_VerifySignature = (\<lambda>pk d sig. sig = replicate 32 (hd pk) @ d)\<rparr>"

definition ref_hd :: "(byte, byte) Derivation" where
  "ref_hd = \<lparr>hd_ParseDerivationPath = (\<lambda>p. Ok [44, 60, 0]), hd_NewSeed = (\<lambda>m p. Ok [5]),
     hd_NewMaster = (\<lambda>s. Ok (hd s)), hd_DeriveChild = (\<lambda>e n. Ok (e + ucast n)), hd_ECPrivKey = Ok\<rparr>"

text \<open>A codec that decodes every document as one amino message signed by \<open>a\<close>.\<close>

definition ref_dc :: "(nat, nat) DocCodec" where
  "ref_dc = \<lparr>dc_Initialised = True,
     dc_AminoDoc = (\<lambda>b. Ok \<lparr>sdoc_ChainID = ''cube_47-5'', sdoc_Fee = [], sdoc_Msgs = [[1], [2]]\<rparr>),
     dc_AminoFee = (\<lambda>b. Ok ()), dc_AminoMsg = (\<lambda>b. Ok (length b)),
     dc_SignDoc = (\<lambda>b. Err (ErrExternal ''not a sign doc'')), dc_AuthInfo = (\<lambda>b. Err (ErrExternal ''not an auth info'')),
     dc_TxBody = (\<lambda>b. Err (ErrExternal ''not a body'')), dc_UnpackAny = Ok, dc_Signers = (\<lambda>m. Ok [[97]]),
     dc_StdSignBytes = (\<lambda>_ _ _ _ _ _ _. []),
     dc_TypedDataAndHash = (\<lambda>td. Ok [0x19, 1, word_of_nat (length (td_Types td))])\<rparr>"

definition ref_env :: "(nat, nat) SignDocEnv" where
  "ref_env = \<lparr>sde_json = ref_json (Some ref_doc), sde_range = rev, sde_codec = ref_dc, sde_legacy = ref_lc, sde_depth = 5\<rparr>"

section \<open>Signatures\<close>

lemma crypto_key:
  assumes "crypto_laws ec"
  shows "length (ec_FromECDSA ec k) = 32" "ec_ToECDSA ec (ec_FromECDSA ec k) = Ok k"
    "length (ec_CompressPubkey ec p) = 33" "ec_DecompressPubkey ec (ec_CompressPubkey ec p) = Ok p"
    "length (ec_Keccak256 ec m) = 32"
  using assms by (simp_all add: crypto_laws_def)

lemma crypto_sign:
  assumes "crypto_laws ec" "length d = 32"
  obtains sig where "ec_Sign ec d k = Ok sig" "length sig = 65"
    "ec_VerifySignature ec (ec_CompressPubkey ec (ec_PublicKey ec k)) d (take 64 sig)"
  using assms unfolding crypto_laws_def by blast

text \<open>
  What is signed over a message of any length but 32 bytes, or over its digest, verifies over the
  message, with and without the recovery byte.
\<close>

lemma signed_verifies:
  assumes laws: "crypto_laws ec" and key: "PrivKey_ToECDSA ec priv = Ok k" and pub: "PrivKey_PubKey ec priv = Ok (Some pub)"
    and d: "d = ec_Keccak256 ec msg \<or> (d = msg \<and> length msg \<noteq> 32)" and sig: "Sign ec priv d = Ok sig"
  shows "length sig = 65 \<and> verifySignatureECDSA ec pub msg sig \<and> verifySignatureECDSA ec pub msg (take 64 sig)"
proof -
  let ?d = "ec_Keccak256 ec msg"
  have "ec_Sign ec ?d k = Ok sig"
    using sig key d crypto_key(5) [OF laws] by (auto simp: Sign_def DigestLength_def Let_def split: if_splits)
  moreover obtain sig' where "ec_Sign ec ?d k = Ok sig'" "length sig' = 65"
      "ec_VerifySignature ec (ec_CompressPubkey ec (ec_PublicKey ec k)) ?d (take 64 sig')"
    using crypto_sign [OF laws crypto_key(5) [OF laws]] by blast
  moreover have "pub_Key pub = ec_CompressPubkey ec (ec_PublicKey ec k)"
    using pub key by (auto simp: PrivKey_PubKey_def)
  ultimately show ?thesis by (auto simp: verifySignatureECDSA_def SignatureLength_def Let_def)
qed

lemma Generate_exact: "length bz = 32 \<Longrightarrow> Generate bz = \<lparr>priv_Key = bz\<rparr>"
  by (simp add: Generate_def PrivKeySize_def)

lemma amino_private: "PrivKey_UnmarshalAmino (priv_Key k) k0 = Ok k \<longleftrightarrow> length (priv_Key k) = 32"
  by (auto simp: PrivKey_UnmarshalAmino_def PrivKeySize_def)

lemma amino_public: "PubKey_UnmarshalAmino (pub_Key k) k0 = Ok k \<longleftrightarrow> length (pub_Key k) = 33"
  by (auto simp: PubKey_UnmarshalAmino_def PubKeySize_def)

lemma ref_crypto_laws: "crypto_laws ref_ec"
  by (auto simp: crypto_laws_def ref_ec_def ref_digest_def)


section \<open>Properties\<close>

text \<open>C23: A key derived from a mnemonic signs whatever its public key verifies, except for 32 bytes.
  The derived bytes make a private key with a public key; signing the document's bytes, its
  EIP-712 encoding or its legacy EIP-712 encoding succeeds.  If these are not 32 bytes long, the
  verifier accepts the signature for the document, with and without the recovery byte; 32 bytes
  are taken as a digest and signed as they are, while the verifier hashes them.
\<close>

theorem derived_key_verifies:
  assumes "crypto_laws ec" "Derive ec dv mnemonic passphrase path = Ok bz"
    and "e = msg \<or> eip712_bytes env msg = Ok e \<or> (eip712_bytes env msg = Ok b \<and> legacy_eip712_bytes env msg = Ok e)"
  shows "\<exists>pub sig. PrivKey_PubKey ec (Generate bz) = Ok (Some pub) \<and> Sign ec (Generate bz) e = Ok sig \<and>
    (length e \<noteq> 32 \<longrightarrow> VerifySignature ec env pub msg sig = Ok True \<and> VerifySignature ec env pub msg (take 64 sig) = Ok True) \<and>
    (length e = 32 \<longrightarrow> ec_VerifySignature ec (pub_Key pub) e (take 64 sig))"
proof -
  from assms(2) obtain k where bz: "bz = ec_FromECDSA ec k" by (auto simp: Derive_def)
  have key: "PrivKey_ToECDSA ec (Generate bz) = Ok k"
    using crypto_key(1,2) [OF assms(1), of k] by (simp add: bz Generate_exact PrivKey_ToECDSA_def PrivKey_Bytes_def)
  then obtain pub where pub: "PrivKey_PubKey ec (Generate bz) = Ok (Some pub)" by (simp add: PrivKey_PubKey_def)
  have pk: "pub_Key pub = ec_CompressPubkey ec (ec_PublicKey ec k)" using pub key by (auto simp: PrivKey_PubKey_def)
  let ?d = "if length e \<noteq> 32 then ec_Keccak256 ec e else e"
  have "length ?d = 32" using crypto_key(5) [OF assms(1)] by simp
  then obtain sig where s: "ec_Sign ec ?d k = Ok sig" "ec_VerifySignature ec (pub_Key pub) ?d (take 64 sig)"
    unfolding pk using crypto_sign [OF assms(1)] by metis
  then have sig: "Sign ec (Generate bz) e = Ok sig" using key by (simp add: Sign_def DigestLength_def)
  have "VerifySignature ec env pub msg t = Ok True" if "verifySignatureECDSA ec pub e t" for t
    using assms(3) that by (auto simp: VerifySignature_def verifySignatureAsEIP712_def)
  then have "VerifySignature ec env pub msg sig = Ok True \<and> VerifySignature ec env pub msg (take 64 sig) = Ok True"
    if "length e \<noteq> 32"
    using signed_verifies [OF assms(1) key pub _ sig, of e] that by auto
  with pub sig s(2) show ?thesis by (intro exI [of _ pub] exI [of _ sig]) auto
qed

theorem derived_key_verifies_witness:
  "\<exists>pub sig l. legacy_eip712_bytes ref_env [1, 2] = Ok l \<and> Sign ref_ec (Generate (replicate 32 109)) l = Ok sig \<and>
     VerifySignature ref_ec ref_env pub [1, 2] sig = Ok True"
proof -
  have d: "Derive ref_ec ref_hd ''m'' ''p'' ''path'' = Ok (replicate 32 109)" by code_simp
  have "is_Ok (eip712_bytes ref_env [1, 2])" by code_simp
  then obtain b where b: "eip712_bytes ref_env [1, 2] = Ok b" by (auto simp: is_Ok_iff)
  have "\<exists>l. legacy_eip712_bytes ref_env [1, 2] = Ok l \<and> length l = 3"
  proof -
    have "(case legacy_eip712_bytes ref_env [1, 2] of Ok l \<Rightarrow> length l = 3 | _ \<Rightarrow> False)" by code_simp
    then show ?thesis by (auto split: outcome.splits)
  qed
  then obtain l where l: "legacy_eip712_bytes ref_env [1, 2] = Ok l" "length l \<noteq> 32" by auto
  from derived_key_verifies [OF ref_crypto_laws d, of l "[1, 2]" ref_env b] b l show ?thesis by blast
qed

end
