(* ===== verification/Command.thy ===== *)
theory Command
  imports Node Export EthSecp256k1
begin

text \<open>
  The server commands of \<open>src/cmd/xplad/cmd/root.go\<close> and the configuration of \<open>src/app/params/config.go\<close>:
  starting a node, exporting a state, the configuration file with its defaults, the genesis
  commands, and the export of an old Ethereum key (\<open>src/legacy/ethermint/client/export.go\<close>).  Options
  are the decoded values of the flags; files and databases are parameters.
\<close>

section \<open>Configuration\<close>

definition newline :: char where
  "newline = CHR 0x0A"

definition strings_Join :: "string list \<Rightarrow> string" where
  "strings_Join ls = tl (concat (map (\<lambda>l. newline # l) ls))"

definition BypassMinFeeMsgTypesKey :: string where
  "BypassMinFeeMsgTypesKey = ''bypass-min-fee-msg-types''"

text \<open>
  The template of the repository: its comment lines, and the line the default values are printed
  into.  Double quotes are characters of the template.
\<close>

definition customConfigTemplate :: string where
  \<open>customConfigTemplate = strings_Join [
     '''',
     ''###############################################################################'',
     ''###                        Custom XPLA Configuration                        ###'',
     ''###############################################################################'',
     ''# bypass-min-fee-msg-types defines custom message types the operator may set that'',
     ''# will bypass minimum fee checks during CheckTx.'',
     ''# NOTE:'',
     ''# bypass-min-fee-msg-types = [] will deactivate the bypass - no messages will be allowed to bypass the minimum fee check'',
     ''# bypass-min-fee-msg-types = [<MsgType>...] will allow messages of specified type to bypass the minimum fee check'',
     ''# removing bypass-min-fee-msg-types from the config file will apply the default values:'',
     ''# ["/ibc.core.channel.v1.MsgRecvPacket", "/ibc.core.channel.v1.MsgAcknowledgement", "/ibc.core.client.v1.MsgUpdateClient"]'',
     ''#'',
     ''# Example:'',
     ''# bypass-min-fee-msg-types = ["/ibc.core.channel.v1.MsgRecvPacket", "/ibc.core.channel.v1.MsgAcknowledgement", "/ibc.core.client.v1.MsgUpdateClient"]'',
     ''bypass-min-fee-msg-types = [{{ range .BypassMinFeeMsgTypes }}{{ printf "%q, " . }}{{end}}]'',
     '''']\<close>

text \<open>Slicing past the end panics; the third line exists because seven are kept.\<close>

definition CustomConfigTemplate :: "string \<Rightarrow> string outcome" where
  "CustomConfigTemplate customAppTemplate = (let lines = split_on newline customAppTemplate in
     if length lines < 12 then Panic ''slice bounds out of range''
     else let lines = take 7 lines @ drop 12 lines in
       Ok (strings_Join (lines[2 := lines ! 2 @ customConfigTemplate])))"

record 'c CustomAppConfig =
  cc_Config :: 'c
  cc_SnapshotInterval :: uint64
  cc_SnapshotKeepRecent :: uint32
  cc_EVMChainID :: uint64
  cc_BypassMinFeeMsgTypes :: "string list"

definition initAppConfig :: "'c \<Rightarrow> string \<Rightarrow> string \<Rightarrow> (string \<times> 'c CustomAppConfig) outcome" where
  "initAppConfig defaults DefaultConfigTemplate DefaultEVMConfigTemplate =
     bindO (CustomConfigTemplate (DefaultConfigTemplate @ DefaultEVMConfigTemplate)) (\<lambda>template.
     Ok (template, \<lparr>cc_Config = defaults, cc_SnapshotInterval = 1000, cc_SnapshotKeepRecent = 10, cc_EVMChainID = 37,
       cc_BypassMinFeeMsgTypes = [''/ibc.core.channel.v1.MsgRecvPacket'', ''/ibc.core.channel.v1.MsgAcknowledgement'',
         ''/ibc.core.client.v1.MsgUpdateClient'', ''/ibc.applications.transfer.v1.MsgTransfer'',
         ''/ibc.core.channel.v1.MsgTimeout'', ''/ibc.core.channel.v1.MsgTimeoutOnClose'']\<rparr>))"

section \<open>Starting a node\<close>

text \<open>
  The options the two functions read.  \<open>ao_Home\<close> is \<open>None\<close> when the option is not a string;
  \<open>ao_IsViper\<close> says whether the options can be overwritten.
\<close>

record AppOptions =
  ao_InterBlockCache :: bool
  ao_Telemetry :: bool
  ao_UnsafeSkipUpgrades :: "int list"
  ao_Home :: "string option"
  ao_ChainID :: string
  ao_GenesisFile :: string
  ao_SnapshotInterval :: uint64
  ao_SnapshotKeepRecent :: uint32
  ao_MinGasPrices :: string
  ao_HaltHeight :: uint64
  ao_HaltTime :: uint64
  ao_MinRetainBlocks :: uint64
  ao_Trace :: bool
  ao_IndexEvents :: "string list"
  ao_IAVLCacheSize :: int
  ao_InvCheckPeriod :: int
  ao_IsViper :: bool

record 'p BaseOptions =
  bo_ChainID :: string
  bo_Pruning :: 'p
  bo_MinGasPrices :: string
  bo_HaltHeight :: uint64
  bo_HaltTime :: uint64
  bo_MinRetainBlocks :: uint64
  bo_InterBlockCache :: bool
  bo_Trace :: bool
  bo_IndexEvents :: "string list"
  bo_Snapshot :: "uint64 \<times> uint32"
  bo_IAVLCacheSize :: int
  bo_VMCacheMetrics :: bool

text \<open>
  What the functions call: pruning options, the chain id in the genesis file at a path, the
  snapshot database below a home directory; the options of the application; and for an export the
  application and its state at a version of the store, \<open>None\<close> when no version was loaded.
\<close>

record ('x, 'v, 'p, 'y) ServerEnv =
  se_Pruning :: "AppOptions \<Rightarrow> 'p outcome"
  se_AppGenesis :: "string list \<Rightarrow> string outcome"
  se_SnapshotDB :: "string list \<Rightarrow> unit outcome"
  se_SnapshotStore :: "string list \<Rightarrow> unit outcome"
  se_node :: "AppOptions \<Rightarrow> ('x, 'v) NodeEnv"
  se_state :: "int option \<Rightarrow> 'y XplaApp \<times> 'y Ctx"

definition skip_upgrades :: "int list \<Rightarrow> (int \<times> bool) list" where
  "skip_upgrades hs = fold (\<lambda>h m. gomap_set h True m) hs []"

definition home_dir :: "AppOptions \<Rightarrow> string" where
  "home_dir appOpts = (case ao_Home appOpts of None \<Rightarrow> [] | Some h \<Rightarrow> h)"

definition chain_id :: "('x, 'v, 'p, 'y) ServerEnv \<Rightarrow> AppOptions \<Rightarrow> string outcome" where
  "chain_id e appOpts = (if ao_ChainID appOpts = [] then se_AppGenesis e [home_dir appOpts, ao_GenesisFile appOpts]
     else Ok (ao_ChainID appOpts))"

definition base_options :: "('x, 'v, 'p, 'y) ServerEnv \<Rightarrow> AppOptions \<Rightarrow> ('s, 'p BaseOptions) M" where
  "base_options e appOpts =
     bindM (external (se_Pruning e appOpts)) (\<lambda>pruningOpts.
     bindM (external (chain_id e appOpts)) (\<lambda>chainID.
     let snapshotDir = [home_dir appOpts, ''data'', ''snapshots''] in
     thenM (external (se_SnapshotDB e snapshotDir)) (
     thenM (external (se_SnapshotStore e snapshotDir)) (
     ret \<lparr>bo_ChainID = chainID, bo_Pruning = pruningOpts, bo_MinGasPrices = ao_MinGasPrices appOpts, bo_HaltHeight = ao_HaltHeight appOpts,
       bo_HaltTime = ao_HaltTime appOpts, bo_MinRetainBlocks = ao_MinRetainBlocks appOpts, bo_InterBlockCache = ao_InterBlockCache appOpts,
       bo_Trace = ao_Trace appOpts, bo_IndexEvents = ao_IndexEvents appOpts,
       bo_Snapshot = (ao_SnapshotInterval appOpts, ao_SnapshotKeepRecent appOpts), bo_IAVLCacheSize = ao_IAVLCacheSize appOpts,
       bo_VMCacheMetrics = ao_Telemetry appOpts\<rparr>))))"

definition newApp :: "('x, 'v, 'p, 'y) ServerEnv \<Rightarrow> AppOptions \<Rightarrow> (('x, 'v) Node, 'p BaseOptions) M" where
  "newApp e appOpts =
     bindM (base_options e appOpts) (\<lambda>base.
     thenM (NewXplaApp (se_node e appOpts) True (skip_upgrades (ao_UnsafeSkipUpgrades appOpts))) (ret base))"

definition appExport ::
    "('x, 'v, 'p, 'y) ServerEnv \<Rightarrow> ((string \<times> VolunteerValidator) list \<Rightarrow> (string \<times> VolunteerValidator) list) \<Rightarrow>
     ((string \<times> bytes) list \<Rightarrow> (string \<times> bytes) list) \<Rightarrow> AppOptions \<Rightarrow> int \<Rightarrow> bool \<Rightarrow> string list \<Rightarrow> string list \<Rightarrow>
     (('x, 'v) Node, ExportedApp) M" where
  "appExport e rngV rngL appOpts height forZeroHeight jailAllowedAddrs modulesToExport =
     (if ao_Home appOpts = None \<or> ao_Home appOpts = Some [] then throw (Error ''application home is not set'')
      else if \<not> ao_IsViper appOpts then throw (Error ''appOpts is not viper.Viper'')
      else let opts = appOpts\<lparr>ao_InvCheckPeriod := 1\<rparr> in
        thenM (NewXplaApp (se_node e opts) (height = -1) []) (
        thenM (if height \<noteq> -1 then LoadHeight (se_node e opts) height else ret ()) (
        bindM (getsM (\<lambda>nd. se_state e (nd_version nd))) (\<lambda>(app, ctx).
          liftO (fst (ExportAppStateAndValidators rngV rngL app forZeroHeight jailAllowedAddrs modulesToExport ctx))))))"

text \<open>The temporary home of the application that is built for its codecs; the directory is removed again.\<close>

definition tempDir :: "string outcome \<Rightarrow> string \<Rightarrow> string" where
  "tempDir MkdirTemp DefaultNodeHome = (case MkdirTemp of Ok dir \<Rightarrow> dir | _ \<Rightarrow> DefaultNodeHome)"

definition minimum_gas_prices :: "string \<Rightarrow> string" where
  "minimum_gas_prices DefaultDenom = ''0'' @ DefaultDenom"

section \<open>Genesis commands\<close>

text \<open>Commands by name; the default ones that add accounts give way to the repository's own.\<close>

definition genesisCommand :: "(string \<times> 'c) list \<Rightarrow> (string \<times> 'c) list \<Rightarrow> (string \<times> 'c) list" where
  "genesisCommand core cmds =
     filter (\<lambda>c. \<not> (fst c = ''add-genesis-account'' \<or> fst c = ''bulk-add-genesis-account'')) core @ cmds"

section \<open>Exporting an old key\<close>

datatype Backend = BackendFile | BackendOS | BackendOther

datatype AnyPrivKey = LegacyEthKey EthPrivKey | OtherKey

record ('k, 'p) KeyExport =
  kx_crypto :: "('k, 'p) EthCrypto"
  kx_ReadFlags :: "unit outcome"
  kx_Backend :: Backend
  kx_GetPassword :: "string outcome"
  kx_GetConfirmation :: "bool outcome"
  kx_ExportPrivKeyArmor :: "string \<Rightarrow> string \<Rightarrow> string outcome"
  kx_UnarmorDecryptPrivKey :: "string \<Rightarrow> string \<Rightarrow> (AnyPrivKey \<times> string) outcome"
  kx_FromECDSA :: "'k \<Rightarrow> bytes"
  kx_HexEncode :: "bytes \<Rightarrow> string"
  kx_ToUpper :: "string \<Rightarrow> string"

definition ask :: "('k, 'p) KeyExport \<Rightarrow> (string \<times> bool) outcome" where
  "ask x = (case kx_Backend x of
      BackendFile \<Rightarrow> bindO (kx_GetPassword x) (\<lambda>pw. Ok (pw, True))
    | BackendOS \<Rightarrow> bindO (kx_GetConfirmation x) (\<lambda>conf. Ok ([], conf))
    | BackendOther \<Rightarrow> Ok ([], True))"

text \<open>What is printed; \<open>None\<close> when the user declines.\<close>

definition UnsafeExportLegacyEthKeyCommand :: "('k, 'p) KeyExport \<Rightarrow> string \<Rightarrow> string option outcome" where
  "UnsafeExportLegacyEthKeyCommand x name =
     bindO (kx_ReadFlags x) (\<lambda>_.
     bindO (ask x) (\<lambda>(decryptPassword, conf).
     if \<not> conf then Ok None
     else bindO (kx_ExportPrivKeyArmor x name decryptPassword) (\<lambda>armor.
          bindO (kx_UnarmorDecryptPrivKey x armor decryptPassword) (\<lambda>(privKey, algo).
          if algo \<noteq> KeyType then Err (Error ''invalid key algorithm'')
          else case privKey of
              OtherKey \<Rightarrow> Err (Error ''invalid private key type'')
            | LegacyEthKey k \<Rightarrow>
                bindO (PrivKey_ToECDSA (kx_crypto x) k) (\<lambda>key.
                Ok (Some (kx_ToUpper x (drop 2 (kx_HexEncode x (kx_FromECDSA x key))))))))))"

section \<open>Specification\<close>

text \<open>What the databases and files give for a start to succeed.\<close>

definition server_ok :: "('x, 'v, 'p, 'y) ServerEnv \<Rightarrow> AppOptions \<Rightarrow> bool" where
  "server_ok e opts \<longleftrightarrow> is_Ok (se_Pruning e opts) \<and> is_Ok (chain_id e opts) \<and>
     se_SnapshotDB e [home_dir opts, ''data'', ''snapshots''] = Ok () \<and>
     se_SnapshotStore e [home_dir opts, ''data'', ''snapshots''] = Ok ()"

definition ref_options :: AppOptions where
  "ref_options = \<lparr>ao_InterBlockCache = True, ao_Telemetry = False, ao_UnsafeSkipUpgrades = [5, 9, 5], ao_Home = Some ''home'', ao_ChainID = [],
     ao_GenesisFile = ''genesis.json'', ao_SnapshotInterval = 1000, ao_SnapshotKeepRecent = 10, ao_MinGasPrices = ''0axpla'', ao_HaltHeight = 0,
     ao_HaltTime = 0, ao_MinRetainBlocks = 0, ao_Trace = False, ao_IndexEvents = [], ao_IAVLCacheSize = 0, ao_InvCheckPeriod = 0,
     ao_IsViper = True\<rparr>"

definition ref_server :: "(unit, unit, unit, RefExport) ServerEnv" where
  "ref_server = \<lparr>se_Pruning = (\<lambda>_. Ok ()), se_AppGenesis = (\<lambda>_. Ok ''dimension_37-1''), se_SnapshotDB = (\<lambda>_. Ok ()),
     se_SnapshotStore = (\<lambda>_. Ok ()), se_node = (\<lambda>_. ref_node_env (GetVolunteerValidator (ref_vk_of ref_no_staking ref_no_dist))),
     se_state = (\<lambda>v. if v = Some 7 then (ref_app, ref_export_ctx) else (ref_app, ref_export_ctx\<lparr>block_height := 0\<rparr>))\<rparr>"

section \<open>Lemmas\<close>

lemma skip_upgrades_exact: "map_of (skip_upgrades hs) h = (if h \<in> set hs then Some True else None)"
proof -
  have "map_of (fold (\<lambda>h m. gomap_set h True m) hs m) h = (if h \<in> set hs then Some True else map_of m h)" for m
    by (induction hs arbitrary: m) (auto simp: gomap_set_get)
  then show ?thesis by (simp add: skip_upgrades_def)
qed

lemma split_on_app:
  "split_on c (xs @ ys) = butlast (split_on c xs) @ (last (split_on c xs) @ hd (split_on c ys)) # tl (split_on c ys)"
  by (induction xs) (auto split: list.splits)

lemma Join_split: "strings_Join (split_on newline s) = s"
  by (simp add: strings_Join_def split_on_join)

lemma template_lines: "hd (split_on newline customConfigTemplate) = []" "tl (split_on newline customConfigTemplate) \<noteq> []"
  by code_simp+

lemma base_options_run:
  assumes "server_ok e opts"
  obtains base where "base_options e opts s = (Ok base, s)" "chain_id e opts = Ok (bo_ChainID base)"
proof -
  from assms obtain p i where "se_Pruning e opts = Ok p" "chain_id e opts = Ok i" by (auto simp: server_ok_def is_Ok_iff)
  moreover from this assms have "\<exists>base. base_options e opts s = (Ok base, s) \<and> bo_ChainID base = i"
    by (simp add: server_ok_def base_options_def bindM_def thenM_def Let_def ret_def)
  ultimately show thesis using that by auto
qed

lemma split_on_Join:
  assumes "ls \<noteq> []"
  shows "split_on newline (strings_Join ls) = concat (map (split_on newline) ls)"
  using assms
proof (induction ls rule: induct_list012)
  case (3 x y zs)
  have "strings_Join (x # y # zs) = x @ newline # strings_Join (y # zs)" by (simp add: strings_Join_def)
  moreover have "split_on newline (x @ newline # t) = split_on newline x @ split_on newline t" for t
    by (simp add: split_on_app append_butlast_last_id flip: append_Cons)
  ultimately show ?case using 3 by simp
qed (simp_all add: strings_Join_def)

lemma split_clean: "\<forall>l \<in> set ls. newline \<notin> set l \<Longrightarrow> concat (map (split_on newline) ls) = ls"
  by (induction ls) (simp_all add: split_on_absent)

section \<open>Properties\<close>

text \<open>The configuration file: for a template of at least twelve lines, lines eight to twelve, which hold
  the minimum gas prices, are gone, the lines of the repository follow the third one, and every
  other line is kept in place; for a shorter one the program panics.
\<close>

theorem config_template_lines:
  "let ls = split_on newline template in
     (length ls < 12 \<longrightarrow> CustomConfigTemplate template = Panic ''slice bounds out of range'') \<and>
     (12 \<le> length ls \<longrightarrow> (\<exists>t. CustomConfigTemplate template = Ok t \<and>
       split_on newline t = take 3 ls @ tl (split_on newline customConfigTemplate) @ drop 3 (take 7 ls) @ drop 12 ls))"
proof -
  let ?ls = "split_on newline template"
  let ?L = "take 7 ?ls @ drop 12 ?ls"
  have "split_on newline (strings_Join (?L[2 := ?L ! 2 @ customConfigTemplate])) =
      take 3 ?ls @ tl (split_on newline customConfigTemplate) @ drop 3 (take 7 ?ls) @ drop 12 ?ls" if len: "12 \<le> length ?ls"
  proof -
    have clean: "\<forall>l \<in> set ?ls. newline \<notin> set l" using split_on_clean by blast
    have three: "take 3 ?ls = take 2 ?ls @ [?ls ! 2]" using len by (simp add: take_Suc_conv_app_nth numeral_3_eq_3 numeral_2_eq_2)
    have L: "?L[2 := ?L ! 2 @ customConfigTemplate] = take 2 ?ls @ (?ls ! 2 @ customConfigTemplate) # drop 3 (take 7 ?ls) @ drop 12 ?ls"
      using len by (simp add: upd_conv_take_nth_drop nth_append numeral_3_eq_3 numeral_2_eq_2)
    have "newline \<notin> set (?ls ! 2)" using clean len by simp
    then have "split_on newline (?ls ! 2 @ customConfigTemplate) = ?ls ! 2 # tl (split_on newline customConfigTemplate)"
      by (simp add: split_on_app split_on_absent template_lines)
    moreover have "concat (map (split_on newline) (take 2 ?ls)) = take 2 ?ls"
        "concat (map (split_on newline) (drop 3 (take 7 ?ls) @ drop 12 ?ls)) = drop 3 (take 7 ?ls) @ drop 12 ?ls"
      using clean by (intro split_clean; auto dest: in_set_takeD in_set_dropD)+
    ultimately show ?thesis unfolding L three by (simp add: split_on_Join)
  qed
  then show ?thesis by (simp add: CustomConfigTemplate_def Let_def)
qed

text \<open>A node starts with the configured options: when files, databases and the SDK's calls succeed,
  starting does not panic; the chain id is the configured one or else the one of the genesis file, and
  exactly the listed upgrade heights are skipped.
\<close>

theorem node_starts:
  fixes e :: "('x, 'v, 'p, 'y) ServerEnv"
  assumes "server_ok e opts" "externals_ok (se_node e opts)" "order_laws (se_node e opts) hooked"
  shows "\<exists>base nd. newApp e opts blank_node = (Ok base, nd) \<and> nd_handler nd \<noteq> None \<and>
    (if ao_ChainID opts = [] then se_AppGenesis e [home_dir opts, ao_GenesisFile opts] = Ok (bo_ChainID base)
     else bo_ChainID base = ao_ChainID opts) \<and>
    (\<forall>h. map_of (skip_upgrades (ao_UnsafeSkipUpgrades opts)) h = Some True \<longleftrightarrow> h \<in> set (ao_UnsafeSkipUpgrades opts))"
proof -
  obtain base where base: "base_options e opts (blank_node :: ('x, 'v) Node) = (Ok base, blank_node)" "chain_id e opts = Ok (bo_ChainID base)"
    using base_options_run [OF assms(1)] .
  obtain nd where nd: "NewXplaApp (se_node e opts) True (skip_upgrades (ao_UnsafeSkipUpgrades opts)) blank_node = (Ok (), nd)"
      "nd_handler nd \<noteq> None"
    using NewXplaApp_run [OF assms(2,3)] by (metis option.distinct(1))
  have "newApp e opts blank_node = (Ok base, nd)" by (simp add: newApp_def bindM_def thenM_def base nd ret_def)
  with base(2) nd(2) show ?thesis by (auto simp: chain_id_def skip_upgrades_exact split: if_splits)
qed

text \<open>C29: The export command exports the state it was asked for.  Without a home directory, or with
  options that cannot be set, it fails before anything is built; otherwise, when the SDK's calls
  succeed, building the application does not panic, a height other than -1 must load, and the result is
  the export of the store at that height, or, for -1, at the latest version, which only then is
  loaded.
\<close>

theorem export_command_exact:
  assumes "externals_ok (se_node e (opts\<lparr>ao_InvCheckPeriod := 1\<rparr>))" "order_laws (se_node e (opts\<lparr>ao_InvCheckPeriod := 1\<rparr>)) hooked"
  shows "let run = appExport e rngV rngL opts height zero allowed modules blank_node; node = se_node e (opts\<lparr>ao_InvCheckPeriod := 1\<rparr>) in
    if ao_Home opts \<in> {None, Some []} \<or> \<not> ao_IsViper opts then (\<exists>err. run = (Err err, blank_node))
    else fst run = bindO (if height = -1 then ne_LoadLatestVersion node else bindO (ne_LoadVersion node height) (\<lambda>_. Ok height)) (\<lambda>v.
      let (app, ctx) = se_state e (Some v) in fst (ExportAppStateAndValidators rngV rngL app zero allowed modules ctx))"
proof -
  let ?n = "se_node e (opts\<lparr>ao_InvCheckPeriod := 1\<rparr>)"
  obtain v where v: "ne_LoadLatestVersion ?n = Ok v" using assms(1) by (auto simp: externals_ok_def is_Ok_iff)
  have "\<exists>nd. NewXplaApp ?n b [] blank_node = (Ok (), nd) \<and> nd_version nd = (if b then Some v else None)" for b
    using NewXplaApp_run [OF assms, of b "[]"] v by (metis outcome.inject(1))
  then obtain nd where nd: "NewXplaApp ?n b [] blank_node = (Ok (), nd b)" "nd_version (nd b) = (if b then Some v else None)" for b
    by metis
  show ?thesis
    by (cases "ne_LoadVersion ?n height"; cases "height = -1")
      (auto simp: appExport_def LoadHeight_def Let_def bindM_def thenM_def nd v liftO_def ret_def throw_def getsM_def modifyM_def split: prod.splits)
qed

theorem export_command_exact_witness:
  "is_Ok (fst (appExport ref_server rev rev ref_options (-1) False [] [] blank_node)) \<and>
   fst (appExport ref_server rev rev ref_options (-1) False [] [] blank_node) =
     fst (ExportAppStateAndValidators rev rev ref_app False [] [] ref_export_ctx) \<and>
   fst (appExport ref_server rev rev ref_options 8 False [] [] blank_node) = Err (Error ''version does not exist'')"
proof -
  have "externals_ok (se_node ref_server (ref_options\<lparr>ao_InvCheckPeriod := 1\<rparr>))"
    by (simp add: ref_server_def ref_externals_ok)
  moreover have "order_laws (se_node ref_server (ref_options\<lparr>ao_InvCheckPeriod := 1\<rparr>)) (\<lambda>_. {})"
    by (simp add: order_laws_def ref_server_def ref_node_env_def)
  ultimately have run: "fst (appExport ref_server rev rev ref_options h False [] [] blank_node) =
      bindO (if h = -1 then Ok 7 else bindO (guardO (h \<in> {1..7}) (Error ''version does not exist'')) (\<lambda>_. Ok h)) (\<lambda>v.
        let (app, ctx) = se_state ref_server (Some v) in fst (ExportAppStateAndValidators rev rev app False [] [] ctx))" for h
    using export_command_exact [of ref_server ref_options "\<lambda>_. {}" rev rev h False "[]" "[]"]
    by (simp add: Let_def ref_options_def) (simp add: ref_server_def ref_node_env_def)
  have "is_Ok (fst (ExportAppStateAndValidators rev rev ref_app False [] [] ref_export_ctx))" by code_simp
  moreover have "se_state ref_server (Some 7) = (ref_app, ref_export_ctx)" by (simp add: ref_server_def)
  ultimately show ?thesis unfolding run by simp
qed

end
