(* ===== verification/GenAccounts.thy ===== *)
theory GenAccounts
  imports Types
begin

text \<open>
  The command that adds an account to the genesis file, \<open>src/cmd/xplad/cmd/genaccounts.go\<close>.  The
  state is the genesis document on disk: the packed accounts, the balances and the supply, and the
  rest.  Loading, packing and the sanitizing functions of the SDK are parameters.
  Writing the file is taken as one step that stores the document as it is: a write that the
  operating system breaks off halfway, and the defaults the SDK fills in for fields of the rest
  of the document, are not part of the model.
\<close>

section \<open>The document\<close>

record Balance =
  bal_Address :: string
  bal_Coins :: Coins

record ('any, 'r) GenDoc =
  gd_Accounts :: "'any list"
  gd_Balances :: "Balance list"
  gd_Supply :: Coins
  gd_Rest :: 'r

type_synonym keyring = "string \<Rightarrow> bytes outcome outcome"

text \<open>
  A keyring maps a name to a record, whose address may in turn fail to decode.  \<open>gf_Stored\<close> is the
  outcome of the checks when the file is written.
\<close>

record ('acc, 'any, 'r) GenesisFns =
  gf_bech32 :: Bech32
  gf_KeyringBackend :: "string outcome"
  gf_CtxKeyring :: "keyring option"
  gf_NewKeyring :: "string \<Rightarrow> keyring outcome"
  gf_ParseCoinsNormalized :: "string \<Rightarrow> Coins outcome"
  gf_SortCoins :: "Coins \<Rightarrow> Coins"
  gf_NewBaseAccount :: "bytes \<Rightarrow> 'acc"
  gf_Address :: "'acc \<Rightarrow> bytes"
  gf_Load :: "('any, 'r) GenDoc \<Rightarrow> ('any, 'r) GenDoc outcome"
  gf_UnpackAccounts :: "'any list \<Rightarrow> 'acc list outcome"
  gf_PackAccounts :: "'acc list \<Rightarrow> 'any list outcome"
  gf_Contains :: "'acc list \<Rightarrow> bytes \<Rightarrow> bool"
  gf_SanitizeGenesisAccounts :: "'acc list \<Rightarrow> 'acc list"
  gf_SanitizeGenesisBalances :: "Balance list \<Rightarrow> Balance list"
  gf_Coins_Add :: "Coins \<Rightarrow> Coins \<Rightarrow> Coins outcome"
  gf_Marshal :: "('any, 'r) GenDoc \<Rightarrow> unit outcome"
  gf_Stored :: "('any, 'r) GenDoc \<Rightarrow> unit outcome"

section \<open>The command\<close>

text \<open>
  The first argument is an address, or else the name of a key.  A keyring is opened only when the
  client has none; without any, the call goes through a nil interface.
\<close>

definition genesis_address :: "('acc, 'any, 'r) GenesisFns \<Rightarrow> string \<Rightarrow> bytes outcome" where
  "genesis_address gf name = (case AccAddressFromBech32 (gf_bech32 gf) name of
      Ok addr \<Rightarrow> Ok addr
    | Panic p \<Rightarrow> Panic p
    | Err _ \<Rightarrow>
        bindO (gf_KeyringBackend gf) (\<lambda>keyringBackend.
        bindO (if keyringBackend \<noteq> [] \<and> gf_CtxKeyring gf = None
               then bindO (gf_NewKeyring gf keyringBackend) (\<lambda>kr. Ok (Some kr))
               else Ok (gf_CtxKeyring gf)) (\<lambda>kr.
        case kr of
          None \<Rightarrow> Panic ''nil pointer dereference''
        | Some kr \<Rightarrow> bindO (kr name) (\<lambda>k. k))))"

definition add_account :: "('acc, 'any, 'r) GenesisFns \<Rightarrow> bytes \<Rightarrow> 'any list \<Rightarrow> 'any list outcome" where
  "add_account gf addr packed =
     bindO (gf_UnpackAccounts gf packed) (\<lambda>accs.
     bindO (guardO (\<not> gf_Contains gf accs addr) (Error ''cannot add account at existing address'')) (\<lambda>_.
     gf_PackAccounts gf (gf_SanitizeGenesisAccounts gf (accs @ [gf_NewBaseAccount gf addr]))))"

definition add_balance :: "('acc, 'any, 'r) GenesisFns \<Rightarrow> Balance \<Rightarrow> ('any, 'r) GenDoc \<Rightarrow> ('any, 'r) GenDoc outcome" where
  "add_balance gf balance doc =
     bindO (gf_Coins_Add gf (gd_Supply doc) (bal_Coins balance)) (\<lambda>supply.
     Ok (doc\<lparr>gd_Balances := gf_SanitizeGenesisBalances gf (gd_Balances doc @ [balance]), gd_Supply := supply\<rparr>))"

definition AddGenesisAccountCmd ::
    "('acc, 'any, 'r) GenesisFns \<Rightarrow> string \<Rightarrow> string \<Rightarrow> (('any, 'r) GenDoc, unit) M" where
  "AddGenesisAccountCmd gf arg0 arg1 =
     bindM (liftO (genesis_address gf arg0)) (\<lambda>addr.
     bindM (liftO (gf_ParseCoinsNormalized gf arg1)) (\<lambda>coins.
     let balance = \<lparr>bal_Address = AccAddress_String (gf_bech32 gf) addr, bal_Coins = gf_SortCoins gf coins\<rparr> in
     bindM (getsM (gf_Load gf)) (\<lambda>r. bindM (liftO r) (\<lambda>doc.
     bindM (liftO (add_account gf addr (gd_Accounts doc))) (\<lambda>genAccs.
     bindM (liftO (add_balance gf balance (doc\<lparr>gd_Accounts := genAccs\<rparr>))) (\<lambda>doc'.
     thenM (liftO (gf_Marshal gf doc')) (
     thenM (liftO (gf_Stored gf doc')) (
     modifyM (\<lambda>_. doc')))))))))"

section \<open>Specification\<close>

text \<open>
  What the SDK documents: the file holds the document that was stored; \<open>Contains\<close> looks for an address;
  packing is undone by unpacking; sanitizing accounts keeps the addresses, sanitizing balances and
  sorting coins the amounts; adding coins adds amounts.
\<close>

definition genesis_laws :: "('acc, 'any, 'r) GenesisFns \<Rightarrow> bool" where
  "genesis_laws gf \<longleftrightarrow>
     (\<forall>doc doc'. gf_Load gf doc = Ok doc' \<longrightarrow> doc' = doc) \<and>
     (\<forall>a. gf_Address gf (gf_NewBaseAccount gf a) = a) \<and>
     (\<forall>accs a. gf_Contains gf accs a \<longleftrightarrow> a \<in> gf_Address gf ` set accs) \<and>
     (\<forall>accs anys. gf_PackAccounts gf accs = Ok anys \<longrightarrow> gf_UnpackAccounts gf anys = Ok accs) \<and>
     (\<forall>accs. mset (map (gf_Address gf) (gf_SanitizeGenesisAccounts gf accs)) = mset (map (gf_Address gf) accs)) \<and>
     (\<forall>bs d. mset (map (\<lambda>b. (bal_Address b, amount_of (bal_Coins b) d)) (gf_SanitizeGenesisBalances gf bs)) =
        mset (map (\<lambda>b. (bal_Address b, amount_of (bal_Coins b) d)) bs)) \<and>
     (\<forall>cs d. amount_of (gf_SortCoins gf cs) d = amount_of cs d) \<and>
     (\<forall>a b c d. gf_Coins_Add gf a b = Ok c \<longrightarrow> amount_of c d = amount_of a d + amount_of b d)"

text \<open>The accounts have different addresses, and the supply is the sum of the balances.\<close>

definition genesis_balanced :: "('acc, 'any, 'r) GenesisFns \<Rightarrow> ('any, 'r) GenDoc \<Rightarrow> bool" where
  "genesis_balanced gf doc \<longleftrightarrow>
     (\<forall>accs. gf_UnpackAccounts gf (gd_Accounts doc) = Ok accs \<longrightarrow> distinct (map (gf_Address gf) accs)) \<and>
     (\<forall>d. amount_of (gd_Supply doc) d = sum_list (map (\<lambda>b. amount_of (bal_Coins b) d) (gd_Balances doc)))"

definition balance_of :: "('any, 'r) GenDoc \<Rightarrow> string \<Rightarrow> string \<Rightarrow> int" where
  "balance_of doc a d = sum_list (map (\<lambda>b. amount_of (bal_Coins b) d) (filter (\<lambda>b. bal_Address b = a) (gd_Balances doc)))"

section \<open>Reference functions\<close>

definition ref_gf :: "(bytes, bytes, unit) GenesisFns" where
  "ref_gf = \<lparr>gf_bech32 = ref_bech32, gf_KeyringBackend = Ok ''test'', gf_CtxKeyring = None,
     gf_NewKeyring = (\<lambda>_. Ok (\<lambda>name. Ok (Ok [7]))), gf_ParseCoinsNormalized = (\<lambda>s. Ok [\<lparr>Denom = s, Amount = 5\<rparr>]),
     gf_SortCoins = (\<lambda>cs. cs), gf_NewBaseAccount = (\<lambda>a. a), gf_Address = (\<lambda>a. a), gf_Load = Ok, gf_UnpackAccounts = Ok,
     gf_PackAccounts = Ok, gf_Contains = (\<lambda>accs a. a \<in> set accs), gf_SanitizeGenesisAccounts = rev,
     gf_SanitizeGenesisBalances = rev, gf_Coins_Add = (\<lambda>a b. Ok (a @ b)), gf_Marshal = (\<lambda>_. Ok ()), gf_Stored = (\<lambda>_. Ok ())\<rparr>"

definition ref_doc :: "(bytes, unit) GenDoc" where
  "ref_doc = \<lparr>gd_Accounts = [[1]], gd_Balances = [\<lparr>bal_Address = ''a'', bal_Coins = [\<lparr>Denom = ''axpla'', Amount = 3\<rparr>]\<rparr>],
     gd_Supply = [\<lparr>Denom = ''axpla'', Amount = 3\<rparr>], gd_Rest = ()\<rparr>"

section \<open>Lemmas\<close>

lemma sum_by_mset:
  assumes "mset (map (\<lambda>b. (f b, g b)) xs) = mset (map (\<lambda>b. (f b, g b)) ys)"
  shows "sum_list (map g xs) = sum_list (map g ys :: int list)"
    and "sum_list (map g (filter (\<lambda>b. f b = a) xs)) = sum_list (map g (filter (\<lambda>b. f b = a) ys))"
proof -
  have "image_mset snd (mset (map (\<lambda>b. (f b, g b)) xs)) = image_mset snd (mset (map (\<lambda>b. (f b, g b)) ys))"
    by (simp only: assms)
  then have "mset (map g xs) = mset (map g ys)" by (simp add: image_mset.compositionality o_def)
  then show "sum_list (map g xs) = sum_list (map g ys)" by (metis sum_mset_sum_list)
  have flt: "map g (filter (\<lambda>b. f b = a) zs) = map snd (filter (\<lambda>p. fst p = a) (map (\<lambda>b. (f b, g b)) zs))" for zs
    by (induction zs) auto
  have "mset (map g (filter (\<lambda>b. f b = a) xs)) = mset (map g (filter (\<lambda>b. f b = a) ys))"
    unfolding flt by (simp only: mset_map [of snd] mset_filter assms)
  then show "sum_list (map g (filter (\<lambda>b. f b = a) xs)) = sum_list (map g (filter (\<lambda>b. f b = a) ys))"
    by (metis sum_mset_sum_list)
qed

lemma add_account_Ok:
  assumes "genesis_laws gf" "add_account gf addr packed = Ok genAccs"
  obtains accs accs' where "gf_UnpackAccounts gf packed = Ok accs" "addr \<notin> gf_Address gf ` set accs"
    "gf_UnpackAccounts gf genAccs = Ok accs'" "mset (map (gf_Address gf) accs') = mset (map (gf_Address gf) accs @ [addr])"
proof -
  from assms(2) obtain accs where accs: "gf_UnpackAccounts gf packed = Ok accs" "\<not> gf_Contains gf accs addr"
      and pack: "gf_PackAccounts gf (gf_SanitizeGenesisAccounts gf (accs @ [gf_NewBaseAccount gf addr])) = Ok genAccs"
    by (auto simp: add_account_def guardO_def split: if_splits)
  show thesis
    by (rule that [OF accs(1)]) (use assms(1) accs(2) pack in \<open>auto simp: genesis_laws_def\<close>)
qed

lemma add_balance_Ok:
  assumes "genesis_laws gf" "add_balance gf balance doc = Ok doc'"
  shows "amount_of (gd_Supply doc') d = amount_of (gd_Supply doc) d + amount_of (bal_Coins balance) d"
    and "sum_list (map (\<lambda>b. amount_of (bal_Coins b) d) (gd_Balances doc')) =
      sum_list (map (\<lambda>b. amount_of (bal_Coins b) d) (gd_Balances doc)) + amount_of (bal_Coins balance) d"
    and "balance_of doc' a d = balance_of doc a d + (if a = bal_Address balance then amount_of (bal_Coins balance) d else 0)"
    and "gd_Accounts doc' = gd_Accounts doc" "gd_Rest doc' = gd_Rest doc"
proof -
  from assms(2) obtain total where sup: "gf_Coins_Add gf (gd_Supply doc) (bal_Coins balance) = Ok total"
      and doc': "doc' = doc\<lparr>gd_Balances := gf_SanitizeGenesisBalances gf (gd_Balances doc @ [balance]), gd_Supply := total\<rparr>"
    by (auto simp: add_balance_def)
  show "amount_of (gd_Supply doc') d = amount_of (gd_Supply doc) d + amount_of (bal_Coins balance) d"
    using assms(1) sup unfolding doc' by (simp add: genesis_laws_def)
  have san: "mset (map (\<lambda>b. (bal_Address b, amount_of (bal_Coins b) d)) (gf_SanitizeGenesisBalances gf bs)) =
      mset (map (\<lambda>b. (bal_Address b, amount_of (bal_Coins b) d)) bs)" for bs
    using assms(1) unfolding genesis_laws_def by blast
  show "sum_list (map (\<lambda>b. amount_of (bal_Coins b) d) (gd_Balances doc')) =
      sum_list (map (\<lambda>b. amount_of (bal_Coins b) d) (gd_Balances doc)) + amount_of (bal_Coins balance) d"
    by (simp add: doc' sum_by_mset(1) [OF san])
  show "balance_of doc' a d = balance_of doc a d + (if a = bal_Address balance then amount_of (bal_Coins balance) d else 0)"
    by (simp add: doc' balance_of_def sum_by_mset(2) [OF san])
  show "gd_Accounts doc' = gd_Accounts doc" "gd_Rest doc' = gd_Rest doc" by (simp_all add: doc')
qed

lemma ref_genesis_laws: "genesis_laws ref_gf"
  by (simp add: genesis_laws_def ref_gf_def amount_of_def rev_map [symmetric])

lemma AddGenesisAccountCmd_fails:
  "AddGenesisAccountCmd gf arg0 arg1 doc = (r, doc') \<Longrightarrow> r \<noteq> Ok () \<Longrightarrow> doc' = doc"
  by (auto simp: AddGenesisAccountCmd_def bindM_def thenM_def liftO_def getsM_def modifyM_def Let_def
      split: outcome.splits prod.splits)

lemma AddGenesisAccountCmd_Ok:
  assumes "genesis_laws gf" "AddGenesisAccountCmd gf arg0 arg1 doc = (Ok (), doc')"
  obtains addr coins genAccs where "genesis_address gf arg0 = Ok addr" "gf_ParseCoinsNormalized gf arg1 = Ok coins"
    "add_account gf addr (gd_Accounts doc) = Ok genAccs"
    "add_balance gf \<lparr>bal_Address = AccAddress_String (gf_bech32 gf) addr, bal_Coins = gf_SortCoins gf coins\<rparr>
      (doc\<lparr>gd_Accounts := genAccs\<rparr>) = Ok doc'"
proof -
  have load: "d = doc" if "gf_Load gf doc = Ok d" for d using assms(1) that by (simp add: genesis_laws_def)
  show thesis using assms(2) that
    by (auto simp: AddGenesisAccountCmd_def bindM_def thenM_def liftO_def getsM_def modifyM_def Let_def
        split: outcome.splits prod.splits dest!: load)
qed

section \<open>Properties\<close>

text \<open>C27: Adding an account keeps the genesis document sound.  When the command succeeds, the address
  was not there before and is there now, beside the old ones; its balance, and only its, grows by
  the coins given; and addresses stay different and the supply the sum of all balances.  When it
  fails, the file is as before.
\<close>

theorem genesis_account_added:
  assumes "genesis_laws gf" "genesis_balanced gf doc" "AddGenesisAccountCmd gf arg0 arg1 doc = (r, doc')"
  shows "(r \<noteq> Ok () \<longrightarrow> doc' = doc) \<and> (r = Ok () \<longrightarrow> genesis_balanced gf doc' \<and> gd_Rest doc' = gd_Rest doc \<and>
    (\<exists>addr coins accs accs'. genesis_address gf arg0 = Ok addr \<and> gf_ParseCoinsNormalized gf arg1 = Ok coins \<and>
      gf_UnpackAccounts gf (gd_Accounts doc) = Ok accs \<and> gf_UnpackAccounts gf (gd_Accounts doc') = Ok accs' \<and>
      addr \<notin> gf_Address gf ` set accs \<and> gf_Address gf ` set accs' = insert addr (gf_Address gf ` set accs) \<and>
      (\<forall>a d. balance_of doc' a d = balance_of doc a d +
        (if a = AccAddress_String (gf_bech32 gf) addr then amount_of coins d else 0))))"
proof (intro conjI impI)
  show "doc' = doc" if "r \<noteq> Ok ()" using AddGenesisAccountCmd_fails [OF assms(3) that] .
  assume "r = Ok ()"
  with assms(3) have "AddGenesisAccountCmd gf arg0 arg1 doc = (Ok (), doc')" by simp
  from AddGenesisAccountCmd_Ok [OF assms(1) this] obtain addr coins genAccs where
    args: "genesis_address gf arg0 = Ok addr" "gf_ParseCoinsNormalized gf arg1 = Ok coins"
    and acc: "add_account gf addr (gd_Accounts doc) = Ok genAccs"
    and bal: "add_balance gf \<lparr>bal_Address = AccAddress_String (gf_bech32 gf) addr, bal_Coins = gf_SortCoins gf coins\<rparr>
      (doc\<lparr>gd_Accounts := genAccs\<rparr>) = Ok doc'" .
  from add_account_Ok [OF assms(1) acc] obtain accs accs' where
    accs: "gf_UnpackAccounts gf (gd_Accounts doc) = Ok accs" "addr \<notin> gf_Address gf ` set accs"
      "gf_UnpackAccounts gf genAccs = Ok accs'" "mset (map (gf_Address gf) accs') = mset (map (gf_Address gf) accs @ [addr])" .
  note b = add_balance_Ok [OF assms(1) bal]
  have new: "gd_Accounts doc' = genAccs" using b(4) by simp
  have "distinct (map (gf_Address gf) accs @ [addr])" using assms(2) accs(1,2) by (auto simp: genesis_balanced_def)
  then have "distinct (map (gf_Address gf) accs')" using accs(4) mset_eq_imp_distinct_iff by blast
  then show "genesis_balanced gf doc'"
    using assms(2) accs(3) b(1,2) by (simp add: genesis_balanced_def new)
  show "gd_Rest doc' = gd_Rest doc" using b(5) by simp
  have "gf_Address gf ` set accs' = insert addr (gf_Address gf ` set accs)"
    using mset_eq_setD [OF accs(4)] by simp
  moreover have "balance_of doc' a d = balance_of doc a d +
      (if a = AccAddress_String (gf_bech32 gf) addr then amount_of coins d else 0)" for a d
    using b(3) [of a d] assms(1) by (simp add: genesis_laws_def balance_of_def)
  ultimately show "\<exists>addr coins accs accs'. genesis_address gf arg0 = Ok addr \<and> gf_ParseCoinsNormalized gf arg1 = Ok coins \<and>
      gf_UnpackAccounts gf (gd_Accounts doc) = Ok accs \<and> gf_UnpackAccounts gf (gd_Accounts doc') = Ok accs' \<and>
      addr \<notin> gf_Address gf ` set accs \<and> gf_Address gf ` set accs' = insert addr (gf_Address gf ` set accs) \<and>
      (\<forall>a d. balance_of doc' a d = balance_of doc a d +
        (if a = AccAddress_String (gf_bech32 gf) addr then amount_of coins d else 0))"
    using args accs(1-3) new by blast
qed

theorem genesis_account_added_witness:
  "let doc' = snd (AddGenesisAccountCmd ref_gf ''k'' ''axpla'' ref_doc) in
     is_Ok (fst (AddGenesisAccountCmd ref_gf ''k'' ''axpla'' ref_doc)) \<and> genesis_balanced ref_gf doc' \<and> doc' \<noteq> ref_doc"
proof -
  let ?run = "AddGenesisAccountCmd ref_gf ''k'' ''axpla'' ref_doc"
  have ok: "is_Ok (fst ?run)" by code_simp
  have bal: "genesis_balanced ref_gf ref_doc" by (simp add: genesis_balanced_def ref_gf_def ref_doc_def amount_of_def)
  have "?run = (Ok (), snd ?run)" using ok by (simp add: is_Ok_iff prod_eq_iff)
  from genesis_account_added [OF ref_genesis_laws bal this] have "genesis_balanced ref_gf (snd ?run)" by simp
  moreover have "length (gd_Accounts (snd ?run)) = 2" by code_simp
  then have "snd ?run \<noteq> ref_doc" by (auto simp: ref_doc_def)
  ultimately show ?thesis using ok by (simp add: Let_def)
qed

end
