(* ===== verification/Modules.thy ===== *)
theory Modules
  imports App Burn Reward Staking
begin

text \<open>
  The application modules of the repository, \<open>src/x/*/module.go\<close>: genesis through the JSON codec,
  block hooks, and the registration of servers and migrations.  Modules that embed one of the SDK
  (\<open>auth\<close>, \<open>bank\<close>, \<open>staking\<close>) have the methods they override here.
\<close>

section \<open>Genesis\<close>

text \<open>The JSON codec, at the genesis types of the three modules.\<close>

record 'j GenesisCodec =
  gc_UnmarshalVolunteer :: "'j \<Rightarrow> VolunteerValidator list outcome"
  gc_MarshalVolunteer :: "VolunteerValidator list \<Rightarrow> 'j outcome"
  gc_UnmarshalReward :: "'j \<Rightarrow> Params outcome"
  gc_MarshalReward :: "Params \<Rightarrow> 'j outcome"
  gc_UnmarshalBurn :: "'j \<Rightarrow> BurnProposal list outcome"
  gc_MarshalBurn :: "BurnProposal list \<Rightarrow> 'j outcome"

definition mustO :: "'a outcome \<Rightarrow> 'a outcome" where
  "mustO r = (case r of Err _ \<Rightarrow> Panic ''err'' | _ \<Rightarrow> r)"

definition Volunteer_AppModule_DefaultGenesis :: "'j GenesisCodec \<Rightarrow> 'j outcome" where
  "Volunteer_AppModule_DefaultGenesis cdc = mustO (gc_MarshalVolunteer cdc Volunteer_DefaultGenesisState)"

definition Volunteer_AppModule_ValidateGenesis :: "'j GenesisCodec \<Rightarrow> Bech32 \<Rightarrow> 'j \<Rightarrow> unit outcome" where
  "Volunteer_AppModule_ValidateGenesis cdc b bz = bindO (gc_UnmarshalVolunteer cdc bz) (Volunteer_ValidateGenesis b)"

definition Volunteer_AppModule_InitGenesis ::
    "'j GenesisCodec \<Rightarrow> 'x VolunteerKeeper \<Rightarrow> 'j \<Rightarrow> ('x Ctx, unit) M" where
  "Volunteer_AppModule_InitGenesis cdc k data =
     bindM (must (liftO (gc_UnmarshalVolunteer cdc data))) (Volunteer_InitGenesis k)"

definition Volunteer_AppModule_ExportGenesis ::
    "((string \<times> VolunteerValidator) list \<Rightarrow> (string \<times> VolunteerValidator) list) \<Rightarrow>
     'j GenesisCodec \<Rightarrow> 'x VolunteerKeeper \<Rightarrow> ('x Ctx, 'j) M" where
  "Volunteer_AppModule_ExportGenesis rng cdc k =
     bindM (Volunteer_ExportGenesis rng k) (\<lambda>gs. must (liftO (gc_MarshalVolunteer cdc gs)))"

definition Reward_AppModule_DefaultGenesis :: "'j GenesisCodec \<Rightarrow> 'j outcome" where
  "Reward_AppModule_DefaultGenesis cdc = mustO (gc_MarshalReward cdc Reward_DefaultGenesisState)"

definition Reward_AppModule_ValidateGenesis :: "'j GenesisCodec \<Rightarrow> DecOps \<Rightarrow> 'j \<Rightarrow> unit outcome" where
  "Reward_AppModule_ValidateGenesis cdc m bz = bindO (gc_UnmarshalReward cdc bz) (Reward_ValidateGenesis m)"

definition Reward_AppModule_InitGenesis ::
    "'j GenesisCodec \<Rightarrow> 'x RewardKeeper \<Rightarrow> 'j \<Rightarrow> ('x Ctx, unit) M" where
  "Reward_AppModule_InitGenesis cdc k data = bindM (must (liftO (gc_UnmarshalReward cdc data))) (Reward_InitGenesis k)"

definition Reward_AppModule_ExportGenesis :: "'j GenesisCodec \<Rightarrow> ('x Ctx, 'j) M" where
  "Reward_AppModule_ExportGenesis cdc = bindM Reward_ExportGenesis (\<lambda>gs. must (liftO (gc_MarshalReward cdc gs)))"

definition Burn_AppModule_DefaultGenesis :: "'j GenesisCodec \<Rightarrow> 'j outcome" where
  "Burn_AppModule_DefaultGenesis cdc = mustO (gc_MarshalBurn cdc Burn_DefaultGenesisState)"

definition Burn_AppModule_ValidateGenesis :: "'j GenesisCodec \<Rightarrow> Bech32 \<Rightarrow> CoinOps \<Rightarrow> 'j \<Rightarrow> unit outcome" where
  "Burn_AppModule_ValidateGenesis cdc b co bz = bindO (gc_UnmarshalBurn cdc bz) (Burn_GenesisState_Validate b co)"

definition Burn_AppModule_InitGenesis :: "'j GenesisCodec \<Rightarrow> 'j \<Rightarrow> ('x Ctx, unit) M" where
  "Burn_AppModule_InitGenesis cdc data = bindM (must (liftO (gc_UnmarshalBurn cdc data))) Burn_InitGenesis"

definition Burn_AppModule_ExportGenesis :: "'j GenesisCodec \<Rightarrow> ('x Ctx, 'j) M" where
  "Burn_AppModule_ExportGenesis cdc = bindM Burn_ExportGenesis (\<lambda>gs. must (liftO (gc_MarshalBurn cdc gs)))"

section \<open>Block hooks\<close>

type_synonym vol_range = "(string \<times> VolunteerValidator) list \<Rightarrow> (string \<times> VolunteerValidator) list"

definition Volunteer_AppModule_BeginBlock :: "vol_range \<Rightarrow> 'x VolunteerKeeper \<Rightarrow> ('x Ctx, unit) M" where
  "Volunteer_AppModule_BeginBlock rng k = Volunteer_BeginBlocker rng k"

definition Reward_AppModule_BeginBlock ::
    "((string \<times> Coin) list \<Rightarrow> (string \<times> Coin) list) \<Rightarrow> 'x RewardKeeper \<Rightarrow> ('x Ctx, unit) M" where
  "Reward_AppModule_BeginBlock rng k = Reward_BeginBlocker rng k"

definition Staking_AppModule_BeginBlock :: "'x StakingKeeper \<Rightarrow> ('x Ctx, unit) M" where
  "Staking_AppModule_BeginBlock k = Staking_BeginBlocker k"

definition Staking_AppModule_EndBlock ::
    "vol_range \<Rightarrow> ((string \<times> bytes) list \<Rightarrow> (string \<times> bytes) list) \<Rightarrow> 'x StakingKeeper \<Rightarrow> ('x Ctx, ValidatorUpdate list) M" where
  "Staking_AppModule_EndBlock rngV rngL k = Staking_EndBlocker rngV rngL k"

section \<open>Services\<close>

text \<open>
  What the configurator has been given: per module the message and query server, the
  repository's own or the one of the embedded SDK module, and per module and version a migration,
  with the parameter subspace its migrator holds.  A migrator without such a field is
  \<open>NoSubspace\<close>; a nil subspace is \<open>Subspace None\<close>.
\<close>

datatype Impl = OwnServer | SdkServer

datatype Migrator = NoSubspace | Subspace "ModuleId option"

record Configurator =
  cf_Msg :: "(ModuleId \<times> Impl) list"
  cf_Query :: "(ModuleId \<times> Impl) list"
  cf_Migrations :: "((ModuleId \<times> uint64) \<times> Migrator) list"

record RegisterEnv =
  re_RegisterMsgServer :: "ModuleId \<Rightarrow> Configurator \<Rightarrow> unit outcome"
  re_RegisterQueryServer :: "ModuleId \<Rightarrow> Configurator \<Rightarrow> unit outcome"
  re_RegisterMigration :: "ModuleId \<Rightarrow> uint64 \<Rightarrow> Configurator \<Rightarrow> unit outcome"

definition register_msg :: "RegisterEnv \<Rightarrow> ModuleId \<Rightarrow> Impl \<Rightarrow> (Configurator, unit) M" where
  "register_msg re m i = bindM (getsM (re_RegisterMsgServer re m)) (\<lambda>r.
     thenM (liftO r) (modifyM (\<lambda>cf. cf\<lparr>cf_Msg := cf_Msg cf @ [(m, i)]\<rparr>)))"

definition register_query :: "RegisterEnv \<Rightarrow> ModuleId \<Rightarrow> Impl \<Rightarrow> (Configurator, unit) M" where
  "register_query re m i = bindM (getsM (re_RegisterQueryServer re m)) (\<lambda>r.
     thenM (liftO r) (modifyM (\<lambda>cf. cf\<lparr>cf_Query := cf_Query cf @ [(m, i)]\<rparr>)))"

text \<open>A migration that is refused panics.\<close>

definition register_migration :: "RegisterEnv \<Rightarrow> ModuleId \<Rightarrow> Migrator \<Rightarrow> uint64 \<Rightarrow> (Configurator, unit) M" where
  "register_migration re m mig v = bindM (getsM (re_RegisterMigration re m v)) (\<lambda>r.
     thenM (must (liftO r)) (modifyM (\<lambda>cf. cf\<lparr>cf_Migrations := cf_Migrations cf @ [((m, v), mig)]\<rparr>)))"

definition Volunteer_RegisterServices :: "RegisterEnv \<Rightarrow> (Configurator, unit) M" where
  "Volunteer_RegisterServices re =
     thenM (register_query re M_volunteer OwnServer) (
     thenM (register_msg re M_volunteer OwnServer) (
     register_migration re M_volunteer NoSubspace 1))"

definition Reward_RegisterServices :: "RegisterEnv \<Rightarrow> ModuleId option \<Rightarrow> (Configurator, unit) M" where
  "Reward_RegisterServices re legacySubspace =
     thenM (register_msg re M_reward OwnServer) (
     thenM (register_query re M_reward OwnServer) (
     register_migration re M_reward (Subspace legacySubspace) 1))"

definition Burn_RegisterServices :: "RegisterEnv \<Rightarrow> (Configurator, unit) M" where
  "Burn_RegisterServices re = thenM (register_msg re M_burn OwnServer) (register_query re M_burn OwnServer)"

definition Auth_RegisterServices :: "RegisterEnv \<Rightarrow> ModuleId option \<Rightarrow> (Configurator, unit) M" where
  "Auth_RegisterServices re legacySubspace =
     thenM (register_msg re M_auth SdkServer) (
     thenM (register_query re M_auth OwnServer) (
     forM [1, 2, 3, 4] (register_migration re M_auth (Subspace legacySubspace))))"

definition Bank_RegisterServices :: "RegisterEnv \<Rightarrow> ModuleId option \<Rightarrow> (Configurator, unit) M" where
  "Bank_RegisterServices re legacySubspace =
     thenM (register_msg re M_bank OwnServer) (
     thenM (register_query re M_bank OwnServer) (
     forM [1, 2, 3] (register_migration re M_bank (Subspace legacySubspace))))"

text \<open>
  The field \<open>legacySubspace\<close> that each constructor leaves in the module.  The one of \<open>x/bank\<close> gives its
  argument to the embedded module only.
\<close>

definition Reward_NewAppModule :: "ModuleId \<Rightarrow> ModuleId option" where
  "Reward_NewAppModule ss = Some ss"

definition Auth_NewAppModule :: "ModuleId \<Rightarrow> ModuleId option" where
  "Auth_NewAppModule ss = Some ss"

definition Bank_NewAppModule :: "ModuleId \<Rightarrow> ModuleId option" where
  "Bank_NewAppModule ss = None"

definition Volunteer_ConsensusVersion :: uint64 where
  "Volunteer_ConsensusVersion = 2"

definition Reward_ConsensusVersion :: uint64 where
  "Reward_ConsensusVersion = 2"

definition Burn_ConsensusVersion :: uint64 where
  "Burn_ConsensusVersion = 1"

section \<open>Specification\<close>

text \<open>The modules with services of their own, as the module manager calls them.\<close>

definition own_modules :: "ModuleId set" where
  "own_modules = {M_auth, M_bank, M_volunteer, M_reward, M_burn}"

fun own_services :: "RegisterEnv \<Rightarrow> ModuleId \<Rightarrow> (Configurator, unit) M" where
  "own_services re M_auth = Auth_RegisterServices re (Auth_NewAppModule M_auth)"
| "own_services re M_bank = Bank_RegisterServices re (Bank_NewAppModule M_bank)"
| "own_services re M_volunteer = Volunteer_RegisterServices re"
| "own_services re M_reward = Reward_RegisterServices re (Reward_NewAppModule M_reward)"
| "own_services re M_burn = Burn_RegisterServices re"
| "own_services re _ = ret ()"

text \<open>The configurator refuses a name or a version only if it has it already, and version 0.\<close>

definition register_laws :: "RegisterEnv \<Rightarrow> bool" where
  "register_laws re \<longleftrightarrow>
     (\<forall>m cf. m \<notin> fst ` set (cf_Msg cf) \<longrightarrow> re_RegisterMsgServer re m cf = Ok ()) \<and>
     (\<forall>m cf. m \<notin> fst ` set (cf_Query cf) \<longrightarrow> re_RegisterQueryServer re m cf = Ok ()) \<and>
     (\<forall>m v cf. v \<noteq> 0 \<longrightarrow> (m, v) \<notin> fst ` set (cf_Migrations cf) \<longrightarrow> re_RegisterMigration re m v cf = Ok ())"

definition empty_configurator :: Configurator where
  "empty_configurator = \<lparr>cf_Msg = [], cf_Query = [], cf_Migrations = []\<rparr>"

text \<open>What each module adds.\<close>

fun msg_of :: "ModuleId \<Rightarrow> Impl" where
  "msg_of M_auth = SdkServer"
| "msg_of _ = OwnServer"

fun migrations_of :: "ModuleId \<Rightarrow> ((ModuleId \<times> uint64) \<times> Migrator) list" where
  "migrations_of M_auth = map (\<lambda>v. ((M_auth, v), Subspace (Some M_auth))) [1, 2, 3, 4]"
| "migrations_of M_bank = map (\<lambda>v. ((M_bank, v), Subspace None)) [1, 2, 3]"
| "migrations_of M_volunteer = [((M_volunteer, 1), NoSubspace)]"
| "migrations_of M_reward = [((M_reward, 1), Subspace (Some M_reward))]"
| "migrations_of _ = []"

definition ref_register_env :: RegisterEnv where
  "ref_register_env = \<lparr>re_RegisterMsgServer = (\<lambda>m cf. guardO (m \<notin> fst ` set (cf_Msg cf)) (Error ''duplicate'')),
     re_RegisterQueryServer = (\<lambda>m cf. guardO (m \<notin> fst ` set (cf_Query cf)) (Error ''duplicate'')),
     re_RegisterMigration = (\<lambda>m v cf. guardO (v \<noteq> 0 \<and> (m, v) \<notin> fst ` set (cf_Migrations cf)) (Error ''duplicate''))\<rparr>"

section \<open>Lemmas\<close>

lemma must_Ok [simp]: "must (liftO (Ok a)) s = (Ok a, s)"
  by (simp add: must_def liftO_def)

lemma register_run:
  assumes "register_laws re"
  shows "m \<notin> fst ` set (cf_Msg cf) \<Longrightarrow> register_msg re m i cf = (Ok (), cf\<lparr>cf_Msg := cf_Msg cf @ [(m, i)]\<rparr>)"
    "m \<notin> fst ` set (cf_Query cf) \<Longrightarrow> register_query re m i cf = (Ok (), cf\<lparr>cf_Query := cf_Query cf @ [(m, i)]\<rparr>)"
    "v \<noteq> 0 \<Longrightarrow> (m, v) \<notin> fst ` set (cf_Migrations cf) \<Longrightarrow>
      register_migration re m mig v cf = (Ok (), cf\<lparr>cf_Migrations := cf_Migrations cf @ [((m, v), mig)]\<rparr>)"
  using assms by (simp_all add: register_laws_def register_msg_def register_query_def register_migration_def bindM_def thenM_def
      getsM_def modifyM_def must_def attempt_def ret_def)

lemma own_services_run:
  assumes "register_laws re" "m \<in> own_modules" "m \<notin> fst ` set (cf_Msg cf)" "m \<notin> fst ` set (cf_Query cf)"
    "\<forall>v. (m, v) \<notin> fst ` set (cf_Migrations cf)"
  shows "own_services re m cf = (Ok (), cf\<lparr>cf_Msg := cf_Msg cf @ [(m, msg_of m)], cf_Query := cf_Query cf @ [(m, OwnServer)],
    cf_Migrations := cf_Migrations cf @ migrations_of m\<rparr>)"
  using assms(2-5) unfolding own_modules_def
  by (elim insertE emptyE) (simp_all add: Auth_RegisterServices_def Bank_RegisterServices_def Volunteer_RegisterServices_def
      Reward_RegisterServices_def Burn_RegisterServices_def Auth_NewAppModule_def Bank_NewAppModule_def Reward_NewAppModule_def
      register_run [OF assms(1)] bindM_Ok thenM_Ok ret_def)

lemma migrations_of_module: "((n, v), mig) \<in> set (migrations_of m) \<Longrightarrow> n = m"
  by (cases m) auto

lemma services_run:
  assumes "register_laws re" "distinct ms" "set ms \<subseteq> own_modules"
    "\<forall>m \<in> set ms. m \<notin> fst ` set (cf_Msg cf) \<and> m \<notin> fst ` set (cf_Query cf) \<and> (\<forall>v. (m, v) \<notin> fst ` set (cf_Migrations cf))"
  shows "forM ms (own_services re) cf = (Ok (), cf\<lparr>cf_Msg := cf_Msg cf @ map (\<lambda>m. (m, msg_of m)) ms,
    cf_Query := cf_Query cf @ map (\<lambda>m. (m, OwnServer)) ms, cf_Migrations := cf_Migrations cf @ concat (map migrations_of ms)\<rparr>)"
  using assms(2-4)
proof (induction ms arbitrary: cf)
  case (Cons m ms)
  let ?d = "cf\<lparr>cf_Msg := cf_Msg cf @ [(m, msg_of m)], cf_Query := cf_Query cf @ [(m, OwnServer)],
    cf_Migrations := cf_Migrations cf @ migrations_of m\<rparr>"
  have "own_services re m cf = (Ok (), ?d)" using Cons.prems by (intro own_services_run [OF assms(1)]) auto
  moreover have "\<forall>n \<in> set ms. n \<notin> fst ` set (cf_Msg ?d) \<and> n \<notin> fst ` set (cf_Query ?d) \<and>
      (\<forall>v. (n, v) \<notin> fst ` set (cf_Migrations ?d))"
  proof (intro ballI conjI allI)
    fix n v
    assume n: "n \<in> set ms"
    with Cons.prems have "n \<noteq> m" "n \<notin> fst ` set (cf_Msg cf)" "n \<notin> fst ` set (cf_Query cf)" "(n, v) \<notin> fst ` set (cf_Migrations cf)"
      by auto
    then show "n \<notin> fst ` set (cf_Msg ?d)" "n \<notin> fst ` set (cf_Query ?d)" "(n, v) \<notin> fst ` set (cf_Migrations ?d)"
      using migrations_of_module [of n v _ m] by (auto simp: image_Un)
  qed
  ultimately show ?case using Cons.IH [of ?d] Cons.prems by (simp add: bindM_Ok)
qed (simp add: ret_def)

lemma versions_below:
  "1 \<le> (v :: uint64) \<and> v < 2 \<longleftrightarrow> v = 1" "1 \<le> (v :: uint64) \<and> v < 1 \<longleftrightarrow> False"
  "1 \<le> (v :: uint64) \<and> v < 4 \<longleftrightarrow> v \<in> {1, 2, 3}" "1 \<le> (v :: uint64) \<and> v < 5 \<longleftrightarrow> v \<in> {1, 2, 3, 4}"
  by (simp_all add: word_le_nat_alt word_less_nat_alt word_unat_eq_iff) auto

section \<open>Properties\<close>

text \<open>C28: The modules register what an upgrade needs.  In whatever order the manager visits them, no
  registration panics; each module gets one message and one query server, and a migration from
  exactly the versions below its own, given that the SDK's modules are at versions 5 and 4.  Only
  the migrations of the bank module hold no parameter subspace, although the module was given one.
\<close>

theorem services_registered:
  assumes "register_laws re" "distinct ms" "set ms = own_modules"
    and "cv M_auth = 5" "cv M_bank = 4" "cv M_volunteer = Volunteer_ConsensusVersion" "cv M_reward = Reward_ConsensusVersion"
      "cv M_burn = Burn_ConsensusVersion"
  shows "\<exists>cf. forM ms (own_services re) empty_configurator = (Ok (), cf) \<and>
    distinct (map fst (cf_Msg cf)) \<and> fst ` set (cf_Msg cf) = own_modules \<and>
    distinct (map fst (cf_Query cf)) \<and> fst ` set (cf_Query cf) = own_modules \<and>
    (\<forall>m \<in> own_modules. \<forall>v. (m, v) \<in> fst ` set (cf_Migrations cf) \<longleftrightarrow> 1 \<le> v \<and> v < cv m) \<and>
    (\<forall>m v mig. ((m, v), mig) \<in> set (cf_Migrations cf) \<longrightarrow> (mig = Subspace None \<longleftrightarrow> m = M_bank))"
proof -
  let ?cf = "\<lparr>cf_Msg = map (\<lambda>m. (m, msg_of m)) ms, cf_Query = map (\<lambda>m. (m, OwnServer)) ms,
    cf_Migrations = concat (map migrations_of ms)\<rparr>"
  have run: "forM ms (own_services re) empty_configurator = (Ok (), ?cf)"
    using services_run [OF assms(1,2), of empty_configurator] assms(3) by (simp add: empty_configurator_def)
  have mig: "set (cf_Migrations ?cf) = set (migrations_of M_auth) \<union> set (migrations_of M_bank) \<union> set (migrations_of M_volunteer) \<union>
      set (migrations_of M_reward)"
    by (simp add: assms(3) own_modules_def Un_ac del: migrations_of.simps(1-4))
  have "\<forall>m \<in> own_modules. \<forall>v. (m, v) \<in> fst ` set (cf_Migrations ?cf) \<longleftrightarrow> 1 \<le> v \<and> v < cv m"
    unfolding mig own_modules_def
    by (auto simp: assms(4-8) Volunteer_ConsensusVersion_def Reward_ConsensusVersion_def Burn_ConsensusVersion_def versions_below
        simp del: word_not_simps)
  moreover have "\<forall>m v mig. ((m, v), mig) \<in> set (cf_Migrations ?cf) \<longrightarrow> (mig = Subspace None \<longleftrightarrow> m = M_bank)"
    unfolding mig by auto
  ultimately show ?thesis using run assms(2,3) by (intro exI [of _ ?cf]) (simp add: comp_def image_image)
qed

theorem services_registered_witness:
  "is_Ok (fst (forM [M_burn, M_auth, M_reward, M_bank, M_volunteer] (own_services ref_register_env) empty_configurator))"
proof -
  have "register_laws ref_register_env" by (simp add: register_laws_def ref_register_env_def)
  moreover have "distinct [M_burn, M_auth, M_reward, M_bank, M_volunteer]"
      "set [M_burn, M_auth, M_reward, M_bank, M_volunteer] = own_modules" by (auto simp: own_modules_def)
  ultimately show ?thesis
    using services_registered [of ref_register_env "[M_burn, M_auth, M_reward, M_bank, M_volunteer]"
      "\<lambda>m. if m = M_auth then 5 else if m = M_bank then 4 else if m = M_burn then 1 else 2"]
    by (auto simp: Volunteer_ConsensusVersion_def Reward_ConsensusVersion_def Burn_ConsensusVersion_def simp del: forM.simps)
qed

end
