(* ===== verification/Chain.thy ===== *)
theory Chain
  imports Modules
begin

text \<open>
  The chain as a whole: the block hooks and genesis of all modules, run by the module manager in
  the orders of \<open>src/app/modules.go\<close> (\<open>PreBlocker\<close>, \<open>BeginBlocker\<close>, \<open>EndBlocker\<close>, \<open>InitChainer\<close> and the
  export of \<open>src/app\<close>).  Modules of the SDK are parameters.  They may call back into the repository,
  as governance does when it executes a proposal, but reach its stores only through the
  operations listed here.
\<close>

section \<open>The application\<close>

text \<open>The module manager: running hooks, end-block hooks with validator updates, genesis and export.\<close>

record ('x, 'j) Manager =
  mm_run :: "(ModuleId \<Rightarrow> ('x Ctx, unit) M) \<Rightarrow> ModuleId list \<Rightarrow> ('x Ctx, unit) M"
  mm_runEnd :: "(ModuleId \<Rightarrow> ('x Ctx, ValidatorUpdate list) M) \<Rightarrow> ModuleId list \<Rightarrow> ('x Ctx, ValidatorUpdate list) M"
  mm_init :: "(ModuleId \<Rightarrow> 'j \<Rightarrow> ('x Ctx, ValidatorUpdate list) M) \<Rightarrow> ModuleId list \<Rightarrow> (ModuleId \<times> 'j) list \<Rightarrow>
     ('x Ctx, ValidatorUpdate list) M"
  mm_export :: "(ModuleId \<Rightarrow> ('x Ctx, 'j) M) \<Rightarrow> ModuleId list \<Rightarrow> ('x Ctx, (ModuleId \<times> 'j) list) M"

record ('x, 'j) ChainEnv =
  ch_mm :: "('x, 'j) Manager"
  ch_cdc :: "'j GenesisCodec"
  ch_vk :: "'x VolunteerKeeper"
  ch_rk :: "'x RewardKeeper"
  ch_bk :: "'x BurnKeeper"
  ch_sk :: "'x StakingKeeper"
  ch_rngV :: vol_range
  ch_rngL :: "(string \<times> bytes) list \<Rightarrow> (string \<times> bytes) list"
  ch_rngR :: "(string \<times> Coin) list \<Rightarrow> (string \<times> Coin) list"
  ch_pre :: "ModuleId \<Rightarrow> ('x Ctx, unit) M"
  ch_begin :: "ModuleId \<Rightarrow> ('x Ctx, unit) M"
  ch_end :: "ModuleId \<Rightarrow> ('x Ctx, ValidatorUpdate list) M"
  ch_init :: "ModuleId \<Rightarrow> 'j \<Rightarrow> ('x Ctx, ValidatorUpdate list) M"
  ch_export :: "ModuleId \<Rightarrow> ('x Ctx, 'j) M"

text \<open>The hook of each module; the repository's modules have the ones of \<open>Modules\<close> and no others.\<close>

fun begin_hook :: "('x, 'j) ChainEnv \<Rightarrow> ModuleId \<Rightarrow> ('x Ctx, unit) M" where
  "begin_hook e M_staking = Staking_AppModule_BeginBlock (ch_sk e)"
| "begin_hook e M_reward = Reward_AppModule_BeginBlock (ch_rngR e) (ch_rk e)"
| "begin_hook e M_volunteer = Volunteer_AppModule_BeginBlock (ch_rngV e) (ch_vk e)"
| "begin_hook e M_burn = ret ()"
| "begin_hook e m = ch_begin e m"

fun end_hook :: "('x, 'j) ChainEnv \<Rightarrow> ModuleId \<Rightarrow> ('x Ctx, ValidatorUpdate list) M" where
  "end_hook e M_staking = Staking_AppModule_EndBlock (ch_rngV e) (ch_rngL e) (ch_sk e)"
| "end_hook e M_reward = ret []"
| "end_hook e M_volunteer = ret []"
| "end_hook e M_burn = ret []"
| "end_hook e m = ch_end e m"

fun init_hook :: "('x, 'j) ChainEnv \<Rightarrow> ModuleId \<Rightarrow> 'j \<Rightarrow> ('x Ctx, ValidatorUpdate list) M" where
  "init_hook e M_reward j = thenM (Reward_AppModule_InitGenesis (ch_cdc e) (ch_rk e) j) (ret [])"
| "init_hook e M_volunteer j = thenM (Volunteer_AppModule_InitGenesis (ch_cdc e) (ch_vk e) j) (ret [])"
| "init_hook e M_burn j = thenM (Burn_AppModule_InitGenesis (ch_cdc e) j) (ret [])"
| "init_hook e m j = ch_init e m j"

fun export_hook :: "('x, 'j) ChainEnv \<Rightarrow> ModuleId \<Rightarrow> ('x Ctx, 'j) M" where
  "export_hook e M_reward = Reward_AppModule_ExportGenesis (ch_cdc e)"
| "export_hook e M_volunteer = Volunteer_AppModule_ExportGenesis (ch_rngV e) (ch_cdc e) (ch_vk e)"
| "export_hook e M_burn = Burn_AppModule_ExportGenesis (ch_cdc e)"
| "export_hook e m = ch_export e m"

definition PreBlocker :: "('x, 'j) ChainEnv \<Rightarrow> ('x Ctx, unit) M" where
  "PreBlocker e = mm_run (ch_mm e) (ch_pre e) orderPreBlockers"

definition BeginBlocker :: "('x, 'j) ChainEnv \<Rightarrow> ('x Ctx, unit) M" where
  "BeginBlocker e = mm_run (ch_mm e) (begin_hook e) orderBeginBlockers"

definition EndBlocker :: "('x, 'j) ChainEnv \<Rightarrow> ('x Ctx, ValidatorUpdate list) M" where
  "EndBlocker e = mm_runEnd (ch_mm e) (end_hook e) orderEndBlockers"

definition init_genesis :: "('x, 'j) ChainEnv \<Rightarrow> (ModuleId \<times> 'j) list \<Rightarrow> ('x Ctx, ValidatorUpdate list) M" where
  "init_genesis e gs = must (mm_init (ch_mm e) (init_hook e) orderInitBlockers gs)"

definition export_genesis :: "('x, 'j) ChainEnv \<Rightarrow> ModuleId list \<Rightarrow> ('x Ctx, (ModuleId \<times> 'j) list) M" where
  "export_genesis e ms = mm_export (ch_mm e) (export_hook e) ms"

section \<open>Specification\<close>

text \<open>
  What the manager documents: hooks run in order and the first failure ends the run; one module at
  most returns validator updates; genesis skips modules without an entry and fails if no module
  has returned a validator; the export runs each module.
\<close>

definition run_end :: "(ModuleId \<Rightarrow> ('s, 'u list) M) \<Rightarrow> ModuleId \<Rightarrow> 'u list \<Rightarrow> ('s, 'u list) M" where
  "run_end h m acc = bindM (h m) (\<lambda>ups. if ups = [] then ret acc
     else if acc \<noteq> [] then throw (Error ''validator EndBlock updates already set by a previous module'') else ret ups)"

definition run_init :: "(ModuleId \<Rightarrow> 'j \<Rightarrow> ('s, 'u list) M) \<Rightarrow> (ModuleId \<times> 'j) list \<Rightarrow> ModuleId \<Rightarrow> 'u list \<Rightarrow> ('s, 'u list) M" where
  "run_init h gs m acc = (case map_of gs m of None \<Rightarrow> ret acc
     | Some j \<Rightarrow> bindM (h m j) (\<lambda>ups. if ups = [] then ret acc
         else if acc \<noteq> [] then throw (Error ''validator InitGenesis updates already set by a previous module'') else ret ups))"

definition nonempty_set :: "'u list \<Rightarrow> ('s, 'u list) M" where
  "nonempty_set ups = (if ups = [] then throw (Error ''validator set is empty after InitGenesis'') else ret ups)"

definition run_export :: "(ModuleId \<Rightarrow> ('s, 'j) M) \<Rightarrow> ModuleId \<Rightarrow> (ModuleId \<times> 'j) list \<Rightarrow> ('s, (ModuleId \<times> 'j) list) M" where
  "run_export h m acc = bindM (h m) (\<lambda>j. ret (acc @ [(m, j)]))"

definition manager_laws :: "('x, 'j) Manager \<Rightarrow> bool" where
  "manager_laws mm \<longleftrightarrow> (\<forall>h ms. mm_run mm h ms = forM ms h) \<and> (\<forall>h ms. mm_runEnd mm h ms = foldM (run_end h) ms []) \<and>
     (\<forall>h ms gs. mm_init mm h ms gs = bindM (foldM (run_init h gs) ms []) nonempty_set) \<and> (\<forall>h ms. mm_export mm h ms = foldM (run_export h) ms [])"

text \<open>The operations of the three modules that write their stores.\<close>

definition volunteer_ops :: "('x, 'j) ChainEnv \<Rightarrow> ('x Ctx, unit) M set" where
  "volunteer_ops e = range (RegisterVolunteerValidator (ch_vk e)) \<union> range (UnregisterVolunteerValidator (ch_vk e)) \<union>
     range (Volunteer_AppModule_InitGenesis (ch_cdc e) (ch_vk e)) \<union> {Volunteer_Migrate1to2}"

definition reward_ops :: "('x, 'j) ChainEnv \<Rightarrow> ('x Ctx, unit) M set" where
  "reward_ops e = range (UpdateParams (ch_rk e)) \<union> range (FundRewardPool (ch_rk e)) \<union>
     range (Reward_AppModule_InitGenesis (ch_cdc e) (ch_rk e)) \<union> {Reward_Migrate1to2 (ch_rk e)}"

definition burn_ops :: "('x, 'j) ChainEnv \<Rightarrow> ('x Ctx, unit) M set" where
  "burn_ops e = range (Burn (ch_bk e)) \<union> range (AfterProposalSubmission (ch_bk e)) \<union>
     range (AfterProposalFailedMinDeposit (ch_bk e)) \<union> range (AfterProposalVotingPeriodEnded (ch_bk e)) \<union>
     range (Burn_AppModule_InitGenesis (ch_cdc e))"

definition chain_ops :: "('x, 'j) ChainEnv \<Rightarrow> ('x Ctx, unit) M set" where
  "chain_ops e = volunteer_ops e \<union> reward_ops e \<union> burn_ops e"

text \<open>
  A foreign operation leaves the three stores alone.  An operation acts through \<open>ops\<close> if it keeps
  whatever these operations and all foreign ones keep: it is made of them.
\<close>

definition foreign :: "('x Ctx, 'a) M \<Rightarrow> bool" where
  "foreign m \<longleftrightarrow> (\<forall>c. volunteer_kv (snd (m c)) = volunteer_kv c \<and> reward_kv (snd (m c)) = reward_kv c \<and>
     burn_kv (snd (m c)) = burn_kv c)"

definition acts_through :: "('x Ctx, unit) M set \<Rightarrow> ('x Ctx, 'a) M \<Rightarrow> bool" where
  "acts_through ops m \<longleftrightarrow> (\<forall>P. (\<forall>op \<in> ops. keeps P op) \<longrightarrow> (\<forall>f :: ('x Ctx, unit) M. foreign f \<longrightarrow> keeps P f) \<longrightarrow> keeps P m)"

definition hooks_laws :: "('x, 'j) ChainEnv \<Rightarrow> bool" where
  "hooks_laws e \<longleftrightarrow> manager_laws (ch_mm e) \<and> stk_volunteers (ch_sk e) = GetVolunteerValidators (ch_vk e) \<and>
     (\<forall>m. acts_through (chain_ops e) (ch_pre e m) \<and> acts_through (chain_ops e) (ch_begin e m) \<and>
        acts_through (chain_ops e) (ch_end e m) \<and> (\<forall>j. acts_through (chain_ops e) (ch_init e m j)))"

text \<open>The burn store: proposals under their own ids, in key order.\<close>

definition burn_inv :: "'x Ctx \<Rightarrow> bool" where
  "burn_inv c \<longleftrightarrow> kv_ok (burn_kv c) \<and> (\<forall>x \<in> set (burn_kv c). bp_ProposalId (snd x) = fst x)"

text \<open>
  Every state the chain passes through, also the ones a failing hook or transaction leaves:
  genesis, the hooks of a block, and transactions that act through the operations above.
\<close>

inductive chain_reach :: "('x, 'j) ChainEnv \<Rightarrow> 'x Ctx \<Rightarrow> bool" for e where
  cr_start: "volunteer_kv c = [] \<Longrightarrow> reward_kv c = [] \<Longrightarrow> burn_kv c = [] \<Longrightarrow> chain_reach e c"
| cr_genesis: "chain_reach e c \<Longrightarrow> chain_reach e (snd (init_genesis e gs c))"
| cr_pre: "chain_reach e c \<Longrightarrow> chain_reach e (snd (PreBlocker e c))"
| cr_begin: "chain_reach e c \<Longrightarrow> chain_reach e (snd (BeginBlocker e c))"
| cr_tx: "chain_reach e c \<Longrightarrow> acts_through (chain_ops e) (tx :: ('x Ctx, unit) M) \<Longrightarrow> chain_reach e (snd (tx c))"
| cr_end: "chain_reach e c \<Longrightarrow> chain_reach e (snd (EndBlocker e c))"

text \<open>What every state of the chain satisfies: kept by the operations and by everything foreign.\<close>

definition stable :: "('x, 'j) ChainEnv \<Rightarrow> ('x Ctx \<Rightarrow> bool) \<Rightarrow> bool" where
  "stable e P \<longleftrightarrow> (\<forall>op \<in> chain_ops e. keeps P op) \<and> (\<forall>f :: ('x Ctx, unit) M. foreign f \<longrightarrow> keeps P f)"

definition same_stores :: "'x Ctx \<Rightarrow> 'x Ctx \<Rightarrow> bool" where
  "same_stores c d \<longleftrightarrow> volunteer_kv d = volunteer_kv c \<and> reward_kv d = reward_kv c \<and> burn_kv d = burn_kv c"

text \<open>The JSON codec reads back what it writes.\<close>

definition genesis_codec_laws :: "'j GenesisCodec \<Rightarrow> bool" where
  "genesis_codec_laws cdc \<longleftrightarrow>
     (\<forall>x. \<exists>j. gc_MarshalVolunteer cdc x = Ok j \<and> gc_UnmarshalVolunteer cdc j = Ok x) \<and>
     (\<forall>x. \<exists>j. gc_MarshalReward cdc x = Ok j \<and> gc_UnmarshalReward cdc j = Ok x) \<and>
     (\<forall>x. \<exists>j. gc_MarshalBurn cdc x = Ok j \<and> gc_UnmarshalBurn cdc j = Ok x)"

text \<open>
  The other modules.  They export the state at hand without changing it.  A document imports back
  into \<open>d\<close> if each of them takes its entry of that document once the modules before it in the
  order have taken theirs: it leaves the three stores alone, and the validators come from staking.
\<close>

abbreviation own_modules :: "ModuleId set" where
  "own_modules \<equiv> {M_volunteer, M_reward, M_burn}"

definition others_export :: "('x, 'j) ChainEnv \<Rightarrow> ModuleId list \<Rightarrow> 'x Ctx \<Rightarrow> bool" where
  "others_export e ms c \<longleftrightarrow> (\<forall>m \<in> set ms - own_modules. \<exists>j. ch_export e m c = (Ok j, c))"

definition others_import :: "('x, 'j) ChainEnv \<Rightarrow> (ModuleId \<times> 'j) list \<Rightarrow> 'x Ctx \<Rightarrow> bool" where
  "others_import e gs d \<longleftrightarrow> (\<forall>pre m post j ups d1. orderInitBlockers = pre @ m # post \<longrightarrow> m \<notin> own_modules \<longrightarrow>
     map_of gs m = Some j \<longrightarrow> foldM (run_init (init_hook e) gs) pre [] d = (Ok ups, d1) \<longrightarrow>
     (\<exists>us d2. ch_init e m j d1 = (Ok us, d2) \<and> same_stores d1 d2 \<and> (us \<noteq> [] \<longleftrightarrow> m = M_staking)))"

text \<open>What the three modules write to a genesis document, up to the order of the volunteer map.\<close>

definition genesis_of :: "('x, 'j) ChainEnv \<Rightarrow> 'x Ctx \<Rightarrow> ModuleId \<Rightarrow> 'j \<Rightarrow> bool" where
  "genesis_of e c m j \<longleftrightarrow>
     (m = M_volunteer \<longrightarrow> (\<exists>es. mset es = mset (volunteer_kv c) \<and> gc_UnmarshalVolunteer (ch_cdc e) j = Ok (map snd es))) \<and>
     (m = M_reward \<longrightarrow> gc_UnmarshalReward (ch_cdc e) j = Ok (case reward_lookup c ParamsKey of None \<Rightarrow> zero_Params | Some p \<Rightarrow> p)) \<and>
     (m = M_burn \<longrightarrow> gc_UnmarshalBurn (ch_cdc e) j = Ok (map snd (burn_kv c)))"

section \<open>A reference chain\<close>

text \<open>
  A chain over the reference staking state, on which governance ends the voting of the first
  proposal in every block.
\<close>

type_synonym ref_json = "VolunteerValidator list + Params + BurnProposal list"

definition ref_cdc :: "ref_json GenesisCodec" where
  "ref_cdc = \<lparr>gc_UnmarshalVolunteer = (\<lambda>j. case j of Inl x \<Rightarrow> Ok x | _ \<Rightarrow> Err (Error ''json'')), gc_MarshalVolunteer = (\<lambda>x. Ok (Inl x)),
     gc_UnmarshalReward = (\<lambda>j. case j of Inr (Inl x) \<Rightarrow> Ok x | _ \<Rightarrow> Err (Error ''json'')), gc_MarshalReward = (\<lambda>x. Ok (Inr (Inl x))),
     gc_UnmarshalBurn = (\<lambda>j. case j of Inr (Inr x) \<Rightarrow> Ok x | _ \<Rightarrow> Err (Error ''json'')), gc_MarshalBurn = (\<lambda>x. Ok (Inr (Inr x)))\<rparr>"

definition ref_manager :: "('x, 'j) Manager" where
  "ref_manager = \<lparr>mm_run = (\<lambda>h ms. forM ms h), mm_runEnd = (\<lambda>h ms. foldM (run_end h) ms []),
     mm_init = (\<lambda>h ms gs. bindM (foldM (run_init h gs) ms []) nonempty_set), mm_export = (\<lambda>h ms. foldM (run_export h) ms [])\<rparr>"

definition ref_idle_reward :: "'x RewardKeeper" where
  "ref_idle_reward = \<lparr>rw_authority = ''gov'', rw_GetModuleAccountAddress = ret [1], rw_GetAllBalances = (\<lambda>_. ret []),
     rw_SendCoins = (\<lambda>_ _ _. ret ()), rw_SendCoinsFromAccountToModule = (\<lambda>_ _ _. ret ()),
     rw_SendCoinsFromModuleToModule = (\<lambda>_ _ _. ret ()), rw_IterateDelegations = (\<lambda>_ _. []), rw_ValStringToBytes = ref_parse,
     rw_WithdrawDelegationRewards = (\<lambda>_ _. ret []), rw_FundCommunityPool = (\<lambda>_ _. ret ()), rw_BlocksPerYear = ret 1,
     rw_GetParamSet = ret DefaultParams, rw_bech32 = ref_bech32, rw_coins = ref_coins, rw_dec = ref_dec\<rparr>"

definition ref_idle_burn :: "'x BurnKeeper" where
  "ref_idle_burn = \<lparr>bu_BurnCoins = (\<lambda>_ _. ret ()), bu_SendCoinsFromAccountToModule = (\<lambda>_ _ _. ret ()),
     bu_SendCoinsFromModuleToAccount = (\<lambda>_ _ _. ret ()),
     bu_Proposal = (\<lambda>_. ret \<lparr>pr_Messages = [ref_burn_any 7], pr_Status = StatusRejected, pr_Proposer = ''p''\<rparr>),
     bu_UnpackAny = rb_unpack, bu_authority = ''gov'', bu_bech32 = ref_bech32, bu_coins = ref_coins\<rparr>"

definition ref_chain_env :: "(RefStaking, ref_json) ChainEnv" where
  "ref_chain_env = \<lparr>ch_mm = ref_manager, ch_cdc = ref_cdc,
     ch_vk = ref_vk_of (ref_no_staking\<lparr>sk_GetValidator := stk_GetValidator ref_stk\<rparr>) ref_no_dist,
     ch_rk = ref_idle_reward, ch_bk = ref_idle_burn, ch_sk = ref_stk, ch_rngV = rev, ch_rngL = rev, ch_rngR = rev,
     ch_pre = (\<lambda>_. ret ()), ch_begin = (\<lambda>_. ret ()),
     ch_end = (\<lambda>m. if m = M_gov then thenM (AfterProposalVotingPeriodEnded ref_idle_burn 1) (ret []) else ret []),
     ch_init = (\<lambda>m _. ret (if m = M_staking then [\<lparr>vu_PubKey = ConsensusPubkey (ref_val ''v'' Bonded 5), vu_Power = 5\<rparr>] else [])), ch_export = (\<lambda>_. ret (Inl []))\<rparr>"

section \<open>The contract of a module\<close>

text \<open>
  A module owns one store; its invariant depends on that store only and is kept by the module's own
  operations.  If every other operation leaves the store alone, the invariant is stable.
\<close>

locale module_state =
  fixes store :: "'x Ctx \<Rightarrow> 'v" and inv :: "'x Ctx \<Rightarrow> bool" and own :: "('x Ctx, unit) M set"
  assumes inv_local: "store c = store d \<Longrightarrow> inv c \<longleftrightarrow> inv d"
    and own_keeps: "m \<in> own \<Longrightarrow> keeps inv m"
begin

lemma frame_keeps: "(\<And>v. keeps (\<lambda>c. store c = v) m) \<Longrightarrow> keeps inv m"
  using inv_local by (metis (mono_tags, lifting) keeps_def)

lemma stableI:
  assumes "\<And>op v. op \<in> chain_ops e - own \<Longrightarrow> keeps (\<lambda>c. store c = v) op"
    and "\<And>(f :: ('x Ctx, unit) M) c. foreign f \<Longrightarrow> store (snd (f c)) = store c"
  shows "stable e inv"
  unfolding stable_def
proof (intro conjI ballI allI impI)
  show "keeps inv op" if op: "op \<in> chain_ops e" for op
  proof (cases "op \<in> own")
    case False
    with op show ?thesis by (intro frame_keeps assms(1)) simp
  qed (rule own_keeps)
  show "keeps inv f" if "foreign f" for f :: "('x Ctx, unit) M"
    using assms(2) [OF that] by (intro frame_keeps) (simp add: keeps_def)
qed

end

section \<open>Frames\<close>

lemma keeps_outcome_case [keeps_intro]:
  "(\<And>a. keeps P (f a)) \<Longrightarrow> (\<And>a. keeps P (g a)) \<Longrightarrow> (\<And>a. keeps P (h a)) \<Longrightarrow>
    keeps P (case r of Ok a \<Rightarrow> f a | Err a \<Rightarrow> g a | Panic a \<Rightarrow> h a)"
  by (cases r) auto

lemma keeps_case_prod [keeps_intro]: "(\<And>a b. keeps P (f a b)) \<Longrightarrow> keeps P (case x of (a, b) \<Rightarrow> f a b)"
  by (cases x) auto

lemma volunteer_ops_frame:
  assumes "\<And>x c. P c \<Longrightarrow> P (c\<lparr>ext := x\<rparr>)" "\<And>es c. P c \<Longrightarrow> P (c\<lparr>events := es\<rparr>)"
    and "\<And>kv c. P c \<Longrightarrow> P (c\<lparr>volunteer_kv := kv\<rparr>)" "op \<in> volunteer_ops e"
  shows "keeps P op"
  using assms(4) unfolding volunteer_ops_def RegisterVolunteerValidator_def UnregisterVolunteerValidator_def CreateValidator_def
    Volunteer_AppModule_InitGenesis_def Volunteer_InitGenesis_def init_one_def Volunteer_Migrate1to2_def
    SetVolunteerValidator_def DeleteVolunteerValidator_def GetVolunteerValidator_def volunteer_put_def volunteer_remove_def Let_def
  by (elim UnE rangeE singletonE; hypsubst) (intro keeps_intro assms(1-3); assumption)+

lemma reward_ops_frame:
  assumes "\<And>x c. P c \<Longrightarrow> P (c\<lparr>ext := x\<rparr>)" "\<And>es c. P c \<Longrightarrow> P (c\<lparr>events := es\<rparr>)"
    and "\<And>kv c. P c \<Longrightarrow> P (c\<lparr>reward_kv := kv\<rparr>)" "op \<in> reward_ops e"
  shows "keeps P op"
  using assms(4) unfolding reward_ops_def UpdateParams_def FundRewardPool_def Keeper_FundRewardPool_def
    Reward_AppModule_InitGenesis_def Reward_InitGenesis_def Reward_Migrate1to2_def MigrateStore_def SetParams_def reward_put_def Let_def
  by (elim UnE rangeE singletonE; hypsubst) (intro keeps_intro assms(1-3); assumption)+

lemma burn_ops_frame:
  assumes "\<And>x c. P c \<Longrightarrow> P (c\<lparr>ext := x\<rparr>)" "\<And>es c. P c \<Longrightarrow> P (c\<lparr>events := es\<rparr>)"
    and "\<And>kv c. P c \<Longrightarrow> P (c\<lparr>burn_kv := kv\<rparr>)" "op \<in> burn_ops e"
  shows "keeps P op"
  using assms(4) unfolding burn_ops_def Burn_def AfterProposalSubmission_def AfterProposalFailedMinDeposit_def
    AfterProposalVotingPeriodEnded_def Burn_AppModule_InitGenesis_def Burn_InitGenesis_def submit_one_def refund_one_def burn_get_def
    burn_put_def burn_remove_def Let_def
  by (elim UnE rangeE singletonE; hypsubst) (intro keeps_intro assms(1-3); assumption)+

lemma bond_switch_keeps:
  assumes "\<And>x c. P c \<Longrightarrow> P (c\<lparr>ext := x\<rparr>)"
  shows "keeps P (bond_switch k v)"
  unfolding bond_switch_def unbondedToBonded_def unbondingToBonded_def bondValidator_def Let_def
  by (cases "Status v") (simp_all, (intro keeps_intro assms; assumption)+)

lemma select_loop_keeps:
  assumes "\<And>x c. P c \<Longrightarrow> P (c\<lparr>ext := x\<rparr>)"
  shows "keeps P (select_loop k maxV it st)"
proof (induction it arbitrary: st)
  case (Cons a it)
  have "keeps P (select_body k maxV a st)" for st
    unfolding select_body_def record_power_def mustGetValidator_def Let_def
    by (intro keeps_intro bond_switch_keeps assms; assumption)
  then show ?case by (auto intro!: keeps_intro Cons.IH)
qed (auto intro: keeps_intro)

lemma last_validators_loop_keeps:
  assumes "\<And>x c. P c \<Longrightarrow> P (c\<lparr>ext := x\<rparr>)"
  shows "keeps P (last_validators_loop k maxV es i)"
  by (induction es arbitrary: i) (auto intro!: keeps_intro assms)

lemma prune_history_keeps:
  assumes "\<And>x c. P c \<Longrightarrow> P (c\<lparr>ext := x\<rparr>)"
  shows "keeps P (prune_history k i)"
  by (induction k i rule: prune_history.induct)
    (subst prune_history.simps, auto intro!: keeps_intro assms simp del: prune_history.simps)

lemma staking_hooks_frame:
  assumes "\<And>x c. P c \<Longrightarrow> P (c\<lparr>ext := x\<rparr>)" "\<And>es c. P c \<Longrightarrow> P (c\<lparr>events := es\<rparr>)"
    and "stk_volunteers k = GetVolunteerValidators vk"
  shows "keeps P (Staking_AppModule_BeginBlock k)" "keeps P (Staking_AppModule_EndBlock rngV rngL k)"
proof -
  show "keeps P (Staking_AppModule_BeginBlock k)"
    unfolding Staking_AppModule_BeginBlock_def Staking_BeginBlocker_def TrackHistoricalInfo_def GetLastValidators_def assms(3)
      GetVolunteerValidators_def Let_def
    by (intro keeps_intro prune_history_keeps last_validators_loop_keeps assms(1); assumption)
  show "keeps P (Staking_AppModule_EndBlock rngV rngL k)"
    unfolding Staking_AppModule_EndBlock_def Staking_EndBlocker_def BlockValidatorUpdates_def ApplyAndReturnValidatorSetUpdates_def
      getLastValidatorsByAddr_def assms(3) GetVolunteerValidators_def drop_jailed_def drop_jailed_one_def unbond_one_def
      mustGetValidator_def bondedToUnbonding_def pool_switch_def notBondedTokensToBonded_def bondedTokensToNotBonded_def
      complete_unbonding_def complete_redelegation_def Let_def
    by (intro keeps_intro select_loop_keeps assms(1,2); assumption)
qed

lemma reward_hook_frame:
  assumes "\<And>x c. P c \<Longrightarrow> P (c\<lparr>ext := x\<rparr>)"
  shows "keeps P (Reward_AppModule_BeginBlock rng k)"
  unfolding Reward_AppModule_BeginBlock_def Reward_BeginBlocker_def GetParams_def withdraw_one_def distribute_pool_def Let_def
  by (intro keeps_intro assms; assumption)

lemma volunteer_hook_frame:
  assumes "\<And>x c. P c \<Longrightarrow> P (c\<lparr>ext := x\<rparr>)"
  shows "keeps P (Volunteer_AppModule_BeginBlock rng k)"
  unfolding Volunteer_AppModule_BeginBlock_def by (rule BeginBlocker_keeps) (rule assms)

section \<open>Stable predicates\<close>

lemma foreignI:
  fixes m :: "('x Ctx, 'a) M"
  assumes "\<And>P. (\<And>x c. P c \<Longrightarrow> P (c\<lparr>ext := x\<rparr>)) \<Longrightarrow> (\<And>es c. P c \<Longrightarrow> P (c\<lparr>events := es\<rparr>)) \<Longrightarrow> keeps P m"
  shows "foreign m"
  unfolding foreign_def
proof
  fix c :: "'x Ctx"
  have "keeps (\<lambda>d. volunteer_kv d = volunteer_kv c \<and> reward_kv d = reward_kv c \<and> burn_kv d = burn_kv c) m"
    by (rule assms) simp_all
  then show "volunteer_kv (snd (m c)) = volunteer_kv c \<and> reward_kv (snd (m c)) = reward_kv c \<and> burn_kv (snd (m c)) = burn_kv c"
    by (simp add: keeps_def)
qed

lemma stable_foreign:
  fixes f :: "('x Ctx, 'a) M"
  assumes "stable (e :: ('x, 'j) ChainEnv) P" "foreign f"
  shows "keeps P f"
proof -
  have "foreign (\<lambda>c. (Ok (), snd (f c)) :: unit outcome \<times> 'x Ctx)" using assms(2) by (simp add: foreign_def)
  then have "keeps P (\<lambda>c. (Ok (), snd (f c)) :: unit outcome \<times> 'x Ctx)" using assms(1) by (simp add: stable_def)
  then show ?thesis by (simp add: keeps_def)
qed

lemma stable_through: "stable e P \<Longrightarrow> acts_through (chain_ops e) m \<Longrightarrow> keeps P m"
  by (simp add: stable_def acts_through_def)

lemma begin_hook_keeps:
  assumes "hooks_laws e" "stable e P"
  shows "keeps P (begin_hook e m)"
proof -
  have ext: "acts_through (chain_ops e) (ch_begin e m)" for m using assms(1) by (simp add: hooks_laws_def)
  have vols: "stk_volunteers (ch_sk e) = GetVolunteerValidators (ch_vk e)"
    using assms(1) by (simp add: hooks_laws_def)
  have own: "keeps P (Staking_AppModule_BeginBlock (ch_sk e))" "keeps P (Reward_AppModule_BeginBlock (ch_rngR e) (ch_rk e))"
    "keeps P (Volunteer_AppModule_BeginBlock (ch_rngV e) (ch_vk e))"
    by (rule stable_foreign [OF assms(2)], rule foreignI, rule staking_hooks_frame(1) [OF _ _ vols] reward_hook_frame volunteer_hook_frame,
        assumption+)+
  show ?thesis by (cases m) (simp_all add: own stable_through [OF assms(2) ext] keeps_ret)
qed

lemma end_hook_keeps:
  assumes "hooks_laws e" "stable e P"
  shows "keeps P (end_hook e m)"
proof -
  have ext: "acts_through (chain_ops e) (ch_end e m)" for m using assms(1) by (simp add: hooks_laws_def)
  have vols: "stk_volunteers (ch_sk e) = GetVolunteerValidators (ch_vk e)"
    using assms(1) by (simp add: hooks_laws_def)
  have own: "keeps P (Staking_AppModule_EndBlock (ch_rngV e) (ch_rngL e) (ch_sk e))"
    by (rule stable_foreign [OF assms(2)], rule foreignI, rule staking_hooks_frame(2) [OF _ _ vols], assumption+)
  show ?thesis by (cases m) (simp_all add: own stable_through [OF assms(2) ext] keeps_ret)
qed

lemma init_hook_keeps:
  assumes "hooks_laws e" "stable e P"
  shows "keeps P (init_hook e m j)"
proof -
  have ext: "acts_through (chain_ops e) (ch_init e m j)" for m using assms(1) by (simp add: hooks_laws_def)
  have "keeps P op" if "op \<in> chain_ops e" for op using assms(2) that by (simp add: stable_def)
  then have own: "keeps P (Volunteer_AppModule_InitGenesis (ch_cdc e) (ch_vk e) j)" "keeps P (Burn_AppModule_InitGenesis (ch_cdc e) j)"
      "keeps P (Reward_AppModule_InitGenesis (ch_cdc e) (ch_rk e) j)"
    by (simp_all add: chain_ops_def volunteer_ops_def reward_ops_def burn_ops_def)
  show ?thesis by (cases m) (simp_all add: keeps_thenM keeps_ret own stable_through [OF assms(2) ext])
qed

lemma chain_reach_stable:
  assumes "hooks_laws e" "stable e P" "\<And>c. volunteer_kv c = [] \<Longrightarrow> reward_kv c = [] \<Longrightarrow> burn_kv c = [] \<Longrightarrow> P c"
    and "chain_reach e c"
  shows "P c"
  using assms(4)
proof induction
  case (cr_start c)
  then show ?case by (rule assms(3))
next
  case (cr_genesis c gs)
  have "keeps P (init_genesis e gs)"
    using assms(1) unfolding init_genesis_def hooks_laws_def manager_laws_def
    by (auto simp: run_init_def nonempty_set_def intro!: keeps_intro init_hook_keeps [OF assms(1,2)])
  with cr_genesis show ?case by (simp add: keeps_snd)
next
  case (cr_pre c)
  have "keeps P (PreBlocker e)"
    using assms(1) unfolding PreBlocker_def hooks_laws_def manager_laws_def
    by (auto intro!: keeps_forM intro: stable_through [OF assms(2)])
  with cr_pre show ?case by (simp add: keeps_snd)
next
  case (cr_begin c)
  have "keeps P (BeginBlocker e)"
    using assms(1) unfolding BeginBlocker_def hooks_laws_def manager_laws_def
    by (auto intro!: keeps_forM begin_hook_keeps [OF assms(1,2)])
  with cr_begin show ?case by (simp add: keeps_snd)
next
  case (cr_end c)
  have "keeps P (EndBlocker e)"
    using assms(1) unfolding EndBlocker_def hooks_laws_def manager_laws_def run_end_def
    by (auto intro!: keeps_intro end_hook_keeps [OF assms(1,2)])
  with cr_end show ?case by (simp add: keeps_snd)
qed (simp add: keeps_snd stable_through [OF assms(2)])

section \<open>The three modules\<close>

interpretation volunteer_module: module_state volunteer_kv
  "\<lambda>c. val_codec_laws (vk_bech32 (ch_vk e)) \<and> vol_inv (ch_vk e) c" "volunteer_ops e" for e :: "('x, 'j) ChainEnv"
proof
  show "val_codec_laws (vk_bech32 (ch_vk e)) \<and> vol_inv (ch_vk e) c \<longleftrightarrow> val_codec_laws (vk_bech32 (ch_vk e)) \<and> vol_inv (ch_vk e) d"
    if "volunteer_kv c = volunteer_kv d" for c d using that by (simp add: vol_inv_def)
  fix m
  assume m: "m \<in> volunteer_ops e"
  have "keeps (vol_inv (ch_vk e)) m" if codec: "val_codec_laws (vk_bech32 (ch_vk e))"
    using m unfolding volunteer_ops_def Volunteer_AppModule_InitGenesis_def Volunteer_Migrate1to2_def
    by (elim UnE rangeE singletonE; hypsubst)
      (intro keeps_intro Register_keeps_inv [OF codec] Unregister_keeps_inv InitGenesis_keeps_inv)+
  then show "keeps (\<lambda>c. val_codec_laws (vk_bech32 (ch_vk e)) \<and> vol_inv (ch_vk e) c) m" by (auto simp: keeps_def)
qed

interpretation reward_module: module_state reward_kv "reward_inv (ch_rk e)" "reward_ops e" for e :: "('x, 'j) ChainEnv"
proof
  show "reward_inv (ch_rk e) c \<longleftrightarrow> reward_inv (ch_rk e) d" if "reward_kv c = reward_kv d" for c d
    using that by (simp add: reward_inv_def reward_lookup_def)
  show "keeps (reward_inv (ch_rk e)) m" if "m \<in> reward_ops e" for m
    using that unfolding reward_ops_def Reward_AppModule_InitGenesis_def
    by (elim UnE rangeE singletonE; hypsubst) (intro keeps_intro reward_ops_keep)+
qed

lemma burn_inv_ext [simp]: "burn_inv (c\<lparr>ext := x\<rparr>) = burn_inv c"
  by (simp add: burn_inv_def)

lemma burn_inv_put: "burn_inv c \<Longrightarrow> bp_ProposalId p = pid \<Longrightarrow> burn_inv (burn_put pid p c)"
  by (auto simp: burn_inv_def burn_put_def kv_ok_set dest!: kv_set_entries)

lemma burn_inv_remove: "burn_inv c \<Longrightarrow> burn_inv (burn_remove pid c)"
  by (auto simp: burn_inv_def burn_remove_def kv_ok_delete) (auto simp: kv_delete_def)

interpretation burn_module: module_state burn_kv burn_inv "burn_ops e" for e :: "('x, 'j) ChainEnv"
proof
  show "burn_inv c \<longleftrightarrow> burn_inv d" if "burn_kv c = burn_kv d" for c d :: "'x Ctx" using that by (simp add: burn_inv_def)
  show "keeps burn_inv m" if "m \<in> burn_ops e" for m
    using that unfolding burn_ops_def Burn_def AfterProposalSubmission_def AfterProposalFailedMinDeposit_def
      AfterProposalVotingPeriodEnded_def Burn_AppModule_InitGenesis_def Burn_InitGenesis_def submit_one_def refund_one_def burn_get_def
    by (elim UnE rangeE singletonE; hypsubst) (intro keeps_intro burn_inv_put burn_inv_remove; simp)+
qed

lemmas ops_frames = volunteer_ops_frame reward_ops_frame burn_ops_frame

lemma modules_stable:
  "stable e (\<lambda>c. val_codec_laws (vk_bech32 (ch_vk e)) \<and> vol_inv (ch_vk e) c)" "stable e (reward_inv (ch_rk e))" "stable e burn_inv"
  by (rule volunteer_module.stableI reward_module.stableI burn_module.stableI;
      auto simp: chain_ops_def foreign_def intro: ops_frames)+

lemma chain_reach_vol:
  assumes "hooks_laws e" "val_codec_laws (vk_bech32 (ch_vk e))" "chain_reach e c"
  shows "vol_inv (ch_vk e) c"
  using chain_reach_stable [OF assms(1) modules_stable(1) _ assms(3)] assms(2) by (auto simp: vol_inv_def)

lemma chain_reach_reward: "hooks_laws e \<Longrightarrow> chain_reach e c \<Longrightarrow> reward_inv (ch_rk e) c"
  by (erule chain_reach_stable [OF _ modules_stable(2)]) (simp_all add: reward_inv_def reward_lookup_def)

lemma chain_reach_burn: "hooks_laws e \<Longrightarrow> chain_reach e c \<Longrightarrow> burn_inv c"
  by (erule chain_reach_stable [OF _ modules_stable(3)]) (simp_all add: burn_inv_def)

section \<open>Export and import\<close>

lemma same_stores_refl [simp]: "same_stores c c"
  by (simp add: same_stores_def)

lemma export_run:
  assumes "\<And>m. m \<in> set ms \<Longrightarrow> \<exists>j. h m c = (Ok j, c) \<and> Q m j"
  shows "\<exists>gs. foldM (run_export h) ms acc c = (Ok (acc @ gs), c) \<and> map fst gs = ms \<and> (\<forall>x \<in> set gs. Q (fst x) (snd x))"
  using assms
proof (induction ms arbitrary: acc)
  case (Cons m ms)
  from Cons.prems obtain j where j: "h m c = (Ok j, c)" "Q m j" by (metis list.set_intros(1))
  from Cons.IH [of "acc @ [(m, j)]"] Cons.prems obtain gs where
    "foldM (run_export h) ms (acc @ [(m, j)]) c = (Ok ((acc @ [(m, j)]) @ gs), c)" "map fst gs = ms"
    "\<forall>x \<in> set gs. Q (fst x) (snd x)" by auto
  with j show ?case by (intro exI [of _ "(m, j) # gs"]) (simp add: run_export_def [of h m] bindM_Ok ret_def)
qed (simp add: ret_def)

lemma foldM_append: "foldM f (xs @ ys) b = bindM (foldM f xs b) (foldM f ys)"
proof (induction xs arbitrary: b)
  case (Cons a xs)
  then have "foldM f (xs @ ys) = (\<lambda>b. bindM (foldM f xs b) (foldM f ys))" by blast
  then show ?case by (simp add: bindM_assoc)
qed simp

lemma run_init_Ok:
  assumes "map_of gs m = Some j" "h m j d = (Ok us, d')" "us = [] \<or> acc = []"
  shows "run_init h gs m acc d = (Ok (if us = [] then acc else us), d')"
  using assms by (auto simp: run_init_def bindM_Ok ret_def)

text \<open>The modules before the three own ones: the validators appear with the staking module.\<close>

lemma init_others_run:
  assumes imp: "others_import e gs d" and "orderInitBlockers = pre @ ms @ post" "set ms \<inter> own_modules = {}"
    and "foldM (run_init (init_hook e) gs) pre [] d = (Ok acc, d1)" "same_stores d d1"
    and "acc \<noteq> [] \<longleftrightarrow> M_staking \<in> set pre \<inter> fst ` set gs"
  shows "\<exists>acc' d'. foldM (run_init (init_hook e) gs) ms acc d1 = (Ok acc', d') \<and> same_stores d d' \<and>
    (acc' \<noteq> [] \<longleftrightarrow> M_staking \<in> set (pre @ ms) \<inter> fst ` set gs)"
  using assms(2-)
proof (induction ms arbitrary: pre acc d1)
  case (Cons m ms)
  have dist: "distinct orderInitBlockers" by code_simp
  have hook: "init_hook e m j = ch_init e m j" for j using Cons.prems(2) by (cases m) auto
  have "\<exists>acc1 d2. run_init (init_hook e) gs m acc d1 = (Ok acc1, d2) \<and> same_stores d1 d2 \<and>
      (acc1 \<noteq> [] \<longleftrightarrow> M_staking \<in> set (pre @ [m]) \<inter> fst ` set gs)"
  proof (cases "map_of gs m")
    case None
    then have "m \<notin> fst ` set gs" by (simp add: map_of_eq_None_iff)
    with None Cons.prems(5) show ?thesis by (auto simp: run_init_def ret_def)
  next
    case (Some j)
    have "m \<notin> own_modules" using Cons.prems(2) by auto
    with imp Some Cons.prems(1,3) obtain us d2 where us: "ch_init e m j d1 = (Ok us, d2)" "same_stores d1 d2" "us \<noteq> [] \<longleftrightarrow> m = M_staking"
      unfolding others_import_def by (metis append_Cons)
    have "m \<notin> set pre" using dist unfolding Cons.prems(1) by auto
    then have "us = [] \<or> acc = []" using us(3) Cons.prems(5) by blast
    with Some us(1) have "run_init (init_hook e) gs m acc d1 = (Ok (if us = [] then acc else us), d2)"
      by (intro run_init_Ok) (simp_all add: hook)
    moreover have "m \<in> fst ` set gs" using Some by (metis map_of_eq_None_iff option.distinct(1))
    ultimately show ?thesis using us(2,3) Cons.prems(5) by auto
  qed
  then obtain acc1 d2 where step: "run_init (init_hook e) gs m acc d1 = (Ok acc1, d2)" "same_stores d1 d2"
      "acc1 \<noteq> [] \<longleftrightarrow> M_staking \<in> set (pre @ [m]) \<inter> fst ` set gs" by blast
  have "\<exists>acc' d'. foldM (run_init (init_hook e) gs) ms acc1 d2 = (Ok acc', d') \<and> same_stores d d' \<and>
      (acc' \<noteq> [] \<longleftrightarrow> M_staking \<in> set ((pre @ [m]) @ ms) \<inter> fst ` set gs)"
  proof (rule Cons.IH)
    show "foldM (run_init (init_hook e) gs) (pre @ [m]) [] d = (Ok acc1, d2)"
      using Cons.prems(3) step(1) by (simp add: foldM_append bindM_Ok ret_def)
    show "same_stores d d2" using Cons.prems(4) step(2) by (simp add: same_stores_def)
  qed (use Cons.prems step(3) in auto)
  with step(1) show ?case by (simp add: bindM_Ok)
qed (simp add: ret_def)

lemma order_init_split:
  obtains ms where "orderInitBlockers = ms @ [M_reward, M_volunteer, M_burn]" "set ms \<inter> own_modules = {}" "M_staking \<in> set ms"
  by (rule that [of "take 23 orderInitBlockers"]) code_simp+

lemma must_run: "m c = (Ok a, d) \<Longrightarrow> must m c = (Ok a, d)"
  by (simp add: must_def attempt_def bindM_def ret_def)

lemma export_hook_run:
  assumes "others_export e ms c" "genesis_codec_laws (ch_cdc e)" "go_range (ch_rngV e)" "vol_inv (ch_vk e) c" "m \<in> set ms"
  shows "\<exists>j. export_hook e m c = (Ok j, c) \<and> genesis_of e c m j"
proof -
  obtain es where es: "mset es = mset (volunteer_kv c)" "Volunteer_ExportGenesis (ch_rngV e) (ch_vk e) c = (Ok (map snd es), c)"
    using ExportGenesis_apply [OF assms(4,3)] .
  have burn: "Burn_ExportGenesis c = (Ok (map snd (burn_kv c)), c)"
    by (simp add: Burn_ExportGenesis_def GetAllOngoingBurnProposals_def IterateAllOngoingBurnProposals_def walk_collect)
  from assms(2) obtain jv jr jb where j: "gc_MarshalVolunteer (ch_cdc e) (map snd es) = Ok jv" "gc_UnmarshalVolunteer (ch_cdc e) jv = Ok (map snd es)"
    "gc_MarshalReward (ch_cdc e) (case reward_lookup c ParamsKey of None \<Rightarrow> zero_Params | Some p \<Rightarrow> p) = Ok jr"
    "gc_UnmarshalReward (ch_cdc e) jr = Ok (case reward_lookup c ParamsKey of None \<Rightarrow> zero_Params | Some p \<Rightarrow> p)"
    "gc_MarshalBurn (ch_cdc e) (map snd (burn_kv c)) = Ok jb" "gc_UnmarshalBurn (ch_cdc e) jb = Ok (map snd (burn_kv c))"
    unfolding genesis_codec_laws_def by metis
  have own: "export_hook e M_volunteer c = (Ok jv, c)" "export_hook e M_reward c = (Ok jr, c)" "export_hook e M_burn c = (Ok jb, c)"
    by (simp_all add: Volunteer_AppModule_ExportGenesis_def Reward_AppModule_ExportGenesis_def Burn_AppModule_ExportGenesis_def
        Reward_ExportGenesis_def GetParams_def bindM_def es(2) burn getsM_def j(1,3,5) must_run)
  consider "m = M_volunteer" | "m = M_reward" | "m = M_burn" | "m \<notin> own_modules" by blast
  then show ?thesis
  proof cases
    case 4
    then have "export_hook e m = ch_export e m" by (cases m) auto
    with 4 assms(1,5) show ?thesis by (auto simp: others_export_def genesis_of_def)
  qed (use own j(2,4,6) es(1) in \<open>auto simp: genesis_of_def simp del: export_hook.simps\<close>)
qed

lemma init_own_run:
  assumes "vol_inv (ch_vk e) c" "burn_inv c" "reward_inv (ch_rk e) c" "reward_lookup c ParamsKey = Some p"
    and "genesis_of e c M_volunteer jv" "genesis_of e c M_reward jr" "genesis_of e c M_burn jb"
    and "map_of gs M_volunteer = Some jv" "map_of gs M_reward = Some jr" "map_of gs M_burn = Some jb"
    and "volunteer_kv d = []" "reward_kv d = []" "burn_kv d = []"
  shows "\<exists>d'. foldM (run_init (init_hook e) gs) [M_reward, M_volunteer, M_burn] acc d = (Ok acc, d') \<and>
    volunteer_kv d' = volunteer_kv c \<and> burn_kv d' = burn_kv c \<and> reward_lookup d' ParamsKey = Some p"
proof -
  from assms(5) obtain es where es: "mset es = mset (volunteer_kv c)" "gc_UnmarshalVolunteer (ch_cdc e) jv = Ok (map snd es)"
    by (auto simp: genesis_of_def)
  let ?d1 = "reward_put ParamsKey p d"
  have "Params_ValidateBasic (rw_dec (ch_rk e)) p = Ok ()" using assms(3,4) by (simp add: reward_inv_def)
  then have r: "init_hook e M_reward jr d = (Ok [], ?d1)"
    using assms(4,6) by (simp add: genesis_of_def Reward_AppModule_InitGenesis_def Reward_InitGenesis_def SetParams_def bindM_def
        thenM_def attempt_def must_run modifyM_def ret_def)
  have entries: "\<forall>x \<in> set es. vol_entry_ok (ch_vk e) x" using assms(1) es(1) by (metis mset_eq_setD vol_inv_def)
  have fold: "fold (\<lambda>x. kv_set (fst x) (snd x)) es [] = volunteer_kv c"
    using assms(1) es(1) by (intro kv_rebuild) (auto simp: vol_inv_def)
  have v: "init_hook e M_volunteer jv ?d1 = (Ok [], ?d1\<lparr>volunteer_kv := volunteer_kv c\<rparr>)"
    using assms(11) by (simp add: Volunteer_AppModule_InitGenesis_def thenM_def ret_def bindM_def must_run es(2) InitGenesis_entries [OF entries] fold
        reward_put_def)
  have bfold: "fold (\<lambda>x. kv_set (fst x) (snd x)) (burn_kv c) [] = burn_kv c"
    using assms(2) by (intro kv_rebuild) (auto simp: burn_inv_def)
  let ?d2 = "?d1\<lparr>volunteer_kv := volunteer_kv c\<rparr>"
  have b: "init_hook e M_burn jb ?d2 = (Ok [], ?d2\<lparr>burn_kv := burn_kv c\<rparr>)"
    using assms(2,7,13) by (simp add: genesis_of_def Burn_AppModule_InitGenesis_def thenM_def ret_def bindM_def must_run burn_init_entries burn_inv_def bfold
        reward_put_def)
  show ?thesis
    using r v b assms(8-10) by (simp add: run_init_def bindM_Ok ret_def reward_put_def reward_lookup_def kv_get_set del: init_hook.simps)
qed

lemma end_blocker_panics:
  assumes "manager_laws (ch_mm e)" "ch_end e M_crisis c = (Ok [], c)" "ch_end e M_gov c = (Ok [], c)"
    and "ApplyAndReturnValidatorSetUpdates (ch_rngV e) (ch_rngL e) (ch_sk e) c = (Panic p, c)"
  shows "EndBlocker e c = (Panic p, c)"
proof -
  have order: "orderEndBlockers = M_crisis # M_gov # M_staking # drop 3 orderEndBlockers" by code_simp
  have "end_hook e M_staking c = (Panic p, c)"
    using assms(4) by (simp add: Staking_AppModule_EndBlock_def Staking_EndBlocker_def BlockValidatorUpdates_def bindM_def)
  with assms(2,3) have "foldM (run_end (end_hook e)) (M_crisis # M_gov # M_staking # ms) [] c = (Panic p, c)" for ms
    by (simp add: run_end_def bindM_def ret_def)
  with order show ?thesis using assms(1) by (metis EndBlocker_def manager_laws_def)
qed

lemma ref_acts_ret: "acts_through ops (ret a)"
  by (simp add: acts_through_def keeps_ret)

lemma ref_hooks_laws: "hooks_laws ref_chain_env"
proof -
  have "AfterProposalVotingPeriodEnded (ch_bk ref_chain_env) 1 \<in> chain_ops ref_chain_env" by (simp add: chain_ops_def burn_ops_def)
  then have "acts_through (chain_ops ref_chain_env) (thenM (AfterProposalVotingPeriodEnded (ch_bk ref_chain_env) 1) (ret []))"
    by (auto simp: acts_through_def intro: keeps_intro)
  then show ?thesis
    by (simp add: hooks_laws_def manager_laws_def ref_chain_env_def ref_manager_def ref_acts_ret)
      (simp add: ref_stk_def GetVolunteerValidators_def)
qed

lemma ref_chain_laws:
  "val_codec_laws (vk_bech32 (ch_vk ref_chain_env))" "length_prefix_laws (vk_LengthPrefix (ch_vk ref_chain_env))"
  "dec_laws (rw_dec (ch_rk ref_chain_env))"
  by (simp_all add: ref_chain_env_def ref_vk_of_def ref_val_laws ref_idle_reward_def ref_dec_laws)
    (auto simp: length_prefix_laws_def ref_length_prefix_def split: if_splits)

section \<open>Properties\<close>

text \<open>C1: Every state of the chain is sound.  From genesis on, through the hooks of every block, run by
  the module manager in the application's orders, and through all transactions, also where they
  fail: the registry of volunteers is well formed and listed completely and without duplicates,
  stored reward parameters satisfy their constraints, and burn proposals lie under their own ids.
\<close>

theorem chain_always_sound:
  assumes "hooks_laws e" "val_codec_laws (vk_bech32 (ch_vk e))" "length_prefix_laws (vk_LengthPrefix (ch_vk e))"
    and "dec_laws (rw_dec (ch_rk e))" "chain_reach e c"
  shows "vol_inv (ch_vk e) c \<and>
    (\<exists>m. GetVolunteerValidators (ch_vk e) c = (Ok m, c) \<and> distinct (map fst m) \<and>
      (\<forall>a. is_volunteer (ch_vk e) c a \<longleftrightarrow> (\<exists>s v. (s, v) \<in> set m \<and> ValAddressFromBech32 (vk_bech32 (ch_vk e)) s = Ok a))) \<and>
    (\<forall>p. reward_lookup c ParamsKey = Some p \<longrightarrow> 0 \<le> FeePoolRate p \<and> 0 \<le> CommunityPoolRate p \<and> 0 \<le> ReserveRate p \<and>
      FeePoolRate p + CommunityPoolRate p + ReserveRate p \<le> one_dec \<and> (0 < ReserveRate p \<longrightarrow> ReserveAccount p \<noteq> [])) \<and>
    burn_inv c"
proof -
  have vol: "vol_inv (ch_vk e) c" by (rule chain_reach_vol [OF assms(1,2,5)])
  moreover have "GetVolunteerValidators (ch_vk e) c = (Ok (volunteer_map (volunteer_kv c)), c)"
    by (simp add: GetVolunteerValidators_def)
  moreover have "distinct (map fst (volunteer_map (volunteer_kv c)))"
    using vol_inv_strings_distinct [OF vol] by (simp add: volunteer_map_eq [OF vol] comp_def)
  ultimately show ?thesis
    using volunteer_map_complete [OF assms(3) vol] chain_reach_reward [OF assms(1,5)] valid_params_rates [OF assms(4)]
      chain_reach_burn [OF assms(1,5)]
    unfolding reward_inv_def by blast
qed

theorem chain_always_sound_witness:
  "vol_inv (ch_vk ref_chain_env) (snd (EndBlocker ref_chain_env (snd (BeginBlocker ref_chain_env (ref_ctx ref_staking_state)))))"
proof -
  have "chain_reach ref_chain_env (ref_ctx ref_staking_state)" by (rule cr_start) (simp_all add: ref_ctx_def)
  then have "chain_reach ref_chain_env (snd (EndBlocker ref_chain_env (snd (BeginBlocker ref_chain_env (ref_ctx ref_staking_state)))))"
    by (intro cr_end cr_begin)
  from chain_always_sound [OF ref_hooks_laws ref_chain_laws this] show ?thesis by simp
qed

text \<open>C6: A volunteer without a validator stops the chain, and the message that should remove it does
  not help.  In a state of the chain in which the registry names an address the staking module has
  no record of, and nothing is due in the modules that run before staking, the end of the block
  panics; and unregistering that address reports success but leaves the state, so the next block
  panics as well.
\<close>

theorem orphan_halts_chain:
  assumes "hooks_laws e" "val_codec_laws (vk_bech32 (ch_vk e))" "length_prefix_laws (vk_LengthPrefix (ch_vk e))"
    and "chain_reach e c" "go_range (ch_rngV e)"
    and "stk_ValAddressFromBech32 (ch_sk e) = ValAddressFromBech32 (vk_bech32 (ch_vk e))"
    and "sk_GetValidator (vk_stakingKeeper (ch_vk e)) = stk_GetValidator (ch_sk e)"
    and "is_volunteer (ch_vk e) c a" "stk_GetValidator (ch_sk e) a (ext c) = (Err err, ext c)"
    and "\<forall>b. \<exists>r. stk_GetValidator (ch_sk e) b (ext c) = (r, ext c) \<and> \<not> is_Panic r"
    and "extM (stk_MaxValidators (ch_sk e)) c = (Ok maxV, c)" "getLastValidatorsByAddr (ch_sk e) c = (Ok lm, c)"
    and "extM (stk_ValidatorsPowerStoreIterator (ch_sk e)) c = (Ok it, c)"
    and "ch_end e M_crisis c = (Ok [], c)" "ch_end e M_gov c = (Ok [], c)"
  shows "EndBlocker e c = (Panic ''validator record not found for address'', c) \<and>
    (\<forall>req. uv_Authority req = GetAuthority (ch_vk e) \<longrightarrow>
      ValAddressFromBech32 (vk_bech32 (ch_vk e)) (uv_ValidatorAddress req) = Ok a \<longrightarrow>
      UnregisterVolunteerValidator (ch_vk e) req c = (Ok (), c))"
proof (intro conjI allI impI)
  have mm: "manager_laws (ch_mm e)" and vols: "stk_volunteers (ch_sk e) = GetVolunteerValidators (ch_vk e)"
    using assms(1) by (simp_all add: hooks_laws_def)
  have vol: "vol_inv (ch_vk e) c" by (rule chain_reach_vol [OF assms(1,2,4)])
  from orphan_volunteer_panics [OF vol assms(8,5) vols assms(6,3,10,9,11-13)]
  show "EndBlocker e c = (Panic ''validator record not found for address'', c)"
    by (rule end_blocker_panics [OF mm assms(14,15)])
  fix req :: MsgUnregisterVolunteerValidator
  assume "uv_Authority req = GetAuthority (ch_vk e)"
    "ValAddressFromBech32 (vk_bech32 (ch_vk e)) (uv_ValidatorAddress req) = Ok a"
  from unregister_orphan_stays [OF this assms(8)] assms(9) show "UnregisterVolunteerValidator (ch_vk e) req c = (Ok (), c)"
    by (simp add: assms(7))
qed

theorem orphan_halts_chain_witness:
  "let c = ref_stk_ctx\<lparr>ext := ref_staking_state\<lparr>rs_vals := []\<rparr>\<rparr> in
     fst (EndBlocker ref_chain_env c) = Panic ''validator record not found for address''"
proof -
  let ?c = "ref_stk_ctx\<lparr>ext := ref_staking_state\<lparr>rs_vals := []\<rparr>\<rparr>"
  let ?k = "ch_vk ref_chain_env"
  let ?b = "ref_ctx (ref_staking_state\<lparr>rs_vals := []\<rparr>)"
  have run: "snd (Volunteer_AppModule_InitGenesis ref_cdc ?k (Inl [ref_volunteer]) ?b) = ?c" by code_simp
  have reach: "chain_reach ref_chain_env ?c"
  proof -
    have "chain_reach ref_chain_env ?b" by (rule cr_start) (simp_all add: ref_ctx_def)
    moreover have "Volunteer_AppModule_InitGenesis ref_cdc ?k (Inl [ref_volunteer]) \<in> chain_ops ref_chain_env"
      by (simp add: chain_ops_def volunteer_ops_def ref_chain_env_def)
    then have "acts_through (chain_ops ref_chain_env) (Volunteer_AppModule_InitGenesis ref_cdc ?k (Inl [ref_volunteer]))"
      by (simp add: acts_through_def)
    ultimately show ?thesis using cr_tx run by metis
  qed
  have vol: "is_volunteer ?k ?c [118]"
    unfolding is_volunteer_def by (intro exI [of _ "[0x11, 1, 118]"] exI [of _ ref_volunteer]) code_simp
  have "EndBlocker ref_chain_env ?c = (Panic ''validator record not found for address'', ?c) \<and>
    (\<forall>req. uv_Authority req = GetAuthority ?k \<longrightarrow> ValAddressFromBech32 (vk_bech32 ?k) (uv_ValidatorAddress req) = Ok [118] \<longrightarrow>
      UnregisterVolunteerValidator ?k req ?c = (Ok (), ?c))"
  proof (rule orphan_halts_chain [OF ref_hooks_laws ref_chain_laws(1,2) reach _ _ _ vol, where err = "ErrExternal ''validator does not exist''"
        and maxV = 1 and lm = "[(''a'', [9])]" and it = "[[97], [118]]"])
    show "\<forall>b. \<exists>r. stk_GetValidator (ch_sk ref_chain_env) b (ext ?c) = (r, ext ?c) \<and> \<not> is_Panic r"
      by (auto simp: ref_chain_env_def ref_stk_def bindM_def split: option.splits)
    show "getLastValidatorsByAddr (ch_sk ref_chain_env) ?c = (Ok [(''a'', [9])], ?c)" by code_simp
    show "ch_end ref_chain_env M_gov ?c = (Ok [], ?c)" by code_simp
  qed (simp_all add: go_range_rev ref_chain_env_def ref_stk_def ref_vk_of_def ref_bech32_def ref_stk_ctx_def ref_ctx_def
      ref_staking_state_def rs_lookup_def bindM_def extM_apply)
  then show ?thesis by (simp add: Let_def)
qed

text \<open>C11: A chain can be exported and started again.  Exporting a chain state with reward parameters, in
  whatever order of modules, does not change the state.  If the SDK's modules take back their part
  of the document, importing it into an empty chain in the order of the application rebuilds the
  volunteer registry, the burn proposals and the parameters and returns a validator set; a
  document without the staking module is refused with a panic.
\<close>

theorem exported_chain_restarts:
  assumes "hooks_laws e" "val_codec_laws (vk_bech32 (ch_vk e))" "chain_reach e c" "go_range (ch_rngV e)"
    and "genesis_codec_laws (ch_cdc e)" "others_export e ms c" "reward_lookup c ParamsKey = Some p"
    and "distinct ms" "own_modules \<subseteq> set ms"
    and "volunteer_kv d = []" "reward_kv d = []" "burn_kv d = []"
  shows "\<exists>gs. export_genesis e ms c = (Ok gs, c) \<and> map fst gs = ms \<and> (others_import e gs d \<longrightarrow>
    (if M_staking \<in> set ms
     then \<exists>ups d'. init_genesis e gs d = (Ok ups, d') \<and> ups \<noteq> [] \<and> volunteer_kv d' = volunteer_kv c \<and>
       burn_kv d' = burn_kv c \<and> reward_lookup d' ParamsKey = Some p
     else is_Panic (fst (init_genesis e gs d))))"
proof -
  have mm: "manager_laws (ch_mm e)" using assms(1) by (simp add: hooks_laws_def)
  note inv = chain_reach_vol [OF assms(1-3)] chain_reach_burn [OF assms(1,3)] chain_reach_reward [OF assms(1,3)]
  obtain gs where gs: "export_genesis e ms c = (Ok gs, c)" "map fst gs = ms" "\<forall>x \<in> set gs. genesis_of e c (fst x) (snd x)"
    using export_run [where h = "export_hook e" and Q = "genesis_of e c" and ms = ms and c = c and acc = "[]"]
      export_hook_run [OF assms(6,5,4) inv(1)] mm
    by (auto simp: export_genesis_def manager_laws_def)
  have entry: "\<exists>j. map_of gs m = Some j \<and> genesis_of e c m j" if "m \<in> set ms" for m
  proof -
    from that gs(2) obtain j where "(m, j) \<in> set gs" by force
    with gs(2,3) assms(8) show ?thesis by (metis fst_conv map_of_eq_Some_iff snd_conv)
  qed
  then obtain jv jr jb where j: "map_of gs M_volunteer = Some jv" "genesis_of e c M_volunteer jv" "map_of gs M_reward = Some jr"
      "genesis_of e c M_reward jr" "map_of gs M_burn = Some jb" "genesis_of e c M_burn jb"
    using assms(9) by (metis insertCI subsetD)
  obtain pre where pre: "orderInitBlockers = pre @ [M_reward, M_volunteer, M_burn]" "set pre \<inter> own_modules = {}" "M_staking \<in> set pre"
    by (rule order_init_split)
  have "if M_staking \<in> set ms
     then \<exists>ups d'. init_genesis e gs d = (Ok ups, d') \<and> ups \<noteq> [] \<and> volunteer_kv d' = volunteer_kv c \<and>
       burn_kv d' = burn_kv c \<and> reward_lookup d' ParamsKey = Some p
     else is_Panic (fst (init_genesis e gs d))" if imp: "others_import e gs d"
  proof -
    have "\<exists>acc' d'. foldM (run_init (init_hook e) gs) pre [] d = (Ok acc', d') \<and> same_stores d d' \<and>
        (acc' \<noteq> [] \<longleftrightarrow> M_staking \<in> set ([] @ pre) \<inter> fst ` set gs)"
      using pre by (intro init_others_run [OF imp]) (simp_all add: ret_def)
    then obtain ups d1 where d1: "foldM (run_init (init_hook e) gs) pre [] d = (Ok ups, d1)" "same_stores d d1"
        "ups \<noteq> [] \<longleftrightarrow> M_staking \<in> set ms"
      using pre(3) gs(2) by auto
    have "volunteer_kv d1 = []" "reward_kv d1 = []" "burn_kv d1 = []"
      using d1(2) assms(10-12) by (simp_all add: same_stores_def)
    from init_own_run [OF inv assms(7) j(2,4,6) j(1,3,5) this] obtain d2 where
      d2: "foldM (run_init (init_hook e) gs) [M_reward, M_volunteer, M_burn] ups d1 = (Ok ups, d2)" "volunteer_kv d2 = volunteer_kv c"
        "burn_kv d2 = burn_kv c" "reward_lookup d2 ParamsKey = Some p"
      by blast
    have "foldM (run_init (init_hook e) gs) orderInitBlockers [] d = (Ok ups, d2)"
      unfolding pre(1) foldM_append using d1(1) d2(1) by (simp only: bindM_Ok)
    then have "init_genesis e gs d = must (nonempty_set ups) d2"
      using mm by (simp add: init_genesis_def manager_laws_def must_def attempt_def bindM_def)
    with d1(3) d2 show ?thesis by (auto simp: nonempty_set_def must_def attempt_def bindM_def ret_def throw_def)
  qed
  with gs show ?thesis by blast
qed

theorem exported_chain_restarts_witness:
  "let c = (ref_ctx ref_staking_state)\<lparr>volunteer_kv := [([0x11, 1, 118], ref_volunteer)], reward_kv := [(ParamsKey, DefaultParams)]\<rparr> in
     \<exists>gs ups d'. export_genesis ref_chain_env [M_burn, M_staking, M_gov, M_reward, M_volunteer] c = (Ok gs, c) \<and>
       init_genesis ref_chain_env gs (ref_ctx ref_staking_state) = (Ok ups, d') \<and> ups \<noteq> [] \<and> volunteer_kv d' = volunteer_kv c"
proof -
  let ?b = "ref_ctx ref_staking_state" and ?ms = "[M_burn, M_staking, M_gov, M_reward, M_volunteer]"
  let ?gs = "[(M_staking, Inl []), (M_volunteer, Inl [ref_volunteer]), (M_reward, Inr (Inl DefaultParams))] :: (ModuleId \<times> ref_json) list"
  let ?c = "?b\<lparr>volunteer_kv := [([0x11, 1, 118], ref_volunteer)], reward_kv := [(ParamsKey, DefaultParams)]\<rparr>"
  have run: "snd (init_genesis ref_chain_env ?gs ?b) = ?c" by code_simp
  have "chain_reach ref_chain_env ?b" by (rule cr_start) (simp_all add: ref_ctx_def)
  then have reach: "chain_reach ref_chain_env ?c" using cr_genesis run by metis
  have codec: "genesis_codec_laws (ch_cdc ref_chain_env)" by (simp add: genesis_codec_laws_def ref_chain_env_def ref_cdc_def)
  have ex: "others_export ref_chain_env ?ms ?c" by (simp add: others_export_def ref_chain_env_def ret_def)
  have im: "others_import ref_chain_env gs ?b" for gs by (simp add: others_import_def ref_chain_env_def ret_def)
  have rng: "go_range (ch_rngV ref_chain_env)" by (simp add: ref_chain_env_def go_range_rev)
  have "reward_lookup ?c ParamsKey = Some DefaultParams" by (simp add: reward_lookup_def kv_get_def)
  from exported_chain_restarts [OF ref_hooks_laws ref_chain_laws(1) reach rng codec ex this, of ?b] im
  show ?thesis by (auto simp: Let_def ref_ctx_def)
qed

end
