(* ===== verification/Spec2Isabelle.thy ===== *)
theory Spec2Isabelle
  imports Burn Reward Ante Auth Bank Encoding PrecompileBank Command GenAccounts Chain
begin

text \<open>
  A verification development for the xpla chain (\<open>src/\<close>), a Cosmos SDK application with an EVM.
  The repository adds modules of its own (volunteer validators, burning of coins by governance,
  a reward split), replaces parts of the SDK's staking, bank and auth keepers, checks
  transactions before they run, and lets EVM contracts reach the Cosmos side through
  precompiles.  \<open>src/app\<close> builds the application out of these parts, \<open>src/legacy/ethermint\<close> keeps the
  transaction formats, keys and sign documents of an earlier version readable.

  \<^bold>\<open>The program and the theories.\<close>

  \<^item> \<open>Prelude\<close>: results of Go functions.  \<open>outcome\<close> is a value, an error or a panic; an operation on
    state \<open>'s\<close> is \<open>('s, 'a) M\<close>, a function to an outcome and the state it leaves, on the error
    branches too.  \<open>bindM\<close> is the \<open>if err != nil\<close> chain, \<open>attempt\<close> a call whose error is looked
    at, \<open>forM\<close> and \<open>foldM\<close> are loops.  The order of a Go map range is a parameter \<open>rng\<close> of which
    only \<open>go_range\<close> (a permutation) is known.  \<open>keeps\<close> is invariance on every branch.
  \<^item> \<open>KVStore\<close>: the stores, as sorted association lists with the iterator's byte order.
  \<^item> \<open>Types\<close>: the protobuf structs as records, the execution context \<open>Ctx\<close> with the stores the
    repository's keepers own, and \<open>ext\<close>, the state of every other module.  Calls to other
    modules act on \<open>ext\<close> only.
  \<^item> \<open>Volunteer\<close> (\<open>src/x/volunteer\<close>): registry of volunteer validators, its messages, block hook and
    genesis.  \<open>VolunteerAnte\<close> (\<open>src/x/volunteer/ante\<close>): the decorator that keeps others from
    staking with them; it sees the registry through the locale \<open>volunteer_view\<close>.
  \<^item> \<open>Staking\<close> (\<open>src/x/staking\<close>): the validator set update with seats for volunteers, slashing
    aware queues, historical entries.  It reads the registry that \<open>Volunteer\<close> writes.
    \<open>StakingLive\<close> shows that on a sound state the end of the block fails only as an SDK call does.
  \<^item> \<open>Burn\<close> (\<open>src/x/burn\<close>): escrow of the coins a burn proposal names, governance hooks, message.
  \<^item> \<open>Reward\<close> (\<open>src/x/reward\<close>): parameters, deposits and the split of rewards in the block hook.
  \<^item> \<open>Auth\<close> (\<open>src/x/auth\<close>): accounts behind an index from 20-byte forms to longer addresses.
  \<^item> \<open>Bank\<close> (\<open>src/x/bank\<close>): one keeper over native coins, ERC20 contracts and CW20 contracts, chosen
    by the denomination.
  \<^item> \<open>Ante\<close> (\<open>src/ante\<close>): minimum fee, gas for signatures, and the handler that chains all checks,
    the volunteer decorator among them.
  \<^item> \<open>Abi\<close>, \<open>Precompile\<close>, \<open>PrecompileBank\<close>, \<open>PrecompileAuth\<close>, \<open>PrecompileWasm\<close> (\<open>src/precompile\<close>): decoding
    of ABI values and the three precompiles.  The bank precompile uses the bank keeper through
    the locale \<open>ledger_bank\<close>, the auth precompile the account keeper through \<open>account_view\<close>.
  \<^item> \<open>EthTypes\<close>, \<open>EvmTx\<close>, \<open>Eip712\<close> (\<open>src/legacy/ethermint\<close>): bounded integers, chain identifiers, the
    three kinds of Ethereum transactions (one contract, the locale \<open>txdata\<close>, interpreted on each),
    and the EIP-712 sign documents.  \<open>Eip712Legacy\<close> is the older encoder, which derives types from Go
    values by reflection; \<open>EthSecp256k1\<close> the keys, signatures and HD derivation.
  \<^item> \<open>Encoding\<close> (\<open>src/app/encoding\<close>): the decoder that turns Ethereum messages of the old format into
    current ones.
  \<^item> \<open>App\<close>, \<open>Keepers\<close>, \<open>Node\<close> (\<open>src/app\<close>, \<open>src/app/keepers\<close>): the lists and orders of modules, module accounts,
    blocked addresses, precompiles, store keys and upgrades; \<open>NewAppKeeper\<close> statement by statement,
    with which copy of which keeper every object holds; and \<open>NewXplaApp\<close>, which puts the keepers, the
    module manager, the stores, the transaction handler of \<open>Ante\<close>, upgrades and mempool together.
  \<^item> \<open>Modules\<close> (\<open>src/x/*/module.go\<close>): genesis through JSON, block hooks, registration of services.
  \<^item> \<open>Chain\<close> (\<open>src/app/app.go\<close>): all modules run by the module manager in the application's orders, from
    genesis through blocks and transactions.  The contract of a module, one store with an
    invariant that only its own operations touch, is the locale \<open>module_state\<close>, interpreted on the
    volunteer, reward and burn modules.
  \<^item> \<open>Export\<close> (\<open>src/app/export.go\<close>): export of the state and the preparation for height zero.
  \<^item> \<open>Command\<close>, \<open>GenAccounts\<close> (\<open>src/cmd/xplad/cmd\<close>, \<open>src/app/params/config.go\<close>): starting a node, the export
    command, the configuration file, and the command that adds a genesis account.

  Definitions have the names of the Go functions; methods of several types carry the type as a
  prefix.

  \<^bold>\<open>Code outside the repository\<close> is a parameter: a record of functions (\<open>Bech32\<close>, \<open>CoinOps\<close>, \<open>DecOps\<close>,
  the keepers' records, \<open>EvmFns\<close>, \<open>JsonFns\<close>, \<open>ExtAnte\<close>, \<open>NodeEnv\<close>, \<open>Manager\<close> ...).  The modules of the SDK in
  \<open>Chain\<close> reach the repository's stores only through its operations (\<open>acts_through\<close>).  What the code relies on is a named
  predicate ending in \<open>_laws\<close> that states documented behaviour; theorems that need it assume it,
  and their witnesses discharge it for the concrete functions \<open>ref_...\<close> and evaluate the model.
  Encoding to bytes (protobuf, JSON text) is not modelled: stored values and documents are the
  decoded values.  A nil pointer is \<open>None\<close>, a call through it a panic.  Integers of fixed width
  are words wherever the source computes with them; \<open>math.Int\<close> and \<open>big.Int\<close> are integers.

  \<^bold>\<open>What is shown.\<close>
  Chain: every state from genesis on satisfies the invariants of the volunteer, reward and burn
  modules; an exported chain restarts with the same registry, proposals and parameters if the SDK's
  modules take back their own part of the document and staking is among them; a volunteer without
  a validator stops the chain, and unregistering it does not help.
  Application: it starts whenever the SDK's calls succeed, where the constructors of the keepers
  panic for a module account that is not in \<open>maccPerms\<close>; it mounts every store its keepers open, as
  the kind (persistent, transient, memory) they open it as; no two keepers share a store; and the handler in the node and in the mempool never panics and guards
  volunteers; which keeper copies are stale; exactly which addresses are blocked; services and
  migrations are complete.  Export: heights are cleared, an allow list can make the export panic,
  the command exports the version the application has loaded, the latest or the one asked for.  Genesis accounts: addresses stay distinct and
  the supply is the sum of the balances.
  Staking: the end-of-block update computes an abstract selection rule (refinement), keeps the
  books of the bonded pool balanced, gives the strongest validators and every active volunteer
  a seat, and is independent of map order; a registered volunteer without a validator makes it
  panic; on sound states it returns, or ends with the failure of an SDK call, a hook, a queue
  operation or a covered transfer.  Volunteer: registration and removal change exactly one entry (removal none, if staking has no
  such validator), the registry is well formed in every reachable state, the block hook moves the
  commission of every volunteer to the community pool and fails exactly as the calls it makes,
  export and import are inverse.  Burn: the escrow account holds the sum of the ongoing
  proposals and the coins others have sent to it, for proposals with one burn message; with
  several, a failed deposit refunds the last only; an expedited proposal that fails and then
  passes as a regular one burns what others have deposited.  Reward: the split is exact per denomination, for amounts below \<open>2 ^ 255\<close>; parameters are always
  valid; two denominations or dust can make the hook fail.  Bank: transfers and balance reads implement one
  ledger for all three kinds of tokens.  Auth: the index maps each short form to the newest long
  address with it, and reads after writes.
  Transactions checks: the exact minimum fee rule, gas for nested multi-signatures against an
  index-free reference, and that the installed handler never panics and guards volunteers.
  Precompiles: a caller spends only its own funds and sends wasm messages only in its own name;
  address strings and EVM addresses convert back and forth.  Ethereum types: bounds on fees and
  costs of validated transactions, round trip of the stored form, chain identifiers.  EIP-712:
  the signed data covers every message with a closed type schema, independently of map order; the
  older encoder cannot change the types of the envelope; derived keys verify what they sign, except
  for messages of 32 bytes, which are signed as a digest and verified as a text.
  Decoding: old Ethereum messages are read back field by field and nothing else changes.

  \<^bold>\<open>Bounds and fuel.\<close>
  Loops over lists are structural recursion; iterators are lists.  \<open>prune_history\<close> has a measure.
  Fuel occurs three times.  \<open>recursivelyAddTypesToRoot\<close> has the size of the document:
  \<open>eip712_depth_enough\<close> shows that it never runs out and that more changes nothing.
  \<open>legacyTraverseFields\<close> has a bound on the depth of the Go value it walks, a parameter;
  \<open>legacyTraverseFields_depth\<close> shows that a larger one keeps every result.  \<open>unpack_at\<close> counts how deep
  messages are nested in messages; \<open>unpack_at_depth\<close> shows that a larger bound changes nothing.
  \<open>send_layers\<close> follows the five layers of the IBC stack.  \<open>find_typedef\<close> counts the source's own
  limit of 1000.  Hypotheses such as \<open>price < 2 ^ 128\<close> and \<open>length msgs < 2 ^ 44\<close> keep the decimal and
  word arithmetic of the minimum fee inside the range where it is documented to be exact.

  \<^bold>\<open>Not modelled.\<close>
  Generated code (\<open>*.pb.go\<close>, \<open>*.pb.gw.go\<close>, the CW20 message structs) gives the records their fields and
  has no logic of its own.  The tree of cobra commands, flags and client contexts, the registration of
  codecs and API routes, and accessors only call libraries.  The no-op keepers of
  \<open>src/precompile/erc20_mock.go\<close> return constants.  Writing a file is atomic in the model.  Tests and their helpers are left out.
\<close>

end
